(* ===== verification/Neo_Prelude.thy ===== *)
theory Neo_Prelude
  imports Main "HOL-Library.AList" "HOL-Library.Char_ord" "HOL-Library.List_Lexorder"
begin

text \<open>
  What every component of the development shares.
  \<^item> Results of Go functions: a value, an error value, or a panic (\<open>res\<close>), with the
    sequencing \<open>rbind\<close> of a Go function that returns as soon as a callee fails.
  \<^item> Go maps as association lists. The order of the list is the order in which a \<open>range\<close>
    over the map visits it, which Go leaves open: a theorem about every list is a theorem about
    every iteration order.
  \<^item> The collections of rewrite rules the component theories add to.
\<close>

named_theorems res_simps \<open>the sequencing of results\<close>
named_theorems gomap_simps \<open>lookup after an update of a Go map\<close>

section \<open>Results\<close>

text \<open>
  \<open>Errorf fmt args\<close> is the error that \<open>errors.Errorf\<close>, \<open>errors.New\<close> or \<open>fmt.Errorf\<close> makes of the
  format and the printed arguments; \<open>SQLError code arg\<close> is \<open>sqldb.NewSQLError\<close>.
\<close>

datatype sql_code =
    ER_NO_DB_ERROR | ER_NO_SUCH_TABLE | ER_BAD_DB_ERROR | ER_TOO_LONG_IDENT
  | ER_SPECIFIC_ACCESS_DENIED_ERROR | ER_OTHER nat

datatype go_error = Errorf string "string list" | SQLError sql_code string

datatype 'a res = Ok 'a | Err go_error | Panic string

fun rbind :: "'a res \<Rightarrow> ('a \<Rightarrow> 'b res) \<Rightarrow> 'b res" where
  "rbind (Ok x) f = f x"
| "rbind (Err e) f = Err e"
| "rbind (Panic s) f = Panic s"

fun is_ok :: "'a res \<Rightarrow> bool" where
  "is_ok (Ok x) = True"
| "is_ok (Err e) = False"
| "is_ok (Panic s) = False"

fun res_val :: "'a res \<Rightarrow> 'a option" where
  "res_val (Ok x) = Some x"
| "res_val (Err e) = None"
| "res_val (Panic s) = None"

lemma rbind_Ok_iff [res_simps]: "rbind m f = Ok y \<longleftrightarrow> (\<exists>x. m = Ok x \<and> f x = Ok y)"
  by (cases m) auto

lemma rbind_Err_iff: "rbind m f = Err e \<longleftrightarrow> m = Err e \<or> (\<exists>x. m = Ok x \<and> f x = Err e)"
  by (cases m) auto

lemma is_ok_iff [res_simps]: "is_ok m \<longleftrightarrow> (\<exists>x. m = Ok x)"
  by (cases m) auto

lemma res_val_Some [res_simps]: "res_val m = Some x \<longleftrightarrow> m = Ok x"
  by (cases m) auto

text \<open>\<open>rmapM f xs\<close> is the loop that calls \<open>f\<close> on every element and returns at the first failure.\<close>

fun rmapM :: "('a \<Rightarrow> 'b res) \<Rightarrow> 'a list \<Rightarrow> 'b list res" where
  "rmapM f [] = Ok []"
| "rmapM f (x # xs) = rbind (f x) (\<lambda>y. rbind (rmapM f xs) (\<lambda>ys. Ok (y # ys)))"

lemma rmapM_Ok_iff: "rmapM f xs = Ok ys \<longleftrightarrow> list_all2 (\<lambda>x y. f x = Ok y) xs ys"
proof (induction xs arbitrary: ys)
  case Nil
  then show ?case by (cases ys) auto
next
  case (Cons x xs)
  then show ?case by (cases ys) (auto simp: res_simps)
qed

section \<open>Lists updated by index\<close>

lemma nth_upd: "xs[i := x] ! j = (if i = j \<and> i < length xs then x else xs ! j)"
  by (cases "i < length xs") (auto simp: nth_list_update list_update_beyond)

section \<open>Go maps\<close>

type_synonym ('k, 'v) gomap = "('k \<times> 'v) list"

abbreviation gm_get :: "('k, 'v) gomap \<Rightarrow> 'k \<Rightarrow> 'v option" where
  "gm_get m k \<equiv> map_of m k"

definition gm_put :: "'k \<Rightarrow> 'v \<Rightarrow> ('k, 'v) gomap \<Rightarrow> ('k, 'v) gomap" where
  "gm_put k v m = AList.update k v m"

definition gm_del :: "'k \<Rightarrow> ('k, 'v) gomap \<Rightarrow> ('k, 'v) gomap" where
  "gm_del k m = AList.delete k m"

definition gm_wf :: "('k, 'v) gomap \<Rightarrow> bool" where
  "gm_wf m = distinct (map fst m)"

lemma gm_get_put [gomap_simps]: "gm_get (gm_put k v m) k' = (if k' = k then Some v else gm_get m k')"
  by (simp add: gm_put_def AList.update_conv')

lemma gm_get_del [gomap_simps]: "gm_get (gm_del k m) k' = (if k' = k then None else gm_get m k')"
  by (simp add: gm_del_def AList.delete_conv')

lemma gm_wf_put [intro, simp]: "gm_wf m \<Longrightarrow> gm_wf (gm_put k v m)"
  by (simp add: gm_wf_def gm_put_def AList.distinct_update)

lemma gm_wf_del [intro, simp]: "gm_wf m \<Longrightarrow> gm_wf (gm_del k m)"
  by (simp add: gm_wf_def gm_del_def AList.distinct_delete)

lemma gm_wf_Nil [simp]: "gm_wf []"
  by (simp add: gm_wf_def)

lemma gm_put_fst_set: "fst ` set (gm_put k v m) = insert k (fst ` set m)"
  by (simp add: gm_put_def AList.dom_update)

lemma gm_del_set: "set (gm_del k m) = {p \<in> set m. fst p \<noteq> k}"
  by (auto simp: gm_del_def AList.delete_eq)

lemma gm_put_set:
  "gm_wf m \<Longrightarrow> set (gm_put k v m) = insert (k, v) {p \<in> set m. fst p \<noteq> k}"
  unfolding gm_put_def gm_wf_def by (induction m) (auto simp: image_iff)

lemma gm_get_in_set: "gm_get m k = Some v \<Longrightarrow> (k, v) \<in> set m"
  by (rule map_of_SomeD)

lemma gm_wf_get_iff: "gm_wf m \<Longrightarrow> gm_get m k = Some v \<longleftrightarrow> (k, v) \<in> set m"
  by (simp add: gm_wf_def)

lemma gm_put_length: "length (gm_put k v m) = (if gm_get m k = None then Suc (length m) else length m)"
  unfolding gm_put_def by (induction m) auto

lemma gm_put_new_end: "gm_get m k = None \<Longrightarrow> gm_put k v m = m @ [(k, v)]"
  unfolding gm_put_def by (induction m) (auto split: if_splits)

end
