(* ===== verification/Go_Strings.thy ===== *)
theory Go_Strings
  imports Neo_Prelude
begin

text \<open>
  The string functions of Go's standard library that the sources use, on byte strings
  (\<open>char list\<close>): \<open>strings.Split\<close>, \<open>strings.ToUpper\<close>, \<open>strings.ToLower\<close>, \<open>strings.EqualFold\<close>,
  \<open>strings.ContainsAny\<close>, \<open>strings.Replace\<close> with count 1, \<open>strconv.Atoi\<close>, \<open>strconv.ParseInt\<close> in
  base 0 and the verbs \<open>%d\<close> and \<open>%04d\<close> of \<open>fmt.Sprintf\<close>. Case mapping is that of ASCII.
  The lemmas are the round trips the components rest on: what \<open>%d\<close> prints, \<open>Atoi\<close> reads back,
  and \<open>Split\<close> undoes a join of printed numbers.
\<close>

named_theorems gostring_simps \<open>the string functions on printed numbers\<close>

section \<open>Definitions\<close>

fun split_on :: "char \<Rightarrow> string \<Rightarrow> string list" where
  "split_on c [] = [[]]"
| "split_on c (x # xs) =
     (if x = c then [] # split_on c xs
      else (case split_on c xs of [] \<Rightarrow> [[x]] | w # ws \<Rightarrow> (x # w) # ws))"

definition to_upper_char :: "char \<Rightarrow> char" where
  "to_upper_char c = (let n = (of_char c :: nat) in if 97 \<le> n \<and> n \<le> 122 then char_of (n - 32) else c)"

definition to_lower_char :: "char \<Rightarrow> char" where
  "to_lower_char c = (let n = (of_char c :: nat) in if 65 \<le> n \<and> n \<le> 90 then char_of (n + 32) else c)"

definition to_upper :: "string \<Rightarrow> string" where
  "to_upper s = map to_upper_char s"

definition to_lower :: "string \<Rightarrow> string" where
  "to_lower s = map to_lower_char s"

definition equal_fold :: "string \<Rightarrow> string \<Rightarrow> bool" where
  "equal_fold s t = (to_lower s = to_lower t)"

definition contains_any :: "string \<Rightarrow> string \<Rightarrow> bool" where
  "contains_any s cs = list_ex (\<lambda>c. c \<in> set cs) s"

fun is_prefix :: "string \<Rightarrow> string \<Rightarrow> bool" where
  "is_prefix [] s = True"
| "is_prefix (p # ps) [] = False"
| "is_prefix (p # ps) (x # xs) = (p = x \<and> is_prefix ps xs)"

text \<open>\<open>strings.Replace(s, old, new, 1)\<close>: the first occurrence of \<open>old\<close>, at the front when it is empty.\<close>

fun replace_first :: "string \<Rightarrow> string \<Rightarrow> string \<Rightarrow> string" where
  "replace_first [] old new = (if old = [] then new else [])"
| "replace_first (x # xs) old new =
     (if is_prefix old (x # xs) then new @ drop (length old) (x # xs)
      else x # replace_first xs old new)"

definition digit_char :: "nat \<Rightarrow> char" where
  "digit_char d = char_of (48 + d)"

definition digit_of :: "char \<Rightarrow> nat option" where
  "digit_of c = (let n = (of_char c :: nat) in if 48 \<le> n \<and> n \<le> 57 then Some (n - 48) else None)"

fun show_nat :: "nat \<Rightarrow> string" where
  "show_nat n = (if n < 10 then [digit_char n] else show_nat (n div 10) @ [digit_char (n mod 10)])"

declare show_nat.simps [simp del]

definition show_int :: "int \<Rightarrow> string" where
  "show_int i = (if i < 0 then CHR ''-'' # show_nat (nat (- i)) else show_nat (nat i))"

definition show_pad4 :: "nat \<Rightarrow> string" where
  "show_pad4 n = (let s = show_nat n in replicate (4 - length s) (CHR ''0'') @ s)"

fun dec_val :: "nat \<Rightarrow> string \<Rightarrow> nat option" where
  "dec_val acc [] = Some acc"
| "dec_val acc (c # cs) = (case digit_of c of None \<Rightarrow> None | Some d \<Rightarrow> dec_val (10 * acc + d) cs)"

definition split_sign :: "string \<Rightarrow> bool \<times> string" where
  "split_sign s =
     (case s of [] \<Rightarrow> (False, [])
      | c # cs \<Rightarrow> if c = CHR ''-'' then (True, cs) else if c = CHR ''+'' then (False, cs) else (False, s))"

text \<open>\<open>strconv.Atoi\<close>; \<open>None\<close> is its error (syntax or range of a 64-bit \<open>int\<close>).\<close>

definition atoi :: "string \<Rightarrow> int option" where
  "atoi s =
     (let (neg, ds) = split_sign s in
      if ds = [] then None
      else (case dec_val 0 ds of None \<Rightarrow> None
            | Some n \<Rightarrow> let i = (if neg then - int n else int n) in
                if - (2 ^ 63) \<le> i \<and> i < 2 ^ 63 then Some i else None))"

text \<open>
  \<open>strconv.ParseInt(s, 0, 64)\<close>. The base is read from the prefix (\<open>0b\<close>, \<open>0o\<close>, \<open>0x\<close>, and a plain
  \<open>0\<close> for octal), and underscores may separate digits when \<open>underscoreOK\<close> accepts them.
\<close>

definition base_digit :: "char \<Rightarrow> nat option" where
  "base_digit c =
     (case digit_of c of Some d \<Rightarrow> Some d
      | None \<Rightarrow> let n = (of_char (to_lower_char c) :: nat) in
          if 97 \<le> n \<and> n \<le> 122 then Some (n - 87) else None)"

fun base_val :: "nat \<Rightarrow> nat \<Rightarrow> string \<Rightarrow> nat option" where
  "base_val b acc [] = Some acc"
| "base_val b acc (c # cs) =
     (if c = CHR ''_'' then base_val b acc cs
      else case base_digit c of None \<Rightarrow> None
           | Some d \<Rightarrow> if b \<le> d then None else base_val b (b * acc + d) cs)"

fun base_prefix :: "string \<Rightarrow> nat \<times> string" where
  "base_prefix (c # p # q # cs) =
     (if c \<noteq> CHR ''0'' then (10, c # p # q # cs)
      else if to_lower_char p = CHR ''b'' then (2, q # cs)
      else if to_lower_char p = CHR ''o'' then (8, q # cs)
      else if to_lower_char p = CHR ''x'' then (16, q # cs)
      else (8, p # q # cs))"
| "base_prefix (c # cs) = (if c = CHR ''0'' then (8, cs) else (10, c # cs))"
| "base_prefix [] = (10, [])"

fun underscore_scan :: "bool \<Rightarrow> char \<Rightarrow> string \<Rightarrow> bool" where
  "underscore_scan hex i [] = (i \<noteq> CHR ''_'')"
| "underscore_scan hex i (c # cs) =
     (if digit_of c \<noteq> None \<or> (hex \<and> to_lower_char c \<in> set ''abcdef'') then underscore_scan hex (CHR ''0'') cs
      else if c = CHR ''_'' then i = CHR ''0'' \<and> underscore_scan hex (CHR ''_'') cs
      else i \<noteq> CHR ''_'' \<and> underscore_scan hex (CHR ''!'') cs)"

definition underscore_ok :: "string \<Rightarrow> bool" where
  "underscore_ok s =
     (case snd (split_sign s) of
        c # p # cs \<Rightarrow>
          if c = CHR ''0'' \<and> to_lower_char p \<in> set ''box''
          then underscore_scan (to_lower_char p = CHR ''x'') (CHR ''0'') cs
          else underscore_scan False (CHR ''^'') (c # p # cs)
      | cs \<Rightarrow> underscore_scan False (CHR ''^'') cs)"

definition parse_int0 :: "string \<Rightarrow> int option" where
  "parse_int0 s =
     (let (neg, t) = split_sign s in
      if t = [] then None
      else let (b, ds) = base_prefix t in
        case base_val b 0 ds of None \<Rightarrow> None
        | Some n \<Rightarrow>
            if CHR ''_'' \<in> set ds \<and> \<not> underscore_ok s then None
            else if \<not> neg \<and> n < 2 ^ 63 then Some (int n)
            else if neg \<and> n \<le> 2 ^ 63 then Some (- int n) else None)"

section \<open>Round trips\<close>

lemma of_char_digit_char: "d < 10 \<Longrightarrow> of_char (digit_char d) = 48 + d"
  by (simp add: digit_char_def of_char_of)

lemma digit_of_digit_char [gostring_simps]: "d < 10 \<Longrightarrow> digit_of (digit_char d) = Some d"
  by (simp add: digit_of_def of_char_digit_char)

lemma dec_val_append: "dec_val acc (s @ t) = (case dec_val acc s of None \<Rightarrow> None | Some n \<Rightarrow> dec_val n t)"
  by (induction s arbitrary: acc) (auto split: option.splits)

lemma dec_val_zeros: "dec_val 0 (replicate k (CHR ''0'') @ s) = dec_val 0 s"
  by (induction k) (auto simp: digit_of_def)

lemma dec_val_show_nat [gostring_simps]: "dec_val 0 (show_nat n) = Some n"
proof (induction n rule: show_nat.induct)
  case (1 n)
  show ?case
    using "1.IH" by (subst show_nat.simps) (auto simp: dec_val_append digit_of_digit_char)
qed

lemma show_nat_nonempty [gostring_simps]: "show_nat n \<noteq> []"
  by (subst show_nat.simps) simp

lemma show_nat_digits: "c \<in> set (show_nat n) \<Longrightarrow> 48 \<le> (of_char c :: nat) \<and> (of_char c :: nat) \<le> 57"
proof (induction n rule: show_nat.induct)
  case (1 n)
  show ?case
  proof (cases "n < 10")
    case True
    with "1.prems" show ?thesis by (simp add: show_nat.simps of_char_digit_char)
  next
    case False
    with "1.prems" have "c \<in> set (show_nat (n div 10)) \<or> c = digit_char (n mod 10)"
      by (subst (asm) show_nat.simps) auto
    with False "1.IH" show ?thesis by (auto simp: of_char_digit_char)
  qed
qed

lemma show_nat_no_minus [gostring_simps]: "CHR ''-'' \<notin> set (show_nat n)"
proof
  assume "CHR ''-'' \<in> set (show_nat n)"
  from show_nat_digits [OF this] show False by simp
qed

lemma show_nat_hd: "show_nat n = c # cs \<Longrightarrow> c \<noteq> CHR ''-'' \<and> c \<noteq> CHR ''+''"
  using show_nat_digits [of c n] by auto

lemma show_nat_inject [gostring_simps]: "show_nat m = show_nat n \<longleftrightarrow> m = n"
  by (metis dec_val_show_nat option.inject)

lemma show_pad4_inject [gostring_simps]: "show_pad4 m = show_pad4 n \<longleftrightarrow> m = n"
proof
  assume "show_pad4 m = show_pad4 n"
  then have "dec_val 0 (show_pad4 m) = dec_val 0 (show_pad4 n)" by simp
  then show "m = n" by (simp add: show_pad4_def Let_def dec_val_zeros dec_val_show_nat)
qed simp

lemma atoi_show_nat [gostring_simps]: "n < 2 ^ 63 \<Longrightarrow> atoi (show_nat n) = Some (int n)"
proof -
  assume n: "n < 2 ^ 63"
  obtain c cs where s: "show_nat n = c # cs" using show_nat_nonempty by (cases "show_nat n") auto
  with show_nat_hd [OF s] have "split_sign (show_nat n) = (False, show_nat n)"
    by (simp add: split_sign_def)
  moreover have "int n < 2 ^ 63" using n by (metis of_nat_less_iff of_nat_numeral of_nat_power)
  moreover have "- (2 ^ 63 :: int) \<le> int n"
    by (rule order_trans [of _ 0]) simp_all
  ultimately show ?thesis
    by (simp add: atoi_def dec_val_show_nat show_nat_nonempty Let_def)
qed

lemma split_on_free [gostring_simps]: "c \<notin> set s \<Longrightarrow> split_on c s = [s]"
  by (induction s) auto

lemma split_on_join [gostring_simps]: "c \<notin> set s \<Longrightarrow> split_on c (s @ c # t) = s # split_on c t"
  by (induction s) auto

lemma split_on_nonempty: "split_on c s \<noteq> []"
  by (induction s) (auto split: list.splits)

end
