(* ===== verification/Neo_Config.thy ===== *)
theory Neo_Config
  imports Go_Strings
begin

text \<open>
  The configuration records of \<open>config/config.go\<close> the router, the backend pools and the two-phase
  commit use, and the literal \<open>SQLVal\<close> of the parser a shard key is compared with. A Go \<open>int\<close> is an
  \<open>int\<close> here; the conversions to \<open>int32\<close> and \<open>uint64\<close> are written out where the code makes them.
\<close>

section \<open>Table and router configuration\<close>

record PartitionConfig =
  pc_Table :: string
  pc_Segment :: string
  pc_Backend :: string
  pc_ListValue :: string

record AutoIncrement =
  ai_Column :: string

record TableConfig =
  tc_Name :: string
  tc_Slots :: int
  tc_Blocks :: int
  tc_ShardType :: string
  tc_ShardKey :: string
  tc_Partitions :: "PartitionConfig list"
  tc_AutoIncrement :: "AutoIncrement option"

record RouterConfig =
  rc_Slots :: int
  rc_Blocks :: int

definition DefaultRouterConfig :: RouterConfig where
  "DefaultRouterConfig = \<lparr>rc_Slots = 4096, rc_Blocks = 64\<rparr>"

section \<open>Backend configuration\<close>

record BackendConfig =
  bc_Name :: string
  bc_Address :: string
  bc_Replica :: string
  bc_User :: string
  bc_Password :: string
  bc_DBName :: string
  bc_Charset :: string
  bc_MaxConnections :: int
  bc_Role :: int

definition NormalBackend :: int where "NormalBackend = 0"

definition AttachBackend :: int where "AttachBackend = 1"

section \<open>Literals\<close>

text \<open>The constants of \<open>ValType\<close>, in the order of their \<open>iota\<close>.\<close>

datatype ValType = StrVal | IntVal | FloatVal | HexNum | HexVal | ValArg | StrValWithoutQuote

record SQLVal =
  sv_Type :: ValType
  sv_Val :: string

definition show_ValType :: "ValType \<Rightarrow> string" where
  "show_ValType t =
     show_nat (case t of StrVal \<Rightarrow> 0 | IntVal \<Rightarrow> 1 | FloatVal \<Rightarrow> 2 | HexNum \<Rightarrow> 3 | HexVal \<Rightarrow> 4
                       | ValArg \<Rightarrow> 5 | StrValWithoutQuote \<Rightarrow> 6)"

lemmas config_defs = DefaultRouterConfig_def NormalBackend_def AttachBackend_def

end
