(* ===== verification/Partition_Base.thy ===== *)
theory Partition_Base
  imports Neo_Config
begin

text \<open>
  \<open>router/partition.go\<close>: segments and the interface every partition method implements, as the
  locale \<open>partition_method\<close>. A \<open>Segment.Range\<close> is a Go pointer behind an interface and
  \<open>Router.GetSegments\<close> compares it by identity. A \<open>Build\<close> allocates one range per partition of the
  configuration, so the identity is the position of that partition, kept as the first field of the
  range (its allocation number).
\<close>

datatype KeyRange =
    HashRange nat (hr_Start: int) (hr_End: int)
  | ListRange nat string
  | GlobalRange nat string
  | SingleRange nat string

fun KeyRange_Less :: "KeyRange \<Rightarrow> KeyRange \<Rightarrow> bool res" where
  "KeyRange_Less (HashRange _ a _) (HashRange _ b _) = Ok (a < b)"
| "KeyRange_Less (HashRange _ _ _) _ = Panic ''interface conversion: router.KeyRange is not *router.HashRange''"
| "KeyRange_Less (ListRange _ _) _ = Ok False"
| "KeyRange_Less (GlobalRange _ _) _ = Ok False"
| "KeyRange_Less (SingleRange _ _) _ = Ok False"

fun KeyRange_String :: "KeyRange \<Rightarrow> string" where
  "KeyRange_String (HashRange _ a b) = ''['' @ show_int a @ ''-'' @ show_int b @ '')''"
| "KeyRange_String (ListRange _ s) = s"
| "KeyRange_String (GlobalRange _ s) = s"
| "KeyRange_String (SingleRange _ s) = s"

record Segment =
  seg_Table :: string
  seg_Backend :: string
  seg_Range :: "KeyRange option"
  seg_ListValue :: string

text \<open>The zero value \<open>Segment{}\<close>, which a read of a Go map at a missing key returns.\<close>

definition zero_Segment :: Segment where
  "zero_Segment = \<lparr>seg_Table = [], seg_Backend = [], seg_Range = None, seg_ListValue = []\<rparr>"

definition Segments_Less :: "Segment \<Rightarrow> Segment \<Rightarrow> bool res" where
  "Segments_Less s t =
     (case (seg_Range s, seg_Range t) of
        (Some a, Some b) \<Rightarrow> KeyRange_Less a b
      | (None, _) \<Rightarrow> Panic ''nil pointer dereference''
      | (Some (HashRange _ _ _), None) \<Rightarrow> Panic ''interface conversion: router.KeyRange is nil''
      | (Some _, None) \<Rightarrow> Ok False)"

text \<open>
  The loop of \<open>Router.GetSegments\<close> over the indexes: the segments of the indexes, a range that was
  seen before left out, and the first error of \<open>GetSegment\<close> returned.
\<close>

fun pick_segments :: "(int \<Rightarrow> Segment res) \<Rightarrow> int list \<Rightarrow> Segment list \<Rightarrow> Segment list res" where
  "pick_segments get [] segs = Ok segs"
| "pick_segments get (idx # idxs) segs =
     rbind (get idx) (\<lambda>segment.
       if list_ex (\<lambda>seg. seg_Range seg = seg_Range segment) segs
       then pick_segments get idxs segs
       else pick_segments get idxs (segs @ [segment]))"

lemma pick_segments_ConsE:
  assumes "pick_segments get (i # idxs) segs = Ok out"
  obtains s where "get i = Ok s"
    and "pick_segments get idxs
      (if list_ex (\<lambda>seg. seg_Range seg = seg_Range s) segs then segs else segs @ [s]) = Ok out"
proof -
  from assms obtain s where "get i = Ok s" by (cases "get i") auto
  moreover from assms this have "pick_segments get idxs
      (if list_ex (\<lambda>seg. seg_Range seg = seg_Range s) segs then segs else segs @ [s]) = Ok out"
    by (simp split: if_splits)
  ultimately show thesis by (rule that)
qed

lemma pick_segments_acc:
  "pick_segments get idxs segs = Ok out \<Longrightarrow> set segs \<subseteq> set out \<and>
     set out \<subseteq> set segs \<union> {s. \<exists>i \<in> set idxs. get i = Ok s}"
proof (induction idxs arbitrary: segs)
  case (Cons i idxs)
  from Cons.prems obtain s where s: "get i = Ok s"
    and next_segs: "pick_segments get idxs
      (if list_ex (\<lambda>seg. seg_Range seg = seg_Range s) segs then segs else segs @ [s]) = Ok out"
    by (rule pick_segments_ConsE)
  from Cons.IH [OF next_segs] s show ?case by (auto split: if_splits)
qed simp

lemma pick_segments_total:
  "\<forall>i \<in> set idxs. \<exists>s. get i = Ok s \<Longrightarrow> \<exists>out. pick_segments get idxs segs = Ok out"
  by (induction idxs arbitrary: segs) auto

lemma pick_segments_covers:
  "pick_segments get idxs segs = Ok out \<Longrightarrow> i \<in> set idxs \<Longrightarrow>
     \<exists>s t. get i = Ok s \<and> t \<in> set out \<and> seg_Range t = seg_Range s"
proof (induction idxs arbitrary: segs)
  case (Cons j idxs)
  from Cons.prems(1) obtain s where s: "get j = Ok s"
    and next_segs: "pick_segments get idxs
      (if list_ex (\<lambda>seg. seg_Range seg = seg_Range s) segs then segs else segs @ [s]) = Ok out"
    by (rule pick_segments_ConsE)
  show ?case
  proof (cases "i \<in> set idxs")
    case True
    then show ?thesis by (rule Cons.IH [OF next_segs])
  next
    case False
    with Cons.prems have "i = j" by simp
    with s pick_segments_acc [OF next_segs] show ?thesis
      by (auto simp: list_ex_iff split: if_splits)
  qed
qed simp

lemma pick_segments_distinct:
  "pick_segments get idxs segs = Ok out \<Longrightarrow> distinct (map seg_Range segs) \<Longrightarrow>
     distinct (map seg_Range out)"
proof (induction idxs arbitrary: segs)
  case (Cons j idxs)
  from Cons.prems(1) obtain s where "pick_segments get idxs
      (if list_ex (\<lambda>seg. seg_Range seg = seg_Range s) segs then segs else segs @ [s]) = Ok out"
    by (rule pick_segments_ConsE)
  then show ?case by (rule Cons.IH) (use Cons.prems in \<open>auto simp: list_ex_iff\<close>)
qed simp

section \<open>The interface\<close>

text \<open>
  What the router and the planner rely on: an open interval asks for every segment, a lookup only
  returns segments of the table, a point lookup returns the segment of the key's index, and a
  range identifies its segment.
\<close>

locale partition_method =
  fixes inv :: "'p \<Rightarrow> bool"
    and all_segments :: "'p \<Rightarrow> Segment list"
    and lookup :: "'p \<Rightarrow> SQLVal option \<Rightarrow> SQLVal option \<Rightarrow> Segment list res"
    and index :: "'p \<Rightarrow> SQLVal \<Rightarrow> int res"
    and segment :: "'p \<Rightarrow> int \<Rightarrow> Segment res"
  assumes lookup_open: "a = None \<or> b = None \<Longrightarrow> lookup p a b = Ok (all_segments p)"
    and lookup_sub: "inv p \<Longrightarrow> lookup p a b = Ok ss \<Longrightarrow> set ss \<subseteq> set (all_segments p)"
    and lookup_point: "inv p \<Longrightarrow> index p v = Ok i \<Longrightarrow> segment p i = Ok s \<Longrightarrow>
          \<exists>ss. lookup p (Some v) (Some v) = Ok ss \<and> s \<in> set ss"
    and segment_in: "inv p \<Longrightarrow> segment p i = Ok s \<Longrightarrow> s \<in> set (all_segments p)"
    and range_id: "inv p \<Longrightarrow> s \<in> set (all_segments p) \<Longrightarrow> t \<in> set (all_segments p) \<Longrightarrow>
          seg_Range s = seg_Range t \<Longrightarrow> s = t"
begin

text \<open>The segments of a list of indexes are exactly the segments of those indexes, each once.\<close>

lemma pick_exact:
  assumes "inv p" and pick: "pick_segments (segment p) idxs [] = Ok out"
  shows "distinct out \<and> set out = {s. \<exists>i \<in> set idxs. segment p i = Ok s}"
proof -
  have "distinct (map seg_Range out)"
    using pick_segments_distinct [OF pick] by simp
  moreover have sub: "set out \<subseteq> {s. \<exists>i \<in> set idxs. segment p i = Ok s}"
    using pick_segments_acc [OF pick] by auto
  moreover have "s \<in> set out" if "i \<in> set idxs" "segment p i = Ok s" for i s
  proof -
    from pick_segments_covers [OF pick that(1)] that(2) obtain t
      where t: "t \<in> set out" "seg_Range t = seg_Range s" by auto
    from sub t(1) obtain j where "segment p j = Ok t" by auto
    with assms that(2) t(2) have "t = s" by (blast intro: range_id segment_in)
    with t(1) show ?thesis by simp
  qed
  ultimately show ?thesis by (auto simp: distinct_map)
qed

text \<open>A row stored through the index of its key is found by the lookup of the same key.\<close>

lemma stored_is_found:
  assumes "inv p" "index p v = Ok i" "pick_segments (segment p) [i] [] = Ok out"
  shows "\<exists>ss. lookup p (Some v) (Some v) = Ok ss \<and> set out \<subseteq> set ss \<and> set ss \<subseteq> set (all_segments p)"
proof -
  from pick_exact [OF assms(1,3)] have out: "set out = {s. segment p i = Ok s}" by simp
  from assms(3) obtain s where "segment p i = Ok s" by (cases "segment p i") auto
  with lookup_point [OF assms(1,2)] obtain ss
    where "lookup p (Some v) (Some v) = Ok ss" "s \<in> set ss" by blast
  with out lookup_sub [OF assms(1)] \<open>segment p i = Ok s\<close> show ?thesis by auto
qed

end

end
