(* ===== verification/Jump_Hash.thy ===== *)
theory Jump_Hash
  imports Go_Strings "HOL-Library.Word"
begin

text \<open>
  The jump consistent hash of \<open>vendor/github.com/lithammer/go-jump-consistent-hash/jump.go\<close>, which
  places a shard key on a slot, and the CRC-64 (ECMA) of Go's \<open>hash/crc64\<close> that turns a string key
  into an integer. The key is a 64-bit word and wraps; the number of buckets is an \<open>int32\<close>.

  The loop computes with \<open>float64\<close>. A positive \<open>float64\<close> is represented here by the natural
  number that is \<open>2 ^ 52\<close> times its value, which is exact for every value of at least 1, and the
  division and the multiplication round to 53 significant bits, ties to even, as IEEE 754
  prescribes. The lemmas show that the rounding never makes the loop stall, so it ends, that the
  bucket is in range, and that a new bucket only takes keys and never moves them between old ones.
\<close>

unbundle bit_operations_syntax

section \<open>Binary floating point on scaled integers\<close>

fun bit_len :: "nat \<Rightarrow> nat" where
  "bit_len n = (if n = 0 then 0 else Suc (bit_len (n div 2)))"

declare bit_len.simps [simp del]

definition round_half_even :: "nat \<Rightarrow> nat \<Rightarrow> nat" where
  "round_half_even p q =
     (let f = p div q; r = p mod q in if 2 * r < q \<or> (2 * r = q \<and> even f) then f else Suc f)"

text \<open>The \<open>float64\<close> nearest to \<open>p / q\<close>, for \<open>p\<close> at least \<open>q\<close>, scaled by \<open>2 ^ 52\<close>.\<close>

definition f64_quot :: "nat \<Rightarrow> nat \<Rightarrow> nat" where
  "f64_quot p q =
     (let e = bit_len (2 ^ 52 * p div q) - 53 in round_half_even (2 ^ 52 * p) (q * 2 ^ e) * 2 ^ e)"

text \<open>The \<open>float64\<close> nearest to the value whose scaling by \<open>2 ^ 52\<close> is \<open>n\<close>.\<close>

definition f64_round :: "nat \<Rightarrow> nat" where
  "f64_round n = (let e = bit_len n - 53 in round_half_even n (2 ^ e) * 2 ^ e)"

lemma bit_len_upper: "n < 2 ^ bit_len n"
proof (induction n rule: bit_len.induct)
  case (1 n)
  show ?case
  proof (cases "n = 0")
    case False
    with "1.IH" have "n div 2 < 2 ^ bit_len (n div 2)" by simp
    then have "n < 2 * 2 ^ bit_len (n div 2)" by linarith
    with False show ?thesis by (subst bit_len.simps) simp
  qed (simp add: bit_len.simps)
qed

lemma bit_len_lower: "0 < n \<Longrightarrow> 2 ^ (bit_len n - 1) \<le> n"
proof (induction n rule: bit_len.induct)
  case (1 n)
  show ?case
  proof (cases "n = 1")
    case True
    then show ?thesis by (simp add: bit_len.simps)
  next
    case False
    with "1.prems" have pos: "0 < n div 2" by simp
    with "1.IH" "1.prems" have ih: "2 ^ (bit_len (n div 2) - 1) \<le> n div 2" by simp
    have "bit_len (n div 2) = Suc (bit_len (n div 2 div 2))"
      using pos by (subst bit_len.simps) simp
    then have "2 ^ bit_len (n div 2) = 2 * (2 ^ (bit_len (n div 2) - 1) :: nat)" by simp
    also have "\<dots> \<le> n" using ih by linarith
    finally show ?thesis using "1.prems" by (subst bit_len.simps) simp
  qed
qed

lemma round_half_even_lower: "p div q \<le> round_half_even p q"
  by (simp add: round_half_even_def Let_def)

text \<open>A quotient of at least 1 stays at least 1 when it is rounded.\<close>

lemma f64_quot_ge_one:
  assumes "q \<le> p" "0 < q"
  shows "2 ^ 52 \<le> f64_quot p q"
proof -
  define N where "N = 2 ^ 52 * p div q"
  define e where "e = bit_len N - 53"
  have "2 ^ 52 * q div q \<le> N" unfolding N_def by (rule div_le_mono) (simp add: assms)
  then have N: "2 ^ 52 \<le> N" using assms by simp
  have "2 ^ 52 \<le> N div 2 ^ e"
  proof (cases "e = 0")
    case True
    with N show ?thesis by simp
  next
    case False
    then have "bit_len N - 1 = 52 + e" by (simp add: e_def)
    moreover have "2 ^ (bit_len N - 1) \<le> N" by (rule bit_len_lower) (use N in simp)
    ultimately have "2 ^ 52 * 2 ^ e \<le> N" by (simp add: power_add)
    then show ?thesis by (simp add: less_eq_div_iff_mult_less_eq)
  qed
  also have "N div 2 ^ e = 2 ^ 52 * p div (q * 2 ^ e)" by (simp add: N_def div_mult2_eq)
  also have "\<dots> \<le> round_half_even (2 ^ 52 * p) (q * 2 ^ e)" by (rule round_half_even_lower)
  also have "\<dots> \<le> round_half_even (2 ^ 52 * p) (q * 2 ^ e) * 2 ^ e" by simp
  finally show ?thesis by (simp add: f64_quot_def N_def e_def Let_def)
qed

text \<open>An integer of at most 32 bits below a value stays below it when the value is rounded.\<close>

lemma f64_round_ge:
  assumes c: "c \<le> 2 ^ 32" and n: "2 ^ 52 * c \<le> n"
  shows "2 ^ 52 * c \<le> f64_round n"
proof -
  define e where "e = bit_len n - 53"
  have "2 ^ 52 * c \<le> n div 2 ^ e * 2 ^ e"
  proof (cases "e \<le> 52")
    case True
    then have "(2::nat) ^ 52 = 2 ^ (52 - e) * 2 ^ e" by (simp flip: power_add)
    then have m: "2 ^ 52 * c = 2 ^ (52 - e) * c * 2 ^ e" by simp
    have "2 ^ (52 - e) * c * 2 ^ e \<le> n" using n by (simp only: m)
    then have "2 ^ (52 - e) * c \<le> n div 2 ^ e" by (simp add: less_eq_div_iff_mult_less_eq)
    then show ?thesis unfolding m by (rule mult_le_mono1)
  next
    case False
    then have "bit_len n - 1 = 52 + e" by (simp add: e_def)
    moreover have "2 ^ (bit_len n - 1) \<le> n"
      using False by (intro bit_len_lower) (auto simp: e_def bit_len.simps [of 0] intro!: gr0I)
    ultimately have "2 ^ 52 * 2 ^ e \<le> n" by (simp add: power_add)
    then have "2 ^ 52 \<le> n div 2 ^ e" by (simp add: less_eq_div_iff_mult_less_eq)
    then have "2 ^ 52 * 2 ^ e \<le> n div 2 ^ e * 2 ^ e" by (rule mult_le_mono1)
    moreover have "(2::nat) ^ 32 \<le> 2 ^ e" using False by (intro power_increasing) linarith+
    then have "2 ^ 52 * c \<le> 2 ^ 52 * 2 ^ e" by (intro mult_le_mono2 le_trans [OF c])
    ultimately show ?thesis by (rule le_trans [rotated])
  qed
  also have "\<dots> \<le> round_half_even n (2 ^ e) * 2 ^ e"
    by (rule mult_le_mono1) (rule round_half_even_lower)
  finally show ?thesis by (simp add: f64_round_def e_def Let_def)
qed

section \<open>The jump loop\<close>

definition jump_next :: "64 word \<Rightarrow> nat \<Rightarrow> nat" where
  "jump_next key b =
     f64_round ((b + 1) * f64_quot (2 ^ 31) (unat (drop_bit 33 key) + 1)) div 2 ^ 52"

lemma jump_key_bound: "unat (drop_bit 33 (key :: 64 word)) + 1 \<le> 2 ^ 31"
proof -
  have "unat (drop_bit 33 key) = unat key div 2 ^ 33"
    by (metis drop_bit_eq_div unat_drop_bit_eq)
  moreover have "unat key < 2 ^ 31 * 2 ^ 33"
    using unsigned_less [of key, where ?'a = nat] by simp
  then have "unat key div 2 ^ 33 < 2 ^ 31" by (rule less_mult_imp_div_less)
  ultimately show ?thesis by linarith
qed

lemma jump_next_gt: "b + 1 \<le> 2 ^ 32 \<Longrightarrow> b < jump_next key b"
proof -
  assume b: "b + 1 \<le> 2 ^ 32"
  define q where "q = f64_quot (2 ^ 31) (unat (drop_bit 33 key) + 1)"
  have "2 ^ 52 \<le> q" unfolding q_def by (rule f64_quot_ge_one) (use jump_key_bound in simp_all)
  then have "2 ^ 52 * (b + 1) \<le> (b + 1) * q" 
    unfolding mult.commute [of "2 ^ 52"] by (rule mult_le_mono2)
  with b have "2 ^ 52 * (b + 1) \<le> f64_round ((b + 1) * q)" by (rule f64_round_ge)
  then have "b + 1 \<le> f64_round ((b + 1) * q) div 2 ^ 52"
    by (simp add: less_eq_div_iff_mult_less_eq mult.commute)
  then show ?thesis by (simp add: jump_next_def q_def)
qed

lemma sint32_bound: "sint (n :: 32 word) \<le> 2 ^ 31 - 1"
  using sint_lt [of n] by simp

function jump_loop :: "64 word \<Rightarrow> nat \<Rightarrow> nat \<Rightarrow> 32 word \<Rightarrow> nat" where
  "jump_loop key b j n =
     (if int j < sint n
      then let key' = key * 2862933555777941757 + 1 in jump_loop key' j (jump_next key' j) n
      else b)"
  by pat_completeness auto
termination
proof (relation "measure (\<lambda>(key, b, j, n). nat (sint n) - j)")
  fix key :: "64 word" and b j :: nat and n :: "32 word" and key' :: "64 word"
  assume j: "int j < sint n"
  with sint32_bound [of n] have "j + 1 \<le> 2 ^ 32" by simp
  then have "j < jump_next key' j" by (rule jump_next_gt)
  with j show "((key', j, jump_next key' j, n), key, b, j, n)
      \<in> measure (\<lambda>(key, b, j, n). nat (sint n) - j)"
    by simp
qed simp

declare jump_loop.simps [simp del]

definition jump_Hash :: "64 word \<Rightarrow> 32 word \<Rightarrow> nat" where
  "jump_Hash key buckets = jump_loop key 0 0 (if sint buckets \<le> 0 then 1 else buckets)"

section \<open>CRC-64 and string keys\<close>

definition crc64_step :: "64 word \<Rightarrow> 64 word" where
  "crc64_step c = (if c AND 1 = 1 then drop_bit 1 c XOR 0xC96C5795D7870F42 else drop_bit 1 c)"

definition crc64_entry :: "64 word \<Rightarrow> 64 word" where
  "crc64_entry i = (crc64_step ^^ 8) i"

fun crc64_bytes :: "64 word \<Rightarrow> string \<Rightarrow> 64 word" where
  "crc64_bytes c [] = c"
| "crc64_bytes c (b # bs) =
     crc64_bytes (crc64_entry ((c AND 0xFF) XOR of_nat (of_char b)) XOR drop_bit 8 c) bs"

definition crc64_ecma :: "string \<Rightarrow> 64 word" where
  "crc64_ecma s = NOT (crc64_bytes (NOT 0) s)"

definition jump_HashString :: "string \<Rightarrow> 32 word \<Rightarrow> nat" where
  "jump_HashString key buckets = jump_Hash (crc64_ecma key) buckets"

section \<open>Range and consistency\<close>

lemma jump_loop_range:
  "int b < sint n \<Longrightarrow> int (jump_loop key b j n) < sint n"
proof (induction key b j n rule: jump_loop.induct)
  case (1 key b j n)
  then show ?case by (subst jump_loop.simps) (auto simp: Let_def)
qed

lemma jump_Hash_range: "int (jump_Hash key buckets) < max 1 (sint buckets)"
proof -
  define n where "n = (if sint buckets \<le> 0 then 1 else buckets)"
  have n: "sint n = max 1 (sint buckets)"
  proof (cases "sint buckets \<le> 0")
    case True
    then have "n = 1" by (simp only: n_def if_True)
    with True show ?thesis by simp
  next
    case False
    then have "n = buckets" by (simp only: n_def if_False)
    with False show ?thesis by simp
  qed
  then have "int 0 < sint n" by (simp only: max_def) simp
  then have "int (jump_loop key 0 0 n) < sint n" by (rule jump_loop_range)
  then show ?thesis by (simp only: jump_Hash_def n_def [symmetric] n)
qed

lemma sint_succ: "sint n < 2 ^ 31 - 1 \<Longrightarrow> sint (n + 1 :: 32 word) = sint n + 1"
proof -
  assume n: "sint n < 2 ^ 31 - 1"
  have "sint (n + 1) = signed_take_bit 31 (sint n + 1)"
    by (simp add: sint_word_ariths)
  also have "\<dots> = sint n + 1"
    by (rule signed_take_bit_int_eq_self) (use n sint_ge [of n] in simp_all)
  finally show ?thesis .
qed

text \<open>With one more bucket the loop runs the same steps, and at most one more.\<close>

lemma jump_loop_grow:
  assumes "sint n < 2 ^ 31 - 1"
  shows "jump_loop key b j (n + 1) = jump_loop key b j n \<or> int (jump_loop key b j (n + 1)) = sint n"
  using assms
proof (induction key b j n rule: jump_loop.induct)
  case (1 key b j n)
  define key' where "key' = key * 2862933555777941757 + 1"
  have grow: "sint (n + 1) = sint n + 1" by (rule sint_succ) (rule "1.prems")
  show ?case
  proof (cases "int j < sint n")
    case True
    then have "jump_loop key b j n = jump_loop key' j (jump_next key' j) n"
      and "jump_loop key b j (n + 1) = jump_loop key' j (jump_next key' j) (n + 1)"
      by (simp_all add: jump_loop.simps [of key b j] key'_def Let_def grow)
    with "1.IH" [OF True refl "1.prems"] show ?thesis by (simp add: key'_def)
  next
    case False
    then have old: "jump_loop key b j n = b" by (simp add: jump_loop.simps [of key b j])
    show ?thesis
    proof (cases "int j < sint n + 1")
      case True
      with False have j: "int j = sint n" by simp
      then have "j + 1 \<le> 2 ^ 32" using "1.prems" by simp
      then have "j < jump_next key' j" by (rule jump_next_gt)
      with j have "\<not> int (jump_next key' j) < sint (n + 1)" by (simp add: grow)
      then have "jump_loop key' j (jump_next key' j) (n + 1) = j"
        by (simp add: jump_loop.simps [of key' j])
      with j show ?thesis by (simp add: jump_loop.simps [of key b j] key'_def Let_def grow)
    next
      case outside: False
      then have "jump_loop key b j (n + 1) = b" by (simp add: jump_loop.simps [of key b j] grow)
      with old show ?thesis by simp
    qed
  qed
qed

end
