(* ===== verification/Hash_Partition.thy ===== *)
theory Hash_Partition
  imports Partition_Base Jump_Hash
begin

text \<open>
  The hash partition method, \<open>router/hash.go\<close>. \<open>NewHash\<close> reads the table configuration once, right
  before \<open>Build\<close>, so the record keeps the configuration itself and not its address. A \<open>Build\<close>
  that fails leaves an object that no caller keeps, so it is modelled by its error alone.

  \<open>GetIndex\<close> takes the conversion \<open>pf\<close> of a float literal as a parameter: it is
  \<open>strconv.ParseFloat\<close> followed by \<open>uint64(f)\<close>, which the Go specification leaves to the
  implementation when \<open>f\<close> is negative or too large. No theorem depends on what it returns.
\<close>

section \<open>The code\<close>

record Hash =
  h_slots :: int
  h_typ :: string
  h_conf :: TableConfig
  h_partitions :: "(int, Segment) gomap"
  h_Segments :: "Segment list"

definition NewHash :: "int \<Rightarrow> TableConfig \<Rightarrow> Hash" where
  "NewHash slots conf =
     \<lparr>h_slots = slots, h_typ = ''HASH'', h_conf = conf, h_partitions = [], h_Segments = []\<rparr>"

text \<open>The loop that enters the slots of one segment into the bitmap.\<close>

function hash_bitmap ::
  "string \<Rightarrow> Segment \<Rightarrow> int \<Rightarrow> int \<Rightarrow> (int, Segment) gomap \<Rightarrow> (int, Segment) gomap res" where
  "hash_bitmap spec seg i fin m =
     (if i < fin then
        (case gm_get m i of
           Some _ \<Rightarrow> Err (Errorf ''hash.partition.segment[%v].overlapped[%v]'' [spec, show_int i])
         | None \<Rightarrow> hash_bitmap spec seg (i + 1) fin (gm_put i seg m))
      else Ok m)"
  by pat_completeness auto
termination by (relation "measure (\<lambda>(spec, seg, i, fin, m). nat (fin - i))") auto

declare hash_bitmap.simps [simp del]

definition hash_spec :: "string \<Rightarrow> (int \<times> int) res" where
  "hash_spec spec =
     (case split_on (CHR ''-'') spec of
        [a, b] \<Rightarrow>
          (case atoi a of
             None \<Rightarrow> Err (Errorf ''hash.partition.segment.malformed[%v].start.can.not.parser.to.int'' [spec])
           | Some start \<Rightarrow>
               (case atoi b of
                  None \<Rightarrow> Err (Errorf ''hash.partition.segment.malformed[%v].end.can.not.parser.to.int'' [spec])
                | Some fin \<Rightarrow>
                    if fin \<le> start
                    then Err (Errorf ''hash.partition.segment.malformed[%v].start[%v]>=end[%v]''
                                [spec, show_int start, show_int fin])
                    else Ok (start, fin)))
      | _ \<Rightarrow> Err (Errorf ''hash.partition.segment.malformed[%v]'' [spec]))"

definition hash_segment :: "nat \<Rightarrow> PartitionConfig \<Rightarrow> int \<Rightarrow> int \<Rightarrow> Segment" where
  "hash_segment rid part start fin =
     \<lparr>seg_Table = pc_Table part, seg_Backend = pc_Backend part,
      seg_Range = Some (HashRange rid start fin), seg_ListValue = []\<rparr>"

fun hash_build_parts ::
  "nat \<Rightarrow> PartitionConfig list \<Rightarrow> (int, Segment) gomap \<times> Segment list
     \<Rightarrow> ((int, Segment) gomap \<times> Segment list) res" where
  "hash_build_parts rid [] (m, segs) = Ok (m, segs)"
| "hash_build_parts rid (part # parts) (m, segs) =
     rbind (hash_spec (pc_Segment part)) (\<lambda>(start, fin).
       let seg = hash_segment rid part start fin in
       rbind (hash_bitmap (pc_Segment part) seg start fin m) (\<lambda>m'.
         hash_build_parts (Suc rid) parts (m', segs @ [seg])))"

text \<open>
  \<open>sort.Sort\<close> orders the segments by the start of their ranges. The starts of a built table differ
  (lemma \<open>hash_inv_starts\<close>), so every sorting algorithm returns this list.
\<close>

definition seg_start :: "Segment \<Rightarrow> int" where
  "seg_start s = (case seg_Range s of Some (HashRange _ a _) \<Rightarrow> a | _ \<Rightarrow> 0)"

definition seg_end :: "Segment \<Rightarrow> int" where
  "seg_end s = (case seg_Range s of Some (HashRange _ _ b) \<Rightarrow> b | _ \<Rightarrow> 0)"

definition Hash_Build :: "Hash \<Rightarrow> Hash res" where
  "Hash_Build h =
     rbind (hash_build_parts 0 (tc_Partitions (h_conf h)) (h_partitions h, h_Segments h)) (\<lambda>(m, segs).
       if int (length m) \<noteq> h_slots h
       then Err (Errorf ''hash.partition.last.segment[%v].upper.bound.must.be[%v]''
                   [show_nat (length m), show_int (h_slots h)])
       else Ok (h\<lparr>h_partitions := m, h_Segments := sort_key seg_start segs\<rparr>))"

definition Hash_Clear :: "Hash \<Rightarrow> Hash" where
  "Hash_Clear h = h\<lparr>h_partitions := []\<rparr>"

definition Hash_GetIndex :: "(string \<Rightarrow> 64 word option) \<Rightarrow> Hash \<Rightarrow> SQLVal \<Rightarrow> int res" where
  "Hash_GetIndex pf h v =
     (case sv_Type v of
        IntVal \<Rightarrow>
          (case parse_int0 (sv_Val v) of
             None \<Rightarrow> Err (Errorf ''hash.getindex.val.key.parser.uint64.error:[%v]'' [sv_Val v])
           | Some i \<Rightarrow> Ok (int (jump_Hash (word_of_int i) (word_of_int (h_slots h)))))
      | FloatVal \<Rightarrow>
          (case pf (sv_Val v) of
             None \<Rightarrow> Err (Errorf ''hash.getindex.val.key.parser.float.error:[%v]'' [sv_Val v])
           | Some w \<Rightarrow> Ok (int (jump_Hash w (word_of_int (h_slots h)))))
      | StrVal \<Rightarrow> Ok (int (jump_HashString (sv_Val v) (word_of_int (h_slots h))))
      | t \<Rightarrow> Err (Errorf ''hash.unsupported.key.type:[%v]'' [show_ValType t]))"

definition hash_slot :: "Hash \<Rightarrow> int \<Rightarrow> Segment" where
  "hash_slot h i = (case gm_get (h_partitions h) i of Some s \<Rightarrow> s | None \<Rightarrow> zero_Segment)"

definition Hash_Lookup ::
  "(string \<Rightarrow> 64 word option) \<Rightarrow> Hash \<Rightarrow> SQLVal option \<Rightarrow> SQLVal option \<Rightarrow> Segment list res" where
  "Hash_Lookup pf h start fin =
     (case (start, fin) of
        (Some a, Some b) \<Rightarrow>
          if sv_Type a \<noteq> sv_Type b
          then Err (Errorf ''hash.lookup.key.type.must.be.same:[%v!=%v]''
                      [show_ValType (sv_Type a), show_ValType (sv_Type b)])
          else if sv_Val a = sv_Val b
          then rbind (Hash_GetIndex pf h a) (\<lambda>idx. Ok [hash_slot h idx])
          else Ok (h_Segments h)
      | _ \<Rightarrow> Ok (h_Segments h))"

definition Hash_GetSegments :: "Hash \<Rightarrow> Segment list" where
  "Hash_GetSegments h = h_Segments h"

definition Hash_GetSegment :: "Hash \<Rightarrow> int \<Rightarrow> Segment res" where
  "Hash_GetSegment h index =
     (if index < 0 \<or> h_slots h \<le> index
      then Err (Errorf ''hash.getsegment.index.[%d].out.of.range'' [show_int index])
      else Ok (hash_slot h index))"

section \<open>What Build establishes\<close>

text \<open>
  The bitmap maps a slot to the segment whose range contains it: segments are nonempty, disjoint and
  identified by their allocation number.
\<close>

definition seg_wf :: "Segment \<Rightarrow> bool" where
  "seg_wf s = (\<exists>rid a b. seg_Range s = Some (HashRange rid a b) \<and> a < b)"

definition in_seg :: "int \<Rightarrow> Segment \<Rightarrow> bool" where
  "in_seg i s \<longleftrightarrow> seg_start s \<le> i \<and> i < seg_end s"

definition bitmap_inv :: "(int, Segment) gomap \<Rightarrow> Segment list \<Rightarrow> bool" where
  "bitmap_inv m segs \<longleftrightarrow>
     gm_wf m \<and> distinct (map seg_Range segs) \<and> (\<forall>s \<in> set segs. seg_wf s) \<and>
     (\<forall>i s. gm_get m i = Some s \<longleftrightarrow> s \<in> set segs \<and> in_seg i s)"

definition hash_inv :: "Hash \<Rightarrow> bool" where
  "hash_inv h \<longleftrightarrow>
     bitmap_inv (h_partitions h) (h_Segments h) \<and> int (length (h_partitions h)) = h_slots h \<and>
     sorted (map seg_start (h_Segments h))"

text \<open>A hash table whose ranges stay inside the slots, with a number of slots an \<open>int32\<close> holds.\<close>

definition hash_ok :: "Hash \<Rightarrow> bool" where
  "hash_ok h \<longleftrightarrow>
     hash_inv h \<and> 0 < h_slots h \<and> h_slots h < 2 ^ 31 \<and>
     (\<forall>s \<in> set (h_Segments h). 0 \<le> seg_start s \<and> seg_end s \<le> h_slots h)"

lemma seg_start_segment [simp]: "seg_start (hash_segment rid part a b) = a"
  by (simp add: seg_start_def hash_segment_def)

lemma seg_end_segment [simp]: "seg_end (hash_segment rid part a b) = b"
  by (simp add: seg_end_def hash_segment_def)

lemma seg_wf_start_end: "seg_wf s \<Longrightarrow> seg_start s < seg_end s"
  by (auto simp: seg_wf_def seg_start_def seg_end_def)

lemma hash_bitmap_spec:
  assumes "hash_bitmap spec p i fin m = Ok m'" "gm_wf m"
  shows "gm_wf m' \<and> (\<forall>k. i \<le> k \<and> k < fin \<longrightarrow> gm_get m k = None) \<and>
     (\<forall>k. gm_get m' k = (if i \<le> k \<and> k < fin then Some p else gm_get m k))"
  using assms
proof (induction spec p i fin m rule: hash_bitmap.induct)
  case (1 spec p i fin m)
  show ?case
  proof (cases "i < fin")
    case True
    with "1.prems" have free: "gm_get m i = None"
      and rest: "hash_bitmap spec p (i + 1) fin (gm_put i p m) = Ok m'"
      by (simp_all add: hash_bitmap.simps [of spec p i] split: option.splits)
    have ih: "gm_wf m' \<and> (\<forall>k. i + 1 \<le> k \<and> k < fin \<longrightarrow> gm_get (gm_put i p m) k = None) \<and>
       (\<forall>k. gm_get m' k = (if i + 1 \<le> k \<and> k < fin then Some p else gm_get (gm_put i p m) k))"
      by (rule "1.IH" [OF True free rest]) (simp add: "1.prems")
    have "gm_get m k = None" if "i \<le> k" "k < fin" for k
      using that ih free by (cases "k = i") (auto simp: gomap_simps)
    moreover have "gm_get m' k = (if i \<le> k \<and> k < fin then Some p else gm_get m k)" for k
      using ih True by (cases "k = i") (auto simp: gomap_simps)
    ultimately show ?thesis using ih by blast
  next
    case False
    with "1.prems" show ?thesis by (auto simp: hash_bitmap.simps [of spec p i])
  qed
qed

lemma hash_spec_Ok: "hash_spec spec = Ok (a, b) \<Longrightarrow> a < b"
  by (auto simp: hash_spec_def split: list.splits option.splits if_splits)

text \<open>Entering a segment whose range is free keeps the bitmap invariant.\<close>

lemma bitmap_inv_add:
  assumes inv: "bitmap_inv m segs" and wf: "seg_wf p" and new: "seg_Range p \<notin> seg_Range ` set segs"
    and m': "gm_wf m'" "\<forall>k. seg_start p \<le> k \<and> k < seg_end p \<longrightarrow> gm_get m k = None"
      "\<forall>k. gm_get m' k = (if seg_start p \<le> k \<and> k < seg_end p then Some p else gm_get m k)"
  shows "bitmap_inv m' (segs @ [p])"
proof -
  have "gm_get m' i = Some s \<longleftrightarrow> s \<in> set (segs @ [p]) \<and> in_seg i s" for i s
  proof (cases "in_seg i p")
    case True
    with m' have free: "gm_get m i = None" and hit: "gm_get m' i = Some p"
      by (simp_all add: in_seg_def)
    from inv have "gm_get m i = Some s \<longleftrightarrow> s \<in> set segs \<and> in_seg i s"
      by (simp add: bitmap_inv_def)
    with free hit True show ?thesis by auto
  next
    case False
    with m' inv show ?thesis by (auto simp: in_seg_def bitmap_inv_def)
  qed
  with inv wf new m' show ?thesis by (auto simp: bitmap_inv_def)
qed

lemma hash_build_parts_inv:
  assumes "hash_build_parts rid parts (m, segs) = Ok (m', segs')" "bitmap_inv m segs"
    "\<forall>s \<in> set segs. \<exists>k < rid. \<exists>a b. seg_Range s = Some (HashRange k a b)"
  shows "bitmap_inv m' segs'"
  using assms
proof (induction parts arbitrary: rid m segs)
  case (Cons part parts)
  from Cons.prems(1) obtain a b m1 where spec: "hash_spec (pc_Segment part) = Ok (a, b)"
    and bm: "hash_bitmap (pc_Segment part) (hash_segment rid part a b) a b m = Ok m1"
    and rest: "hash_build_parts (Suc rid) parts (m1, segs @ [hash_segment rid part a b]) = Ok (m', segs')"
    by (auto simp: res_simps Let_def)
  let ?p = "hash_segment rid part a b"
  have "gm_wf m" using Cons.prems(2) by (simp add: bitmap_inv_def)
  note bits = hash_bitmap_spec [OF bm this]
  have "bitmap_inv m1 (segs @ [?p])"
  proof (rule bitmap_inv_add [OF Cons.prems(2)])
    show "seg_wf ?p" using hash_spec_Ok [OF spec] by (simp add: seg_wf_def hash_segment_def)
    show "seg_Range ?p \<notin> seg_Range ` set segs"
      using Cons.prems(3) by (fastforce simp: hash_segment_def)
  qed (use bits in simp_all)
  then show ?case
  proof (rule Cons.IH [OF rest])
    show "\<forall>s \<in> set (segs @ [?p]). \<exists>k < Suc rid. \<exists>a b. seg_Range s = Some (HashRange k a b)"
      using Cons.prems(3) by (force simp: hash_segment_def)
  qed
qed simp

lemma bitmap_inv_perm:
  assumes "bitmap_inv m segs" "set segs' = set segs" "distinct (map seg_Range segs')"
  shows "bitmap_inv m segs'"
  using assms by (simp add: bitmap_inv_def)

theorem Hash_Build_inv:
  assumes "Hash_Build (NewHash slots conf) = Ok h"
  shows "hash_inv h \<and> h_slots h = slots"
proof -
  from assms obtain m segs where parts: "hash_build_parts 0 (tc_Partitions conf) ([], []) = Ok (m, segs)"
    and len: "int (length m) = slots"
    and h: "h = (NewHash slots conf)\<lparr>h_partitions := m, h_Segments := sort_key seg_start segs\<rparr>"
    by (auto simp: Hash_Build_def NewHash_def res_simps split: if_splits)
  have "bitmap_inv m segs"
    by (rule hash_build_parts_inv [OF parts]) (simp_all add: bitmap_inv_def)
  moreover from this have "distinct (map seg_Range segs)" by (simp add: bitmap_inv_def)
  then have "distinct (map seg_Range (sort_key seg_start segs))"
    by (simp add: distinct_map)
  ultimately have "bitmap_inv m (sort_key seg_start segs)" 
    using bitmap_inv_perm [of m segs "sort_key seg_start segs"] by simp
  with len h show ?thesis by (simp add: hash_inv_def NewHash_def)
qed

text \<open>Two segments of a built table never share a slot.\<close>

lemma bitmap_inv_disjoint:
  assumes "bitmap_inv m segs" "s \<in> set segs" "t \<in> set segs" "in_seg i s" "in_seg i t"
  shows "s = t"
proof -
  from assms have "gm_get m i = Some s" "gm_get m i = Some t" by (simp_all add: bitmap_inv_def)
  then show ?thesis by simp
qed

lemma hash_inv_disjoint:
  "hash_inv h \<Longrightarrow> s \<in> set (h_Segments h) \<Longrightarrow> t \<in> set (h_Segments h) \<Longrightarrow> in_seg i s \<Longrightarrow> in_seg i t \<Longrightarrow> s = t"
  by (auto simp: hash_inv_def intro: bitmap_inv_disjoint)

lemma hash_inv_starts: "hash_inv h \<Longrightarrow> distinct (map seg_start (h_Segments h))"
proof -
  assume h: "hash_inv h"
  then have "distinct (h_Segments h)" by (auto simp: hash_inv_def bitmap_inv_def distinct_map)
  moreover have "inj_on seg_start (set (h_Segments h))"
  proof (rule inj_onI)
    fix s t
    assume st: "s \<in> set (h_Segments h)" "t \<in> set (h_Segments h)" "seg_start s = seg_start t"
    with h have "seg_wf s" "seg_wf t" by (auto simp: hash_inv_def bitmap_inv_def)
    then have "in_seg (seg_start s) s" "in_seg (seg_start s) t"
      using st(3) by (auto simp: in_seg_def dest: seg_wf_start_end)
    with h st show "s = t" by (blast intro: hash_inv_disjoint)
  qed
  ultimately show ?thesis by (simp add: distinct_map)
qed

text \<open>
  As many slots as the table has, all of them inside \<open>[0, slots)\<close>, are all the slots: the bitmap has
  no hole.
\<close>

lemma hash_ok_total:
  assumes ok: "hash_ok h" and i: "0 \<le> i" "i < h_slots h"
  shows "\<exists>s \<in> set (h_Segments h). gm_get (h_partitions h) i = Some s \<and> in_seg i s"
proof -
  let ?m = "h_partitions h"
  from ok have inv: "bitmap_inv ?m (h_Segments h)" and len: "int (length ?m) = h_slots h"
    and wf: "gm_wf ?m" by (simp_all add: hash_ok_def hash_inv_def bitmap_inv_def)
  have card: "card (fst ` set ?m) = length ?m"
    using wf distinct_card [of "map fst ?m"] by (simp add: gm_wf_def)
  have "fst ` set ?m \<subseteq> {0..<h_slots h}"
  proof
    fix k
    assume "k \<in> fst ` set ?m"
    then obtain s where "(k, s) \<in> set ?m" by auto
    with wf have "gm_get ?m k = Some s" by (simp add: gm_wf_get_iff)
    with inv have "s \<in> set (h_Segments h)" "in_seg k s" by (simp_all add: bitmap_inv_def)
    moreover from this ok have "0 \<le> seg_start s" "seg_end s \<le> h_slots h" by (simp_all add: hash_ok_def)
    ultimately show "k \<in> {0..<h_slots h}" by (simp add: in_seg_def)
  qed
  moreover have "card {0..<h_slots h} = length ?m" using len by simp
  ultimately have "fst ` set ?m = {0..<h_slots h}" using card by (intro card_subset_eq) simp_all
  with i have "i \<in> fst ` set ?m" by simp
  then obtain s where "(i, s) \<in> set ?m" by auto
  with wf have hit: "gm_get ?m i = Some s" by (simp add: gm_wf_get_iff)
  with inv have "s \<in> set (h_Segments h)" "in_seg i s" by (simp_all add: bitmap_inv_def)
  with hit show ?thesis by blast
qed

section \<open>Indexes and lookups\<close>

lemma sint_slots: "0 < n \<Longrightarrow> n < 2 ^ 31 \<Longrightarrow> sint (word_of_int n :: 32 word) = n"
  by (simp add: sint_uint uint_word_of_int take_bit_int_eq_self_iff signed_take_bit_int_eq_self)

text \<open>Every key of every type is placed on a slot of the table.\<close>

lemma Hash_GetIndex_range:
  assumes "0 < h_slots h" "h_slots h < 2 ^ 31" "Hash_GetIndex pf h v = Ok i"
  shows "0 \<le> i \<and> i < h_slots h"
proof -
  have slot: "int (jump_Hash k (word_of_int (h_slots h))) < h_slots h" for k
    using jump_Hash_range [of k "word_of_int (h_slots h)"] assms(1) by (simp only: sint_slots [OF assms(1,2)])
  show ?thesis using assms(3) slot
    by (auto simp: Hash_GetIndex_def jump_HashString_def split: ValType.splits option.splits)
qed

lemma hash_ok_slot:
  assumes "hash_ok h" "0 \<le> i" "i < h_slots h"
  shows "hash_slot h i \<in> set (h_Segments h) \<and> in_seg i (hash_slot h i)"
  using hash_ok_total [OF assms] by (auto simp: hash_slot_def)

lemma hash_ok_index_slot:
  assumes "hash_ok h" "Hash_GetIndex pf h v = Ok i"
  shows "hash_slot h i \<in> set (h_Segments h) \<and> in_seg i (hash_slot h i)"
proof -
  from assms have "0 \<le> i \<and> i < h_slots h"
    by (intro Hash_GetIndex_range [of h pf v]) (simp_all add: hash_ok_def)
  with assms(1) show ?thesis by (intro hash_ok_slot) simp_all
qed

interpretation hash_method: partition_method
  hash_ok Hash_GetSegments "Hash_Lookup pf" "Hash_GetIndex pf" Hash_GetSegment for pf
proof unfold_locales
  fix a b :: "SQLVal option" and p
  assume "a = None \<or> b = None"
  then show "Hash_Lookup pf p a b = Ok (Hash_GetSegments p)"
    by (auto simp: Hash_Lookup_def Hash_GetSegments_def split: option.splits)
next
  fix a b p ss
  assume ok: "hash_ok p" and "Hash_Lookup pf p a b = Ok ss"
  then have "ss = h_Segments p \<or> (\<exists>v i. Hash_GetIndex pf p v = Ok i \<and> ss = [hash_slot p i])"
    by (auto simp: Hash_Lookup_def res_simps split: option.splits if_splits)
  with hash_ok_index_slot [OF ok] show "set ss \<subseteq> set (Hash_GetSegments p)"
    by (auto simp: Hash_GetSegments_def)
next
  fix p v i s
  assume "Hash_GetIndex pf p v = Ok i" "Hash_GetSegment p i = Ok s"
  then show "\<exists>ss. Hash_Lookup pf p (Some v) (Some v) = Ok ss \<and> s \<in> set ss"
    by (auto simp: Hash_Lookup_def Hash_GetSegment_def split: if_splits)
next
  fix p i s
  assume "hash_ok p" "Hash_GetSegment p i = Ok s"
  then show "s \<in> set (Hash_GetSegments p)" using hash_ok_slot [of p i]
    by (auto simp: Hash_GetSegment_def Hash_GetSegments_def split: if_splits)
next
  fix p s t
  assume "hash_ok p" "s \<in> set (Hash_GetSegments p)" "t \<in> set (Hash_GetSegments p)" "seg_Range s = seg_Range t"
  then show "s = t"
    by (auto simp: hash_ok_def hash_inv_def bitmap_inv_def Hash_GetSegments_def distinct_map dest: inj_onD)
qed

end
