(* ===== verification/Plain_Partitions.thy ===== *)
theory Plain_Partitions
  imports Hash_Partition
begin

text \<open>
  The partition methods without a hash: \<open>router/list.go\<close>, \<open>router/global.go\<close> and
  \<open>router/single.go\<close>, and the Go interface value \<open>Partition\<close> that holds one of the four methods and
  dispatches to it. All four, and the interface value, interpret \<open>partition_method\<close>.
\<close>

section \<open>List tables\<close>

record ListPart =
  l_typ :: string
  l_conf :: TableConfig
  l_Segments :: "Segment list"

definition NewList :: "TableConfig \<Rightarrow> ListPart" where
  "NewList conf = \<lparr>l_typ = ''LIST'', l_conf = conf, l_Segments = []\<rparr>"

definition list_segment :: "nat \<Rightarrow> PartitionConfig \<Rightarrow> Segment" where
  "list_segment rid part =
     \<lparr>seg_Table = pc_Table part, seg_Backend = pc_Backend part,
      seg_Range = Some (ListRange rid []), seg_ListValue = pc_ListValue part\<rparr>"

text \<open>
  The three \<open>Build\<close> loops append one segment per partition and differ in the range they make
  (\<open>mk\<close>); the number of a range is the position of its partition.
\<close>

definition number_parts :: "(nat \<Rightarrow> 'a \<Rightarrow> 'b) \<Rightarrow> nat \<Rightarrow> 'a list \<Rightarrow> 'b list" where
  "number_parts mk k xs = map (\<lambda>(i, x). mk i x) (zip [k..<k + length xs] xs)"

definition List_Build :: "ListPart \<Rightarrow> ListPart res" where
  "List_Build l =
     Ok (l\<lparr>l_Segments := l_Segments l @ number_parts list_segment (length (l_Segments l)) (tc_Partitions (l_conf l))\<rparr>)"

definition List_Clear :: "ListPart \<Rightarrow> unit res" where
  "List_Clear l = Ok ()"

fun find_value :: "string \<Rightarrow> nat \<Rightarrow> Segment list \<Rightarrow> nat option" where
  "find_value v i [] = None"
| "find_value v i (s # ss) = (if seg_ListValue s = v then Some i else find_value v (Suc i) ss)"

definition List_GetIndex :: "ListPart \<Rightarrow> SQLVal \<Rightarrow> int res" where
  "List_GetIndex l v =
     (case find_value (sv_Val v) 0 (l_Segments l) of
        Some i \<Rightarrow> Ok (int i)
      | None \<Rightarrow> Err (Errorf ''Table has no partition for value %v'' [sv_Val v]))"

text \<open>A slice read \<open>segs[index]\<close>, which panics outside of the slice.\<close>

definition segs_at :: "Segment list \<Rightarrow> int \<Rightarrow> Segment res" where
  "segs_at segs index =
     (if 0 \<le> index \<and> index < int (length segs) then Ok (segs ! nat index)
      else Panic ''index out of range'')"

definition List_Lookup :: "ListPart \<Rightarrow> SQLVal option \<Rightarrow> SQLVal option \<Rightarrow> Segment list res" where
  "List_Lookup l start fin =
     (case (start, fin) of
        (Some a, Some b) \<Rightarrow>
          if sv_Type a \<noteq> sv_Type b
          then Err (Errorf ''list.lookup.key.type.must.be.same:[%v!=%v]''
                      [show_ValType (sv_Type a), show_ValType (sv_Type b)])
          else if sv_Val a = sv_Val b
          then rbind (List_GetIndex l a) (\<lambda>idx. rbind (segs_at (l_Segments l) idx) (\<lambda>s. Ok [s]))
          else Ok (l_Segments l)
      | _ \<Rightarrow> Ok (l_Segments l))"

definition List_GetSegments :: "ListPart \<Rightarrow> Segment list" where
  "List_GetSegments l = l_Segments l"

definition List_GetSegment :: "ListPart \<Rightarrow> int \<Rightarrow> Segment res" where
  "List_GetSegment l index =
     (if int (length (l_Segments l)) \<le> index
      then Err (Errorf ''single.getsegment.index.[%d].out.of.range'' [show_int index])
      else segs_at (l_Segments l) index)"

section \<open>Global tables\<close>

record Global =
  g_typ :: string
  g_conf :: "TableConfig option"
  g_Segments :: "Segment list"

definition NewGlobal :: "TableConfig option \<Rightarrow> Global" where
  "NewGlobal conf = \<lparr>g_typ = ''GLOBAL'', g_conf = conf, g_Segments = []\<rparr>"

definition global_segment :: "nat \<Rightarrow> PartitionConfig \<Rightarrow> Segment" where
  "global_segment rid part =
     \<lparr>seg_Table = pc_Table part, seg_Backend = pc_Backend part,
      seg_Range = Some (GlobalRange rid []), seg_ListValue = []\<rparr>"

definition Global_Build :: "Global \<Rightarrow> Global res" where
  "Global_Build g =
     (case g_conf g of
        None \<Rightarrow> Err (Errorf ''table.config..can't.be.nil'' [])
      | Some conf \<Rightarrow>
          Ok (g\<lparr>g_Segments := g_Segments g @ number_parts global_segment (length (g_Segments g)) (tc_Partitions conf)\<rparr>))"

definition Global_Lookup :: "Global \<Rightarrow> SQLVal option \<Rightarrow> SQLVal option \<Rightarrow> Segment list res" where
  "Global_Lookup g start fin = Ok (g_Segments g)"

definition Global_GetIndex :: "Global \<Rightarrow> SQLVal \<Rightarrow> int res" where
  "Global_GetIndex g v = Ok (- 1)"

definition Global_GetSegments :: "Global \<Rightarrow> Segment list" where
  "Global_GetSegments g = g_Segments g"

definition Global_GetSegment :: "Global \<Rightarrow> int \<Rightarrow> Segment res" where
  "Global_GetSegment g index =
     (if index < 0 \<or> int (length (g_Segments g)) \<le> index
      then Err (Errorf ''global.getsegment.index.[%d].out.of.range'' [show_int index])
      else segs_at (g_Segments g) index)"

section \<open>Single tables\<close>

record Single =
  s_typ :: string
  s_conf :: "TableConfig option"
  s_Segments :: "Segment list"

definition NewSingle :: "TableConfig option \<Rightarrow> Single" where
  "NewSingle conf = \<lparr>s_typ = ''SINGLE'', s_conf = conf, s_Segments = []\<rparr>"

definition single_segment :: "nat \<Rightarrow> PartitionConfig \<Rightarrow> Segment" where
  "single_segment rid part =
     \<lparr>seg_Table = pc_Table part, seg_Backend = pc_Backend part,
      seg_Range = Some (SingleRange rid []), seg_ListValue = []\<rparr>"

definition Single_Build :: "Single \<Rightarrow> Single res" where
  "Single_Build s =
     (case s_conf s of
        None \<Rightarrow> Err (Errorf ''table.config..can't.be.nil'' [])
      | Some conf \<Rightarrow>
          Ok (s\<lparr>s_Segments := s_Segments s @ number_parts single_segment (length (s_Segments s)) (tc_Partitions conf)\<rparr>))"

definition Single_Lookup :: "Single \<Rightarrow> SQLVal option \<Rightarrow> SQLVal option \<Rightarrow> Segment list res" where
  "Single_Lookup s start fin = Ok (s_Segments s)"

definition Single_GetIndex :: "Single \<Rightarrow> SQLVal \<Rightarrow> int res" where
  "Single_GetIndex s v = Ok 0"

definition Single_GetSegments :: "Single \<Rightarrow> Segment list" where
  "Single_GetSegments s = s_Segments s"

definition Single_GetSegment :: "Single \<Rightarrow> int \<Rightarrow> Segment res" where
  "Single_GetSegment s index =
     (if int (length (s_Segments s)) \<le> index
      then Err (Errorf ''single.getsegment.index.[%d].out.of.range'' [show_int index])
      else segs_at (s_Segments s) index)"

section \<open>The interface value\<close>

datatype Partition = PHash Hash | PGlobal Global | PSingle Single | PList ListPart

fun Partition_Type :: "Partition \<Rightarrow> string" where
  "Partition_Type (PHash h) = h_typ h"
| "Partition_Type (PGlobal g) = g_typ g"
| "Partition_Type (PSingle s) = s_typ s"
| "Partition_Type (PList l) = l_typ l"

fun Partition_Lookup ::
  "(string \<Rightarrow> 64 word option) \<Rightarrow> Partition \<Rightarrow> SQLVal option \<Rightarrow> SQLVal option \<Rightarrow> Segment list res" where
  "Partition_Lookup pf (PHash h) a b = Hash_Lookup pf h a b"
| "Partition_Lookup pf (PGlobal g) a b = Global_Lookup g a b"
| "Partition_Lookup pf (PSingle s) a b = Single_Lookup s a b"
| "Partition_Lookup pf (PList l) a b = List_Lookup l a b"

fun Partition_GetIndex :: "(string \<Rightarrow> 64 word option) \<Rightarrow> Partition \<Rightarrow> SQLVal \<Rightarrow> int res" where
  "Partition_GetIndex pf (PHash h) v = Hash_GetIndex pf h v"
| "Partition_GetIndex pf (PGlobal g) v = Global_GetIndex g v"
| "Partition_GetIndex pf (PSingle s) v = Single_GetIndex s v"
| "Partition_GetIndex pf (PList l) v = List_GetIndex l v"

fun Partition_GetSegments :: "Partition \<Rightarrow> Segment list" where
  "Partition_GetSegments (PHash h) = Hash_GetSegments h"
| "Partition_GetSegments (PGlobal g) = Global_GetSegments g"
| "Partition_GetSegments (PSingle s) = Single_GetSegments s"
| "Partition_GetSegments (PList l) = List_GetSegments l"

fun Partition_GetSegment :: "Partition \<Rightarrow> int \<Rightarrow> Segment res" where
  "Partition_GetSegment (PHash h) i = Hash_GetSegment h i"
| "Partition_GetSegment (PGlobal g) i = Global_GetSegment g i"
| "Partition_GetSegment (PSingle s) i = Single_GetSegment s i"
| "Partition_GetSegment (PList l) i = List_GetSegment l i"

section \<open>Invariants and interpretations\<close>

definition segs_inv :: "Segment list \<Rightarrow> bool" where
  "segs_inv segs \<longleftrightarrow> distinct (map seg_Range segs)"

lemma segs_inv_id: "segs_inv segs \<Longrightarrow> s \<in> set segs \<Longrightarrow> t \<in> set segs \<Longrightarrow> seg_Range s = seg_Range t \<Longrightarrow> s = t"
  by (auto simp: segs_inv_def distinct_map dest: inj_onD)

lemma segs_at_in: "segs_at segs i = Ok s \<Longrightarrow> s \<in> set segs"
  by (auto simp: segs_at_def split: if_splits)

lemma number_parts_length [simp]: "length (number_parts mk k xs) = length xs"
  by (simp add: number_parts_def)

lemma number_parts_nth: "i < length xs \<Longrightarrow> number_parts mk k xs ! i = mk (k + i) (xs ! i)"
  by (simp add: number_parts_def)

lemma number_parts_set: "set (number_parts mk k xs) = {mk (k + i) (xs ! i) | i. i < length xs}"
proof -
  have "set (number_parts mk k xs) = (\<lambda>i. number_parts mk k xs ! i) ` {..<length xs}"
    by (auto simp: set_conv_nth)
  also have "\<dots> = (\<lambda>i. mk (k + i) (xs ! i)) ` {..<length xs}"
    by (rule image_cong) (simp_all add: number_parts_nth)
  finally show ?thesis by blast
qed

lemma segs_inv_number:
  assumes "\<And>i j x y. seg_Range (mk i x) = seg_Range (mk j y) \<Longrightarrow> i = j"
  shows "segs_inv (number_parts mk k xs)"
proof -
  have "i = j" if "seg_Range (mk (k + i) (xs ! i)) = seg_Range (mk (k + j) (xs ! j))" for i j
    using assms [OF that] by simp
  then show ?thesis by (auto simp: segs_inv_def distinct_conv_nth number_parts_nth)
qed

lemma find_value_Some:
  "find_value v k ss = Some i \<Longrightarrow> k \<le> i \<and> i < k + length ss \<and> seg_ListValue (ss ! (i - k)) = v"
proof (induction ss arbitrary: k)
  case (Cons s ss)
  show ?case
  proof (cases "seg_ListValue s = v")
    case False
    with Cons.prems have "find_value v (Suc k) ss = Some i" by simp
    then have "Suc k \<le> i \<and> i < Suc k + length ss \<and> seg_ListValue (ss ! (i - Suc k)) = v"
      by (rule Cons.IH)
    moreover from this have "i - k = Suc (i - Suc k)" by linarith
    ultimately show ?thesis by simp
  qed (use Cons in simp)
qed simp

lemma find_value_None: "find_value v k ss = None \<longleftrightarrow> v \<notin> seg_ListValue ` set ss"
  by (induction ss arbitrary: k) auto

interpretation list_method: partition_method
  "\<lambda>l. segs_inv (l_Segments l)" List_GetSegments List_Lookup List_GetIndex List_GetSegment
proof unfold_locales
  fix a b p ss
  assume "List_Lookup p a b = Ok ss"
  then show "set ss \<subseteq> set (List_GetSegments p)"
    by (auto simp: List_Lookup_def List_GetSegments_def res_simps dest: segs_at_in
        split: option.splits if_splits)
next
  fix p v i s
  assume "List_GetIndex p v = Ok i" "List_GetSegment p i = Ok s"
  then show "\<exists>ss. List_Lookup p (Some v) (Some v) = Ok ss \<and> s \<in> set ss"
    by (auto simp: List_Lookup_def List_GetSegment_def split: if_splits)
qed (auto simp: List_Lookup_def List_GetSegments_def List_GetSegment_def
    intro: segs_inv_id segs_at_in split: option.splits if_splits)

interpretation global_method: partition_method
  "\<lambda>g. segs_inv (g_Segments g)" Global_GetSegments Global_Lookup Global_GetIndex Global_GetSegment
  by unfold_locales
    (auto simp: Global_Lookup_def Global_GetSegments_def Global_GetSegment_def Global_GetIndex_def
      intro: segs_inv_id segs_at_in split: if_splits)

interpretation single_method: partition_method
  "\<lambda>s. segs_inv (s_Segments s)" Single_GetSegments Single_Lookup Single_GetIndex Single_GetSegment
  by unfold_locales
    (auto simp: Single_Lookup_def Single_GetSegments_def Single_GetSegment_def Single_GetIndex_def
      intro: segs_inv_id segs_at_in split: if_splits)

fun Partition_ok :: "Partition \<Rightarrow> bool" where
  "Partition_ok (PHash h) = hash_ok h"
| "Partition_ok (PGlobal g) = segs_inv (g_Segments g)"
| "Partition_ok (PSingle s) = segs_inv (s_Segments s)"
| "Partition_ok (PList l) = segs_inv (l_Segments l)"

interpretation any_method: partition_method
  Partition_ok Partition_GetSegments "Partition_Lookup pf" "Partition_GetIndex pf" Partition_GetSegment for pf
proof unfold_locales
  fix a b :: "SQLVal option" and p
  show "a = None \<or> b = None \<Longrightarrow> Partition_Lookup pf p a b = Ok (Partition_GetSegments p)"
    by (cases p) (simp_all add: hash_method.lookup_open list_method.lookup_open
        global_method.lookup_open single_method.lookup_open)
next
  fix a b p ss
  show "Partition_ok p \<Longrightarrow> Partition_Lookup pf p a b = Ok ss \<Longrightarrow> set ss \<subseteq> set (Partition_GetSegments p)"
    by (cases p) (simp_all add: hash_method.lookup_sub list_method.lookup_sub
        global_method.lookup_sub single_method.lookup_sub)
next
  fix p v i s
  show "Partition_ok p \<Longrightarrow> Partition_GetIndex pf p v = Ok i \<Longrightarrow> Partition_GetSegment p i = Ok s \<Longrightarrow>
      \<exists>ss. Partition_Lookup pf p (Some v) (Some v) = Ok ss \<and> s \<in> set ss"
    by (cases p) (simp_all add: hash_method.lookup_point list_method.lookup_point
        global_method.lookup_point single_method.lookup_point)
next
  fix p i s
  show "Partition_ok p \<Longrightarrow> Partition_GetSegment p i = Ok s \<Longrightarrow> s \<in> set (Partition_GetSegments p)"
    by (cases p) (simp_all add: hash_method.segment_in list_method.segment_in
        global_method.segment_in single_method.segment_in)
next
  fix p s t
  show "Partition_ok p \<Longrightarrow> s \<in> set (Partition_GetSegments p) \<Longrightarrow> t \<in> set (Partition_GetSegments p) \<Longrightarrow>
      seg_Range s = seg_Range t \<Longrightarrow> s = t"
    by (cases p) (simp_all add: hash_method.range_id list_method.range_id
        global_method.range_id single_method.range_id)
qed

text \<open>A list lookup of a value returns a segment of that value.\<close>

lemma List_Lookup_value:
  assumes "List_Lookup l (Some v) (Some v) = Ok ss"
  shows "\<exists>s \<in> set (l_Segments l). ss = [s] \<and> seg_ListValue s = sv_Val v"
proof -
  from assms obtain i s where i: "find_value (sv_Val v) 0 (l_Segments l) = Some i"
    and s: "segs_at (l_Segments l) (int i) = Ok s" and ss: "ss = [s]"
    by (auto simp: List_Lookup_def List_GetIndex_def res_simps split: option.splits)
  from find_value_Some [OF i] s have "seg_ListValue s = sv_Val v"
    by (simp add: segs_at_def split: if_splits)
  with segs_at_in [OF s] ss show ?thesis by blast
qed

end
