(* ===== verification/Compute.thy ===== *)
theory Compute
  imports Plain_Partitions "HOL-Library.Multiset"
begin

text \<open>
  \<open>router/compute.go\<close>: how the partitions of a new table are laid out over the backends. The
  lemmas show that the hash layout is a chain of adjacent ranges from 0 to the number of slots, so
  \<open>Hash.Build\<close> accepts it and every slot has exactly one segment, and that the list layout keeps the
  backend each value was given.
\<close>

section \<open>The code\<close>

text \<open>Go's integer division truncates toward zero.\<close>

definition go_quot :: "int \<Rightarrow> int \<Rightarrow> int" where
  "go_quot a b = (if (a < 0) = (b < 0) then \<bar>a\<bar> div \<bar>b\<bar> else - (\<bar>a\<bar> div \<bar>b\<bar>))"

definition partitionNums :: "int list" where
  "partitionNums = [8, 16, 32, 64]"

text \<open>The number of slots per partition table: the configured one, or the one \<open>PARTITIONS n\<close> asks for.\<close>

definition uniform_blocks :: "RouterConfig \<Rightarrow> SQLVal option \<Rightarrow> int res" where
  "uniform_blocks rc partitionNum =
     (case partitionNum of
        None \<Rightarrow> Ok (rc_Blocks rc)
      | Some v \<Rightarrow>
          (case atoi (sv_Val v) of
             None \<Rightarrow> Err (Errorf ''strconv.Atoi: parsing %q: invalid syntax'' [sv_Val v])
           | Some num \<Rightarrow>
               if list_ex (\<lambda>partNum. num = partNum) partitionNums
               then Ok (go_quot (rc_Slots rc) num)
               else Err (Errorf ''number.of.partitions.must.be.one.of.the.list.[8, 16, 32, 64]'' [])))"

definition hash_range :: "int \<Rightarrow> int \<Rightarrow> int \<Rightarrow> int \<Rightarrow> int \<Rightarrow> int \<Rightarrow> int \<Rightarrow> int \<times> int" where
  "hash_range slots blocks nums slotsPerShard tablesPerShard s i =
     (let step = s * slotsPerShard in
      (i * blocks + step,
       if i = tablesPerShard - 1
       then (if s = nums - 1 then slots else step + slotsPerShard)
       else (i + 1) * blocks + step))"

definition hash_partConf ::
  "string \<Rightarrow> string list \<Rightarrow> int \<Rightarrow> int \<Rightarrow> int \<Rightarrow> int \<Rightarrow> int \<Rightarrow> int \<Rightarrow> PartitionConfig" where
  "hash_partConf table backends slots blocks slotsPerShard tablesPerShard s i =
     (let (mn, mx) = hash_range slots blocks (int (length backends)) slotsPerShard tablesPerShard s i;
          name = s * tablesPerShard + i in
      \<lparr>pc_Table = table @ ''_'' @ show_pad4 (nat name),
       pc_Segment = show_int mn @ ''-'' @ show_int mx,
       pc_Backend = backends ! nat s, pc_ListValue = []\<rparr>)"

text \<open>The two nested loops: \<open>s\<close> over the backends, \<open>i\<close> over the tables of one backend.\<close>

definition int_range :: "int \<Rightarrow> int list" where
  "int_range n = map int [0..<nat n]"

definition hash_partitions ::
  "string \<Rightarrow> string list \<Rightarrow> int \<Rightarrow> int \<Rightarrow> int \<Rightarrow> int \<Rightarrow> PartitionConfig list" where
  "hash_partitions table backends slots blocks slotsPerShard tablesPerShard =
     concat (map (\<lambda>s. map (hash_partConf table backends slots blocks slotsPerShard tablesPerShard s)
                        (int_range tablesPerShard))
               (int_range (int (length backends))))"

definition HashUniform ::
  "RouterConfig \<Rightarrow> string \<Rightarrow> string \<Rightarrow> string list \<Rightarrow> SQLVal option \<Rightarrow> TableConfig res" where
  "HashUniform rc table shardkey backends partitionNum =
     (if table = [] then Err (Errorf ''table.cant.be.null'' [])
      else if shardkey = [] then Err (Errorf ''shard.key.cant.be.null'' [])
      else rbind (uniform_blocks rc partitionNum) (\<lambda>blocks.
        let slots = rc_Slots rc; nums = int (length backends) in
        if nums = 0 then Err (Errorf ''router.compute.backends.is.null'' [])
        else if slots \<le> nums
        then Err (Errorf ''router.compute.backends[%d].too.many:[max:%d]'' [show_int nums, show_int slots])
        else if blocks = 0 then Panic ''integer divide by zero''
        else
          let slotsPerShard = go_quot slots nums; tablesPerShard = go_quot slotsPerShard blocks in
          Ok \<lparr>tc_Name = table, tc_Slots = slots, tc_Blocks = blocks, tc_ShardType = ''HASH'',
              tc_ShardKey = shardkey,
              tc_Partitions = hash_partitions table (sort backends) slots blocks slotsPerShard tablesPerShard,
              tc_AutoIncrement = None\<rparr>))"

definition plain_partConf :: "string \<Rightarrow> string \<Rightarrow> PartitionConfig" where
  "plain_partConf table backend =
     \<lparr>pc_Table = table, pc_Segment = [], pc_Backend = backend, pc_ListValue = []\<rparr>"

definition plain_tableConf :: "string \<Rightarrow> string \<Rightarrow> string \<Rightarrow> PartitionConfig list \<Rightarrow> TableConfig" where
  "plain_tableConf table shardType shardKey parts =
     \<lparr>tc_Name = table, tc_Slots = 0, tc_Blocks = 0, tc_ShardType = shardType, tc_ShardKey = shardKey,
      tc_Partitions = parts, tc_AutoIncrement = None\<rparr>"

definition GlobalUniform :: "string \<Rightarrow> string list \<Rightarrow> TableConfig res" where
  "GlobalUniform table backends =
     (if table = [] then Err (Errorf ''table.cant.be.null'' [])
      else if backends = [] then Err (Errorf ''router.compute.backends.is.null'' [])
      else Ok (plain_tableConf table ''GLOBAL'' [] (map (plain_partConf table) backends)))"

definition SingleUniform :: "string \<Rightarrow> string list \<Rightarrow> TableConfig res" where
  "SingleUniform table backends =
     (if table = [] then Err (Errorf ''table.cant.be.null'' [])
      else if backends = [] then Err (Errorf ''router.compute.backends.is.null'' [])
      else Ok (plain_tableConf table ''SINGLE'' [] [plain_partConf table (hd backends)]))"

text \<open>
  A row of a partition definition holds expressions; the code asserts that each is a literal and
  panics otherwise (\<open>None\<close>).
\<close>

record PartitionDefinition =
  pd_Backend :: string
  pd_Row :: "SQLVal option list"

fun merge_row :: "string \<Rightarrow> SQLVal option list \<Rightarrow> (string, string) gomap \<Rightarrow> (string, string) gomap res" where
  "merge_row backend [] m = Ok m"
| "merge_row backend (None # row) m =
     Panic ''interface conversion: sqlparser.Expr is not *sqlparser.SQLVal''"
| "merge_row backend (Some v # row) m =
     (case gm_get m (sv_Val v) of
        None \<Rightarrow> merge_row backend row (gm_put (sv_Val v) backend m)
      | Some b \<Rightarrow>
          if b \<noteq> backend then Err (Errorf ''partition.list.different.backend.with.same.values'' [])
          else merge_row backend row m)"

fun listMergePartition ::
  "PartitionDefinition list \<Rightarrow> (string, string) gomap \<Rightarrow> (string, string) gomap res" where
  "listMergePartition [] m = Ok m"
| "listMergePartition (onePart # parts) m =
     rbind (merge_row (pd_Backend onePart) (pd_Row onePart) m) (listMergePartition parts)"

text \<open>\<open>rng\<close> is the order in which the Go runtime ranges over the map: some permutation of it.\<close>

definition list_partConf :: "string \<Rightarrow> nat \<Rightarrow> string \<times> string \<Rightarrow> PartitionConfig" where
  "list_partConf table i vb =
     \<lparr>pc_Table = table @ ''_'' @ show_pad4 i, pc_Segment = [], pc_Backend = snd vb, pc_ListValue = fst vb\<rparr>"

definition ListUniform ::
  "((string, string) gomap \<Rightarrow> (string, string) gomap) \<Rightarrow> string \<Rightarrow> string \<Rightarrow>
     PartitionDefinition list \<Rightarrow> TableConfig res" where
  "ListUniform rng table shardkey partitionDef =
     (if table = [] then Err (Errorf ''table.cant.be.null'' [])
      else if shardkey = [] then Err (Errorf ''shard.key.cant.be.null'' [])
      else rbind (listMergePartition partitionDef []) (\<lambda>listMap.
        if listMap = [] then Err (Errorf ''router.compute.partition.list.is.null'' [])
        else Ok (plain_tableConf table ''LIST'' shardkey (number_parts (list_partConf table) 0 (rng listMap)))))"

section \<open>Chains of ranges\<close>

fun chain :: "int \<Rightarrow> (int \<times> int) list \<Rightarrow> int \<Rightarrow> bool" where
  "chain a [] b = (a = b)"
| "chain a ((x, y) # rs) b = (x = a \<and> x < y \<and> chain y rs b)"

lemma chain_append: "chain a rs b \<Longrightarrow> chain b rs' c \<Longrightarrow> chain a (rs @ rs') c"
  by (induction a rs b rule: chain.induct) auto

lemma chain_le: "chain a rs b \<Longrightarrow> a \<le> b"
  by (induction a rs b rule: chain.induct) auto

lemma hash_bitmap_free:
  "gm_wf m \<Longrightarrow> \<forall>k. i \<le> k \<and> k < fin \<longrightarrow> gm_get m k = None \<Longrightarrow>
     \<exists>m'. hash_bitmap spec p i fin m = Ok m' \<and> length m' = length m + nat (fin - i)"
proof (induction spec p i fin m rule: hash_bitmap.induct)
  case (1 spec p i fin m)
  show ?case
  proof (cases "i < fin")
    case True
    with "1.prems" have free: "gm_get m i = None" by simp
    have "\<exists>m'. hash_bitmap spec p (i + 1) fin (gm_put i p m) = Ok m' \<and>
        length m' = length (gm_put i p m) + nat (fin - (i + 1))"
      by (rule "1.IH" [OF True free]) (use "1.prems" in \<open>auto simp: gomap_simps\<close>)
    with True free show ?thesis
      by (subst hash_bitmap.simps) (auto simp: gm_put_length)
  qed (simp add: hash_bitmap.simps [of spec p i])
qed

text \<open>\<open>Hash.Build\<close> accepts a chain of ranges over free slots.\<close>

lemma hash_build_chain:
  assumes "chain a rs b" "list_all2 (\<lambda>p r. hash_spec (pc_Segment p) = Ok r) parts rs"
    "gm_wf m" "\<forall>k \<ge> a. gm_get m k = None"
  shows "\<exists>m' segs'. hash_build_parts rid parts (m, segs) = Ok (m', segs @ segs') \<and>
     int (length m') = int (length m) + (b - a) \<and>
     (\<forall>s \<in> set segs'. a \<le> seg_start s \<and> seg_end s \<le> b)"
  using assms
proof (induction parts arbitrary: a rs m rid segs)
  case (Cons p parts)
  then obtain y rs' where rs: "rs = (a, y) # rs'" and y: "a < y" "chain y rs' b"
    and spec: "hash_spec (pc_Segment p) = Ok (a, y)"
    and parts: "list_all2 (\<lambda>p r. hash_spec (pc_Segment p) = Ok r) parts rs'"
    by (auto simp: list_all2_Cons1)
  let ?p = "hash_segment rid p a y"
  from hash_bitmap_free [OF \<open>gm_wf m\<close>, of a y "pc_Segment p" ?p] Cons.prems(4) obtain m1
    where m1: "hash_bitmap (pc_Segment p) ?p a y m = Ok m1" "length m1 = length m + nat (y - a)" by auto
  note bits = hash_bitmap_spec [OF m1(1) \<open>gm_wf m\<close>]
  from Cons.IH [OF y(2) parts, of m1 "Suc rid" "segs @ [?p]"] bits Cons.prems(4) y(1)
  obtain m' segs' where "hash_build_parts (Suc rid) parts (m1, segs @ [?p]) = Ok (m', (segs @ [?p]) @ segs')"
    and "int (length m') = int (length m1) + (b - y)"
    and "\<forall>s \<in> set segs'. y \<le> seg_start s \<and> seg_end s \<le> b" by auto
  with spec m1 y(1) chain_le [OF y(2)] show ?case
    by (intro exI [of _ m'] exI [of _ "?p # segs'"]) auto
qed (auto simp: list_all2_Nil)

lemma Hash_Build_chain:
  assumes "chain 0 rs slots" "list_all2 (\<lambda>p r. hash_spec (pc_Segment p) = Ok r) (tc_Partitions conf) rs"
    "0 < slots" "slots < 2 ^ 31"
  shows "\<exists>h. Hash_Build (NewHash slots conf) = Ok h \<and> hash_ok h"
proof -
  from hash_build_chain [OF assms(1,2), of "[]" 0 "[]"] obtain m segs
    where parts: "hash_build_parts 0 (tc_Partitions conf) ([], []) = Ok (m, segs)"
      and len: "int (length m) = slots"
      and bounds: "\<forall>s \<in> set segs. 0 \<le> seg_start s \<and> seg_end s \<le> slots" by auto
  let ?h = "(NewHash slots conf)\<lparr>h_partitions := m, h_Segments := sort_key seg_start segs\<rparr>"
  from parts len have build: "Hash_Build (NewHash slots conf) = Ok ?h"
    by (simp add: Hash_Build_def NewHash_def)
  with Hash_Build_inv [OF build] bounds assms(3,4) show ?thesis
    by (auto simp: hash_ok_def NewHash_def)
qed

section \<open>The hash layout\<close>

lemma go_quot_nonneg: "0 \<le> a \<Longrightarrow> 0 < b \<Longrightarrow> go_quot a b = a div b"
  by (simp add: go_quot_def)

lemma div_mult_le: "0 < b \<Longrightarrow> a div b * b \<le> (a :: int)"
  by (simp add: minus_mod_eq_div_mult [symmetric])

lemma hash_spec_show:
  assumes "0 \<le> a" "a < b" "b < 2 ^ 63"
  shows "hash_spec (show_int a @ ''-'' @ show_int b) = Ok (a, b)"
proof -
  have "split_on (CHR ''-'') (show_nat (nat a) @ CHR ''-'' # show_nat (nat b)) =
      [show_nat (nat a), show_nat (nat b)]"
    by (simp add: split_on_join split_on_free show_nat_no_minus)
  moreover have "atoi (show_nat (nat a)) = Some a" "atoi (show_nat (nat b)) = Some b"
    using assms by (simp_all add: atoi_show_nat)
  ultimately show ?thesis using assms by (simp add: hash_spec_def show_int_def)
qed

text \<open>The ranges of one backend, and of all of them.\<close>

lemma int_range_Suc: "int_range (int (Suc k)) = int_range (int k) @ [int k]"
  unfolding int_range_def nat_int by simp

lemma chain_snoc: "chain a rs b \<Longrightarrow> b < c \<Longrightarrow> chain a (rs @ [(b, c)]) c"
  by (rule chain_append) simp_all

lemma shard_prefix_chain:
  "0 < blocks \<Longrightarrow> int k < tps \<Longrightarrow>
     chain (s * sps) (map (hash_range slots blocks nums sps tps s) (int_range (int k))) (s * sps + int k * blocks)"
proof (induction k)
  case 0
  then show ?case by (simp add: int_range_def)
next
  case (Suc k)
  have r: "hash_range slots blocks nums sps tps s (int k) =
      (s * sps + int k * blocks, s * sps + int (Suc k) * blocks)"
    using Suc.prems by (simp add: hash_range_def Let_def algebra_simps)
  have "s * sps + int k * blocks < s * sps + int (Suc k) * blocks"
    using Suc.prems by (simp add: algebra_simps)
  with Suc show ?case
    unfolding int_range_Suc map_append list.map r by (intro chain_snoc) simp_all
qed

lemma shard_chain:
  assumes "0 < blocks" "0 < tps" "tps * blocks \<le> sps" "0 \<le> s" "s < nums" "nums * sps \<le> slots"
  shows "chain (s * sps) (map (hash_range slots blocks nums sps tps s) (int_range tps))
           (if s = nums - 1 then slots else (s + 1) * sps)"
proof -
  define k where "k = nat (tps - 1)"
  with assms have k: "tps = int (Suc k)" by simp
  define fin where "fin = (if s = nums - 1 then slots else (s + 1) * sps)"
  have r: "hash_range slots blocks nums sps tps s (int k) = (s * sps + int k * blocks, fin)"
    using k by (simp add: hash_range_def Let_def fin_def algebra_simps)
  have "chain (s * sps) (map (hash_range slots blocks nums sps tps s) (int_range (int k)))
      (s * sps + int k * blocks)"
    using assms k by (intro shard_prefix_chain) simp_all
  moreover have "s * sps + int k * blocks < fin"
  proof -
    have "int k * blocks < sps" using assms k by (simp add: algebra_simps)
    moreover have "(s + 1) * sps \<le> fin"
    proof (cases "s = nums - 1")
      case True
      with assms(6) show ?thesis by (simp add: fin_def)
    qed (simp add: fin_def)
    ultimately show ?thesis by (simp add: algebra_simps)
  qed
  ultimately have "chain (s * sps) (map (hash_range slots blocks nums sps tps s) (int_range (int k)) @
      [(s * sps + int k * blocks, fin)]) fin" by (rule chain_snoc)
  then show ?thesis unfolding fin_def [symmetric]
    by (subst (2) k) (simp only: int_range_Suc map_append list.map r)
qed

lemma layout_chain:
  assumes "0 < blocks" "0 < tps" "tps * blocks \<le> sps" "nums * sps \<le> slots" "int k \<le> nums"
  shows "chain 0 (concat (map (\<lambda>s. map (hash_range slots blocks nums sps tps s) (int_range tps)) (int_range (int k))))
           (if int k = nums \<and> 0 < k then slots else int k * sps)"
  using assms(5)
proof (induction k)
  case 0
  then show ?case by (simp add: int_range_def)
next
  case (Suc k)
  then have "chain 0 (concat (map (\<lambda>s. map (hash_range slots blocks nums sps tps s) (int_range tps))
      (int_range (int k)))) (int k * sps)" by auto
  moreover have "chain (int k * sps) (map (hash_range slots blocks nums sps tps (int k)) (int_range tps))
      (if int k = nums - 1 then slots else (int k + 1) * sps)"
    using assms Suc.prems by (intro shard_chain) simp_all
  ultimately have "chain 0 (concat (map (\<lambda>s. map (hash_range slots blocks nums sps tps s) (int_range tps))
      (int_range (int (Suc k))))) (if int k = nums - 1 then slots else (int k + 1) * sps)"
    unfolding int_range_Suc map_append concat_append by (simp add: chain_append)
  moreover have "(if int k = nums - 1 then slots else (int k + 1) * sps) =
      (if int (Suc k) = nums \<and> 0 < Suc k then slots else int (Suc k) * sps)" by auto
  ultimately show ?case by (simp only:)
qed

lemma chain_bounds: "chain a rs b \<Longrightarrow> (x, y) \<in> set rs \<Longrightarrow> a \<le> x \<and> x < y \<and> y \<le> b"
proof (induction a rs b rule: chain.induct)
  case (2 a x' y' rs b)
  then show ?case using chain_le [of y' rs b] by auto
qed simp

lemma concat_map_product:
  "concat (map (\<lambda>s. map (f s) ts) ss) = map (\<lambda>(s, i). f s i) (List.product ss ts)"
  by (simp add: product_concat_map map_concat comp_def)

abbreviation loops :: "int \<Rightarrow> int \<Rightarrow> (int \<times> int) list" where
  "loops nums tps \<equiv> List.product (int_range nums) (int_range tps)"

lemma hash_partitions_loops:
  "hash_partitions table backends slots blocks sps tps =
     map (\<lambda>(s, i). hash_partConf table backends slots blocks sps tps s i) (loops (int (length backends)) tps)"
  by (simp add: hash_partitions_def concat_map_product)

lemma hash_partitions_specs:
  assumes "0 < blocks" "0 < tps" "tps * blocks \<le> sps" "backends \<noteq> []"
    "int (length backends) * sps \<le> slots" "slots < 2 ^ 31"
  shows "\<exists>rs. chain 0 rs slots \<and>
     list_all2 (\<lambda>p r. hash_spec (pc_Segment p) = Ok r) (hash_partitions table backends slots blocks sps tps) rs"
proof -
  let ?n = "int (length backends)"
  let ?r = "\<lambda>(s, i). hash_range slots blocks ?n sps tps s i"
  have ch: "chain 0 (map ?r (loops ?n tps)) slots"
    using layout_chain [OF assms(1-3,5) order_refl] assms(4) by (simp add: concat_map_product)
  have "hash_spec (pc_Segment (hash_partConf table backends slots blocks sps tps s i)) = Ok (?r (s, i))"
    if "(s, i) \<in> set (loops ?n tps)" for s i
  proof -
    obtain x y where xy: "hash_range slots blocks ?n sps tps s i = (x, y)" by fastforce
    have "(x, y) \<in> set (map ?r (loops ?n tps))" using that xy by force
    from chain_bounds [OF ch this] assms(6) have "hash_spec (show_int x @ ''-'' @ show_int y) = Ok (x, y)"
      by (intro hash_spec_show) simp_all
    with xy show ?thesis by (simp add: hash_partConf_def)
  qed
  then have "list_all2 (\<lambda>p r. hash_spec (pc_Segment p) = Ok r)
      (hash_partitions table backends slots blocks sps tps) (map ?r (loops ?n tps))"
    by (auto simp: hash_partitions_loops list_all2_map1 list_all2_map2 list_all2_same)
  with ch show ?thesis by blast
qed

text \<open>Each backend gets the same number of partition tables, and their names are numbered through.\<close>

lemma replicate_int_range: "map (\<lambda>i. x) (int_range t) = replicate (nat t) x"
  by (simp add: int_range_def map_replicate_const)

lemma mset_concat_replicate: "mset (concat (map (replicate k) xs)) = repeat_mset k (mset xs)"
  by (induction xs) simp_all

lemma hash_partitions_backends:
  "mset (map pc_Backend (hash_partitions table backends slots blocks sps tps)) =
     repeat_mset (nat tps) (mset backends)"
proof -
  have "map pc_Backend (hash_partitions table backends slots blocks sps tps) =
      concat (map (\<lambda>s. replicate (nat tps) (backends ! s)) [0..<length backends])"
    by (simp add: hash_partitions_def map_concat comp_def hash_partConf_def case_prod_beta Let_def
        replicate_int_range int_range_def [of "int (length backends)"])
  also have "\<dots> = concat (map (replicate (nat tps)) (map ((!) backends) [0..<length backends]))"
    by (simp add: comp_def)
  also have "\<dots> = concat (map (replicate (nat tps)) backends)" by (simp only: map_nth)
  finally show ?thesis by (simp only: mset_concat_replicate)
qed

lemma loops_numbers:
  assumes "0 \<le> tps"
  shows "map (\<lambda>(s, i). s * tps + i) (loops (int n) tps) = int_range (int n * tps)"
proof (induction n)
  case 0
  then show ?case by (simp add: int_range_def)
next
  case (Suc n)
  obtain t where t: "tps = int t" using assms by (metis nonneg_int_cases)
  have "map (\<lambda>i. int n * tps + i) (int_range tps) = map int [n * t..<n * t + t]"
    by (simp add: t int_range_def map_add_upt [symmetric] comp_def add.commute)
  moreover have "int_range (int n * tps) @ map int [n * t..<n * t + t] = int_range (int (Suc n) * tps)"
    unfolding t int_range_def of_nat_mult [symmetric] nat_int
    using upt_add_eq_append [of 0 "n * t" t] by (simp add: add.commute flip: map_append)
  ultimately show ?case using Suc
    unfolding int_range_Suc by (simp add: concat_map_product [symmetric] product_concat_map comp_def)
qed

lemma hash_partitions_names:
  assumes "0 \<le> tps"
  shows "distinct (map pc_Table (hash_partitions table backends slots blocks sps tps))"
proof -
  have "map pc_Table (hash_partitions table backends slots blocks sps tps) =
      map (\<lambda>k. table @ ''_'' @ show_pad4 (nat k))
        (map (\<lambda>(s, i). s * tps + i) (loops (int (length backends)) tps))"
    by (simp add: hash_partitions_loops hash_partConf_def case_prod_beta Let_def)
  also have "\<dots> = map (\<lambda>k. table @ ''_'' @ show_pad4 k) [0..<nat (int (length backends) * tps)]"
    unfolding loops_numbers [OF assms] by (simp add: int_range_def comp_def)
  finally show ?thesis by (simp add: distinct_map inj_on_def show_pad4_inject)
qed

lemma HashUniform_unfold:
  assumes "table \<noteq> []" "shardkey \<noteq> []" "uniform_blocks rc pn = Ok blocks" "backends \<noteq> []"
    "int (length backends) < rc_Slots rc" "0 < blocks"
  shows "HashUniform rc table shardkey backends pn =
     Ok \<lparr>tc_Name = table, tc_Slots = rc_Slots rc, tc_Blocks = blocks, tc_ShardType = ''HASH'',
         tc_ShardKey = shardkey,
         tc_Partitions = hash_partitions table (sort backends) (rc_Slots rc) blocks
           (rc_Slots rc div int (length backends)) (rc_Slots rc div int (length backends) div blocks),
         tc_AutoIncrement = None\<rparr>"
  using assms by (simp add: HashUniform_def Let_def go_quot_nonneg pos_imp_zdiv_nonneg_iff)

lemma HashUniform_builds:
  assumes "table \<noteq> []" "shardkey \<noteq> []" "uniform_blocks rc pn = Ok blocks" "backends \<noteq> []"
    "int (length backends) < rc_Slots rc" "rc_Slots rc < 2 ^ 31" "0 < blocks"
    and room: "blocks \<le> rc_Slots rc div int (length backends)"
  shows "\<exists>conf h. HashUniform rc table shardkey backends pn = Ok conf \<and>
     Hash_Build (NewHash (tc_Slots conf) conf) = Ok h \<and> hash_ok h \<and> h_slots h = rc_Slots rc \<and>
     distinct (map pc_Table (tc_Partitions conf)) \<and>
     mset (map pc_Backend (tc_Partitions conf)) =
       repeat_mset (nat (rc_Slots rc div int (length backends) div blocks)) (mset backends)"
proof -
  let ?n = "int (length backends)" and ?slots = "rc_Slots rc"
  define sps where "sps = ?slots div ?n"
  define tps where "tps = sps div blocks"
  define conf where "conf = \<lparr>tc_Name = table, tc_Slots = ?slots, tc_Blocks = blocks, tc_ShardType = ''HASH'',
    tc_ShardKey = shardkey, tc_Partitions = hash_partitions table (sort backends) ?slots blocks sps tps,
    tc_AutoIncrement = None\<rparr>"
  have conf: "HashUniform rc table shardkey backends pn = Ok conf"
    unfolding conf_def sps_def tps_def using assms(1-5,7) by (rule HashUniform_unfold)
  have tps: "0 < tps" using room assms(7) by (simp add: tps_def sps_def pos_imp_zdiv_pos_iff)
  have "tps * blocks \<le> sps" unfolding tps_def by (rule div_mult_le) (rule assms(7))
  moreover have "?n * sps \<le> ?slots" using assms(4) div_mult_le [of ?n ?slots] by (simp add: sps_def mult.commute)
  ultimately have "\<exists>rs. chain 0 rs ?slots \<and> list_all2 (\<lambda>p r. hash_spec (pc_Segment p) = Ok r) (tc_Partitions conf) rs"
    unfolding conf_def TableConfig.select_convs
    by (intro hash_partitions_specs) (use assms tps in \<open>simp_all add: length_greater_0_conv [symmetric]
      del: length_greater_0_conv\<close>)
  then obtain rs where "chain 0 rs ?slots"
    "list_all2 (\<lambda>p r. hash_spec (pc_Segment p) = Ok r) (tc_Partitions conf) rs" by blast
  then obtain h where h: "Hash_Build (NewHash ?slots conf) = Ok h" "hash_ok h"
    using Hash_Build_chain assms(5,6) by fastforce
  have "distinct (map pc_Table (tc_Partitions conf))"
    using tps by (simp add: conf_def hash_partitions_names)
  moreover have "mset (map pc_Backend (tc_Partitions conf)) = repeat_mset (nat tps) (mset backends)"
    by (simp add: conf_def hash_partitions_backends del: mset_map)
  moreover have "h_slots h = ?slots" using Hash_Build_inv [OF h(1)] by simp
  ultimately show ?thesis using conf h by (auto simp: tps_def sps_def conf_def)
qed

section \<open>The list layout\<close>

lemma merge_row_spec:
  assumes "merge_row backend row m = Ok m'" "gm_wf m"
  shows "gm_wf m' \<and> (\<forall>k b. gm_get m k = Some b \<longrightarrow> gm_get m' k = Some b) \<and>
     (\<forall>v. Some v \<in> set row \<longrightarrow> gm_get m' (sv_Val v) = Some backend)"
  using assms
proof (induction backend row m rule: merge_row.induct)
  case (3 backend v row m)
  show ?case
  proof (cases "gm_get m (sv_Val v)")
    case None
    with 3 have ih: "gm_wf m'" "\<And>k b. gm_get (gm_put (sv_Val v) backend m) k = Some b \<Longrightarrow> gm_get m' k = Some b"
      "\<forall>v. Some v \<in> set row \<longrightarrow> gm_get m' (sv_Val v) = Some backend" by simp_all
    have "gm_get m' k = Some b" if "gm_get m k = Some b" for k b
      by (rule ih(2)) (use that None in \<open>auto simp: gomap_simps\<close>)
    moreover have "gm_get m' (sv_Val v) = Some backend" by (rule ih(2)) (simp add: gomap_simps)
    ultimately show ?thesis using ih(1,3) by simp
  next
    case (Some b)
    with 3 show ?thesis by (auto split: if_splits)
  qed
qed auto

lemma listMergePartition_spec:
  assumes "listMergePartition defs m = Ok m'" "gm_wf m"
  shows "gm_wf m' \<and> (\<forall>k b. gm_get m k = Some b \<longrightarrow> gm_get m' k = Some b) \<and>
     (\<forall>d \<in> set defs. \<forall>v. Some v \<in> set (pd_Row d) \<longrightarrow> gm_get m' (sv_Val v) = Some (pd_Backend d))"
  using assms
proof (induction defs arbitrary: m)
  case (Cons d defs)
  then obtain m1 where m1: "merge_row (pd_Backend d) (pd_Row d) m = Ok m1"
    and rest: "listMergePartition defs m1 = Ok m'" by (auto simp: res_simps)
  note row = merge_row_spec [OF m1 Cons.prems(2)]
  then have "gm_wf m1" by simp
  from Cons.IH [OF rest this] row show ?case by auto
qed simp

lemma gm_wf_mset: "gm_wf m \<Longrightarrow> mset m' = mset m \<Longrightarrow> gm_wf m'"
  unfolding gm_wf_def by (metis mset_map mset_eq_imp_distinct_iff)

lemma List_Build_segments:
  "List_Build (NewList conf) =
     Ok \<lparr>l_typ = ''LIST'', l_conf = conf, l_Segments = number_parts list_segment 0 (tc_Partitions conf)\<rparr>"
  by (simp add: List_Build_def NewList_def)

lemma list_layout_values:
  "map seg_ListValue (number_parts list_segment 0 (number_parts (list_partConf table) 0 kvs)) = map fst kvs"
  by (rule nth_equalityI) (simp_all add: number_parts_nth list_segment_def list_partConf_def)

lemma list_layout_segment:
  "s \<in> set (number_parts list_segment 0 (number_parts (list_partConf table) 0 kvs)) \<Longrightarrow>
     (seg_ListValue s, seg_Backend s) \<in> set kvs"
  by (auto simp: number_parts_set number_parts_nth list_segment_def list_partConf_def)

text \<open>Every value of a list table is found on the backend its definition names.\<close>

lemma ListUniform_lookup:
  assumes rng: "\<And>m. mset (rng m) = mset m"
    and conf: "ListUniform rng table shardkey defs = Ok conf"
    and v: "d \<in> set defs" "Some v \<in> set (pd_Row d)"
  shows "\<exists>l s. List_Build (NewList conf) = Ok l \<and> List_Lookup l (Some v) (Some v) = Ok [s] \<and>
     seg_Backend s = pd_Backend d \<and> seg_ListValue s = sv_Val v"
proof -
  from conf obtain m where m: "listMergePartition defs [] = Ok m"
    and parts: "tc_Partitions conf = number_parts (list_partConf table) 0 (rng m)"
    by (auto simp: ListUniform_def res_simps plain_tableConf_def split: if_splits)
  from listMergePartition_spec [OF m] v have wf: "gm_wf m"
    and hit: "gm_get m (sv_Val v) = Some (pd_Backend d)" by auto
  let ?segs = "number_parts list_segment 0 (tc_Partitions conf)"
  let ?l = "\<lparr>l_typ = ''LIST'', l_conf = conf, l_Segments = ?segs\<rparr>"
  have same: "set (rng m) = set m" using rng by (metis set_mset_mset)
  have "sv_Val v \<in> fst ` set (rng m)" using hit same by (force dest: gm_get_in_set)
  then have "sv_Val v \<in> set (map seg_ListValue ?segs)" by (simp only: parts list_layout_values set_map)
  then obtain i where i: "find_value (sv_Val v) 0 ?segs = Some i"
    by (cases "find_value (sv_Val v) 0 ?segs") (auto simp: find_value_None)
  have "List_Lookup ?l (Some v) (Some v) = Ok [?segs ! i]"
    using find_value_Some [OF i] i by (simp add: List_Lookup_def List_GetIndex_def segs_at_def)
  moreover from List_Lookup_value [OF this] have s: "?segs ! i \<in> set ?segs"
    "seg_ListValue (?segs ! i) = sv_Val v" by auto
  moreover have "seg_Backend (?segs ! i) = pd_Backend d"
    using list_layout_segment [of "?segs ! i" table "rng m"] s same hit wf
    by (simp add: parts gm_wf_get_iff [symmetric])
  ultimately show ?thesis by (auto simp: List_Build_segments)
qed

end
