(* ===== verification/Router.thy ===== *)
theory Router
  imports Compute
begin

text \<open>
  The in-memory router: \<open>router/router.go\<close> and \<open>router/acl.go\<close>. A \<open>Table\<close> points to its
  \<open>TableConfig\<close>, and \<open>getRenameTableConfig\<close> and \<open>changeTheRuleBackend\<close> write through that
  pointer, so the configurations are cells of a store (\<open>r_heap\<close>) and a table holds an address.
  Every exported operation runs under the router's mutex, so an operation is one step on the state.
  \<open>Router.Tables\<close> and the other readers of the whole map see its entries in the order of the
  association list.
\<close>

section \<open>State\<close>

record Table =
  t_Name :: string
  t_ShardKey :: string
  t_Partition :: "Partition option"
  t_TableConfig :: nat

record Schema =
  sc_DB :: string
  sc_Tables :: "(string, Table) gomap"

record Router =
  r_conf :: RouterConfig
  r_Schemas :: "(string, Schema) gomap"
  r_heap :: "TableConfig list"

definition NewRouter :: "RouterConfig \<Rightarrow> Router" where
  "NewRouter conf = \<lparr>r_conf = conf, r_Schemas = [], r_heap = []\<rparr>"

abbreviation conf_at :: "Router \<Rightarrow> nat \<Rightarrow> TableConfig" where
  "conf_at r a \<equiv> r_heap r ! a"

text \<open>\<open>&config.TableConfig{...}\<close>: a new cell and its address.\<close>

definition alloc_conf :: "Router \<Rightarrow> TableConfig \<Rightarrow> Router \<times> nat" where
  "alloc_conf r conf = (r\<lparr>r_heap := r_heap r @ [conf]\<rparr>, length (r_heap r))"

definition get_table :: "Router \<Rightarrow> string \<Rightarrow> string \<Rightarrow> Table option" where
  "get_table r db t = (case gm_get (r_Schemas r) db of None \<Rightarrow> None | Some sc \<Rightarrow> gm_get (sc_Tables sc) t)"

definition upd_tables :: "Router \<Rightarrow> string \<Rightarrow> ((string, Table) gomap \<Rightarrow> (string, Table) gomap) \<Rightarrow> Router" where
  "upd_tables r db f =
     (case gm_get (r_Schemas r) db of
        None \<Rightarrow> r
      | Some sc \<Rightarrow> r\<lparr>r_Schemas := gm_put db (sc\<lparr>sc_Tables := f (sc_Tables sc)\<rparr>) (r_Schemas r)\<rparr>)"

section \<open>Tables\<close>

definition checkDatabase :: "Router \<Rightarrow> string \<Rightarrow> unit res" where
  "checkDatabase r db =
     (if db = [] then Err (SQLError ER_NO_DB_ERROR [])
      else case gm_get (r_Schemas r) db of
             None \<Rightarrow> Err (SQLError ER_BAD_DB_ERROR db)
           | Some _ \<Rightarrow> Ok ())"

text \<open>The switch of \<open>addTable\<close> on the shard type.\<close>

definition build_partition :: "RouterConfig \<Rightarrow> TableConfig \<Rightarrow> Partition res" where
  "build_partition rc tbl =
     (if tc_ShardType tbl = ''HASH'' then
        rbind (Hash_Build (NewHash (if tc_Slots tbl = 0 then rc_Slots rc else tc_Slots tbl) tbl)) (\<lambda>h. Ok (PHash h))
      else if tc_ShardType tbl = ''GLOBAL'' then rbind (Global_Build (NewGlobal (Some tbl))) (\<lambda>g. Ok (PGlobal g))
      else if tc_ShardType tbl = ''SINGLE'' then rbind (Single_Build (NewSingle (Some tbl))) (\<lambda>s. Ok (PSingle s))
      else if tc_ShardType tbl = ''LIST'' then rbind (List_Build (NewList tbl)) (\<lambda>l. Ok (PList l))
      else Err (Errorf ''router.unsupport.shardtype:[%v]'' [tc_ShardType tbl]))"

text \<open>
  The table enters the map before its partition is built, so an error of \<open>Build\<close> leaves it there
  without a partition, as in the source.
\<close>

definition addTable :: "Router \<Rightarrow> string \<Rightarrow> nat option \<Rightarrow> Router \<times> unit res" where
  "addTable r db tbl =
     (case checkDatabase r db of
        Err e \<Rightarrow> (r, Err e)
      | Panic p \<Rightarrow> (r, Panic p)
      | Ok _ \<Rightarrow>
          (case tbl of
             None \<Rightarrow> (r, Err (Errorf ''table.config..can't.be.nil'' []))
           | Some a \<Rightarrow>
               let conf = conf_at r a; name = tc_Name conf in
               (case get_table r db name of
                  Some _ \<Rightarrow> (r, Err (Errorf ''router.add.db[%v].table[%v].exists'' [db, name]))
                | None \<Rightarrow>
                    let table = \<lparr>t_Name = name, t_ShardKey = tc_ShardKey conf, t_Partition = None, t_TableConfig = a\<rparr>;
                        r1 = upd_tables r db (gm_put name table) in
                    (case build_partition (r_conf r) conf of
                       Err e \<Rightarrow> (r1, Err e)
                     | Panic p \<Rightarrow> (r1, Panic p)
                     | Ok p \<Rightarrow> (upd_tables r1 db (gm_put name (table\<lparr>t_Partition := Some p\<rparr>)), Ok ())))))"

definition removeTable :: "Router \<Rightarrow> string \<Rightarrow> string \<Rightarrow> Router \<times> unit res" where
  "removeTable r db table =
     (case gm_get (r_Schemas r) db of
        None \<Rightarrow> (r, Err (Errorf ''router.can.not.find.db[%v]'' [db]))
      | Some sc \<Rightarrow>
          (case gm_get (sc_Tables sc) table of
             None \<Rightarrow> (r, Err (Errorf ''router.can.not.find.table[%v]'' [table]))
           | Some _ \<Rightarrow> (upd_tables r db (gm_del table), Ok ())))"

definition rename_conf :: "string \<Rightarrow> string \<Rightarrow> TableConfig \<Rightarrow> TableConfig" where
  "rename_conf fromTable toTable conf =
     conf\<lparr>tc_Name := toTable,
          tc_Partitions := map (\<lambda>p. p\<lparr>pc_Table := replace_first (pc_Table p) fromTable toTable\<rparr>) (tc_Partitions conf)\<rparr>"

text \<open>The configuration is renamed in place and its address returned.\<close>

definition getRenameTableConfig :: "Router \<Rightarrow> string \<Rightarrow> string \<Rightarrow> string \<Rightarrow> Router \<times> nat res" where
  "getRenameTableConfig r db fromTable toTable =
     (case gm_get (r_Schemas r) db of
        None \<Rightarrow> (r, Err (Errorf ''router.can.not.find.db[%v]'' [db]))
      | Some sc \<Rightarrow>
          (case gm_get (sc_Tables sc) fromTable of
             None \<Rightarrow> (r, Err (Errorf ''router.can.not.find.table[%v]'' [fromTable]))
           | Some table \<Rightarrow>
               (case gm_get (sc_Tables sc) toTable of
                  Some _ \<Rightarrow> (r, Err (Errorf ''router.find.table[%v].exists'' [toTable]))
                | None \<Rightarrow>
                    let a = t_TableConfig table in
                    (r\<lparr>r_heap := (r_heap r)[a := rename_conf fromTable toTable (conf_at r a)]\<rparr>, Ok a))))"

section \<open>Databases\<close>

definition addDatabase :: "Router \<Rightarrow> string \<Rightarrow> Router \<times> unit res" where
  "addDatabase r db =
     (if db = [] then (r, Err (Errorf ''router.database.should.not.be.empty'' []))
      else case gm_get (r_Schemas r) db of
             None \<Rightarrow> (r\<lparr>r_Schemas := gm_put db \<lparr>sc_DB = db, sc_Tables = []\<rparr> (r_Schemas r)\<rparr>, Ok ())
           | Some _ \<Rightarrow> (r, Err (Errorf ''router.database.exists'' [])))"

definition dropDatabase :: "Router \<Rightarrow> string \<Rightarrow> Router \<times> unit res" where
  "dropDatabase r db =
     (case gm_get (r_Schemas r) db of
        None \<Rightarrow> (r, Err (Errorf ''router.can.not.find.db[%v]'' [db]))
      | Some _ \<Rightarrow> (r\<lparr>r_Schemas := gm_del db (r_Schemas r)\<rparr>, Ok ()))"

definition clear_router :: "Router \<Rightarrow> Router" where
  "clear_router r = r\<lparr>r_Schemas := []\<rparr>"

section \<open>Access control\<close>

definition systemDatabases :: "string list" where
  "systemDatabases = [''SYS'', ''MYSQL'', ''INFORMATION_SCHEMA'', ''PERFORMANCE_SCHEMA'']"

definition NewDatabaseACL :: "(string, string) gomap" where
  "NewDatabaseACL = foldl (\<lambda>acls db. gm_put db db acls) [] systemDatabases"

definition ACL_Allow :: "(string, string) gomap \<Rightarrow> string \<Rightarrow> bool" where
  "ACL_Allow acls db = (case gm_get acls (to_upper db) of None \<Rightarrow> True | Some _ \<Rightarrow> False)"

definition ACL_IsSystemDB :: "(string, string) gomap \<Rightarrow> string \<Rightarrow> bool" where
  "ACL_IsSystemDB acls db = (case gm_get acls (to_upper db) of Some _ \<Rightarrow> True | None \<Rightarrow> False)"

definition DatabaseACL :: "string \<Rightarrow> unit res" where
  "DatabaseACL database =
     (if ACL_Allow NewDatabaseACL database then Ok ()
      else Err (SQLError ER_SPECIFIC_ACCESS_DENIED_ERROR
                  (''Access denied; lacking privileges for database '' @ database)))"

definition IsSystemDB :: "string \<Rightarrow> bool" where
  "IsSystemDB database = ACL_IsSystemDB NewDatabaseACL database"

definition IsPartitionHash :: "string \<Rightarrow> bool" where
  "IsPartitionHash partitionType = (partitionType = ''HASH'')"

section \<open>Readers\<close>

definition getTable :: "Router \<Rightarrow> string \<Rightarrow> string \<Rightarrow> Table res" where
  "getTable r database tableName =
     (if database = [] then Err (SQLError ER_NO_DB_ERROR [])
      else if tableName = [] then Err (SQLError ER_NO_SUCH_TABLE tableName)
      else case gm_get (r_Schemas r) database of
             None \<Rightarrow> Err (SQLError ER_NO_SUCH_TABLE (database @ ''.'' @ tableName))
           | Some sc \<Rightarrow>
               (case gm_get (sc_Tables sc) tableName of
                  None \<Rightarrow> Err (SQLError ER_NO_SUCH_TABLE tableName)
                | Some table \<Rightarrow> Ok table))"

text \<open>A method call on the nil interface of a table whose \<open>Build\<close> failed panics.\<close>

definition partition_of :: "Table \<Rightarrow> Partition res" where
  "partition_of table =
     (case t_Partition table of None \<Rightarrow> Panic ''nil pointer dereference'' | Some p \<Rightarrow> Ok p)"

definition ShardKey :: "Router \<Rightarrow> string \<Rightarrow> string \<Rightarrow> string res" where
  "ShardKey r database tableName = rbind (getTable r database tableName) (\<lambda>table. Ok (t_ShardKey table))"

definition PartitionType :: "Router \<Rightarrow> string \<Rightarrow> string \<Rightarrow> string res" where
  "PartitionType r database tableName =
     rbind (getTable r database tableName) (\<lambda>table. rbind (partition_of table) (\<lambda>p. Ok (Partition_Type p)))"

definition Router_TableConfig :: "Router \<Rightarrow> string \<Rightarrow> string \<Rightarrow> TableConfig res" where
  "Router_TableConfig r database tableName =
     rbind (getTable r database tableName) (\<lambda>table. Ok (conf_at r (t_TableConfig table)))"

definition Router_Lookup ::
  "(string \<Rightarrow> 64 word option) \<Rightarrow> Router \<Rightarrow> string \<Rightarrow> string \<Rightarrow> SQLVal option \<Rightarrow> SQLVal option \<Rightarrow> Segment list res" where
  "Router_Lookup pf r database tableName startKey endKey =
     (if database = [] then Err (SQLError ER_NO_DB_ERROR [])
      else if tableName = [] then Err (SQLError ER_NO_SUCH_TABLE tableName)
      else case gm_get (r_Schemas r) database of
             None \<Rightarrow> Err (SQLError ER_BAD_DB_ERROR database)
           | Some sc \<Rightarrow>
               (case gm_get (sc_Tables sc) tableName of
                  None \<Rightarrow> Err (SQLError ER_NO_SUCH_TABLE tableName)
                | Some table \<Rightarrow>
                    rbind (partition_of table) (\<lambda>p. Partition_Lookup pf p startKey endKey)))"

definition Router_Tables :: "Router \<Rightarrow> (string, string list) gomap" where
  "Router_Tables r =
     foldl (\<lambda>acc (_, sc). gm_put (sc_DB sc) (map (t_Name \<circ> snd) (sc_Tables sc)) acc) [] (r_Schemas r)"

definition Router_GetIndex ::
  "(string \<Rightarrow> 64 word option) \<Rightarrow> Router \<Rightarrow> string \<Rightarrow> string \<Rightarrow> SQLVal \<Rightarrow> int res" where
  "Router_GetIndex pf r database tableName v =
     rbind (getTable r database tableName) (\<lambda>table. rbind (partition_of table) (\<lambda>p. Partition_GetIndex pf p v))"

definition Router_GetSegments :: "Router \<Rightarrow> string \<Rightarrow> string \<Rightarrow> int list \<Rightarrow> Segment list res" where
  "Router_GetSegments r database tableName indexes =
     rbind (getTable r database tableName) (\<lambda>table.
       rbind (partition_of table) (\<lambda>p.
         if indexes = [] then Ok (Partition_GetSegments p)
         else pick_segments (Partition_GetSegment p) indexes []))"

definition CheckTable :: "Router \<Rightarrow> string \<Rightarrow> string \<Rightarrow> bool res" where
  "CheckTable r database tableName =
     rbind (checkDatabase r database) (\<lambda>_.
       if tableName = [] then Err (Errorf ''tableName.is.empty'' [])
       else Ok (get_table r database tableName \<noteq> None))"

section \<open>Rules\<close>

text \<open>\<open>Router.Rules\<close> of \<open>router/api.go\<close>: every schema with its tables, in map order.\<close>

record RDatabase =
  rd_DB :: string
  rd_Tables :: "Table list"

definition Rules :: "Router \<Rightarrow> RDatabase list" where
  "Rules r = map (\<lambda>(key, sc). \<lparr>rd_DB = key, rd_Tables = map snd (sc_Tables sc)\<rparr>) (r_Schemas r)"

section \<open>Lookup after update\<close>

named_theorems router_simps \<open>the table map after an operation\<close>

lemma get_table_upd [router_simps]:
  "get_table (upd_tables r db f) db' t =
     (if db' = db
      then (case gm_get (r_Schemas r) db of None \<Rightarrow> None | Some sc \<Rightarrow> gm_get (f (sc_Tables sc)) t)
      else get_table r db' t)"
  by (simp add: get_table_def upd_tables_def gomap_simps split: option.splits)

lemma upd_tables_conf [simp]:
  "r_conf (upd_tables r db f) = r_conf r" "r_heap (upd_tables r db f) = r_heap r"
  by (simp_all add: upd_tables_def split: option.splits)

lemma upd_tables_schemas [router_simps]:
  "gm_get (r_Schemas (upd_tables r db f)) db' =
     (if db' = db then map_option (\<lambda>sc. sc\<lparr>sc_Tables := f (sc_Tables sc)\<rparr>) (gm_get (r_Schemas r) db)
      else gm_get (r_Schemas r) db')"
  by (auto simp: upd_tables_def gomap_simps split: option.splits)

lemma get_table_heap [simp]: "get_table (r\<lparr>r_heap := hp\<rparr>) db t = get_table r db t"
  by (simp add: get_table_def)

lemma checkDatabase_Ok [res_simps]:
  "checkDatabase r db = Ok u \<longleftrightarrow> db \<noteq> [] \<and> gm_get (r_Schemas r) db \<noteq> None"
  by (auto simp: checkDatabase_def split: option.splits)

lemma getTable_get_table:
  "getTable r db t = Ok T \<longleftrightarrow> db \<noteq> [] \<and> t \<noteq> [] \<and> get_table r db t = Some T"
  by (auto simp: getTable_def get_table_def split: option.splits)

end
