(* ===== verification/Sql_Expr.thy ===== *)
theory Sql_Expr
  imports Router
begin

text \<open>
  Expressions of the SQL syntax tree as the planner reads them, and the functions of
  \<open>planner/builder/expr.go\<close> that take a condition apart and find the segments it selects. An expression that the
  planner does not look into is an \<open>OtherExpr\<close> with its children, and a subquery has the tables and the expressions of
  its select. \<open>sqlparser.Walk\<close> visits a node before its
  children; every visitor of the planner either stops with an error or goes on, so a walk is an iteration over the list
  \<open>walk e\<close> of the nodes in that order. A map keyed by column pointers is an association list in insertion order: no two
  of its keys are equal columns.
\<close>

section \<open>The syntax tree\<close>

record TableName =
  tn_Name :: string
  tn_Qualifier :: string

record ColName =
  cn_Name :: string
  cn_Qualifier :: TableName

datatype Expr =
    AndExpr Expr Expr
  | OrExpr Expr Expr
  | NotExpr Expr
  | ParenExpr Expr
  | ComparisonExpr string Expr Expr "Expr option"
  | IsExpr string Expr
  | ColExpr ColName
  | ValExpr SQLVal
  | NullVal
  | ValTuple "Expr list"
  | Subquery "TableName list" "Expr list"
  | FuncExpr string bool "SelectExpr list"
  | GroupConcatExpr "SelectExpr list"
  | OtherExpr string "Expr list"
and SelectExpr =
    StarExpr TableName
  | AliasedExpr Expr string
  | Nextval Expr

definition EqualStr :: string where "EqualStr = ''=''"
definition InStr :: string where "InStr = ''in''"

definition col :: "string \<Rightarrow> string \<Rightarrow> Expr" where
  "col table name = ColExpr \<lparr>cn_Name = name, cn_Qualifier = \<lparr>tn_Name = table, tn_Qualifier = []\<rparr>\<rparr>"

definition ColIdent_EqualString :: "string \<Rightarrow> string \<Rightarrow> bool" where
  "ColIdent_EqualString c str \<longleftrightarrow> to_lower c = to_lower str"

definition ColName_Equal :: "ColName \<Rightarrow> ColName \<Rightarrow> bool" where
  "ColName_Equal a b \<longleftrightarrow> to_lower (cn_Name a) = to_lower (cn_Name b) \<and> cn_Qualifier a = cn_Qualifier b"

fun walk :: "Expr \<Rightarrow> Expr list"
  and walk_list :: "Expr list \<Rightarrow> Expr list"
  and walk_sels :: "SelectExpr list \<Rightarrow> Expr list" where
  "walk (AndExpr l r) = AndExpr l r # walk l @ walk r"
| "walk (OrExpr l r) = OrExpr l r # walk l @ walk r"
| "walk (NotExpr e) = NotExpr e # walk e"
| "walk (ParenExpr e) = ParenExpr e # walk e"
| "walk (ComparisonExpr p l r None) = ComparisonExpr p l r None # walk l @ walk r"
| "walk (ComparisonExpr p l r (Some esc)) = ComparisonExpr p l r (Some esc) # walk esc @ walk l @ walk r"
| "walk (IsExpr p e) = IsExpr p e # walk e"
| "walk (ColExpr c) = [ColExpr c]"
| "walk (ValExpr v) = [ValExpr v]"
| "walk NullVal = [NullVal]"
| "walk (ValTuple es) = ValTuple es # walk_list es"
| "walk (Subquery ts es) = Subquery ts es # walk_list es"
| "walk (FuncExpr f d ss) = FuncExpr f d ss # walk_sels ss"
| "walk (GroupConcatExpr ss) = GroupConcatExpr ss # walk_sels ss"
| "walk (OtherExpr t es) = OtherExpr t es # walk_list es"
| "walk_list [] = []"
| "walk_list (e # es) = walk e @ walk_list es"
| "walk_sels [] = []"
| "walk_sels (StarExpr t # ss) = walk_sels ss"
| "walk_sels (AliasedExpr e a # ss) = walk e @ walk_sels ss"
| "walk_sels (Nextval e # ss) = walk e @ walk_sels ss"

text \<open>The columns and the literals of an expression, in the order of the walk.\<close>

definition walk_cols :: "Expr \<Rightarrow> ColName list" where
  "walk_cols e = List.map_filter (\<lambda>n. case n of ColExpr c \<Rightarrow> Some c | _ \<Rightarrow> None) (walk e)"

definition walk_vals :: "Expr \<Rightarrow> SQLVal list" where
  "walk_vals e = List.map_filter (\<lambda>n. case n of ValExpr v \<Rightarrow> Some v | _ \<Rightarrow> None) (walk e)"

section \<open>Taking a condition apart\<close>

fun splitAndExpression :: "Expr list \<Rightarrow> Expr \<Rightarrow> Expr list" where
  "splitAndExpression filters (AndExpr l r) = splitAndExpression (splitAndExpression filters l) r"
| "splitAndExpression filters (ParenExpr (AndExpr l r)) = splitAndExpression filters (AndExpr l r)"
| "splitAndExpression filters node = filters @ [node]"

fun skipParenthesis :: "Expr \<Rightarrow> Expr" where
  "skipParenthesis (ParenExpr e) = skipParenthesis e"
| "skipParenthesis e = e"

type_synonym in_map = "(ColName, SQLVal list) gomap"

fun checkColInMap :: "in_map \<Rightarrow> ColName \<Rightarrow> ColName" where
  "checkColInMap [] c = c"
| "checkColInMap ((k, _) # m) c = (if ColName_Equal c k then k else checkColInMap m c)"

definition in_append :: "ColName \<Rightarrow> SQLVal \<Rightarrow> in_map \<Rightarrow> in_map" where
  "in_append c v m =
     (let k = checkColInMap m c
      in gm_put k ((case gm_get m k of None \<Rightarrow> [] | Some vs \<Rightarrow> vs) @ [v]) m)"

lemma skipParenthesis_size: "size (skipParenthesis e) \<le> size e"
  by (induction e rule: skipParenthesis.induct) auto

function splitOrExpression :: "Expr \<Rightarrow> in_map \<Rightarrow> Expr list \<times> in_map" where
  "splitOrExpression (OrExpr l r) m =
     (let (a, m) = splitOrExpression l m; (b, m) = splitOrExpression r m in (a @ b, m))"
| "splitOrExpression (ComparisonExpr p l r esc) m =
     (let e = ComparisonExpr p l r esc in
      if p = EqualStr
      then (case l of
              ColExpr lc \<Rightarrow> (case r of ValExpr v \<Rightarrow> ([], in_append lc v m) | _ \<Rightarrow> ([e], m))
            | _ \<Rightarrow> (case r of
                      ColExpr rc \<Rightarrow> (case l of ValExpr v \<Rightarrow> ([], in_append rc v m) | _ \<Rightarrow> ([e], m))
                    | _ \<Rightarrow> ([e], m)))
      else ([e], m))"
| "splitOrExpression (ParenExpr e) m = splitOrExpression (skipParenthesis e) m"
| "splitOrExpression (AndExpr l r) m = ([AndExpr l r], m)"
| "splitOrExpression (NotExpr e) m = ([NotExpr e], m)"
| "splitOrExpression (IsExpr p e) m = ([IsExpr p e], m)"
| "splitOrExpression (ColExpr c) m = ([ColExpr c], m)"
| "splitOrExpression (ValExpr v) m = ([ValExpr v], m)"
| "splitOrExpression NullVal m = ([NullVal], m)"
| "splitOrExpression (ValTuple es) m = ([ValTuple es], m)"
| "splitOrExpression (Subquery ts es) m = ([Subquery ts es], m)"
| "splitOrExpression (FuncExpr f d ss) m = ([FuncExpr f d ss], m)"
| "splitOrExpression (GroupConcatExpr ss) m = ([GroupConcatExpr ss], m)"
| "splitOrExpression (OtherExpr t es) m = ([OtherExpr t es], m)"
  by pat_completeness auto
termination
  by (relation "measure (size \<circ> fst)") (auto simp: le_imp_less_Suc skipParenthesis_size)

fun rebuildOr :: "Expr option \<Rightarrow> Expr \<Rightarrow> Expr" where
  "rebuildOr None e = e"
| "rebuildOr (Some node) e = OrExpr node e"

definition in_expr :: "ColName \<times> SQLVal list \<Rightarrow> Expr" where
  "in_expr = (\<lambda>(k, vs). ComparisonExpr InStr (ColExpr k) (ValTuple (map ValExpr vs)) None)"

text \<open>Both loops of \<open>convertOrToIn\<close> append one disjunct after the other. An \<open>OrExpr\<close> has at least one.\<close>

definition or_all :: "Expr list \<Rightarrow> Expr option" where
  "or_all es = foldl (\<lambda>acc e. Some (rebuildOr acc e)) None es"

fun convertOrToIn :: "Expr \<Rightarrow> Expr" where
  "convertOrToIn (OrExpr l r) =
     (let (subs, m) = splitOrExpression (OrExpr l r) [] in the (or_all (subs @ map in_expr m)))"
| "convertOrToIn e = e"

section \<open>The segments of a where clause\<close>

fun nameMatch :: "Expr \<Rightarrow> string \<Rightarrow> string \<Rightarrow> bool" where
  "nameMatch (ColExpr c) table shardkey \<longleftrightarrow>
     (tn_Name (cn_Qualifier c) = [] \<or> tn_Name (cn_Qualifier c) = table) \<and> ColIdent_EqualString (cn_Name c) shardkey"
| "nameMatch _ _ _ \<longleftrightarrow> False"

text \<open>The indexes of the values of a tuple, or \<open>None\<close> when it has an entry that is no literal.\<close>

fun tuple_indexes ::
  "(string \<Rightarrow> 64 word option) \<Rightarrow> Router \<Rightarrow> string \<Rightarrow> string \<Rightarrow> Expr list \<Rightarrow> int list \<Rightarrow> int list option res" where
  "tuple_indexes pf r db t [] idxs = Ok (Some idxs)"
| "tuple_indexes pf r db t (ValExpr v # es) idxs =
     rbind (Router_GetIndex pf r db t v) (\<lambda>i. tuple_indexes pf r db t es (idxs @ [i]))"
| "tuple_indexes pf r db t (_ # es) idxs = Ok None"

text \<open>
  The loop over the conditions. \<open>None\<close> stands for going on with the next one.
\<close>

definition lookup_filter ::
  "(string \<Rightarrow> 64 word option) \<Rightarrow> Router \<Rightarrow> string \<Rightarrow> string \<Rightarrow> string \<Rightarrow> Expr \<Rightarrow> Segment list res option" where
  "lookup_filter pf r db t shardkey f =
     (case f of
        ComparisonExpr p l rhs _ \<Rightarrow>
          if p = EqualStr
          then if nameMatch l t shardkey
               then (case rhs of ValExpr v \<Rightarrow> Some (Router_Lookup pf r db t (Some v) (Some v)) | _ \<Rightarrow> None)
               else None
          else if p = InStr
          then if nameMatch l t shardkey
               then (case rhs of
                       ValTuple es \<Rightarrow>
                         Some (rbind (tuple_indexes pf r db t es []) (\<lambda>o'. case o' of
                                 None \<Rightarrow> Router_Lookup pf r db t None None
                               | Some idxs \<Rightarrow> Router_GetSegments r db t idxs))
                     | _ \<Rightarrow> None)
               else None
          else None
      | _ \<Rightarrow> None)"

fun lookup_filters ::
  "(string \<Rightarrow> 64 word option) \<Rightarrow> Router \<Rightarrow> string \<Rightarrow> string \<Rightarrow> string \<Rightarrow> Expr list \<Rightarrow> Segment list res" where
  "lookup_filters pf r db t shardkey [] = Router_Lookup pf r db t None None"
| "lookup_filters pf r db t shardkey (f # fs) =
     (case lookup_filter pf r db t shardkey (convertOrToIn (skipParenthesis f)) of
        Some res \<Rightarrow> res
      | None \<Rightarrow> lookup_filters pf r db t shardkey fs)"

definition LookupFromWhere ::
  "(string \<Rightarrow> 64 word option) \<Rightarrow> string \<Rightarrow> string \<Rightarrow> string \<Rightarrow> Expr option \<Rightarrow> Router \<Rightarrow> Segment list res" where
  "LookupFromWhere pf database table shardkey wher r =
     (case wher of
        Some e \<Rightarrow>
          if shardkey \<noteq> [] then lookup_filters pf r database table shardkey (splitAndExpression [] e)
          else Router_Lookup pf r database table None None
      | None \<Rightarrow> Router_Lookup pf r database table None None)"

section \<open>Truth of a condition\<close>

text \<open>
  What the servers compute for a condition, as far as the planner relies on it: the connectives of SQL's three-valued
  logic, equality of a column or literal with another one, and \<open>in\<close> with a tuple of them as the disjunction of the
  equalities. The values, their equality and every other expression are parameters.
\<close>

record 'v Semantics =
  sem_col :: "ColName \<Rightarrow> 'v"
  sem_val :: "SQLVal \<Rightarrow> 'v"
  sem_eq :: "'v \<Rightarrow> 'v \<Rightarrow> bool option"
  sem_other :: "Expr \<Rightarrow> bool option"

definition kany :: "bool option set \<Rightarrow> bool option" where
  "kany A = (if Some True \<in> A then Some True else if None \<in> A then None else Some False)"

definition kall :: "bool option set \<Rightarrow> bool option" where
  "kall A = (if Some False \<in> A then Some False else if None \<in> A then None else Some True)"

fun scalar :: "'v Semantics \<Rightarrow> Expr \<Rightarrow> 'v option" where
  "scalar S (ColExpr c) = Some (sem_col S c)"
| "scalar S (ValExpr v) = Some (sem_val S v)"
| "scalar S _ = None"

definition cmp_truth :: "'v Semantics \<Rightarrow> string \<Rightarrow> Expr \<Rightarrow> Expr \<Rightarrow> bool option option" where
  "cmp_truth S p l r =
     (if p = EqualStr
      then (case (scalar S l, scalar S r) of (Some a, Some b) \<Rightarrow> Some (sem_eq S a b) | _ \<Rightarrow> None)
      else if p = InStr
      then (case (scalar S l, r) of
              (Some a, ValTuple es) \<Rightarrow>
                map_option (\<lambda>bs. kany (sem_eq S a ` set bs)) (those (map (scalar S) es))
            | _ \<Rightarrow> None)
      else None)"

fun truth :: "'v Semantics \<Rightarrow> Expr \<Rightarrow> bool option" where
  "truth S (AndExpr l r) = kall {truth S l, truth S r}"
| "truth S (OrExpr l r) = kany {truth S l, truth S r}"
| "truth S (NotExpr e) = map_option Not (truth S e)"
| "truth S (ParenExpr e) = truth S e"
| "truth S (ComparisonExpr p l r esc) =
     (case cmp_truth S p l r of Some b \<Rightarrow> b | None \<Rightarrow> sem_other S (ComparisonExpr p l r esc))"
| "truth S e = sem_other S e"

text \<open>What is required of the parameters: equality is symmetric and a column name is not case sensitive.\<close>

definition sem_ok :: "'v Semantics \<Rightarrow> bool" where
  "sem_ok S \<longleftrightarrow> (\<forall>a b. sem_eq S a b = sem_eq S b a) \<and> (\<forall>c d. ColName_Equal c d \<longrightarrow> sem_col S c = sem_col S d)"

lemma kany_Un: "kany (A \<union> B) = kany {kany A, kany B}"
  by (auto simp: kany_def)

lemma kany_simps [simp]: "kany {} = Some False" "kany {b} = b" "kany {Some False, b} = b" "kany {b, Some False} = b"
  by (auto simp: kany_def; cases b; auto)+

lemma kany_insert: "kany (insert b A) = kany {b, kany A}"
  using kany_Un [of "{b}" A] by simp

lemma truth_skip [simp]: "truth S (skipParenthesis e) = truth S e"
  by (induction e rule: skipParenthesis.induct) auto

lemma kall_True: "kall {a, b} = Some True \<longleftrightarrow> a = Some True \<and> b = Some True"
  by (auto simp: kall_def; cases a; cases b; auto)

lemma split_and_truth: "truth S e = Some True \<Longrightarrow> f \<in> set (splitAndExpression fs e) \<Longrightarrow> f \<in> set fs \<or> truth S f = Some True"
  by (induction fs e arbitrary: f rule: splitAndExpression.induct) (auto simp: kall_True)

lemma or_all_truth: "es \<noteq> [] \<Longrightarrow> \<exists>e. or_all es = Some e \<and> truth S e = kany (truth S ` set es)"
proof (induction es rule: rev_induct)
  case (snoc e es)
  show ?case
  proof (cases "es = []")
    case False
    with snoc.IH obtain e' where "or_all es = Some e'" "truth S e' = kany (truth S ` set es)" by blast
    then show ?thesis
      by (simp add: or_all_def kany_insert [of "truth S e" "truth S ` set es"] insert_commute)
  qed (simp add: or_all_def)
qed simp

lemma those_scalar_vals: "those (map (scalar S) (map ValExpr vs)) = Some (map (sem_val S) vs)"
  by (induction vs) auto

lemma truth_in_expr: "truth S (in_expr (k, vs)) = kany ((\<lambda>v. sem_eq S (sem_col S k) (sem_val S v)) ` set vs)"
  unfolding in_expr_def by (simp add: cmp_truth_def InStr_def EqualStr_def those_scalar_vals image_image del: map_map)

definition in_truth :: "'v Semantics \<Rightarrow> in_map \<Rightarrow> bool option" where
  "in_truth S m = kany (truth S ` in_expr ` set m)"

lemma ColName_Equal_refl [simp]: "ColName_Equal c c"
  by (simp add: ColName_Equal_def)

lemma checkColInMap_Equal: "ColName_Equal c (checkColInMap m c)"
  by (induction m c rule: checkColInMap.induct) auto

lemma in_append_wf: "gm_wf m \<Longrightarrow> gm_wf (in_append c v m)"
  by (simp add: in_append_def Let_def)

lemma in_append_truth:
  assumes "sem_ok S" "gm_wf m"
  shows "in_truth S (in_append c v m) = kany {in_truth S m, sem_eq S (sem_col S c) (sem_val S v)}"
proof -
  let ?k = "checkColInMap m c"
  let ?vs = "case gm_get m ?k of None \<Rightarrow> [] | Some vs \<Rightarrow> vs"
  let ?rest = "truth S ` in_expr ` {p \<in> set m. fst p \<noteq> ?k}"
  let ?eq = "\<lambda>v. sem_eq S (sem_col S c) (sem_val S v)"
  have k: "sem_col S ?k = sem_col S c"
    using assms(1) checkColInMap_Equal [of c m] by (simp add: sem_ok_def)
  have new: "in_truth S (in_append c v m) = kany {kany (?eq ` set ?vs \<union> {?eq v}), kany ?rest}"
    by (simp add: in_truth_def in_append_def Let_def gm_put_set [OF assms(2)] kany_insert [of _ ?rest] truth_in_expr k)
  have old: "in_truth S m = kany {kany (?eq ` set ?vs), kany ?rest}"
  proof (cases "gm_get m ?k")
    case None
    then have "{p \<in> set m. fst p \<noteq> ?k} = set m" by (force simp: map_of_eq_None_iff)
    with None show ?thesis by (simp add: in_truth_def)
  next
    case (Some vs)
    then have "(?k, vs) \<in> set m" by (rule gm_get_in_set)
    moreover have "p = (?k, vs)" if "p \<in> set m" "fst p = ?k" for p
    proof -
      from that have "(?k, snd p) \<in> set m" by (metis prod.collapse)
      then have "gm_get m ?k = Some (snd p)" by (simp add: gm_wf_get_iff [OF assms(2)])
      with Some that(2) show ?thesis by (simp add: prod_eq_iff)
    qed
    ultimately have "set m = insert (?k, vs) {p \<in> set m. fst p \<noteq> ?k}" by blast
    then have "truth S ` in_expr ` set m = truth S ` in_expr ` insert (?k, vs) {p \<in> set m. fst p \<noteq> ?k}"
      by (rule arg_cong)
    then have "in_truth S m = kany (insert (truth S (in_expr (?k, vs))) ?rest)"
      by (simp only: in_truth_def image_insert)
    with Some show ?thesis by (simp add: kany_insert [of _ ?rest] truth_in_expr k)
  qed
  show ?thesis unfolding new old kany_Un [of _ "{?eq v}"] by (auto simp: kany_def)
qed

lemma split_or_truth:
  assumes "sem_ok S" "gm_wf m" "splitOrExpression e m = (es, m')"
  shows "gm_wf m' \<and> kany {kany (truth S ` set es), in_truth S m'} = kany {truth S e, in_truth S m}"
  using assms(2,3)
proof (induction e m arbitrary: es m' rule: splitOrExpression.induct)
  case (1 l r m)
  obtain a m1 b m2 where a: "splitOrExpression l m = (a, m1)" and b: "splitOrExpression r m1 = (b, m2)"
    by (metis surj_pair)
  with "1.prems" have es: "es = a @ b" "m' = m2" by auto
  from "1.IH"(1) [OF "1.prems"(1) a] have A: "gm_wf m1" "kany {kany (truth S ` set a), in_truth S m1} = kany {truth S l, in_truth S m}"
    by auto
  from "1.IH"(2) [OF a [symmetric] refl A(1) b] have B: "gm_wf m2"
    "kany {kany (truth S ` set b), in_truth S m2} = kany {truth S r, in_truth S m1}" by auto
  have "kany {kany (truth S ` set (a @ b)), in_truth S m2} =
      kany {kany (truth S ` set a), kany {kany (truth S ` set b), in_truth S m2}}"
    by (simp add: image_Un kany_Un) (auto simp: kany_def)
  also have "\<dots> = kany {truth S r, kany {kany (truth S ` set a), in_truth S m1}}"
    unfolding B(2) by (auto simp: kany_def)
  also have "\<dots> = kany {truth S (OrExpr l r), in_truth S m}" unfolding A(2) by (auto simp: kany_def)
  finally show ?case using B(1) es by simp
next
  case (2 p l r esc m)
  have sym: "sem_eq S a b = sem_eq S b a" for a b using assms(1) unfolding sem_ok_def by blast
  from "2.prems" show ?case
    by (auto simp: Let_def in_append_wf in_append_truth [OF assms(1)] cmp_truth_def insert_commute sym
        split: if_splits Expr.splits)
qed auto

lemma in_append_nonempty [simp]: "in_append c v m \<noteq> []"
  unfolding in_append_def Let_def gm_put_def by (cases m) auto

lemma split_or_nonempty: "splitOrExpression e m = (es, m') \<Longrightarrow> es \<noteq> [] \<or> m' \<noteq> []"
proof (induction e m arbitrary: es m' rule: splitOrExpression.induct)
  case (1 l r m)
  then show ?case by (auto split: prod.splits)
next
  case (2 p l r esc m)
  then show ?case by (auto simp: Let_def split: if_splits Expr.splits)
qed auto

text \<open>
  Turning equalities of a disjunction into \<open>in\<close> lists does not change the value of the condition for any row, not even
  between false and unknown.
\<close>

lemma convertOrToIn_truth:
  assumes "sem_ok S"
  shows "truth S (convertOrToIn e) = truth S e"
proof (cases "\<exists>l r. e = OrExpr l r")
  case True
  obtain es m where split: "splitOrExpression e [] = (es, m)" by (metis surj_pair)
  have "kany (truth S ` set (es @ map in_expr m)) = kany {kany (truth S ` set es), in_truth S m}"
    by (simp add: image_Un kany_Un in_truth_def)
  also have "\<dots> = truth S e"
    using split_or_truth [OF assms _ split] by (simp add: in_truth_def)
  finally have "kany (truth S ` set (es @ map in_expr m)) = truth S e" .
  moreover have "es @ map in_expr m \<noteq> []" using split_or_nonempty [OF split] by simp
  ultimately show ?thesis using or_all_truth [of "es @ map in_expr m" S] True split by auto
next
  case False
  then show ?thesis by (cases e) auto
qed

end
