(* ===== verification/Sql_Stmt.thy ===== *)
theory Sql_Stmt
  imports Sql_Expr Compute
begin

text \<open>
  The statements of the SQL syntax tree, with the fields the planner and the proxy read. Printing a syntax tree is the job
  of the vendored parser and is a parameter, the record \<open>SqlLib\<close>.
\<close>

section \<open>Statements\<close>

type_synonym UpdateExpr = "ColName \<times> Expr"
type_synonym Order = "Expr \<times> string"

datatype InsertRows = Values "Expr list list" | RowsOther string "TableName list"

record Insert =
  ins_Action :: string
  ins_Comments :: string
  ins_Ignore :: string
  ins_Table :: TableName
  ins_Partitions :: "string list"
  ins_Columns :: "string list"
  ins_Rows :: InsertRows
  ins_OnDup :: "UpdateExpr list"

record Delete =
  del_Comments :: string
  del_IsSingleTable :: bool
  del_Table :: TableName
  del_Partitions :: "string list option"
  del_Where :: "Expr option"
  del_OrderBy :: "Order list"
  del_Limit :: "Expr list"

record Update =
  upd_Comments :: string
  upd_Table :: TableName
  upd_Exprs :: "UpdateExpr list"
  upd_Where :: "Expr option"
  upd_OrderBy :: "Order list"
  upd_Limit :: "Expr list"

record ColumnDefinition =
  cd_Name :: string
  cd_Type :: string
  cd_Autoincrement :: bool
  cd_Primary :: bool
  cd_Unique :: bool

record IndexDefinition =
  ix_Columns :: "string list"
  ix_Primary :: bool
  ix_Unique :: bool

record TableSpec =
  ts_Columns :: "ColumnDefinition list"
  ts_Indexes :: "IndexDefinition list"
  ts_Engine :: string

datatype PartitionOption =
    PartOptHash string "SQLVal option"
  | PartOptList string "PartitionDefinition list"
  | PartOptNormal
  | PartOptGlobal
  | PartOptSingle string

record DDL =
  ddl_Action :: string
  ddl_Table :: TableName
  ddl_NewName :: TableName
  ddl_Tables :: "TableName list"
  ddl_DropColumnName :: string
  ddl_ModifyColumnDef :: "ColumnDefinition option"
  ddl_TableSpec :: "TableSpec option"
  ddl_Database :: string
  ddl_IfExists :: bool
  ddl_IfNotExists :: bool
  ddl_PartitionOption :: "PartitionOption option"

datatype others_kind = Checksum | Optimize | Check

record Others =
  ot_Kind :: others_kind
  ot_Tables :: "TableName list"
  ot_Quick :: bool

type_synonym Limit = "Expr option \<times> Expr"

text \<open>A table expression of a \<open>from\<close> clause; a subquery in it is given by the tables it names.\<close>

datatype SimpleTableExpr = TableRef TableName | SubqueryTable "TableName list"

datatype TableExpr =
    AliasedTableExpr SimpleTableExpr string
  | JoinTableExpr TableExpr string TableExpr "Expr option"
  | ParenTableExpr "TableExpr list"

record Select =
  sel_Comments :: "string list"
  sel_Distinct :: string
  sel_SelectExprs :: "SelectExpr list"
  sel_From :: "TableExpr list"
  sel_Where :: "Expr option"
  sel_GroupBy :: "Expr list"
  sel_Having :: "Expr option"
  sel_OrderBy :: "Order list"
  sel_Limit :: "Limit option"
  sel_Lock :: string

datatype SelectStatement =
    SelStmt Select
  | UnionStmt string SelectStatement SelectStatement "Order list" "Limit option"
  | ParenSelect SelectStatement

datatype Statement =
    StDDL DDL
  | StInsert Insert
  | StDelete Delete
  | StUpdate Update
  | StSelect Select
  | StUnion SelectStatement
  | StOthers Others
  | StShow
  | StTransaction string
  | StOther string

text \<open>Printing syntax trees.\<close>

record SqlLib =
  sl_Insert :: "Insert \<Rightarrow> string"
  sl_Delete :: "Delete \<Rightarrow> string"
  sl_Update :: "string \<Rightarrow> string \<Rightarrow> Update \<Rightarrow> string"
  sl_DDL :: "DDL \<Rightarrow> string"
  sl_Others :: "Others \<Rightarrow> string"

fun type_name :: "Expr \<Rightarrow> string" where
  "type_name (AndExpr _ _) = ''*sqlparser.AndExpr''"
| "type_name (OrExpr _ _) = ''*sqlparser.OrExpr''"
| "type_name (NotExpr _) = ''*sqlparser.NotExpr''"
| "type_name (ParenExpr _) = ''*sqlparser.ParenExpr''"
| "type_name (ComparisonExpr _ _ _ _) = ''*sqlparser.ComparisonExpr''"
| "type_name (IsExpr _ _) = ''*sqlparser.IsExpr''"
| "type_name (ColExpr _) = ''*sqlparser.ColName''"
| "type_name (ValExpr _) = ''*sqlparser.SQLVal''"
| "type_name NullVal = ''*sqlparser.NullVal''"
| "type_name (ValTuple _) = ''sqlparser.ValTuple''"
| "type_name (Subquery _ _) = ''*sqlparser.Subquery''"
| "type_name (FuncExpr _ _ _) = ''*sqlparser.FuncExpr''"
| "type_name (GroupConcatExpr _) = ''*sqlparser.GroupConcatExpr''"
| "type_name (OtherExpr t _) = t"

section \<open>The tables of a statement\<close>

text \<open>The database of a table: its qualifier, or the current database.\<close>

definition or_default :: "string \<Rightarrow> string \<Rightarrow> string" where
  "or_default qualifier database = (if qualifier = [] then database else qualifier)"

text \<open>
  The table names \<open>sqlparser.Walk\<close> visits in a statement, in its order: the fields of a node in alphabetical order. A
  visitor that does not enter columns and \<open>*\<close> sees table names in \<open>from\<close> clauses and in the fields of a statement
  only.
\<close>

definition expr_tables :: "Expr \<Rightarrow> TableName list" where
  "expr_tables e = concat (map (\<lambda>n. case n of Subquery ts _ \<Rightarrow> ts | _ \<Rightarrow> []) (walk e))"

definition exprs_tables :: "Expr list \<Rightarrow> TableName list" where
  "exprs_tables es = concat (map expr_tables es)"

definition opt_list :: "'a option \<Rightarrow> 'a list" where
  "opt_list x = (case x of None \<Rightarrow> [] | Some v \<Rightarrow> [v])"

fun sel_expr :: "SelectExpr \<Rightarrow> Expr list" where
  "sel_expr (StarExpr t) = []"
| "sel_expr (AliasedExpr e a) = [e]"
| "sel_expr (Nextval e) = [e]"

definition limit_exprs :: "Limit option \<Rightarrow> Expr list" where
  "limit_exprs l = (case l of None \<Rightarrow> [] | Some (off, n) \<Rightarrow> opt_list off @ [n])"

fun from_tables :: "TableExpr \<Rightarrow> TableName list"
  and froms_tables :: "TableExpr list \<Rightarrow> TableName list" where
  "from_tables (AliasedTableExpr (TableRef t) a) = [t]"
| "from_tables (AliasedTableExpr (SubqueryTable ts) a) = ts"
| "from_tables (JoinTableExpr l j r cond) = from_tables l @ exprs_tables (opt_list cond) @ from_tables r"
| "from_tables (ParenTableExpr ts) = froms_tables ts"
| "froms_tables [] = []"
| "froms_tables (t # ts) = from_tables t @ froms_tables ts"

definition select_exprs :: "Select \<Rightarrow> Expr list" where
  "select_exprs s = sel_GroupBy s @ opt_list (sel_Having s) @ limit_exprs (sel_Limit s) @ map fst (sel_OrderBy s) @
     concat (map sel_expr (sel_SelectExprs s)) @ opt_list (sel_Where s)"

fun selstmt_tables :: "SelectStatement \<Rightarrow> TableName list" where
  "selstmt_tables (SelStmt s) = froms_tables (sel_From s) @ exprs_tables (select_exprs s)"
| "selstmt_tables (UnionStmt typ l r os lim) =
     selstmt_tables l @ exprs_tables (limit_exprs lim @ map fst os) @ selstmt_tables r"
| "selstmt_tables (ParenSelect s) = selstmt_tables s"

fun stmt_tables :: "Statement \<Rightarrow> TableName list" where
  "stmt_tables (StDDL d) = ddl_NewName d # ddl_Table d # ddl_Tables d"
| "stmt_tables (StInsert n) =
     exprs_tables (map snd (ins_OnDup n)) @
     (case ins_Rows n of Values rows \<Rightarrow> exprs_tables (concat rows) | RowsOther _ ts \<Rightarrow> ts) @ [ins_Table n]"
| "stmt_tables (StDelete n) =
     exprs_tables (del_Limit n @ map fst (del_OrderBy n)) @ [del_Table n] @ exprs_tables (opt_list (del_Where n))"
| "stmt_tables (StUpdate n) =
     exprs_tables (map snd (upd_Exprs n) @ upd_Limit n @ map fst (upd_OrderBy n)) @ [upd_Table n] @
     exprs_tables (opt_list (upd_Where n))"
| "stmt_tables (StSelect s) = selstmt_tables (SelStmt s)"
| "stmt_tables (StUnion s) = selstmt_tables s"
| "stmt_tables (StOthers n) = ot_Tables n"
| "stmt_tables StShow = []"
| "stmt_tables (StTransaction a) = []"
| "stmt_tables (StOther t) = []"

end
