(* ===== verification/Sql_Values.thy ===== *)
theory Sql_Values
  imports Complex_Main Go_Strings "HOL-Library.Word" "HOL-Library.Multiset"
begin

text \<open>
  Values, comparison and results: the parts of the package \<open>sqltypes\<close> under
  \<open>vendor/github.com/sealdb/mysqlstack\<close> that the transactions and the executor work on. A type is the
  number of the protocol buffer enumeration and its properties are read off its flag bits, as the
  code does.

  Comparing two numbers may need a \<open>float64\<close>, a decimal or a time. Those conversions are the field
  \<open>NumLib\<close>: what \<open>strconv.ParseFloat\<close>, the package \<open>decimal\<close> and \<open>timeToNumeric\<close> make of a string,
  and the rounding of an exact number to a \<open>float64\<close>. Integers and strings need none of them.
\<close>

unbundle bit_operations_syntax

section \<open>Types\<close>

type_synonym Typ = int

abbreviation (input) Null :: Typ where "Null \<equiv> 0"
abbreviation (input) Int32 :: Typ where "Int32 \<equiv> 263"
abbreviation (input) Int64 :: Typ where "Int64 \<equiv> 265"
abbreviation (input) Uint64 :: Typ where "Uint64 \<equiv> 778"
abbreviation (input) Float64 :: Typ where "Float64 \<equiv> 1036"
abbreviation (input) Timestamp :: Typ where "Timestamp \<equiv> 2061"
abbreviation (input) Date :: Typ where "Date \<equiv> 2062"
abbreviation (input) Time :: Typ where "Time \<equiv> 2063"
abbreviation (input) Datetime :: Typ where "Datetime \<equiv> 2064"
abbreviation (input) Decimal :: Typ where "Decimal \<equiv> 18"
abbreviation (input) VarChar :: Typ where "VarChar \<equiv> 6165"
abbreviation (input) Tuple :: Typ where "Tuple \<equiv> 28"

definition IsIntegral :: "Typ \<Rightarrow> bool" where "IsIntegral t \<longleftrightarrow> t AND 256 = 256"

definition IsSigned :: "Typ \<Rightarrow> bool" where "IsSigned t \<longleftrightarrow> t AND 768 = 256"

definition IsUnsigned :: "Typ \<Rightarrow> bool" where "IsUnsigned t \<longleftrightarrow> t AND 768 = 768"

definition IsFloat :: "Typ \<Rightarrow> bool" where "IsFloat t \<longleftrightarrow> t AND 1024 = 1024"

definition isNumber :: "Typ \<Rightarrow> bool" where
  "isNumber t \<longleftrightarrow> IsIntegral t \<or> IsFloat t \<or> t = Decimal"

definition IsTemporal :: "Typ \<Rightarrow> bool" where
  "IsTemporal t \<longleftrightarrow> t = Timestamp \<or> t = Date \<or> t = Time \<or> t = Datetime"

lemmas type_defs = IsIntegral_def IsSigned_def IsUnsigned_def IsFloat_def isNumber_def IsTemporal_def

section \<open>Values\<close>

record Value =
  v_typ :: Typ
  v_val :: string

definition NULL :: Value where "NULL = \<lparr>v_typ = Null, v_val = []\<rparr>"

definition IsNull :: "Value \<Rightarrow> bool" where "IsNull v \<longleftrightarrow> v_typ v = Null"

definition MakeTrusted :: "Typ \<Rightarrow> string \<Rightarrow> Value" where
  "MakeTrusted typ val = (if typ = Null then NULL else \<lparr>v_typ = typ, v_val = val\<rparr>)"

definition NewInt64 :: "int \<Rightarrow> Value" where "NewInt64 i = MakeTrusted Int64 (show_int i)"

definition NewVarChar :: "string \<Rightarrow> Value" where "NewVarChar s = MakeTrusted VarChar s"

definition Values_Len :: "Value list \<Rightarrow> nat" where
  "Values_Len vs = foldl (\<lambda>n v. n + length (v_val v)) 0 vs"

section \<open>Comparison\<close>

text \<open>A number is an \<open>int64\<close>, a \<open>uint64\<close>, a \<open>float64\<close> or a decimal; the last two by their exact value.\<close>

datatype numeric = NInt int | NUint int | NFloat rat | NDec rat

record NumLib =
  nl_float :: "string \<Rightarrow> rat option"
  nl_dec :: "string \<Rightarrow> rat option"
  nl_time :: "Value \<Rightarrow> numeric option"
  nl_round :: "rat \<Rightarrow> rat"

definition parse_int64 :: "string \<Rightarrow> int option" where
  "parse_int64 s = atoi s"

definition parse_uint64 :: "string \<Rightarrow> int option" where
  "parse_uint64 s =
     (if s = [] then None
      else case dec_val 0 s of None \<Rightarrow> None | Some n \<Rightarrow> if n < 2 ^ 64 then Some (int n) else None)"

definition num_error :: "string \<Rightarrow> 'a res" where
  "num_error s = Panic (''strconv: parsing '' @ s)"

definition newNumeric :: "NumLib \<Rightarrow> Value \<Rightarrow> numeric res" where
  "newNumeric nl v =
     (let str = v_val v; t = v_typ v in
      if IsSigned t then (case parse_int64 str of Some i \<Rightarrow> Ok (NInt i) | None \<Rightarrow> num_error str)
      else if IsUnsigned t then (case parse_uint64 str of Some i \<Rightarrow> Ok (NUint i) | None \<Rightarrow> num_error str)
      else if IsFloat t then (case nl_float nl str of Some f \<Rightarrow> Ok (NFloat f) | None \<Rightarrow> num_error str)
      else if IsTemporal t then (case nl_time nl v of Some n \<Rightarrow> Ok n | None \<Rightarrow> num_error str)
      else if t = Decimal then (case nl_dec nl str of Some d \<Rightarrow> Ok (NDec d) | None \<Rightarrow> num_error str)
      else case nl_float nl str of Some f \<Rightarrow> Ok (NFloat f) | None \<Rightarrow> Ok (NInt 0))"

definition three_way :: "'a :: linorder \<Rightarrow> 'a \<Rightarrow> int" where
  "three_way x y = (if x < y then - 1 else if x = y then 0 else 1)"

fun compareNumeric :: "NumLib \<Rightarrow> numeric \<Rightarrow> numeric \<Rightarrow> int" where
  "compareNumeric nl (NInt a) (NInt b) = three_way a b"
| "compareNumeric nl (NInt a) (NUint b) = (if a < 0 then - 1 else three_way a b)"
| "compareNumeric nl (NInt a) (NFloat b) = three_way (nl_round nl (of_int a)) b"
| "compareNumeric nl (NInt a) (NDec b) = three_way (nl_round nl (of_int a)) b"
| "compareNumeric nl (NUint a) (NInt b) = (if b < 0 then 1 else three_way a b)"
| "compareNumeric nl (NUint a) (NUint b) = three_way a b"
| "compareNumeric nl (NUint a) (NFloat b) = three_way (nl_round nl (of_int a)) b"
| "compareNumeric nl (NUint a) (NDec b) = three_way (nl_round nl (of_int a)) b"
| "compareNumeric nl (NDec a) (NUint b) = three_way a (nl_round nl (of_int b))"
| "compareNumeric nl (NDec a) (NInt b) = three_way a (nl_round nl (of_int b))"
| "compareNumeric nl (NDec a) (NFloat b) = three_way (nl_round nl a) b"
| "compareNumeric nl (NDec a) (NDec b) = three_way a b"
| "compareNumeric nl (NFloat a) (NInt b) = three_way a (nl_round nl (of_int b))"
| "compareNumeric nl (NFloat a) (NUint b) = three_way a (nl_round nl (of_int b))"
| "compareNumeric nl (NFloat a) (NDec b) = three_way a (nl_round nl b)"
| "compareNumeric nl (NFloat a) (NFloat b) = three_way a b"

definition NullsafeCompare :: "NumLib \<Rightarrow> Value \<Rightarrow> Value \<Rightarrow> int res" where
  "NullsafeCompare nl v1 v2 =
     (if IsNull v1 then (if IsNull v2 then Ok 0 else Ok (- 1))
      else if IsNull v2 then Ok 1
      else if isNumber (v_typ v1) \<or> isNumber (v_typ v2)
      then rbind (newNumeric nl v1) (\<lambda>n1. rbind (newNumeric nl v2) (\<lambda>n2. Ok (compareNumeric nl n1 n2)))
      else if v_typ v1 = Tuple \<or> v_typ v2 = Tuple then Panic ''unsupported.value.type''
      else Ok (three_way (v_val v1) (v_val v2)))"

definition minmax :: "NumLib \<Rightarrow> Value \<Rightarrow> Value \<Rightarrow> bool \<Rightarrow> Value res" where
  "minmax nl v1 v2 mn =
     (if IsNull v1 then Ok v2 else if IsNull v2 then Ok v1
      else rbind (NullsafeCompare nl v1 v2) (\<lambda>n. Ok (if mn = (n < 0) then v1 else v2)))"

definition Value_Min :: "NumLib \<Rightarrow> Value \<Rightarrow> Value \<Rightarrow> Value res" where
  "Value_Min nl v1 v2 = minmax nl v1 v2 True"

definition Value_Max :: "NumLib \<Rightarrow> Value \<Rightarrow> Value \<Rightarrow> Value res" where
  "Value_Max nl v1 v2 = minmax nl v1 v2 False"

section \<open>Results\<close>

record Field =
  f_Name :: string
  f_Type :: Typ
  f_Table :: string
  f_ColumnLength :: "32 word"
  f_Decimals :: "32 word"

type_synonym row = "Value list"

record Result =
  rs_Fields :: "Field list option"
  rs_RowsAffected :: "64 word"
  rs_InsertID :: "64 word"
  rs_Rows :: "row list"

definition empty_Result :: Result where
  "empty_Result = \<lparr>rs_Fields = None, rs_RowsAffected = 0, rs_InsertID = 0, rs_Rows = []\<rparr>"

definition fields_len :: "Field list option \<Rightarrow> nat" where
  "fields_len fs = (case fs of None \<Rightarrow> 0 | Some xs \<Rightarrow> length xs)"

definition AppendResult :: "Result \<Rightarrow> Result \<Rightarrow> Result" where
  "AppendResult result src =
     (if rs_RowsAffected src = 0 \<and> fields_len (rs_Fields src) = 0 then result
      else \<lparr>rs_Fields = (case rs_Fields result of None \<Rightarrow> rs_Fields src | Some fs \<Rightarrow> Some fs),
            rs_RowsAffected = rs_RowsAffected result + rs_RowsAffected src,
            rs_InsertID = (if rs_InsertID src \<noteq> 0 then rs_InsertID src else rs_InsertID result),
            rs_Rows = rs_Rows result @ rs_Rows src\<rparr>)"

text \<open>
  \<open>Result.Limit\<close>. The bounds are Go \<open>int\<close>s and their sum wraps, as \<open>offset + limit\<close> does; a slice
  expression with bounds out of order panics.
\<close>

definition go_add :: "int \<Rightarrow> int \<Rightarrow> int" where
  "go_add a b = (let s = (a + b) mod 2 ^ 64 in if s < 2 ^ 63 then s else s - 2 ^ 64)"

definition Result_Limit :: "int \<Rightarrow> int \<Rightarrow> Result \<Rightarrow> Result res" where
  "Result_Limit offset limit result =
     (let count = int (length (rs_Rows result));
          start = min offset count; fin = min (go_add offset limit) count in
      if 0 \<le> start \<and> start \<le> fin
      then Ok (result\<lparr>rs_Rows := take (nat (fin - start)) (drop (nat start) (rs_Rows result))\<rparr>)
      else Panic ''slice bounds out of range'')"

section \<open>Comparison is a total preorder on a column\<close>

text \<open>
  \<open>NullsafeCompare\<close> compares numbers of different kinds through rounded conversions, so it is not an
  order on all values. The values of one column have one type, and there it is.
\<close>

locale value_order =
  fixes cmp :: "'a \<Rightarrow> 'a \<Rightarrow> int" and C :: "'a set"
  assumes cmp_refl: "x \<in> C \<Longrightarrow> cmp x x = 0"
    and cmp_swap: "x \<in> C \<Longrightarrow> y \<in> C \<Longrightarrow> cmp y x = - cmp x y"
    and cmp_trans: "x \<in> C \<Longrightarrow> y \<in> C \<Longrightarrow> z \<in> C \<Longrightarrow> cmp x y \<le> 0 \<Longrightarrow> cmp y z \<le> 0 \<Longrightarrow> cmp x z \<le> 0"
begin

lemma cmp_total: "x \<in> C \<Longrightarrow> y \<in> C \<Longrightarrow> cmp x y \<le> 0 \<or> cmp y x \<le> 0"
  using cmp_swap [of x y] by simp linarith

lemma cmp_eq_trans:
  assumes "x \<in> C" "y \<in> C" "z \<in> C" "cmp x y = 0" "cmp y z = 0"
  shows "cmp x z = 0"
proof -
  have "cmp x z \<le> 0" using assms by (intro cmp_trans [of x y z]) simp_all
  moreover have "cmp z x \<le> 0"
    using assms cmp_swap [of y z] cmp_swap [of x y] by (intro cmp_trans [of z y x]) simp_all
  ultimately show ?thesis using assms cmp_swap [of x z] by simp
qed

lemma cmp_eq_left:
  assumes "x \<in> C" "y \<in> C" "z \<in> C" "cmp x y = 0"
  shows "cmp x z \<le> 0 \<longleftrightarrow> cmp y z \<le> 0"
  using assms cmp_trans [of x y z] cmp_trans [of y x z] cmp_swap [of x y] by auto

end

text \<open>The comparison of two values whose comparison does not panic.\<close>

definition vcmp :: "NumLib \<Rightarrow> Value \<Rightarrow> Value \<Rightarrow> int" where
  "vcmp nl v1 v2 = (case NullsafeCompare nl v1 v2 of Ok n \<Rightarrow> n | _ \<Rightarrow> 0)"

definition int_column :: "Value set" where
  "int_column = insert NULL {v. v_typ v = Int64 \<and> (\<exists>i. parse_int64 (v_val v) = Some i)}"

definition text_column :: "Value set" where
  "text_column = insert NULL {v. v_typ v = VarChar}"

lemma three_way_zero [simp]: "three_way x y = 0 \<longleftrightarrow> x = y"
  by (auto simp: three_way_def)

lemma three_way_le [simp]: "three_way x y \<le> 0 \<longleftrightarrow> x \<le> y"
  by (auto simp: three_way_def)

lemma three_way_swap: "three_way y x = - three_way x y"
  by (auto simp: three_way_def)

lemma vcmp_null: "vcmp nl NULL NULL = 0"
  by (simp add: vcmp_def NullsafeCompare_def IsNull_def NULL_def)

definition int_key :: "Value \<Rightarrow> int option" where
  "int_key v = (if IsNull v then None else parse_int64 (v_val v))"

definition text_key :: "Value \<Rightarrow> string option" where
  "text_key v = (if IsNull v then None else Some (v_val v))"

definition opt_cmp :: "'a :: linorder option \<Rightarrow> 'a option \<Rightarrow> int" where
  "opt_cmp a b =
     (case (a, b) of (None, None) \<Rightarrow> 0 | (None, Some _) \<Rightarrow> - 1 | (Some _, None) \<Rightarrow> 1 | (Some x, Some y) \<Rightarrow> three_way x y)"

lemma vcmp_int_column: "x \<in> int_column \<Longrightarrow> y \<in> int_column \<Longrightarrow> vcmp nl x y = opt_cmp (int_key x) (int_key y)"
  by (auto simp: int_column_def vcmp_def NullsafeCompare_def NULL_def IsNull_def int_key_def opt_cmp_def
      newNumeric_def type_defs)

lemma vcmp_text_column: "x \<in> text_column \<Longrightarrow> y \<in> text_column \<Longrightarrow> vcmp nl x y = opt_cmp (text_key x) (text_key y)"
  by (auto simp: text_column_def vcmp_def NullsafeCompare_def NULL_def IsNull_def text_key_def opt_cmp_def
      type_defs)

lemma opt_cmp_refl: "opt_cmp a a = 0"
  by (simp add: opt_cmp_def split: option.splits)

lemma opt_cmp_swap: "opt_cmp b a = - opt_cmp a b"
  using three_way_swap by (auto simp: opt_cmp_def split: option.splits)

lemma opt_cmp_trans: "opt_cmp a b \<le> 0 \<Longrightarrow> opt_cmp b c \<le> 0 \<Longrightarrow> opt_cmp a c \<le> 0"
  by (auto simp: opt_cmp_def split: option.splits)

interpretation int_order: value_order "vcmp nl" int_column for nl
proof unfold_locales
  fix x y z
  assume x: "x \<in> int_column"
  show "vcmp nl x x = 0" using x by (simp add: vcmp_int_column opt_cmp_refl)
  assume y: "y \<in> int_column"
  show "vcmp nl y x = - vcmp nl x y" unfolding vcmp_int_column [OF x y] vcmp_int_column [OF y x] by (rule opt_cmp_swap)
  assume z: "z \<in> int_column"
  assume "vcmp nl x y \<le> 0" "vcmp nl y z \<le> 0"
  then show "vcmp nl x z \<le> 0" unfolding vcmp_int_column [OF x y] vcmp_int_column [OF y z] vcmp_int_column [OF x z]
    by (rule opt_cmp_trans)
qed

interpretation text_order: value_order "vcmp nl" text_column for nl
proof unfold_locales
  fix x y z
  assume x: "x \<in> text_column"
  show "vcmp nl x x = 0" using x by (simp add: vcmp_text_column opt_cmp_refl)
  assume y: "y \<in> text_column"
  show "vcmp nl y x = - vcmp nl x y" unfolding vcmp_text_column [OF x y] vcmp_text_column [OF y x] by (rule opt_cmp_swap)
  assume z: "z \<in> text_column"
  assume "vcmp nl x y \<le> 0" "vcmp nl y z \<le> 0"
  then show "vcmp nl x z \<le> 0" unfolding vcmp_text_column [OF x y] vcmp_text_column [OF y z] vcmp_text_column [OF x z]
    by (rule opt_cmp_trans)
qed

end
