(* ===== verification/Pool.thy ===== *)
theory Pool
  imports Neo_Config Sql_Values
begin

text \<open>
  Connection pools and connections: \<open>backend/pool.go\<close> and \<open>backend/connection.go\<close>.

  The MySQL servers are the parameter \<open>be\<close>. Each of its fields answers an interaction (a dial, a
  ping, a query) from the whole history of events, so a theorem about every \<open>be\<close> is a theorem about
  every behaviour of the servers, failures that depend on what was sent before included. Its fields
  \<open>be_now\<close>, \<open>be_stamp\<close> and \<open>be_write\<close> are the clock, the formatted time and whether a file write succeeds. The state
  \<open>World\<close> is the store of connections, the store of pools and the history. A connection and a pool
  are Go pointers, so the model addresses them by their position in the stores.

  A channel is a queue with a capacity; \<open>nil\<close>, which \<open>Close\<close> sets it to, is \<open>None\<close>. The metric counters
  and the list of running queries are not modelled.
\<close>

section \<open>State\<close>

datatype event =
    EvDial string bool
  | EvPing nat bool
  | EvClose nat
  | EvExec string nat string bool
  | EvSleep nat

datatype exec_out = XOk Result nat | XErr go_error bool | XTimeout go_error bool

record Backends =
  be_dial :: "event list \<Rightarrow> bool"
  be_thread :: "event list \<Rightarrow> nat"
  be_ping :: "event list \<Rightarrow> bool"
  be_exec :: "event list \<Rightarrow> string \<Rightarrow> nat \<Rightarrow> string \<Rightarrow> exec_out"
  be_now :: "event list \<Rightarrow> int"
  be_stamp :: "event list \<Rightarrow> string"
  be_write :: "event list \<Rightarrow> bool"

record Conn =
  c_id :: nat
  c_address :: string
  c_pool :: nat
  c_lastErr :: bool
  c_killed :: bool
  c_closed :: bool
  c_timestamp :: int

record Pool =
  p_address :: string
  p_conf :: BackendConfig
  p_connections :: "nat list option"
  p_maxIdleTime :: int

record World =
  w_conns :: "Conn list"
  w_pools :: "Pool list"
  w_trace :: "event list"

definition emit :: "event \<Rightarrow> World \<Rightarrow> World" where
  "emit e w = w\<lparr>w_trace := w_trace w @ [e]\<rparr>"

definition upd_conn :: "nat \<Rightarrow> (Conn \<Rightarrow> Conn) \<Rightarrow> World \<Rightarrow> World" where
  "upd_conn c f w = w\<lparr>w_conns := (w_conns w)[c := f (w_conns w ! c)]\<rparr>"

definition set_queue :: "nat \<Rightarrow> nat list option \<Rightarrow> World \<Rightarrow> World" where
  "set_queue p q w = w\<lparr>w_pools := (w_pools w)[p := (w_pools w ! p)\<lparr>p_connections := q\<rparr>]\<rparr>"

abbreviation queue_of :: "World \<Rightarrow> nat \<Rightarrow> nat list option" where
  "queue_of w p \<equiv> p_connections (w_pools w ! p)"

section \<open>Connections\<close>

definition conn_Close :: "nat \<Rightarrow> World \<Rightarrow> World" where
  "conn_Close c w = emit (EvClose c) (upd_conn c (\<lambda>x. x\<lparr>c_lastErr := True, c_closed := True\<rparr>) w)"

definition server_lost :: go_error where
  "server_lost = Errorf ''Server maybe lost, please try again'' []"

text \<open>\<open>NewConnection\<close>, \<open>Dial\<close> and the time stamp, as \<open>reconnect\<close> calls them.\<close>

definition Pool_reconnect :: "Backends \<Rightarrow> World \<Rightarrow> nat \<Rightarrow> World \<times> nat res" where
  "Pool_reconnect be w p =
     (let pool = w_pools w ! p; ok = be_dial be (w_trace w); w1 = emit (EvDial (p_address pool) ok) w in
      if \<not> ok then (w1, Err server_lost)
      else (w1\<lparr>w_conns := w_conns w1 @
              [\<lparr>c_id = be_thread be (w_trace w1), c_address = p_address pool, c_pool = p, c_lastErr = False,
                c_killed = False, c_closed = False, c_timestamp = be_now be (w_trace w1)\<rparr>]\<rparr>,
            Ok (length (w_conns w1))))"

definition conn_Ping :: "Backends \<Rightarrow> World \<Rightarrow> nat \<Rightarrow> World \<times> bool" where
  "conn_Ping be w c = (let ok = be_ping be (w_trace w) in (emit (EvPing c ok) w, ok))"

section \<open>Pools\<close>

definition NewPool :: "BackendConfig \<Rightarrow> string \<Rightarrow> Pool option res" where
  "NewPool conf address =
     (if address = [] then Ok None
      else if bc_MaxConnections conf < 0 then Panic ''makechan: size out of range''
      else Ok (Some \<lparr>p_address = address, p_conf = conf, p_connections = Some [], p_maxIdleTime = 20\<rparr>))"

definition errClosed :: go_error where
  "errClosed = Errorf ''can't get connection from the closed DB'' []"

definition Pool_Get :: "Backends \<Rightarrow> World \<Rightarrow> nat \<Rightarrow> World \<times> nat res" where
  "Pool_Get be w p =
     (case queue_of w p of
        None \<Rightarrow> (w, Err errClosed)
      | Some [] \<Rightarrow> Pool_reconnect be w p
      | Some (c # cs) \<Rightarrow>
          let w1 = set_queue p (Some cs) w;
              elapsed = be_now be (w_trace w1) - c_timestamp (w_conns w1 ! c) in
          if 1 < elapsed then
            if p_maxIdleTime (w_pools w1 ! p) < elapsed then Pool_reconnect be (conn_Close c w1) p
            else (case conn_Ping be w1 c of
                    (w2, False) \<Rightarrow> Pool_reconnect be w2 p
                  | (w2, True) \<Rightarrow> (w2, Ok c))
          else (w1, Ok c))"

definition Pool_put :: "Backends \<Rightarrow> World \<Rightarrow> nat \<Rightarrow> nat \<Rightarrow> bool \<Rightarrow> World" where
  "Pool_put be w p c updateTs =
     (case queue_of w p of
        None \<Rightarrow> w
      | Some cs \<Rightarrow>
          let w1 = (if updateTs then upd_conn c (\<lambda>x. x\<lparr>c_timestamp := be_now be (w_trace w)\<rparr>) w else w) in
          if length cs < nat (bc_MaxConnections (p_conf (w_pools w ! p)))
          then set_queue p (Some (cs @ [c])) w1
          else conn_Close c w1)"

definition Pool_Put :: "Backends \<Rightarrow> World \<Rightarrow> nat \<Rightarrow> nat \<Rightarrow> World" where
  "Pool_Put be w p c = Pool_put be w p c True"

definition Pool_Close :: "World \<Rightarrow> nat \<Rightarrow> World" where
  "Pool_Close w p =
     (case queue_of w p of
        None \<Rightarrow> w
      | Some cs \<Rightarrow> set_queue p None (fold conn_Close cs w))"

section \<open>Queries\<close>

definition conn_Recycle :: "Backends \<Rightarrow> World \<Rightarrow> nat \<Rightarrow> World" where
  "conn_Recycle be w c = (if c_closed (w_conns w ! c) then w else Pool_Put be w (c_pool (w_conns w ! c)) c)"

text \<open>
  The part of \<open>ExecuteWithLimits\<close> after the deadline is set. \<open>XOk r n\<close> is a result of \<open>n\<close> bytes,
  \<open>XErr e broken\<close> an error after which the driver is closed if \<open>broken\<close>.
\<close>

definition exec_error :: "World \<Rightarrow> nat \<Rightarrow> string \<Rightarrow> bool \<Rightarrow> World" where
  "exec_error w c query broken =
     emit (EvExec (c_address (w_conns w ! c)) c query False)
       (upd_conn c (\<lambda>x. x\<lparr>c_lastErr := True, c_closed := c_closed x \<or> broken\<rparr>) w)"

definition mem_error :: "int \<Rightarrow> go_error" where
  "mem_error memlimits =
     Errorf ''Query execution was interrupted, max memory usage[%d bytes] exceeded'' [show_int memlimits]"

definition timeout_error :: "int \<Rightarrow> go_error" where
  "timeout_error timeout =
     Errorf ''Query execution was interrupted, timeout[%dms] exceeded'' [show_int timeout]"

definition conn_run :: "Backends \<Rightarrow> World \<Rightarrow> nat \<Rightarrow> string \<Rightarrow> int \<Rightarrow> int \<Rightarrow> exec_out \<Rightarrow> World \<times> Result res" where
  "conn_run be w c query timeout memlimits out =
     (case out of
        XOk r bytes \<Rightarrow>
          if 0 < memlimits \<and> memlimits < int bytes
          then (exec_error w c query False,
                Err (if c_killed (w_conns w ! c) then timeout_error timeout else mem_error memlimits))
          else (emit (EvExec (c_address (w_conns w ! c)) c query True) w, Ok r)
      | XErr e broken \<Rightarrow>
          (exec_error w c query broken, Err (if c_killed (w_conns w ! c) then timeout_error timeout else e))
      | XTimeout e broken \<Rightarrow>
          (exec_error w c query broken, Err (if c_killed (w_conns w ! c) then timeout_error timeout else e)))"

text \<open>\<open>Execute\<close>: no limits, so no deadline.\<close>

definition conn_Execute :: "Backends \<Rightarrow> World \<Rightarrow> nat \<Rightarrow> string \<Rightarrow> World \<times> Result res" where
  "conn_Execute be w c query =
     conn_run be w c query 0 0 (be_exec be (w_trace w) (c_address (w_conns w ! c)) c query)"

definition conn_Kill :: "Backends \<Rightarrow> World \<Rightarrow> nat \<Rightarrow> World \<times> unit res" where
  "conn_Kill be w c =
     (case Pool_Get be w (c_pool (w_conns w ! c)) of
        (w1, Err e) \<Rightarrow> (w1, Err e)
      | (w1, Panic x) \<Rightarrow> (w1, Panic x)
      | (w1, Ok kill) \<Rightarrow>
          (case conn_Execute be w1 kill (''KILL '' @ show_nat (c_id (w_conns w1 ! c))) of
             (w2, x) \<Rightarrow> (conn_Recycle be w2 kill, rbind x (\<lambda>_. Ok ()))))"

text \<open>
  With a deadline that passes (\<open>XTimeout\<close>) the connection is marked and killed through another one
  while the query is still running; the query then fails.
\<close>

definition conn_ExecuteWithLimits ::
  "Backends \<Rightarrow> World \<Rightarrow> nat \<Rightarrow> string \<Rightarrow> int \<Rightarrow> int \<Rightarrow> World \<times> Result res" where
  "conn_ExecuteWithLimits be w c query timeout memlimits =
     (let out = be_exec be (w_trace w) (c_address (w_conns w ! c)) c query in
      case out of
        XTimeout e broken \<Rightarrow>
          if 0 < timeout
          then conn_run be (fst (conn_Kill be (upd_conn c (\<lambda>x. x\<lparr>c_killed := True\<rparr>) w) c)) c query timeout memlimits out
          else conn_run be w c query timeout memlimits out
      | _ \<Rightarrow> conn_run be w c query timeout memlimits out)"

definition conn_UseDB :: "Backends \<Rightarrow> World \<Rightarrow> nat \<Rightarrow> string \<Rightarrow> World \<times> unit res" where
  "conn_UseDB be w c db =
     (if db \<noteq> [] then (case conn_Execute be w c (''use '' @ db) of (w1, x) \<Rightarrow> (w1, rbind x (\<lambda>_. Ok ())))
      else (w, Ok ()))"

section \<open>A backend's two pools\<close>

record Poolz =
  pz_conf :: BackendConfig
  pz_normal :: "nat option"
  pz_replica :: "nat option"

text \<open>A new pool enters the store; a pool without an address is nil.\<close>

definition add_pool :: "World \<Rightarrow> Pool option \<Rightarrow> World \<times> nat option" where
  "add_pool w pool =
     (case pool of None \<Rightarrow> (w, None) | Some x \<Rightarrow> (w\<lparr>w_pools := w_pools w @ [x]\<rparr>, Some (length (w_pools w))))"

definition NewPoolz :: "World \<Rightarrow> BackendConfig \<Rightarrow> World \<times> Poolz res" where
  "NewPoolz w conf =
     (case NewPool conf (bc_Address conf) of
        Err e \<Rightarrow> (w, Err e)
      | Panic x \<Rightarrow> (w, Panic x)
      | Ok normal \<Rightarrow>
          (case NewPool conf (bc_Replica conf) of
             Err e \<Rightarrow> (w, Err e)
           | Panic x \<Rightarrow> (w, Panic x)
           | Ok replica \<Rightarrow>
               let (w1, n) = add_pool w normal; (w2, r) = add_pool w1 replica in
               (w2, Ok \<lparr>pz_conf = conf, pz_normal = n, pz_replica = r\<rparr>)))"

definition Poolz_Close :: "World \<Rightarrow> Poolz \<Rightarrow> World" where
  "Poolz_Close w pz =
     (let w1 = (case pz_normal pz of None \<Rightarrow> w | Some p \<Rightarrow> Pool_Close w p) in
      case pz_replica pz of None \<Rightarrow> w1 | Some p \<Rightarrow> Pool_Close w1 p)"

section \<open>The pool invariant\<close>

text \<open>
  A queue holds each of its connections once, never more than the capacity, and only connections of
  its own pool. A connection keeps its pool and its address for life.
\<close>

definition conns_wf :: "World \<Rightarrow> bool" where
  "conns_wf w \<longleftrightarrow>
     (\<forall>c < length (w_conns w). c_pool (w_conns w ! c) < length (w_pools w) \<and>
        c_address (w_conns w ! c) = p_address (w_pools w ! c_pool (w_conns w ! c)))"

definition queue_wf :: "World \<Rightarrow> nat \<Rightarrow> nat list \<Rightarrow> bool" where
  "queue_wf w p q \<longleftrightarrow>
     distinct q \<and> length q \<le> nat (bc_MaxConnections (p_conf (w_pools w ! p))) \<and>
     (\<forall>c \<in> set q. c < length (w_conns w) \<and> c_pool (w_conns w ! c) = p)"

definition pool_inv :: "World \<Rightarrow> bool" where
  "pool_inv w \<longleftrightarrow>
     conns_wf w \<and> (\<forall>p q. p < length (w_pools w) \<longrightarrow> queue_of w p = Some q \<longrightarrow> queue_wf w p q)"

definition idle :: "World \<Rightarrow> nat set" where
  "idle w = {c. \<exists>p < length (w_pools w). \<exists>q. queue_of w p = Some q \<and> c \<in> set q}"

text \<open>What no operation changes: connections and pools stay, with their pool, address and capacity.\<close>

definition world_ext :: "World \<Rightarrow> World \<Rightarrow> bool" where
  "world_ext w w' \<longleftrightarrow>
     length (w_conns w) \<le> length (w_conns w') \<and> length (w_pools w) = length (w_pools w') \<and>
     (\<forall>c < length (w_conns w). c_pool (w_conns w' ! c) = c_pool (w_conns w ! c) \<and>
        c_address (w_conns w' ! c) = c_address (w_conns w ! c)) \<and>
     (\<forall>p. p_address (w_pools w' ! p) = p_address (w_pools w ! p) \<and> p_conf (w_pools w' ! p) = p_conf (w_pools w ! p))"

fun is_exec :: "event \<Rightarrow> bool" where
  "is_exec (EvExec _ _ _ _) = True"
| "is_exec _ = False"

text \<open>A step that sends no query.\<close>

definition quiet :: "World \<Rightarrow> World \<Rightarrow> bool" where
  "quiet w w' \<longleftrightarrow> (\<exists>es. w_trace w' = w_trace w @ es \<and> (\<forall>e \<in> set es. \<not> is_exec e))"

lemma world_ext_refl [simp]: "world_ext w w"
  by (simp add: world_ext_def)

lemma world_ext_trans: "world_ext w w' \<Longrightarrow> world_ext w' w'' \<Longrightarrow> world_ext w w''"
  by (auto simp: world_ext_def)

lemma quiet_refl [simp]: "quiet w w"
  by (simp add: quiet_def)

lemma quiet_trans: "quiet w w' \<Longrightarrow> quiet w' w'' \<Longrightarrow> quiet w w''"
  unfolding quiet_def by (metis append.assoc Un_iff set_append)

named_theorems world_simps \<open>the stores after an elementary step\<close>

lemma emit_simps [world_simps]:
  "w_conns (emit e w) = w_conns w" "w_pools (emit e w) = w_pools w" "w_trace (emit e w) = w_trace w @ [e]"
  by (simp_all add: emit_def)

lemma upd_conn_simps [world_simps]:
  "w_pools (upd_conn c f w) = w_pools w" "w_trace (upd_conn c f w) = w_trace w"
  "length (w_conns (upd_conn c f w)) = length (w_conns w)"
  by (simp_all add: upd_conn_def)

lemma set_queue_simps [world_simps]:
  "w_conns (set_queue p q w) = w_conns w" "w_trace (set_queue p q w) = w_trace w"
  "length (w_pools (set_queue p q w)) = length (w_pools w)"
  "p_address (w_pools (set_queue p q w) ! p') = p_address (w_pools w ! p')"
  "p_conf (w_pools (set_queue p q w) ! p') = p_conf (w_pools w ! p')"
  "p_maxIdleTime (w_pools (set_queue p q w) ! p') = p_maxIdleTime (w_pools w ! p')"
  "p < length (w_pools w) \<Longrightarrow> queue_of (set_queue p q w) p' = (if p' = p then q else queue_of w p')"
  by (auto simp: set_queue_def nth_upd)

text \<open>A step that keeps the pools and the places of the connections keeps the invariant.\<close>

definition conn_only :: "World \<Rightarrow> World \<Rightarrow> bool" where
  "conn_only w w' \<longleftrightarrow> w_pools w' = w_pools w \<and> world_ext w w' \<and> length (w_conns w') = length (w_conns w)"

lemma conn_only_emit [simp]: "conn_only w (emit e w)"
  by (simp add: conn_only_def world_ext_def emit_def)

lemma conn_only_refl [simp]: "conn_only w w"
  by (simp add: conn_only_def)

lemma quiet_emit [simp]: "\<not> is_exec e \<Longrightarrow> quiet w (emit e w)"
  by (simp add: quiet_def world_simps)

lemma conn_only_trans: "conn_only w w' \<Longrightarrow> conn_only w' w'' \<Longrightarrow> conn_only w w''"
  using world_ext_trans by (auto simp: conn_only_def)

lemma conn_only_upd:
  "(\<And>x. c_pool (f x) = c_pool x \<and> c_address (f x) = c_address x) \<Longrightarrow> conn_only w (upd_conn c f w)"
  by (auto simp: conn_only_def world_ext_def upd_conn_def nth_upd)

lemma conn_only_Close [simp]: "conn_only w (conn_Close c w)"
  unfolding conn_Close_def by (rule conn_only_trans [OF conn_only_upd conn_only_emit]) simp

lemma conn_only_inv:
  assumes only: "conn_only w w'" and inv: "pool_inv w"
  shows "pool_inv w' \<and> idle w' = idle w \<and> world_ext w w'"
proof -
  have pools: "w_pools w' = w_pools w" and len: "length (w_conns w') = length (w_conns w)" and ext: "world_ext w w'"
    using only by (simp_all add: conn_only_def)
  have same: "c_pool (w_conns w' ! c) = c_pool (w_conns w ! c)" "c_address (w_conns w' ! c) = c_address (w_conns w ! c)"
    if "c < length (w_conns w)" for c using ext that by (simp_all add: world_ext_def)
  have "conns_wf w'" using inv by (simp add: pool_inv_def conns_wf_def pools len same)
  moreover have "queue_wf w' p q" if "queue_wf w p q" for p q
    using that by (simp add: queue_wf_def pools len same)
  ultimately show ?thesis using inv ext by (simp add: pool_inv_def pools idle_def)
qed

lemma quiet_Close [simp]: "quiet w (conn_Close c w)"
  by (simp add: quiet_def conn_Close_def world_simps)

section \<open>Operations keep the invariant\<close>

text \<open>Replacing the queue of one pool by another well-formed queue.\<close>

lemma set_queue_inv:
  assumes inv: "pool_inv w" and p: "p < length (w_pools w)" and q: "\<And>q. qo = Some q \<Longrightarrow> queue_wf w p q"
  shows "pool_inv (set_queue p qo w) \<and> world_ext w (set_queue p qo w)"
proof -
  have "conns_wf (set_queue p qo w)" using inv by (simp add: pool_inv_def conns_wf_def world_simps)
  moreover have "queue_wf (set_queue p qo w) p' q' = queue_wf w p' q'" for p' q'
    by (simp add: queue_wf_def world_simps)
  ultimately have "pool_inv (set_queue p qo w)" using inv p q by (auto simp: pool_inv_def world_simps)
  then show ?thesis by (simp add: world_ext_def world_simps)
qed

lemma set_queue_idle:
  assumes p: "p < length (w_pools w)"
  shows "idle (set_queue p (Some q) w) \<subseteq> idle w \<union> set q"
    and "idle (set_queue p None w) \<subseteq> idle w"
  using p by (auto simp: idle_def world_simps split: if_splits)

lemma Pool_reconnect_spec:
  assumes inv: "pool_inv w" and p: "p < length (w_pools w)" and r: "Pool_reconnect be w p = (w', x)"
  shows "pool_inv w' \<and> idle w' = idle w \<and> world_ext w w' \<and> quiet w w' \<and>
     (\<forall>c. x = Ok c \<longrightarrow> length (w_conns w) \<le> c \<and> c < length (w_conns w') \<and> c_pool (w_conns w' ! c) = p \<and>
        \<not> c_closed (w_conns w' ! c))"
proof (cases "be_dial be (w_trace w)")
  case False
  with r have "w' = emit (EvDial (p_address (w_pools w ! p)) False) w" "x = Err server_lost"
    by (simp_all add: Pool_reconnect_def Let_def)
  with conn_only_inv [OF conn_only_emit inv] show ?thesis by (simp add: quiet_def world_simps)
next
  case True
  define w1 where "w1 = emit (EvDial (p_address (w_pools w ! p)) True) w"
  define n where "n = \<lparr>c_id = be_thread be (w_trace w1), c_address = p_address (w_pools w ! p), c_pool = p,
    c_lastErr = False, c_killed = False, c_closed = False, c_timestamp = be_now be (w_trace w1)\<rparr>"
  from True r have w': "w' = w1\<lparr>w_conns := w_conns w1 @ [n]\<rparr>" and x: "x = Ok (length (w_conns w1))"
    by (simp_all add: Pool_reconnect_def Let_def w1_def n_def)
  have s: "w_conns w' = w_conns w @ [n]" "w_pools w' = w_pools w"
    "w_trace w' = w_trace w @ [EvDial (p_address (w_pools w ! p)) True]"
    by (simp_all add: w' w1_def world_simps)
  have ext: "world_ext w w'" by (simp add: world_ext_def s nth_append)
  have "conns_wf w'" using inv p by (auto simp: pool_inv_def conns_wf_def s nth_append n_def less_Suc_eq)
  moreover have "queue_wf w' p' q" if "queue_wf w p' q" for p' q
    using that by (auto simp: queue_wf_def s nth_append)
  ultimately have "pool_inv w'" using inv by (simp add: pool_inv_def s)
  moreover have "quiet w w'" by (simp add: quiet_def s)
  moreover have "idle w' = idle w" by (simp add: idle_def s)
  ultimately show ?thesis using ext x by (simp add: s w1_def world_simps n_def)
qed

text \<open>A connection that \<open>Get\<close> returns has left every queue: nobody else can get it.\<close>

lemma idle_head:
  assumes inv: "pool_inv w" and p: "p < length (w_pools w)" and q: "queue_of w p = Some (c # cs)"
  shows "pool_inv (set_queue p (Some cs) w) \<and> world_ext w (set_queue p (Some cs) w) \<and>
     idle (set_queue p (Some cs) w) \<subseteq> idle w - {c} \<and> c < length (w_conns w) \<and> c_pool (w_conns w ! c) = p"
proof -
  have wf: "queue_wf w p (c # cs)" using inv p q by (simp add: pool_inv_def)
  then have "queue_wf w p cs" by (simp add: queue_wf_def)
  with set_queue_inv [OF inv p, of "Some cs"] have "pool_inv (set_queue p (Some cs) w)" "world_ext w (set_queue p (Some cs) w)"
    by simp_all
  moreover have "idle (set_queue p (Some cs) w) \<subseteq> idle w - {c}"
  proof
    fix x
    assume "x \<in> idle (set_queue p (Some cs) w)"
    then obtain p' q' where p': "p' < length (w_pools w)" and q': "queue_of (set_queue p (Some cs) w) p' = Some q'"
      and x: "x \<in> set q'" by (auto simp: idle_def world_simps)
    show "x \<in> idle w - {c}"
    proof (cases "p' = p")
      case True
      with q' p have "q' = cs" by (simp add: world_simps)
      with x wf q p show ?thesis by (auto simp: queue_wf_def idle_def)
    next
      case False
      with q' p have q'': "queue_of w p' = Some q'" by (simp add: world_simps)
      with inv p' x have "c_pool (w_conns w ! x) = p'" by (auto simp: pool_inv_def queue_wf_def)
      with wf False have "x \<noteq> c" by (auto simp: queue_wf_def)
      with q'' p' x show ?thesis by (auto simp: idle_def)
    qed
  qed
  ultimately show ?thesis using wf by (simp add: queue_wf_def)
qed

lemma Pool_Get_Cons:
  assumes "queue_of w p = Some (c # cs)"
  shows "Pool_Get be w p =
     (let el = be_now be (w_trace (set_queue p (Some cs) w)) - c_timestamp (w_conns (set_queue p (Some cs) w) ! c) in
      if 1 < el then
        if p_maxIdleTime (w_pools (set_queue p (Some cs) w) ! p) < el
        then Pool_reconnect be (conn_Close c (set_queue p (Some cs) w)) p
        else if be_ping be (w_trace (set_queue p (Some cs) w))
        then (emit (EvPing c True) (set_queue p (Some cs) w), Ok c)
        else Pool_reconnect be (emit (EvPing c False) (set_queue p (Some cs) w)) p
      else (set_queue p (Some cs) w, Ok c))"
  using assms
  by (cases "be_ping be (w_trace (set_queue p (Some cs) w))") (simp_all add: Pool_Get_def conn_Ping_def Let_def)

lemma Pool_Get_spec:
  assumes inv: "pool_inv w" and p: "p < length (w_pools w)" and g: "Pool_Get be w p = (w', x)"
  shows "pool_inv w' \<and> idle w' \<subseteq> idle w \<and> world_ext w w' \<and> quiet w w' \<and>
     (\<forall>c. x = Ok c \<longrightarrow> c < length (w_conns w') \<and> c \<notin> idle w' \<and> c_pool (w_conns w' ! c) = p \<and>
        (c \<in> idle w \<or> length (w_conns w) \<le> c))"
proof (cases "queue_of w p")
  case None
  with g inv show ?thesis by (auto simp: Pool_Get_def)
next
  case (Some q)
  have fresh: "c \<notin> idle v" if "pool_inv v" "length (w_conns v) \<le> c" for v c
    using that by (fastforce simp: pool_inv_def queue_wf_def idle_def)
  show ?thesis
  proof (cases q)
    case Nil
    with Some g have "Pool_reconnect be w p = (w', x)" by (simp add: Pool_Get_def)
    from Pool_reconnect_spec [OF inv p this] fresh [OF inv] show ?thesis by auto
  next
    case (Cons c cs)
    define w1 where "w1 = set_queue p (Some cs) w"
    have hd: "pool_inv w1" "world_ext w w1" "idle w1 \<subseteq> idle w - {c}" "c < length (w_conns w)" "c_pool (w_conns w ! c) = p"
      using idle_head [OF inv p] Some Cons by (simp_all add: w1_def)
    have w1: "w_conns w1 = w_conns w" "w_trace w1 = w_trace w" "length (w_pools w1) = length (w_pools w)"
      by (simp_all add: w1_def world_simps)
    have c: "c \<in> idle w" using Some Cons p by (auto simp: idle_def)
    define el where "el = be_now be (w_trace w1) - c_timestamp (w_conns w1 ! c)"
    have steps: "conn_only w1 (conn_Close c w1)" "quiet w1 (conn_Close c w1)"
      "\<And>b. conn_only w1 (emit (EvPing c b) w1)" "\<And>b. quiet w1 (emit (EvPing c b) w1)"
      "conn_only w1 w1" "quiet w1 w1"
      by simp_all
    have eq: "(if 1 < el then
          if p_maxIdleTime (w_pools w1 ! p) < el then Pool_reconnect be (conn_Close c w1) p
          else if be_ping be (w_trace w1) then (emit (EvPing c True) w1, Ok c)
          else Pool_reconnect be (emit (EvPing c False) w1) p
        else (w1, Ok c)) = (w', x)"
      using g Pool_Get_Cons [of w p c cs be] Some Cons by (simp only: w1_def el_def Let_def)
    consider (reconnect) v where "conn_only w1 v" "quiet w1 v" "Pool_reconnect be v p = (w', x)"
      | (hit) "conn_only w1 w'" "quiet w1 w'" "x = Ok c"
    proof (cases "1 < el")
      case late: True
      show thesis
      proof (cases "p_maxIdleTime (w_pools w1 ! p) < el")
        case True
        with eq late have "Pool_reconnect be (conn_Close c w1) p = (w', x)" by simp
        with steps show thesis by (intro that(1))
      next
        case False
        show thesis
        proof (cases "be_ping be (w_trace w1)")
          case True
          with eq late False have "w' = emit (EvPing c True) w1" "x = Ok c" by simp_all
          with steps show thesis by (intro that(2)) simp_all
        next
          case lost: False
          with eq late False have "Pool_reconnect be (emit (EvPing c False) w1) p = (w', x)" by simp
          with steps show thesis by (intro that(1))
        qed
      qed
    next
      case False
      with eq have "w' = w1" "x = Ok c" by simp_all
      with steps show thesis by (intro that(2)) simp_all
    qed
    then show ?thesis
    proof cases
      case reconnect
      from conn_only_inv [OF reconnect(1) hd(1)] have v: "pool_inv v" "idle v = idle w1" "world_ext w1 v" by simp_all
      moreover have "p < length (w_pools v)" using v(3) p w1 by (simp add: world_ext_def)
      from Pool_reconnect_spec [OF v(1) this reconnect(3)] have r: "pool_inv w'" "idle w' = idle v" "world_ext v w'"
        "quiet v w'" "\<forall>c. x = Ok c \<longrightarrow> length (w_conns v) \<le> c \<and> c < length (w_conns w') \<and> c_pool (w_conns w' ! c) = p"
        by auto
      have "quiet w w'" using reconnect(2) r(4) w1 by (auto simp: quiet_def)
      moreover have "world_ext w w'" using hd(2) v(3) r(3) by (blast intro: world_ext_trans)
      moreover have "length (w_conns w) \<le> length (w_conns v)" using v(3) w1 by (simp add: world_ext_def)
      ultimately show ?thesis using r hd(3) fresh [OF v(1)] by auto
    next
      case hit
      from conn_only_inv [OF hit(1) hd(1)] have v: "pool_inv w'" "idle w' = idle w1" "world_ext w1 w'" by simp_all
      have "quiet w w'" using hit(2) w1 by (auto simp: quiet_def)
      moreover have "world_ext w w'" using hd(2) v(3) by (blast intro: world_ext_trans)
      moreover from this have "c < length (w_conns w')" "c_pool (w_conns w' ! c) = p"
        using hd(4,5) by (auto simp: world_ext_def)
      ultimately show ?thesis using v hd(3) hit(3) c by auto
    qed
  qed
qed

text \<open>The connections that are out: they exist and no queue holds them.\<close>

definition out :: "World \<Rightarrow> nat set" where
  "out w = {c. c < length (w_conns w) \<and> c \<notin> idle w}"

lemma out_mono: "world_ext w w' \<Longrightarrow> idle w' \<subseteq> idle w \<Longrightarrow> out w \<subseteq> out w'"
  by (auto simp: out_def world_ext_def)

lemma Pool_put_spec:
  assumes inv: "pool_inv w" and c: "c \<in> out w" "c_pool (w_conns w ! c) = p"
  shows "pool_inv (Pool_put be w p c b) \<and> out w - {c} \<subseteq> out (Pool_put be w p c b) \<and>
     world_ext w (Pool_put be w p c b) \<and> quiet w (Pool_put be w p c b)"
proof (cases "queue_of w p")
  case None
  with inv show ?thesis by (simp add: Pool_put_def)
next
  case (Some q)
  define w1 where "w1 = (if b then upd_conn c (\<lambda>x. x\<lparr>c_timestamp := be_now be (w_trace w)\<rparr>) w else w)"
  have only: "conn_only w w1" by (simp add: w1_def conn_only_upd)
  note s1 = conn_only_inv [OF only inv]
  have t1: "w_trace w1 = w_trace w" "w_pools w1 = w_pools w" "length (w_conns w1) = length (w_conns w)"
    by (simp_all add: w1_def world_simps)
  have p: "p < length (w_pools w)" using inv c by (auto simp: pool_inv_def conns_wf_def out_def)
  show ?thesis
  proof (cases "length q < nat (bc_MaxConnections (p_conf (w_pools w ! p)))")
    case True
    then have w': "Pool_put be w p c b = set_queue p (Some (q @ [c])) w1"
      using Some by (simp add: Pool_put_def w1_def Let_def)
    have "queue_wf w1 p q" using s1 Some p t1 by (simp add: pool_inv_def)
    moreover have "c \<notin> set q" using c(1) Some p by (auto simp: out_def idle_def)
    moreover have "c_pool (w_conns w1 ! c) = p" using only c by (auto simp: conn_only_def world_ext_def out_def)
    ultimately have "queue_wf w1 p (q @ [c])" using True t1 c(1) by (auto simp: queue_wf_def out_def)
    with set_queue_inv [of w1 p "Some (q @ [c])"] s1 p t1
    have inv': "pool_inv (set_queue p (Some (q @ [c])) w1)" "world_ext w1 (set_queue p (Some (q @ [c])) w1)" by auto
    have "set q \<subseteq> idle w" using Some p by (auto simp: idle_def)
    then have "idle (set_queue p (Some (q @ [c])) w1) \<subseteq> idle w \<union> {c}"
      using set_queue_idle(1) [of p w1 "q @ [c]"] s1 p t1 by auto
    with inv' s1 only have "out w - {c} \<subseteq> out (set_queue p (Some (q @ [c])) w1)"
      by (auto simp: out_def world_simps t1)
    moreover have "quiet w (set_queue p (Some (q @ [c])) w1)" by (simp add: quiet_def world_simps t1)
    ultimately show ?thesis using inv' s1 world_ext_trans unfolding w' by blast
  next
    case False
    then have w': "Pool_put be w p c b = conn_Close c w1" using Some by (simp add: Pool_put_def w1_def Let_def)
    have only': "conn_only w (conn_Close c w1)" by (rule conn_only_trans [OF only conn_only_Close])
    have "quiet w (conn_Close c w1)" using quiet_Close [of w1 c] by (simp add: quiet_def t1)
    with conn_only_inv [OF only' inv] out_mono [of w "conn_Close c w1"] show ?thesis unfolding w' by auto
  qed
qed

lemma conn_Recycle_spec:
  assumes inv: "pool_inv w" and c: "c \<in> out w"
  shows "pool_inv (conn_Recycle be w c) \<and> out w - {c} \<subseteq> out (conn_Recycle be w c) \<and>
     world_ext w (conn_Recycle be w c) \<and> quiet w (conn_Recycle be w c)"
  using Pool_put_spec [OF inv c refl] inv by (auto simp: conn_Recycle_def Pool_Put_def)

lemma conn_Close_spec:
  "pool_inv w \<Longrightarrow> pool_inv (conn_Close c w) \<and> out w \<subseteq> out (conn_Close c w) \<and> world_ext w (conn_Close c w)"
  using conn_only_inv [OF conn_only_Close, of w c] out_mono [of w "conn_Close c w"] by auto

lemma Pool_Get_out: "pool_inv w \<Longrightarrow> p < length (w_pools w) \<Longrightarrow> Pool_Get be w p = (w', Ok c) \<Longrightarrow> c \<in> out w' - out w"
  using Pool_Get_spec [of w p be w' "Ok c"] by (auto simp: out_def)

section \<open>Queries keep the invariant and leave one event\<close>

lemma conn_run_spec:
  assumes "conn_run be w c query t m xo = (w', x)"
  shows "conn_only w w' \<and> w_trace w' = w_trace w @ [EvExec (c_address (w_conns w ! c)) c query (is_ok x)]"
proof -
  have "conn_only w (exec_error w c query b)" for b
    unfolding exec_error_def by (rule conn_only_trans [OF conn_only_upd conn_only_emit]) simp
  moreover have "w_trace (exec_error w c query b) = w_trace w @ [EvExec (c_address (w_conns w ! c)) c query False]" for b
    by (simp add: exec_error_def world_simps)
  ultimately show ?thesis using assms
    by (auto simp: conn_run_def emit_simps split: exec_out.splits if_splits)
qed

lemma conn_Execute_spec:
  assumes inv: "pool_inv w" and e: "conn_Execute be w c query = (w', x)"
  shows "pool_inv w' \<and> out w \<subseteq> out w' \<and> world_ext w w' \<and>
     w_trace w' = w_trace w @ [EvExec (c_address (w_conns w ! c)) c query (is_ok x)]"
proof -
  from conn_run_spec [OF e [unfolded conn_Execute_def]] have only: "conn_only w w'"
    and t: "w_trace w' = w_trace w @ [EvExec (c_address (w_conns w ! c)) c query (is_ok x)]" by simp_all
  from conn_only_inv [OF only inv] have "pool_inv w'" "idle w' = idle w" "world_ext w w'" by simp_all
  with out_mono [of w w'] t show ?thesis by simp
qed

lemma conn_Kill_spec:
  assumes inv: "pool_inv w" and c: "c < length (w_conns w)"
  shows "pool_inv (fst (conn_Kill be w c)) \<and> out w \<subseteq> out (fst (conn_Kill be w c)) \<and>
     world_ext w (fst (conn_Kill be w c))"
proof -
  let ?p = "c_pool (w_conns w ! c)"
  have p: "?p < length (w_pools w)" using inv c by (simp add: pool_inv_def conns_wf_def)
  obtain w1 x where g: "Pool_Get be w ?p = (w1, x)" by fastforce
  from Pool_Get_spec [OF inv p g] have s1: "pool_inv w1" "idle w1 \<subseteq> idle w" "world_ext w w1" by simp_all
  show ?thesis
  proof (cases x)
    case (Ok kill)
    from Pool_Get_out [OF inv p] g Ok have kill: "kill \<in> out w1" "kill \<notin> out w" by auto
    obtain w2 y where e: "conn_Execute be w1 kill (''KILL '' @ show_nat (c_id (w_conns w1 ! c))) = (w2, y)" by fastforce
    from conn_Execute_spec [OF s1(1) e] have s2: "pool_inv w2" "out w1 \<subseteq> out w2" "world_ext w1 w2" by simp_all
    with kill have "kill \<in> out w2" by auto
    from conn_Recycle_spec [OF s2(1) this] have s3: "pool_inv (conn_Recycle be w2 kill)"
      "out w2 - {kill} \<subseteq> out (conn_Recycle be w2 kill)" "world_ext w2 (conn_Recycle be w2 kill)" by simp_all
    have "fst (conn_Kill be w c) = conn_Recycle be w2 kill" using g Ok e by (simp add: conn_Kill_def)
    moreover have "out w \<subseteq> out w2 - {kill}" using out_mono [OF s1(3,2)] s2(2) kill by auto
    ultimately show ?thesis using s1 s2 s3 world_ext_trans by (metis order_trans)
  qed (use s1 out_mono [OF s1(3,2)] g in \<open>simp_all add: conn_Kill_def\<close>)
qed

lemma conn_ExecuteWithLimits_spec:
  assumes inv: "pool_inv w" and c: "c < length (w_conns w)"
    and e: "conn_ExecuteWithLimits be w c query t m = (w', x)"
  shows "pool_inv w' \<and> out w \<subseteq> out w' \<and> world_ext w w' \<and>
     (\<exists>es. w_trace w' = es @ [EvExec (c_address (w_conns w ! c)) c query (is_ok x)])"
proof -
  define xo where "xo = be_exec be (w_trace w) (c_address (w_conns w ! c)) c query"
  obtain v where v: "pool_inv v" "out w \<subseteq> out v" "world_ext w v" and run: "conn_run be v c query t m xo = (w', x)"
  proof (cases "\<exists>err b. xo = XTimeout err b \<and> 0 < t")
    case True
    let ?u = "upd_conn c (\<lambda>x. x\<lparr>c_killed := True\<rparr>) w"
    have "conn_only w ?u" by (rule conn_only_upd) simp
    from conn_only_inv [OF this inv] have u: "pool_inv ?u" "idle ?u = idle w" "world_ext w ?u" by simp_all
    have "c < length (w_conns ?u)" using c by (simp add: world_simps)
    from conn_Kill_spec [OF u(1) this, of be] out_mono [OF u(3)] u
    show thesis by (intro that [of "fst (conn_Kill be ?u c)"])
      (use e True in \<open>auto simp: conn_ExecuteWithLimits_def Let_def xo_def [symmetric] intro: world_ext_trans\<close>)
  next
    case False
    with e have "conn_run be w c query t m xo = (w', x)"
      by (auto simp: conn_ExecuteWithLimits_def Let_def xo_def [symmetric] split: exec_out.splits)
    with inv show thesis by (intro that [of w]) simp_all
  qed
  from conn_run_spec [OF run] have only: "conn_only v w'"
    and t: "w_trace w' = w_trace v @ [EvExec (c_address (w_conns v ! c)) c query (is_ok x)]" by simp_all
  from conn_only_inv [OF only v(1)] have "pool_inv w'" "idle w' = idle v" "world_ext v w'" by simp_all
  moreover have "c_address (w_conns v ! c) = c_address (w_conns w ! c)" using v(3) c by (simp add: world_ext_def)
  ultimately show ?thesis using v t out_mono [of v w'] world_ext_trans [OF v(3)] by auto
qed

section \<open>The contract of the pools\<close>

text \<open>
  What the transactions rely on: a connection obtained is out and was not out before; a connection
  given back, closed or killed does not disturb the others that are out; and no operation moves a
  connection to another pool (\<open>ext\<close>).
\<close>

locale conn_source =
  fixes inv :: "'w \<Rightarrow> bool" and held :: "'w \<Rightarrow> nat set" and ext :: "'w \<Rightarrow> 'w \<Rightarrow> bool" and known :: "'w \<Rightarrow> nat \<Rightarrow> bool"
    and get :: "'w \<Rightarrow> nat \<Rightarrow> 'w \<times> nat res" and recycle :: "'w \<Rightarrow> nat \<Rightarrow> 'w" and close :: "'w \<Rightarrow> nat \<Rightarrow> 'w"
    and kill :: "'w \<Rightarrow> nat \<Rightarrow> 'w"
  assumes get_inv: "inv w \<Longrightarrow> known w p \<Longrightarrow> get w p = (w', x) \<Longrightarrow> inv w' \<and> held w \<subseteq> held w' \<and> ext w w'"
    and get_new: "inv w \<Longrightarrow> known w p \<Longrightarrow> get w p = (w', Ok c) \<Longrightarrow> c \<in> held w' - held w"
    and recycle_inv: "inv w \<Longrightarrow> c \<in> held w \<Longrightarrow>
      inv (recycle w c) \<and> held w - {c} \<subseteq> held (recycle w c) \<and> ext w (recycle w c)"
    and close_inv: "inv w \<Longrightarrow> inv (close w c) \<and> held w \<subseteq> held (close w c) \<and> ext w (close w c)"
    and kill_inv: "inv w \<Longrightarrow> c \<in> held w \<Longrightarrow> inv (kill w c) \<and> held w \<subseteq> held (kill w c) \<and> ext w (kill w c)"
    and ext_refl: "ext w w"
    and ext_trans: "ext w w1 \<Longrightarrow> ext w1 w2 \<Longrightarrow> ext w w2"
begin

text \<open>A step that gives up at most the connection it is applied to, over a list of distinct connections.\<close>

lemma fold_release:
  assumes step: "\<And>v c. inv v \<Longrightarrow> c \<in> held v \<Longrightarrow> inv (f v c) \<and> held v - {c} \<subseteq> held (f v c) \<and> ext v (f v c)"
    and "inv w" "distinct cs" "set cs \<subseteq> held w"
  shows "inv (foldl f w cs) \<and> held w - set cs \<subseteq> held (foldl f w cs) \<and> ext w (foldl f w cs)"
  using assms(2-)
proof (induction cs arbitrary: w)
  case (Cons c cs)
  have v: "inv (f w c)" "held w - {c} \<subseteq> held (f w c)" "ext w (f w c)"
    using Cons.prems step [of w c] by auto
  with Cons.prems have "set cs \<subseteq> held (f w c)" by auto
  with Cons.IH [of "f w c"] Cons.prems v show ?case by (auto intro: ext_trans)
qed (simp add: ext_refl)

text \<open>Releasing a list of distinct connections, each by closing or recycling it, and killing one.\<close>

lemma release_all:
  assumes "inv w" "distinct cs" "set cs \<subseteq> held w"
  shows "inv (foldl (\<lambda>v c. if closing then close v c else recycle v c) w cs) \<and>
     held w - set cs \<subseteq> held (foldl (\<lambda>v c. if closing then close v c else recycle v c) w cs) \<and>
     ext w (foldl (\<lambda>v c. if closing then close v c else recycle v c) w cs)"
  by (rule fold_release [OF _ assms], cases closing) (use recycle_inv close_inv in \<open>simp_all, blast\<close>)

lemma kill_all:
  assumes "inv w" "distinct cs" "set cs \<subseteq> held w"
  shows "inv (foldl kill w cs) \<and> held w - set cs \<subseteq> held (foldl kill w cs) \<and> ext w (foldl kill w cs)"
  by (rule fold_release [OF _ assms]) (use kill_inv in blast)

text \<open>A connection obtained is none of those already held.\<close>

lemma get_distinct:
  "inv w \<Longrightarrow> known w p \<Longrightarrow> get w p = (w', Ok c) \<Longrightarrow> distinct cs \<Longrightarrow> set cs \<subseteq> held w \<Longrightarrow>
     distinct (cs @ [c]) \<and> set (cs @ [c]) \<subseteq> held w'"
  using get_inv get_new by fastforce

end

interpretation pools: conn_source pool_inv out world_ext "\<lambda>w p. p < length (w_pools w)"
  "Pool_Get be" "conn_Recycle be" "\<lambda>w c. conn_Close c w" "\<lambda>w c. fst (conn_Kill be w c)" for be
proof unfold_locales
  fix w w' :: World and p :: nat and x :: "nat res"
  assume "pool_inv w" "p < length (w_pools w)" "Pool_Get be w p = (w', x)"
  from Pool_Get_spec [OF this] out_mono show "pool_inv w' \<and> out w \<subseteq> out w' \<and> world_ext w w'" by blast
next
  fix w :: World and c :: nat
  assume "pool_inv w" "c \<in> out w"
  from conn_Recycle_spec [OF this]
  show "pool_inv (conn_Recycle be w c) \<and> out w - {c} \<subseteq> out (conn_Recycle be w c) \<and> world_ext w (conn_Recycle be w c)"
    by blast
next
  fix w :: World and c :: nat
  assume "pool_inv w" "c \<in> out w"
  with conn_Kill_spec [of w c be]
  show "pool_inv (fst (conn_Kill be w c)) \<and> out w \<subseteq> out (fst (conn_Kill be w c)) \<and> world_ext w (fst (conn_Kill be w c))"
    by (simp add: out_def)
qed (use Pool_Get_out conn_Close_spec world_ext_trans in \<open>auto\<close>)

section \<open>Closing a pool\<close>

lemma fold_Close_only: "conn_only w (fold conn_Close cs w)"
proof (induction cs arbitrary: w)
  case (Cons c cs)
  show ?case using conn_only_trans [OF conn_only_Close Cons.IH] by simp
qed simp

lemma Pool_Close_spec:
  assumes inv: "pool_inv w" and p: "p < length (w_pools w)"
  shows "pool_inv (Pool_Close w p) \<and> queue_of (Pool_Close w p) p = None \<and> idle (Pool_Close w p) \<subseteq> idle w"
proof (cases "queue_of w p")
  case None
  with inv show ?thesis by (simp add: Pool_Close_def)
next
  case (Some q)
  let ?v = "fold conn_Close q w"
  from conn_only_inv [OF fold_Close_only inv] have v: "pool_inv ?v" "idle ?v = idle w" by simp_all
  have pools: "w_pools ?v = w_pools w" using fold_Close_only [of w q] by (simp add: conn_only_def)
  then have p': "p < length (w_pools ?v)" using p by simp
  from set_queue_inv [OF v(1) p', of None] set_queue_idle(2) [OF p'] v(2)
  have "pool_inv (set_queue p None ?v)" "idle (set_queue p None ?v) \<subseteq> idle w" by auto
  with p' Some show ?thesis by (simp add: Pool_Close_def world_simps)
qed

end
