(* ===== verification/Xa_Log.thy ===== *)
theory Xa_Log
  imports Pool
begin

text \<open>
  The log of transactions whose second phase failed: the part of \<open>backend/xacheck.go\<close> that the
  transactions write to. Its state is the map \<open>retrys\<close> in memory and the two files; the theory
  \<open>Xa_Check\<close> has the worker that retries the entries.
\<close>

record XaCommitErr =
  xe_Time :: string
  xe_Xaid :: string
  xe_State :: string
  xe_Times :: int

record XaCheck =
  xc_times :: int
  xc_retrys :: "(string, XaCommitErr) gomap"
  xc_file :: "XaCommitErr list option"
  xc_timesout :: "XaCommitErr list"

definition NewXaCheck :: "int \<Rightarrow> XaCommitErr list option \<Rightarrow> XaCheck" where
  "NewXaCheck retries onDisk =
     \<lparr>xc_times = retries, xc_retrys = [], xc_file = onDisk, xc_timesout = []\<rparr>"

definition addXaCommitErrLog :: "XaCheck \<Rightarrow> XaCommitErr \<Rightarrow> XaCheck \<times> unit res" where
  "addXaCommitErrLog xc e =
     (case gm_get (xc_retrys xc) (xe_Xaid e) of
        Some _ \<Rightarrow> (xc, Err (Errorf ''xacheck.addXACommitErrLog.xaid[%v].duplicate'' [xe_Xaid e]))
      | None \<Rightarrow> (xc\<lparr>xc_retrys := gm_put (xe_Xaid e) e (xc_retrys xc)\<rparr>, Ok ()))"

text \<open>The whole map is written to the file; a write that fails panics.\<close>

definition flushXaCommitErrLog :: "bool \<Rightarrow> XaCheck \<Rightarrow> XaCheck \<times> unit res" where
  "flushXaCommitErrLog write_ok xc =
     (if write_ok then (xc\<lparr>xc_file := Some (map snd (xc_retrys xc))\<rparr>, Ok ())
      else (xc, Panic ''xacheck.flush.config.to.file.error''))"

definition WriteXaCommitErrLog :: "bool \<Rightarrow> string \<Rightarrow> XaCheck \<Rightarrow> string \<Rightarrow> string \<Rightarrow> XaCheck \<times> unit res" where
  "WriteXaCommitErrLog write_ok stamp xc xid state =
     (case addXaCommitErrLog xc \<lparr>xe_Time = stamp, xe_Xaid = xid, xe_State = state, xe_Times = xc_times xc\<rparr> of
        (xc1, Ok _) \<Rightarrow> flushXaCommitErrLog write_ok xc1
      | (xc1, Err e) \<Rightarrow> (xc1, Err e)
      | (xc1, Panic p) \<Rightarrow> (xc1, Panic p))"

text \<open>\<open>LoadXaCommitErrLogs\<close>: the file, if there is one, is read into the map; an identifier that occurs twice is an error.\<close>

fun load_errs :: "XaCheck \<Rightarrow> XaCommitErr list \<Rightarrow> XaCheck \<times> unit res" where
  "load_errs xc [] = (xc, Ok ())"
| "load_errs xc (e # es) =
     (case addXaCommitErrLog xc e of
        (xc1, Ok _) \<Rightarrow> load_errs xc1 es
      | (xc1, Err x) \<Rightarrow> (xc1, Err x)
      | (xc1, Panic p) \<Rightarrow> (xc1, Panic p))"

definition LoadXaCommitErrLogs :: "bool \<Rightarrow> XaCheck \<Rightarrow> XaCheck \<times> unit res" where
  "LoadXaCommitErrLogs read_ok xc =
     (case xc_file xc of
        None \<Rightarrow> (xc, Ok ())
      | Some es \<Rightarrow> if read_ok then load_errs xc es else (xc, Err (Errorf ''xacheck.LoadXaCommitErrLogs.readfile'' [])))"

text \<open>Every entry is stored under its own identifier, and the file holds what the memory holds.\<close>

definition xc_inv :: "XaCheck \<Rightarrow> bool" where
  "xc_inv xc \<longleftrightarrow> gm_wf (xc_retrys xc) \<and> (\<forall>(k, e) \<in> set (xc_retrys xc). xe_Xaid e = k)"

definition xc_flushed :: "XaCheck \<Rightarrow> bool" where
  "xc_flushed xc \<longleftrightarrow> xc_file xc = Some (map snd (xc_retrys xc)) \<or> xc_file xc = None \<and> xc_retrys xc = []"

lemma addXaCommitErrLog_inv: "xc_inv xc \<Longrightarrow> addXaCommitErrLog xc e = (xc', x) \<Longrightarrow> xc_inv xc'"
  by (auto simp: addXaCommitErrLog_def xc_inv_def gm_put_set split: option.splits)

lemma WriteXaCommitErrLog_inv: "xc_inv xc \<Longrightarrow> WriteXaCommitErrLog b s xc xid st = (xc', x) \<Longrightarrow> xc_inv xc'"
  using addXaCommitErrLog_inv [of xc]
  by (auto simp: WriteXaCommitErrLog_def flushXaCommitErrLog_def split: prod.splits res.splits if_splits)
    (simp add: xc_inv_def)

text \<open>After a write the identifier is logged, unless the process went down.\<close>

lemma WriteXaCommitErrLog_logged:
  assumes "WriteXaCommitErrLog b s xc xid st = (xc', x)"
  shows "\<exists>e. gm_get (xc_retrys xc') xid = Some e"
    and "x = Ok u \<Longrightarrow> \<exists>e. gm_get (xc_retrys xc') xid = Some e \<and> xe_State e = st \<and> xc_flushed xc'"
  using assms
  by (auto simp: WriteXaCommitErrLog_def addXaCommitErrLog_def flushXaCommitErrLog_def xc_flushed_def gomap_simps
      split: option.splits if_splits)

text \<open>A restart reads back what was flushed.\<close>

lemma load_errs_map:
  assumes "distinct (map xe_Xaid es)" "\<forall>e \<in> set es. gm_get (xc_retrys xc) (xe_Xaid e) = None"
  shows "\<exists>xc'. load_errs xc es = (xc', Ok ()) \<and> xc_times xc' = xc_times xc \<and>
     (\<forall>k. gm_get (xc_retrys xc') k =
        (case find (\<lambda>e. xe_Xaid e = k) es of Some e \<Rightarrow> Some e | None \<Rightarrow> gm_get (xc_retrys xc) k))"
  using assms
proof (induction es arbitrary: xc)
  case (Cons e es)
  let ?xc = "xc\<lparr>xc_retrys := gm_put (xe_Xaid e) e (xc_retrys xc)\<rparr>"
  have add: "addXaCommitErrLog xc e = (?xc, Ok ())" using Cons.prems by (simp add: addXaCommitErrLog_def)
  have "\<forall>e' \<in> set es. gm_get (xc_retrys ?xc) (xe_Xaid e') = None"
    using Cons.prems by (simp add: gomap_simps) (metis imageI)
  with Cons.IH [of ?xc] Cons.prems obtain xc' where xc': "load_errs ?xc es = (xc', Ok ())" "xc_times xc' = xc_times xc"
    "\<forall>k. gm_get (xc_retrys xc') k =
        (case find (\<lambda>e. xe_Xaid e = k) es of Some e \<Rightarrow> Some e | None \<Rightarrow> gm_get (xc_retrys ?xc) k)" by auto
  have "find (\<lambda>e'. xe_Xaid e' = xe_Xaid e) es = None"
    using Cons.prems(1) by (simp add: find_None_iff) (metis imageI)
  with xc' add show ?case by (auto simp: gomap_simps split: option.splits)
qed simp

lemma find_map_snd:
  "gm_wf m \<Longrightarrow> \<forall>(k, e) \<in> set m. xe_Xaid e = k \<Longrightarrow> find (\<lambda>e. xe_Xaid e = k) (map snd m) = gm_get m k"
  by (induction m) (auto simp: gm_wf_def)

end
