(* ===== verification/Txn.thy ===== *)
theory Txn
  imports Xa_Log
begin

text \<open>
  Distributed transactions: \<open>backend/txn.go\<close>, \<open>backend/xa.go\<close>, \<open>backend/txnmgr.go\<close> and the request
  of \<open>xcontext/xcontext.go\<close>. A transaction is passed and returned with the state \<open>Sys\<close> it works on:
  the connections and pools, the transaction manager and the log of failed commits.

  The goroutines of one \<open>errgroup\<close> run one after the other, in the order of the list of backends,
  which is an arbitrary order; all of them run, and the first error is the result. Each touches only
  the connections of its own backend. A panic in one of them ends the process.
\<close>

section \<open>State\<close>

datatype RequestMode = ReqNormal | ReqScatter | ReqSingle

datatype TxnMode = TxnNone | TxnRead | TxnWrite

record QueryTuple =
  qt_Query :: string
  qt_Backend :: string
  qt_Range :: string

record RequestContext =
  rq_RawQuery :: string
  rq_Mode :: RequestMode
  rq_TxnMode :: TxnMode
  rq_Querys :: "QueryTuple list"

definition NewRequestContext :: RequestContext where
  "NewRequestContext = \<lparr>rq_RawQuery = [], rq_Mode = ReqNormal, rq_TxnMode = TxnNone, rq_Querys = []\<rparr>"

datatype txnState =
    txnStateLive | txnStateBeginning | txnStateExecutingTwoPC | txnStateExecutingNormal
  | txnStateRollbacking | txnStateCommitting | txnStateFinshing | txnStateAborting | txnStateRecovering

datatype txnXAState =
    txnXAStateNone | txnXAStateStart | txnXAStateStartFinished | txnXAStateEnd | txnXAStateEndFinished
  | txnXAStatePrepare | txnXAStatePrepareFinished | txnXAStateCommit | txnXAStateCommitFinished
  | txnXAStateRollback | txnXAStateRollbackFinished | txnXAStateRecover | txnXAStateRecoverFinished

record Txn =
  tx_id :: "64 word"
  tx_xid :: string
  tx_req :: "RequestContext option"
  tx_twopc :: bool
  tx_isExecOnRep :: bool
  tx_isMultiStmtTxn :: bool
  tx_state :: txnState
  tx_xaState :: txnXAState
  tx_backends :: "(string, Poolz) gomap"
  tx_timeout :: int
  tx_maxResult :: int
  tx_errors :: nat
  tx_twopcConnections :: "(string, nat) gomap"
  tx_normalConnections :: "nat list"
  tx_replicaConnections :: "nat list"

record TxnManager =
  m_txnid :: "64 word"
  m_txnNums :: "64 word"

record Sys =
  sy_world :: World
  sy_mgr :: TxnManager
  sy_xaCheck :: "XaCheck option"

section \<open>The manager\<close>

definition NewTxnManager :: TxnManager where
  "NewTxnManager = \<lparr>m_txnid = 0, m_txnNums = 0\<rparr>"

definition mgr_GetID :: "TxnManager \<Rightarrow> TxnManager \<times> 64 word" where
  "mgr_GetID m = (m\<lparr>m_txnid := m_txnid m + 1\<rparr>, m_txnid m + 1)"

definition mgr_Add :: "TxnManager \<Rightarrow> TxnManager" where
  "mgr_Add m = m\<lparr>m_txnNums := m_txnNums m + 1\<rparr>"

definition mgr_Remove :: "TxnManager \<Rightarrow> TxnManager" where
  "mgr_Remove m = m\<lparr>m_txnNums := m_txnNums m - 1\<rparr>"

definition NewTxn :: "64 word \<Rightarrow> (string, Poolz) gomap \<Rightarrow> Txn" where
  "NewTxn txid backends =
     \<lparr>tx_id = txid, tx_xid = [], tx_req = None, tx_twopc = False, tx_isExecOnRep = False,
      tx_isMultiStmtTxn = False, tx_state = txnStateLive, tx_xaState = txnXAStateNone, tx_backends = backends,
      tx_timeout = 0, tx_maxResult = 0, tx_errors = 0, tx_twopcConnections = [], tx_normalConnections = [],
      tx_replicaConnections = []\<rparr>"

definition CreateTxn :: "TxnManager \<Rightarrow> (string, Poolz) gomap \<Rightarrow> TxnManager \<times> Txn res" where
  "CreateTxn m backends =
     (if backends = [] then (m, Err (Errorf ''backends.is.NULL'' []))
      else let (m1, txid) = mgr_GetID m in (mgr_Add m1, Ok (NewTxn txid backends)))"

section \<open>Connections of a transaction\<close>

type_synonym 'a txn_step = "Txn \<times> World \<times> 'a res"

definition nil_pool :: "'a res" where
  "nil_pool = Panic ''nil pointer dereference''"

definition twopcConnection :: "Backends \<Rightarrow> Txn \<Rightarrow> World \<Rightarrow> string \<Rightarrow> nat txn_step" where
  "twopcConnection be txn w back =
     (case gm_get (tx_twopcConnections txn) back of
        Some c \<Rightarrow> (txn, w, Ok c)
      | None \<Rightarrow>
          (case gm_get (tx_backends txn) back of
             None \<Rightarrow> (txn, w, Err (Errorf ''txn.can.not.get.twopc.connection.by.backend[%+v].from.pool'' [back]))
           | Some pz \<Rightarrow>
               (case pz_normal pz of
                  None \<Rightarrow> (txn, w, nil_pool)
                | Some p \<Rightarrow>
                    (case Pool_Get be w p of
                       (w1, Ok c) \<Rightarrow>
                         (txn\<lparr>tx_twopcConnections := gm_put back c (tx_twopcConnections txn)\<rparr>, w1, Ok c)
                     | (w1, Err e) \<Rightarrow> (txn, w1, Err e)
                     | (w1, Panic x) \<Rightarrow> (txn, w1, Panic x)))))"

definition reFetchTwopcConnection :: "Backends \<Rightarrow> Txn \<Rightarrow> World \<Rightarrow> string \<Rightarrow> nat txn_step" where
  "reFetchTwopcConnection be txn w back =
     (case gm_get (tx_twopcConnections txn) back of
        Some c \<Rightarrow>
          twopcConnection be (txn\<lparr>tx_twopcConnections := gm_del back (tx_twopcConnections txn)\<rparr>) (conn_Close c w) back
      | None \<Rightarrow> twopcConnection be txn w back)"

definition normalConnection :: "Backends \<Rightarrow> Txn \<Rightarrow> World \<Rightarrow> string \<Rightarrow> nat txn_step" where
  "normalConnection be txn w back =
     (case gm_get (tx_backends txn) back of
        None \<Rightarrow> (txn, w, Err (Errorf ''txn.can.not.get.normal.connection.by.backend[%+v].from.pool'' [back]))
      | Some pz \<Rightarrow>
          (case pz_normal pz of
             None \<Rightarrow> (txn, w, nil_pool)
           | Some p \<Rightarrow>
               (case Pool_Get be w p of
                  (w1, Ok c) \<Rightarrow> (txn\<lparr>tx_normalConnections := tx_normalConnections txn @ [c]\<rparr>, w1, Ok c)
                | (w1, Err e) \<Rightarrow> (txn, w1, Err e)
                | (w1, Panic x) \<Rightarrow> (txn, w1, Panic x))))"

definition replicaConnection :: "Backends \<Rightarrow> Txn \<Rightarrow> World \<Rightarrow> string \<Rightarrow> nat txn_step" where
  "replicaConnection be txn w back =
     (case gm_get (tx_backends txn) back of
        None \<Rightarrow> (txn, w, Err (Errorf ''txn.can.not.get.replica.connection.by.backend[%+v].from.pool'' [back]))
      | Some pz \<Rightarrow>
          (case pz_replica pz of
             None \<Rightarrow> (txn, w, Err (Errorf ''txn.can.not.get.replica.connection.by.backend[%+v].from.pool'' [back]))
           | Some p \<Rightarrow>
               (case Pool_Get be w p of
                  (w1, Ok c) \<Rightarrow> (txn\<lparr>tx_replicaConnections := tx_replicaConnections txn @ [c]\<rparr>, w1, Ok c)
                | (w1, Err e) \<Rightarrow> (txn, w1, Err e)
                | (w1, Panic x) \<Rightarrow> (txn, w1, Panic x))))"

definition fetchOneConnection :: "Backends \<Rightarrow> Txn \<Rightarrow> World \<Rightarrow> string \<Rightarrow> nat txn_step" where
  "fetchOneConnection be txn w back =
     (let rest = (\<lambda>txn w. if tx_twopc txn then twopcConnection be txn w back else normalConnection be txn w back) in
      if tx_isExecOnRep txn then
        (case replicaConnection be txn w back of
           (txn1, w1, Ok c) \<Rightarrow> (txn1, w1, Ok c)
         | (txn1, w1, Err e) \<Rightarrow> rest txn1 w1
         | (txn1, w1, Panic x) \<Rightarrow> (txn1, w1, Panic x))
      else rest txn w)"

section \<open>Groups of shards\<close>

fun run_group :: "(string \<Rightarrow> Txn \<Rightarrow> World \<Rightarrow> unit txn_step) \<Rightarrow> string list \<Rightarrow> Txn \<Rightarrow> World \<Rightarrow> unit txn_step" where
  "run_group f [] txn w = (txn, w, Ok ())"
| "run_group f (b # bs) txn w =
     (case f b txn w of
        (txn1, w1, Panic p) \<Rightarrow> (txn1, w1, Panic p)
      | (txn1, w1, Ok _) \<Rightarrow> run_group f bs txn1 w1
      | (txn1, w1, Err e) \<Rightarrow>
          (case run_group f bs txn1 w1 of
             (txn2, w2, Panic p) \<Rightarrow> (txn2, w2, Panic p)
           | (txn2, w2, _) \<Rightarrow> (txn2, w2, Err e)))"

section \<open>XA\<close>

text \<open>\<open>XA START\<close>, \<open>XA END\<close> and \<open>XA PREPARE\<close> are sent once on the transaction's connection of the shard.\<close>

definition xa_once :: "Backends \<Rightarrow> string \<Rightarrow> string \<Rightarrow> Txn \<Rightarrow> World \<Rightarrow> unit txn_step" where
  "xa_once be query back txn w =
     (case twopcConnection be txn w back of
        (txn1, w1, Err e) \<Rightarrow> (txn1, w1, Err e)
      | (txn1, w1, Panic p) \<Rightarrow> (txn1, w1, Panic p)
      | (txn1, w1, Ok c) \<Rightarrow>
          (case conn_Execute be w1 c query of (w2, x) \<Rightarrow> (txn1, w2, rbind x (\<lambda>_. Ok ()))))"

definition is_xaer_nota :: "go_error \<Rightarrow> bool" where
  "is_xaer_nota e = (case e of SQLError (ER_OTHER n) _ \<Rightarrow> n = 1397 | _ \<Rightarrow> False)"

definition xaMaxRetryNum :: nat where "xaMaxRetryNum = 10"

text \<open>
  \<open>XA COMMIT\<close> and \<open>XA ROLLBACK\<close>: the first try on the connection of the transaction, every other on a
  new one after a sleep; an unknown XID ends the loop. \<open>left\<close> counts the tries that are left, \<open>x\<close> is
  the last error.
\<close>

fun xa_retry ::
  "Backends \<Rightarrow> string \<Rightarrow> string \<Rightarrow> nat \<Rightarrow> nat \<Rightarrow> unit res \<Rightarrow> Txn \<Rightarrow> World \<Rightarrow> unit txn_step" where
  "xa_retry be query back 0 retry x txn w = (txn, w, x)"
| "xa_retry be query back (Suc left) retry x txn w =
     (case (if retry = 0 then twopcConnection be txn w back else reFetchTwopcConnection be txn w back) of
        (txn1, w1, Panic p) \<Rightarrow> (txn1, w1, Panic p)
      | (txn1, w1, Err e) \<Rightarrow>
          xa_retry be query back left (Suc retry) (Err e) txn1 (if retry = 0 then w1 else emit (EvSleep retry) w1)
      | (txn1, w1, Ok c) \<Rightarrow>
          (case conn_Execute be w1 c query of
             (w2, Ok _) \<Rightarrow> (txn1, w2, Ok ())
           | (w2, Panic p) \<Rightarrow> (txn1, w2, Panic p)
           | (w2, Err e) \<Rightarrow>
               if is_xaer_nota e then (txn1, w2, Err e)
               else xa_retry be query back left (Suc retry) (Err e) txn1 (emit (EvSleep retry) w2)))"

definition xa_shard :: "Backends \<Rightarrow> txnXAState \<Rightarrow> string \<Rightarrow> string \<Rightarrow> Txn \<Rightarrow> World \<Rightarrow> unit txn_step" where
  "xa_shard be state query back txn w =
     (if state = txnXAStateStart \<or> state = txnXAStateEnd \<or> state = txnXAStatePrepare
      then xa_once be query back txn w
      else if state = txnXAStateCommit \<or> state = txnXAStateRollback
      then xa_retry be query back xaMaxRetryNum 0 (Ok ()) txn w
      else (txn, w, Ok ()))"

text \<open>The shards an XA statement goes to: none for a request that has a single backend.\<close>

definition xa_backends :: "Txn \<Rightarrow> RequestContext \<Rightarrow> string list" where
  "xa_backends txn req =
     (case rq_Mode req of
        ReqNormal \<Rightarrow>
          (let bs = remdups (map qt_Backend (rq_Querys req)) in if 1 < length bs then bs else [])
      | ReqScatter \<Rightarrow> map fst (tx_backends txn)
      | ReqSingle \<Rightarrow> [])"

definition executeXA :: "Backends \<Rightarrow> RequestContext \<Rightarrow> txnXAState \<Rightarrow> string \<Rightarrow> Txn \<Rightarrow> World \<Rightarrow> unit txn_step" where
  "executeXA be req state query txn w =
     run_group (xa_shard be state query) (xa_backends txn req) (txn\<lparr>tx_state := txnStateExecutingTwoPC\<rparr>) w"

definition executeXACommand :: "Backends \<Rightarrow> string \<Rightarrow> txnXAState \<Rightarrow> Txn \<Rightarrow> World \<Rightarrow> unit txn_step" where
  "executeXACommand be query state txn w =
     (case tx_req txn of
        None \<Rightarrow> (txn, w, nil_pool)
      | Some req \<Rightarrow> executeXA be req state query txn w)"

definition incErrors :: "Txn \<Rightarrow> Txn" where
  "incErrors txn = txn\<lparr>tx_errors := Suc (tx_errors txn)\<rparr>"

definition xa_query :: "string \<Rightarrow> Txn \<Rightarrow> string" where
  "xa_query verb txn = ''XA '' @ verb @ '' '' @ [CHR 0x27] @ tx_xid txn @ [CHR 0x27]"

text \<open>\<open>xaStart\<close>, \<open>xaEnd\<close> and \<open>xaPrepare\<close> differ in the verb and in the two states.\<close>

definition xa_phase ::
  "Backends \<Rightarrow> string \<Rightarrow> txnXAState \<Rightarrow> txnXAState \<Rightarrow> Txn \<Rightarrow> World \<Rightarrow> unit txn_step" where
  "xa_phase be verb state finished txn w =
     (case executeXACommand be (xa_query verb txn) state (txn\<lparr>tx_xaState := state\<rparr>) w of
        (txn1, w1, Err e) \<Rightarrow> ((incErrors txn1)\<lparr>tx_xaState := finished\<rparr>, w1, Err e)
      | (txn1, w1, x) \<Rightarrow> (txn1\<lparr>tx_xaState := finished\<rparr>, w1, x))"

definition xaStart :: "Backends \<Rightarrow> Txn \<Rightarrow> World \<Rightarrow> unit txn_step" where
  "xaStart be txn w =
     xa_phase be ''START'' txnXAStateStart txnXAStateStartFinished
       (txn\<lparr>tx_xid := (if tx_isMultiStmtTxn txn then ''MULTRXID-'' else ''RXID-'') @ be_stamp be (w_trace w) @ ''-'' @
              show_nat (unat (tx_id txn))\<rparr>) w"

definition xaEnd :: "Backends \<Rightarrow> Txn \<Rightarrow> World \<Rightarrow> unit txn_step" where
  "xaEnd be txn w = xa_phase be ''END'' txnXAStateEnd txnXAStateEndFinished txn w"

definition xaPrepare :: "Backends \<Rightarrow> Txn \<Rightarrow> World \<Rightarrow> unit txn_step" where
  "xaPrepare be txn w = xa_phase be ''PREPARE'' txnXAStatePrepare txnXAStatePrepareFinished txn w"

text \<open>
  \<open>xaCommit\<close> and \<open>xaRollback\<close>: a failure is not returned but logged. A panic of the flush ends the
  process, an error of it is only reported.
\<close>

definition xa_log :: "Backends \<Rightarrow> string \<Rightarrow> string \<Rightarrow> Sys \<Rightarrow> Sys \<times> unit res" where
  "xa_log be xid state sys =
     (case sy_xaCheck sys of
        None \<Rightarrow> (sys, nil_pool)
      | Some xc \<Rightarrow>
          (case WriteXaCommitErrLog (be_write be (w_trace (sy_world sys))) (be_stamp be (w_trace (sy_world sys))) xc xid state of
             (xc1, Panic p) \<Rightarrow> (sys\<lparr>sy_xaCheck := Some xc1\<rparr>, Panic p)
           | (xc1, _) \<Rightarrow> (sys\<lparr>sy_xaCheck := Some xc1\<rparr>, Ok ())))"

definition xa_final ::
  "Backends \<Rightarrow> string \<Rightarrow> string \<Rightarrow> txnXAState \<Rightarrow> txnXAState \<Rightarrow> Txn \<Rightarrow> Sys \<Rightarrow> Txn \<times> Sys \<times> unit res" where
  "xa_final be verb logState state finished txn sys =
     (case executeXACommand be (xa_query verb txn) state (txn\<lparr>tx_xaState := state\<rparr>) (sy_world sys) of
        (txn1, w1, Ok _) \<Rightarrow> (txn1\<lparr>tx_xaState := finished\<rparr>, sys\<lparr>sy_world := w1\<rparr>, Ok ())
      | (txn1, w1, Panic p) \<Rightarrow> (txn1, sys\<lparr>sy_world := w1\<rparr>, Panic p)
      | (txn1, w1, Err e) \<Rightarrow>
          (case xa_log be (tx_xid txn) logState (sys\<lparr>sy_world := w1\<rparr>) of
             (sys1, x) \<Rightarrow> ((incErrors txn1)\<lparr>tx_xaState := finished\<rparr>, sys1, x)))"

definition xaCommit :: "Backends \<Rightarrow> Txn \<Rightarrow> Sys \<Rightarrow> Txn \<times> Sys \<times> unit res" where
  "xaCommit be txn sys = xa_final be ''COMMIT'' ''commit'' txnXAStateCommit txnXAStateCommitFinished txn sys"

definition xaRollback :: "Backends \<Rightarrow> Txn \<Rightarrow> Sys \<Rightarrow> Txn \<times> Sys \<times> unit res" where
  "xaRollback be txn sys = xa_final be ''ROLLBACK'' ''rollback'' txnXAStateRollback txnXAStateRollbackFinished txn sys"

section \<open>Begin, commit, rollback\<close>

definition Txn_Begin :: "Txn \<Rightarrow> Txn" where
  "Txn_Begin txn = txn\<lparr>tx_twopc := True\<rparr>"

text \<open>A phase that fails or panics ends the sequence.\<close>

definition then_phase ::
  "(Txn \<Rightarrow> World \<Rightarrow> unit txn_step) \<Rightarrow> (Txn \<Rightarrow> Sys \<Rightarrow> Txn \<times> Sys \<times> unit res) \<Rightarrow> Txn \<Rightarrow> Sys \<Rightarrow> Txn \<times> Sys \<times> unit res" where
  "then_phase ph k txn sys =
     (case ph txn (sy_world sys) of
        (txn1, w1, Ok _) \<Rightarrow> k txn1 (sys\<lparr>sy_world := w1\<rparr>)
      | (txn1, w1, x) \<Rightarrow> (txn1, sys\<lparr>sy_world := w1\<rparr>, x))"

definition on_write :: "(Txn \<Rightarrow> Sys \<Rightarrow> Txn \<times> Sys \<times> unit res) \<Rightarrow> Txn \<Rightarrow> Sys \<Rightarrow> Txn \<times> Sys \<times> unit res" where
  "on_write k txn sys =
     (case tx_req txn of
        None \<Rightarrow> (txn, sys, nil_pool)
      | Some req \<Rightarrow> if rq_TxnMode req = TxnWrite then k txn sys else (txn, sys, Ok ()))"

definition Txn_Commit :: "Backends \<Rightarrow> Txn \<Rightarrow> Sys \<Rightarrow> Txn \<times> Sys \<times> unit res" where
  "Txn_Commit be txn sys =
     on_write (then_phase (xaEnd be) (then_phase (xaPrepare be) (xaCommit be))) (txn\<lparr>tx_state := txnStateCommitting\<rparr>) sys"

definition Txn_Rollback :: "Backends \<Rightarrow> Txn \<Rightarrow> Sys \<Rightarrow> Txn \<times> Sys \<times> unit res" where
  "Txn_Rollback be txn sys =
     on_write (then_phase (xaEnd be) (then_phase (xaPrepare be) (xaRollback be))) (txn\<lparr>tx_state := txnStateRollbacking\<rparr>) sys"

definition Txn_RollbackPhaseOne :: "Backends \<Rightarrow> Txn \<Rightarrow> Sys \<Rightarrow> Txn \<times> Sys \<times> unit res" where
  "Txn_RollbackPhaseOne be txn sys =
     on_write (then_phase (xaEnd be) (xaRollback be)) (txn\<lparr>tx_state := txnStateRollbacking\<rparr>) sys"

definition scatter_req :: RequestContext where
  "scatter_req = NewRequestContext\<lparr>rq_Mode := ReqScatter\<rparr>"

definition Txn_BeginScatter :: "Backends \<Rightarrow> Txn \<Rightarrow> World \<Rightarrow> unit txn_step" where
  "Txn_BeginScatter be txn w = xaStart be (txn\<lparr>tx_twopc := True, tx_req := Some scatter_req\<rparr>) w"

definition Txn_CommitScatter :: "Backends \<Rightarrow> Txn \<Rightarrow> Sys \<Rightarrow> Txn \<times> Sys \<times> unit res" where
  "Txn_CommitScatter be txn sys =
     then_phase (xaEnd be) (then_phase (xaPrepare be) (xaCommit be))
       (txn\<lparr>tx_state := txnStateCommitting, tx_twopc := True, tx_req := Some scatter_req\<rparr>) sys"

definition Txn_RollbackScatter :: "Backends \<Rightarrow> Txn \<Rightarrow> Sys \<Rightarrow> Txn \<times> Sys \<times> unit res" where
  "Txn_RollbackScatter be txn sys =
     then_phase (xaEnd be) (then_phase (xaPrepare be) (xaRollback be))
       (txn\<lparr>tx_state := txnStateRollbacking, tx_twopc := True, tx_req := Some scatter_req\<rparr>) sys"

section \<open>Execution\<close>

text \<open>The queries of one shard, in order, up to the first error; every result is appended.\<close>

fun run_queries :: "Backends \<Rightarrow> Txn \<Rightarrow> nat \<Rightarrow> string list \<Rightarrow> World \<Rightarrow> Result \<Rightarrow> World \<times> Result \<times> unit res" where
  "run_queries be txn c [] w qr = (w, qr, Ok ())"
| "run_queries be txn c (q # qs) w qr =
     (case conn_ExecuteWithLimits be w c q (tx_timeout txn) (tx_maxResult txn) of
        (w1, Ok innerqr) \<Rightarrow> run_queries be txn c qs w1 (AppendResult qr innerqr)
      | (w1, Err e) \<Rightarrow> (w1, qr, Err e)
      | (w1, Panic p) \<Rightarrow> (w1, qr, Panic p))"

definition one_shard ::
  "Backends \<Rightarrow> string \<Rightarrow> string list \<Rightarrow> Txn \<Rightarrow> World \<Rightarrow> Result \<Rightarrow> Txn \<times> World \<times> Result \<times> unit res" where
  "one_shard be back querys txn w qr =
     (case fetchOneConnection be txn w back of
        (txn1, w1, Err e) \<Rightarrow> (txn1, w1, qr, Err e)
      | (txn1, w1, Panic p) \<Rightarrow> (txn1, w1, qr, Panic p)
      | (txn1, w1, Ok c) \<Rightarrow> (txn1, run_queries be txn1 c querys w1 qr))"

fun run_shards ::
  "Backends \<Rightarrow> (string \<times> string list) list \<Rightarrow> Txn \<Rightarrow> World \<Rightarrow> Result \<Rightarrow> Txn \<times> World \<times> Result \<times> unit res" where
  "run_shards be [] txn w qr = (txn, w, qr, Ok ())"
| "run_shards be ((back, qs) # shards) txn w qr =
     (case one_shard be back qs txn w qr of
        (txn1, w1, qr1, Panic p) \<Rightarrow> (txn1, w1, qr1, Panic p)
      | (txn1, w1, qr1, Ok _) \<Rightarrow> run_shards be shards txn1 w1 qr1
      | (txn1, w1, qr1, Err e) \<Rightarrow>
          (case run_shards be shards txn1 w1 qr1 of
             (txn2, w2, qr2, Panic p) \<Rightarrow> (txn2, w2, qr2, Panic p)
           | (txn2, w2, qr2, _) \<Rightarrow> (txn2, w2, qr2, Err e)))"

text \<open>\<open>queryMap\<close>: the queries of a request by backend, each backend's in their order.\<close>

definition query_map :: "QueryTuple list \<Rightarrow> (string, string list) gomap" where
  "query_map querys =
     foldl (\<lambda>m q. gm_put (qt_Backend q)
              (case gm_get m (qt_Backend q) of None \<Rightarrow> [qt_Query q] | Some v \<Rightarrow> v @ [qt_Query q]) m) [] querys"

definition normal_backends :: "Txn \<Rightarrow> string list" where
  "normal_backends txn = map fst (filter (\<lambda>(_, pz). bc_Role (pz_conf pz) = NormalBackend) (tx_backends txn))"

definition exec_shards :: "Txn \<Rightarrow> RequestContext \<Rightarrow> (string \<times> string list) list" where
  "exec_shards txn req =
     (case rq_Mode req of
        ReqSingle \<Rightarrow> map (\<lambda>b. (b, [rq_RawQuery req])) (take 1 (normal_backends txn))
      | ReqScatter \<Rightarrow> map (\<lambda>b. (b, [rq_RawQuery req])) (normal_backends txn)
      | ReqNormal \<Rightarrow> query_map (rq_Querys req))"

definition txn_execute :: "Backends \<Rightarrow> RequestContext \<Rightarrow> Txn \<Rightarrow> World \<Rightarrow> Result txn_step" where
  "txn_execute be req txn w =
     (case run_shards be (exec_shards txn req)
             (txn\<lparr>tx_state := if tx_twopc txn then txnStateExecutingTwoPC else txnStateExecutingNormal\<rparr>) w empty_Result of
        (txn1, w1, qr, x) \<Rightarrow> (txn1, w1, rbind x (\<lambda>_. Ok qr)))"

definition Txn_Execute :: "Backends \<Rightarrow> RequestContext \<Rightarrow> Txn \<Rightarrow> World \<Rightarrow> Result txn_step" where
  "Txn_Execute be req txn w =
     (let run = (\<lambda>txn w. case txn_execute be req txn w of
                            (txn1, w1, Err e) \<Rightarrow> (incErrors txn1, w1, Err e)
                          | (txn1, w1, x) \<Rightarrow> (txn1, w1, x)) in
      if tx_twopc txn then
        let txn0 = txn\<lparr>tx_req := Some req\<rparr> in
        if rq_TxnMode req = TxnWrite \<and> \<not> tx_isMultiStmtTxn txn0 then
          (case xaStart be txn0 w of
             (txn1, w1, Ok _) \<Rightarrow> run txn1 w1
           | (txn1, w1, Err e) \<Rightarrow> (txn1, w1, Err e)
           | (txn1, w1, Panic p) \<Rightarrow> (txn1, w1, Panic p))
        else run txn0 w
      else run txn w)"

definition Txn_ExecuteScatter :: "Backends \<Rightarrow> string \<Rightarrow> Txn \<Rightarrow> World \<Rightarrow> Result txn_step" where
  "Txn_ExecuteScatter be query = Txn_Execute be (NewRequestContext\<lparr>rq_RawQuery := query, rq_Mode := ReqScatter\<rparr>)"

definition Txn_ExecuteSingle :: "Backends \<Rightarrow> string \<Rightarrow> Txn \<Rightarrow> World \<Rightarrow> Result txn_step" where
  "Txn_ExecuteSingle be query = Txn_Execute be (NewRequestContext\<lparr>rq_RawQuery := query, rq_Mode := ReqSingle\<rparr>)"

definition Txn_ExecuteOnThisBackend :: "Backends \<Rightarrow> string \<Rightarrow> string \<Rightarrow> Txn \<Rightarrow> World \<Rightarrow> Result txn_step" where
  "Txn_ExecuteOnThisBackend be backend query =
     Txn_Execute be (NewRequestContext\<lparr>rq_Querys := [\<lparr>qt_Query = query, qt_Backend = backend, qt_Range = []\<rparr>]\<rparr>)"

section \<open>Finish and abort\<close>

definition txn_conns :: "Txn \<Rightarrow> nat list" where
  "txn_conns txn = map snd (tx_twopcConnections txn) @ tx_normalConnections txn @ tx_replicaConnections txn"

definition end_txn :: "Txn \<Rightarrow> Txn" where
  "end_txn txn = txn\<lparr>tx_twopc := False, tx_isMultiStmtTxn := False\<rparr>"

definition Txn_Finish :: "Backends \<Rightarrow> Txn \<Rightarrow> Sys \<Rightarrow> Txn \<times> Sys" where
  "Txn_Finish be txn sys =
     (if tx_state txn = txnStateAborting then (end_txn txn, sys)
      else
        (end_txn (txn\<lparr>tx_xaState := txnXAStateNone, tx_state := txnStateFinshing, tx_twopcConnections := []\<rparr>),
         sys\<lparr>sy_world := foldl (\<lambda>w c. if 0 < tx_errors txn then conn_Close c w else conn_Recycle be w c)
                (sy_world sys) (txn_conns txn),
             sy_mgr := mgr_Remove (sy_mgr sys)\<rparr>))"

definition Txn_Abort :: "Backends \<Rightarrow> Txn \<Rightarrow> Sys \<Rightarrow> Txn \<times> Sys" where
  "Txn_Abort be txn sys =
     (if tx_state txn = txnStateFinshing then (end_txn txn, sys)
      else
        (end_txn (txn\<lparr>tx_state := txnStateAborting, tx_twopcConnections := []\<rparr>),
         sys\<lparr>sy_world := foldl (\<lambda>w c. fst (conn_Kill be w c)) (sy_world sys) (txn_conns txn),
             sy_mgr := mgr_Remove (sy_mgr sys)\<rparr>))"

end
