(* ===== verification/Txn_Xa.thy ===== *)
theory Txn_Xa
  imports Txn
begin

text \<open>
  What a two-phase commit sends and in which order. \<open>txn_ok\<close> is the invariant of a transaction: its
  connections are distinct, out of the pools, and belong to the backends they are filed under. The
  set \<open>S\<close> is a frame: connections that others hold, which are out too and stay disjoint from its own. The
  lemmas follow a statement from one shard (\<open>shard_spec\<close>) through the group of shards to the three
  phases.
\<close>

section \<open>The invariant of a transaction\<close>

definition normal_pool :: "Txn \<Rightarrow> string \<Rightarrow> nat option" where
  "normal_pool txn b = (case gm_get (tx_backends txn) b of None \<Rightarrow> None | Some pz \<Rightarrow> pz_normal pz)"

definition back_addr :: "Txn \<Rightarrow> World \<Rightarrow> string \<Rightarrow> string option" where
  "back_addr txn w b = map_option (\<lambda>p. p_address (w_pools w ! p)) (normal_pool txn b)"

definition pools_known :: "Txn \<Rightarrow> World \<Rightarrow> bool" where
  "pools_known txn w \<longleftrightarrow>
     (\<forall>b pz p. gm_get (tx_backends txn) b = Some pz \<longrightarrow> pz_normal pz = Some p \<or> pz_replica pz = Some p \<longrightarrow>
        p < length (w_pools w))"

definition txn_ok :: "nat set \<Rightarrow> Txn \<Rightarrow> World \<Rightarrow> bool" where
  "txn_ok S txn w \<longleftrightarrow>
     pool_inv w \<and> pools_known txn w \<and> gm_wf (tx_twopcConnections txn) \<and>
     distinct (txn_conns txn) \<and> set (txn_conns txn) \<subseteq> out w \<and>
     S \<subseteq> out w \<and> S \<inter> set (txn_conns txn) = {} \<and>
     (\<forall>b c. gm_get (tx_twopcConnections txn) b = Some c \<longrightarrow> normal_pool txn b = Some (c_pool (w_conns w ! c)))"

text \<open>What the statements of a transaction leave alone.\<close>

definition txn_frame :: "Txn \<Rightarrow> Txn \<Rightarrow> bool" where
  "txn_frame t t' \<longleftrightarrow>
     tx_backends t' = tx_backends t \<and> tx_req t' = tx_req t \<and> tx_xid t' = tx_xid t \<and> tx_id t' = tx_id t \<and>
     tx_twopc t' = tx_twopc t \<and> tx_isMultiStmtTxn t' = tx_isMultiStmtTxn t"

lemma txn_frame_refl [simp]: "txn_frame t t"
  by (simp add: txn_frame_def)

lemma txn_frame_trans: "txn_frame t t' \<Longrightarrow> txn_frame t' t'' \<Longrightarrow> txn_frame t t''"
  by (simp add: txn_frame_def)

lemma back_addr_frame: "txn_frame t t' \<Longrightarrow> world_ext w w' \<Longrightarrow> back_addr t' w' b = back_addr t w b"
  by (simp add: back_addr_def normal_pool_def txn_frame_def world_ext_def)

text \<open>The invariant does not read the states, the errors, the request or the identifier.\<close>

lemma txn_ok_cong:
  "tx_backends t' = tx_backends t \<Longrightarrow> tx_twopcConnections t' = tx_twopcConnections t \<Longrightarrow>
     tx_normalConnections t' = tx_normalConnections t \<Longrightarrow> tx_replicaConnections t' = tx_replicaConnections t \<Longrightarrow>
     txn_ok S t' w = txn_ok S t w"
  by (simp add: txn_ok_def pools_known_def normal_pool_def txn_conns_def)

text \<open>A step of the world that keeps the connections that are out keeps the invariant.\<close>

lemma txn_ok_world:
  assumes "txn_ok S txn w" "pool_inv w'" "world_ext w w'" "S \<union> set (txn_conns txn) \<subseteq> out w'"
  shows "txn_ok S txn w'"
proof -
  have "c_pool (w_conns w' ! c) = c_pool (w_conns w ! c)" if "gm_get (tx_twopcConnections txn) b = Some c" for b c
  proof -
    have "c \<in> set (txn_conns txn)" using that by (force simp: txn_conns_def dest: gm_get_in_set)
    with assms(1) have "c < length (w_conns w)" by (auto simp: txn_ok_def out_def)
    with assms(3) show ?thesis by (simp add: world_ext_def)
  qed
  moreover have "pools_known txn w'" using assms(1,3) by (simp add: txn_ok_def pools_known_def world_ext_def)
  ultimately show ?thesis using assms by (simp add: txn_ok_def)
qed

lemma gm_put_new_snd: "gm_get m k = None \<Longrightarrow> mset (map snd (gm_put k v m)) = add_mset v (mset (map snd m))"
  unfolding gm_put_def by (induction m) (auto split: if_splits)

lemma gm_del_snd: "set (map snd (gm_del k m)) \<subseteq> set (map snd m)"
  by (auto simp: gm_del_def AList.delete_eq)

lemma distinct_snd_del: "distinct (map snd m) \<Longrightarrow> distinct (map snd (gm_del k m))"
  by (simp add: gm_del_def AList.delete_eq distinct_map_filter)

section \<open>Getting a connection\<close>

lemma twopcConnection_spec:
  assumes ok: "txn_ok S txn w" and t: "twopcConnection be txn w b = (txn', w', x)"
  shows "txn_ok S txn' w' \<and> txn_frame txn txn' \<and> world_ext w w' \<and> quiet w w' \<and>
     (\<forall>c. x = Ok c \<longrightarrow> gm_get (tx_twopcConnections txn') b = Some c)"
proof (cases "gm_get (tx_twopcConnections txn) b")
  case (Some c)
  with t ok show ?thesis by (auto simp: twopcConnection_def)
next
  case None
  show ?thesis
  proof (cases "normal_pool txn b")
    case no: None
    with None t have "txn' = txn" "w' = w" "\<forall>c. x \<noteq> Ok c"
      by (auto simp: twopcConnection_def normal_pool_def nil_pool_def split: option.splits)
    with ok show ?thesis by simp
  next
    case (Some p)
    then obtain pz where pz: "gm_get (tx_backends txn) b = Some pz" "pz_normal pz = Some p"
      by (auto simp: normal_pool_def split: option.splits)
    obtain w1 y where g: "Pool_Get be w p = (w1, y)" by fastforce
    have p: "p < length (w_pools w)" using ok pz by (auto simp: txn_ok_def pools_known_def)
    have inv: "pool_inv w" using ok by (simp add: txn_ok_def)
    note s = Pool_Get_spec [OF inv p g]
    have held: "out w \<subseteq> out w1" using pools.get_inv [OF inv p g] by blast
    have ok1: "txn_ok S txn w1" by (rule txn_ok_world [OF ok]) (use s ok held in \<open>auto simp: txn_ok_def\<close>)
    show ?thesis
    proof (cases y)
      case (Ok c)
      have eq: "txn' = txn\<lparr>tx_twopcConnections := gm_put b c (tx_twopcConnections txn)\<rparr>" "w' = w1" "x = Ok c"
        using t None pz g Ok by (simp_all add: twopcConnection_def)
      have new: "c \<in> out w1" "c \<notin> out w" using pools.get_new [OF inv p] g Ok by auto
      have ms: "mset (txn_conns txn') = add_mset c (mset (txn_conns txn))"
        using gm_put_new_snd [OF None, of c] by (simp add: txn_conns_def eq)
      have fresh: "c \<notin> S" "c \<notin> set (txn_conns txn)" using new ok by (auto simp: txn_ok_def)
      then have "distinct (txn_conns txn')"
        using ok ms by (metis distinct.simps(2) mset.simps(2) mset_eq_imp_distinct_iff txn_ok_def)
      moreover have "set (txn_conns txn') = insert c (set (txn_conns txn))"
        using ms by (metis list.simps(15) mset.simps(2) set_mset_mset)
      moreover have "normal_pool txn' b' = normal_pool txn b'" "pools_known txn' w1 = pools_known txn w1" for b'
        by (simp_all add: normal_pool_def pools_known_def eq)
      ultimately have "txn_ok S txn' w1" using ok1 new fresh(1) Some s Ok by (auto simp: txn_ok_def eq gomap_simps)
      with s eq show ?thesis by (simp add: txn_frame_def gomap_simps)
    qed (use t None pz g ok1 s in \<open>auto simp: twopcConnection_def\<close>)
  qed
qed

lemma reFetch_spec:
  assumes ok: "txn_ok S txn w" and t: "reFetchTwopcConnection be txn w b = (txn', w', x)"
  shows "txn_ok S txn' w' \<and> txn_frame txn txn' \<and> world_ext w w' \<and> quiet w w' \<and>
     (\<forall>c. x = Ok c \<longrightarrow> gm_get (tx_twopcConnections txn') b = Some c)"
proof (cases "gm_get (tx_twopcConnections txn) b")
  case None
  with t twopcConnection_spec [OF ok] show ?thesis by (simp add: reFetchTwopcConnection_def)
next
  case (Some c)
  let ?t = "txn\<lparr>tx_twopcConnections := gm_del b (tx_twopcConnections txn)\<rparr>" and ?w = "conn_Close c w"
  have inv: "pool_inv w" using ok by (simp add: txn_ok_def)
  have cl: "pool_inv ?w" "out w \<subseteq> out ?w" "world_ext w ?w" "quiet w ?w"
    using conn_Close_spec [OF inv] conn_only_inv [OF conn_only_Close inv] by auto
  have del: "set (map snd (gm_del b (tx_twopcConnections txn))) \<subseteq> set (map snd (tx_twopcConnections txn))"
    by (rule gm_del_snd)
  have conns: "txn_conns ?t = map snd (gm_del b (tx_twopcConnections txn)) @ tx_normalConnections txn @ tx_replicaConnections txn"
    by (simp add: txn_conns_def)
  have sub: "set (txn_conns ?t) \<subseteq> set (txn_conns txn)" unfolding conns using del by (auto simp: txn_conns_def)
  have dist: "distinct (txn_conns ?t)" unfolding conns
    using ok del by (auto simp: txn_ok_def txn_conns_def distinct_snd_del)
  have "txn_ok S ?t w"
    using ok dist sub by (auto simp: txn_ok_def pools_known_def normal_pool_def gomap_simps split: if_splits)
  then have "txn_ok S ?t ?w" by (rule txn_ok_world) (use cl sub ok in \<open>auto simp: txn_ok_def\<close>)
  moreover have "twopcConnection be ?t ?w b = (txn', w', x)" using t Some by (simp add: reFetchTwopcConnection_def)
  ultimately have s: "txn_ok S txn' w'" "txn_frame ?t txn'" "world_ext ?w w'" "quiet ?w w'"
    "\<forall>c. x = Ok c \<longrightarrow> gm_get (tx_twopcConnections txn') b = Some c"
    using twopcConnection_spec by blast+
  moreover have "txn_frame txn txn'" using s(2) by (simp add: txn_frame_def)
  ultimately show ?thesis using cl world_ext_trans quiet_trans by blast
qed

section \<open>One shard\<close>

text \<open>
  \<open>sent txn w b q es\<close>: the queries among the events \<open>es\<close> are all \<open>q\<close>, sent to the backend \<open>b\<close>;
  \<open>accepted\<close>: one of them succeeded.
\<close>

definition sent :: "Txn \<Rightarrow> World \<Rightarrow> string \<Rightarrow> string \<Rightarrow> event list \<Rightarrow> bool" where
  "sent txn w b q es \<longleftrightarrow>
     (\<forall>e \<in> set es. is_exec e \<longrightarrow> (\<exists>a c ok. e = EvExec a c q ok \<and> back_addr txn w b = Some a))"

definition accepted :: "Txn \<Rightarrow> World \<Rightarrow> string \<Rightarrow> string \<Rightarrow> event list \<Rightarrow> bool" where
  "accepted txn w b q es \<longleftrightarrow> (\<exists>a c. back_addr txn w b = Some a \<and> EvExec a c q True \<in> set es)"

definition execs :: "event list \<Rightarrow> nat" where
  "execs es = length (filter is_exec es)"

definition shard_spec ::
  "nat set \<Rightarrow> nat \<Rightarrow> string \<Rightarrow> string \<Rightarrow> Txn \<Rightarrow> World \<Rightarrow> Txn \<Rightarrow> World \<Rightarrow> unit res \<Rightarrow> bool" where
  "shard_spec S n b q txn w txn' w' x \<longleftrightarrow>
     txn_ok S txn' w' \<and> txn_frame txn txn' \<and> world_ext w w' \<and>
     (\<exists>es. w_trace w' = w_trace w @ es \<and> sent txn w b q es \<and> execs es \<le> n \<and>
        (x = Ok () \<longrightarrow> accepted txn w b q es))"

lemma sent_quiet: "quiet w w' \<Longrightarrow> \<exists>es. w_trace w' = w_trace w @ es \<and> execs es = 0 \<and> (\<forall>e \<in> set es. \<not> is_exec e)"
  by (auto simp: quiet_def execs_def filter_empty_conv)

lemma sent_append: "sent txn w b q (es @ es') \<longleftrightarrow> sent txn w b q es \<and> sent txn w b q es'"
  by (auto simp: sent_def)

lemma execs_append [simp]: "execs (es @ es') = execs es + execs es'"
  by (simp add: execs_def)

lemma sent_no_exec: "\<forall>e \<in> set es. \<not> is_exec e \<Longrightarrow> sent txn w b q es"
  by (simp add: sent_def)

text \<open>Sending one statement on the connection filed under the backend.\<close>

lemma exec_on_shard:
  assumes ok: "txn_ok S txn w" and c: "gm_get (tx_twopcConnections txn) b = Some c"
    and e: "conn_Execute be w c q = (w', x)"
  shows "txn_ok S txn w' \<and> world_ext w w' \<and>
     (\<exists>a. back_addr txn w b = Some a \<and> w_trace w' = w_trace w @ [EvExec a c q (is_ok x)])"
proof -
  have inv: "pool_inv w" using ok by (simp add: txn_ok_def)
  note s = conn_Execute_spec [OF inv e]
  have "txn_ok S txn w'" by (rule txn_ok_world [OF ok]) (use s ok in \<open>auto simp: txn_ok_def\<close>)
  moreover have pool: "normal_pool txn b = Some (c_pool (w_conns w ! c))" using ok c by (simp add: txn_ok_def)
  moreover have "c \<in> set (txn_conns txn)" using c by (force simp: txn_conns_def dest: gm_get_in_set)
  then have "c < length (w_conns w)" using ok by (auto simp: txn_ok_def out_def)
  then have "c_address (w_conns w ! c) = p_address (w_pools w ! c_pool (w_conns w ! c))"
    using inv by (simp add: pool_inv_def conns_wf_def)
  ultimately show ?thesis using s by (simp add: back_addr_def)
qed

lemma xa_once_spec:
  assumes ok: "txn_ok S txn w" and t: "xa_once be q b txn w = (txn', w', x)"
  shows "shard_spec S 1 b q txn w txn' w' x"
proof -
  obtain txn1 w1 y where c: "twopcConnection be txn w b = (txn1, w1, y)" by (metis prod_cases3)
  note s = twopcConnection_spec [OF ok c]
  from s sent_quiet obtain es where es: "w_trace w1 = w_trace w @ es" "execs es = 0" "\<forall>e \<in> set es. \<not> is_exec e" by blast
  show ?thesis
  proof (cases y)
    case (Ok cn)
    obtain w2 z where e: "conn_Execute be w1 cn q = (w2, z)" by fastforce
    have eq: "txn' = txn1" "w' = w2" "x = rbind z (\<lambda>_. Ok ())" using t c Ok e by (simp_all add: xa_once_def)
    from s Ok have "txn_ok S txn1 w1" "gm_get (tx_twopcConnections txn1) b = Some cn" by simp_all
    from exec_on_shard [OF this e] obtain a where a: "txn_ok S txn1 w2" "world_ext w1 w2" "back_addr txn1 w1 b = Some a"
      "w_trace w2 = w_trace w1 @ [EvExec a cn q (is_ok z)]" by blast
    have addr: "back_addr txn w b = Some a" using a(3) s back_addr_frame [of txn txn1 w w1 b] by simp
    have "x = Ok () \<longrightarrow> is_ok z" using eq(3) by (cases z) auto
    then show ?thesis unfolding shard_spec_def eq(1,2)
      using a s es addr world_ext_trans
      by (intro conjI exI [of _ "es @ [EvExec a cn q (is_ok z)]"])
        (auto simp: sent_append sent_no_exec sent_def execs_def accepted_def)
  qed (use t c s es in \<open>auto simp: xa_once_def shard_spec_def intro: sent_no_exec\<close>)
qed

lemma shard_spec_step:
  assumes fr: "txn_frame txn txn1" "world_ext w w1" and tr: "w_trace w1 = w_trace w @ es"
    and es: "sent txn w b q es" "execs es \<le> m" and sp: "shard_spec S n b q txn1 w1 txn' w' x"
  shows "shard_spec S (m + n) b q txn w txn' w' x"
proof -
  from sp obtain es' where s: "txn_ok S txn' w'" "txn_frame txn1 txn'" "world_ext w1 w'" "w_trace w' = w_trace w1 @ es'"
    "sent txn1 w1 b q es'" "execs es' \<le> n" "x = Ok () \<longrightarrow> accepted txn1 w1 b q es'" by (auto simp: shard_spec_def)
  have addr: "back_addr txn1 w1 b = back_addr txn w b" using fr by (rule back_addr_frame)
  show ?thesis unfolding shard_spec_def
  proof (intro conjI exI [of _ "es @ es'"])
    show "txn_frame txn txn'" using fr s by (blast intro: txn_frame_trans)
    show "world_ext w w'" using fr s by (blast intro: world_ext_trans)
  qed (use s es tr addr in \<open>auto simp: sent_append sent_def accepted_def\<close>)
qed

lemma shard_spec_mono: "shard_spec S n b q txn w txn' w' x \<Longrightarrow> n \<le> m \<Longrightarrow> shard_spec S m b q txn w txn' w' x"
  by (fastforce simp: shard_spec_def)

lemma txn_ok_sleep:
  assumes ok: "txn_ok S txn w"
  shows "txn_ok S txn (emit (EvSleep n) w)"
proof (rule txn_ok_world [OF ok])
  have "pool_inv w" using ok by (simp add: txn_ok_def)
  from conn_only_inv [OF conn_only_emit this, of "EvSleep n"] out_mono [of w "emit (EvSleep n) w"]
  show "pool_inv (emit (EvSleep n) w)" "world_ext w (emit (EvSleep n) w)"
    and "S \<union> set (txn_conns txn) \<subseteq> out (emit (EvSleep n) w)"
    using ok by (auto simp: txn_ok_def)
qed

text \<open>The retry loop: at most as many statements as tries, all to the same backend; it reports success only if the last was accepted.\<close>

lemma xa_retry_spec:
  assumes "txn_ok S txn w" "xa_retry be q b left retry x txn w = (txn', w', y)" "0 < left \<or> x \<noteq> Ok ()"
  shows "shard_spec S left b q txn w txn' w' y"
  using assms
proof (induction left arbitrary: retry x txn w)
  case 0
  then show ?case by (auto simp: shard_spec_def sent_def execs_def intro!: exI [of _ "[]"])
next
  case (Suc left)
  obtain txn1 w1 z where c: "(if retry = 0 then twopcConnection be txn w b else reFetchTwopcConnection be txn w b) = (txn1, w1, z)"
    by (metis prod_cases3)
  have s: "txn_ok S txn1 w1 \<and> txn_frame txn txn1 \<and> world_ext w w1 \<and> quiet w w1 \<and>
     (\<forall>c. z = Ok c \<longrightarrow> gm_get (tx_twopcConnections txn1) b = Some c)"
    using c twopcConnection_spec [OF Suc.prems(1)] reFetch_spec [OF Suc.prems(1)] by (auto split: if_splits)
  then obtain es where es: "w_trace w1 = w_trace w @ es" "execs es = 0" "\<forall>e \<in> set es. \<not> is_exec e"
    using sent_quiet by blast
  have sleep: "world_ext w1 (emit (EvSleep retry) w1)" by (simp add: world_ext_def world_simps)
  show ?case
  proof (cases z)
    case (Panic p)
    with Suc.prems(2) c s es show ?thesis by (auto simp: shard_spec_def intro: sent_no_exec)
  next
    case (Err e)
    define w2 where "w2 = (if retry = 0 then w1 else emit (EvSleep retry) w1)"
    have w2: "txn_ok S txn1 w2" "world_ext w w2" using s sleep txn_ok_sleep world_ext_trans by (auto simp: w2_def)
    obtain es2 where tr: "w_trace w2 = w_trace w @ es2" "sent txn w b q es2" "execs es2 \<le> 1"
    proof
      show "w_trace w2 = w_trace w @ (es @ (if retry = 0 then [] else [EvSleep retry]))"
        using es by (simp add: w2_def world_simps)
    qed (use es in \<open>auto simp: execs_def sent_def\<close>)
    have "xa_retry be q b left (Suc retry) (Err e) txn1 w2 = (txn', w', y)"
      using Suc.prems(2) c Err by (simp add: w2_def)
    from Suc.IH [OF w2(1) this] have "shard_spec S left b q txn1 w2 txn' w' y" by simp
    from shard_spec_step [OF _ w2(2) tr this] s show ?thesis by simp
  next
    case (Ok cn)
    obtain w2 r where e: "conn_Execute be w1 cn q = (w2, r)" by fastforce
    from s Ok exec_on_shard [OF _ _ e, of S txn1 b] obtain a where a: "txn_ok S txn1 w2" "world_ext w1 w2"
      "back_addr txn1 w1 b = Some a" "w_trace w2 = w_trace w1 @ [EvExec a cn q (is_ok r)]" by auto
    have addr: "back_addr txn w b = Some a" using a(3) s back_addr_frame [of txn txn1 w w1 b] by simp
    let ?es = "es @ [EvExec a cn q (is_ok r)]"
    have snt: "sent txn w b q ?es" "execs ?es \<le> 1" "w_trace w2 = w_trace w @ ?es"
      using es a addr by (auto simp: sent_def execs_def)
    have one: "shard_spec S 1 b q txn w txn1 w2 u" if "u = Ok () \<Longrightarrow> is_ok r" for u
      unfolding shard_spec_def using a s snt addr that world_ext_trans
      by (intro conjI exI [of _ ?es]) (auto simp: accepted_def)
    show ?thesis
    proof (cases r)
      case (Err er)
      show ?thesis
      proof (cases "is_xaer_nota er")
        case True
        with Suc.prems(2) c Ok e Err have "txn' = txn1" "w' = w2" "y = Err er" by simp_all
        with one [of y] show ?thesis by (auto intro: shard_spec_mono)
      next
        case False
        let ?w3 = "emit (EvSleep retry) w2"
        have "xa_retry be q b left (Suc retry) (Err er) txn1 ?w3 = (txn', w', y)"
          using False Suc.prems(2) c Ok e Err by simp
        from Suc.IH [OF txn_ok_sleep [OF a(1)] this] have sp: "shard_spec S left b q txn1 ?w3 txn' w' y" by simp
        have "world_ext w ?w3" using s a(2) world_ext_trans conn_only_emit [of w2 "EvSleep retry"]
          by (metis conn_only_def)
        moreover have "w_trace ?w3 = w_trace w @ (?es @ [EvSleep retry])" "sent txn w b q (?es @ [EvSleep retry])"
          "execs (?es @ [EvSleep retry]) \<le> 1"
          using snt by (simp_all add: world_simps sent_append execs_append) (simp_all add: sent_def execs_def)
        ultimately have "shard_spec S (1 + left) b q txn w txn' w' y" using s sp shard_spec_step by blast
        then show ?thesis by simp
      qed
    next
      case (Ok u)
      with Suc.prems(2) c \<open>z = Ok cn\<close> e have "txn' = txn1" "w' = w2" "y = Ok ()" by simp_all
      with one [of y] Ok show ?thesis by (auto intro: shard_spec_mono)
    next
      case (Panic p)
      with Suc.prems(2) c \<open>z = Ok cn\<close> e have "txn' = txn1" "w' = w2" "y = Panic p" by simp_all
      with one [of y] show ?thesis by (auto intro: shard_spec_mono)
    qed
  qed
qed

section \<open>All shards\<close>

definition only_query :: "string \<Rightarrow> event list \<Rightarrow> bool" where
  "only_query q es \<longleftrightarrow> (\<forall>e \<in> set es. is_exec e \<longrightarrow> (\<exists>a c ok. e = EvExec a c q ok))"

definition group_spec ::
  "nat set \<Rightarrow> nat \<Rightarrow> string \<Rightarrow> string list \<Rightarrow> Txn \<Rightarrow> World \<Rightarrow> Txn \<Rightarrow> World \<Rightarrow> unit res \<Rightarrow> event list \<Rightarrow> bool" where
  "group_spec S n q bs txn w txn' w' x es \<longleftrightarrow>
     txn_ok S txn' w' \<and> txn_frame txn txn' \<and> world_ext w w' \<and> w_trace w' = w_trace w @ es \<and>
     only_query q es \<and> execs es \<le> n * length bs \<and> (x = Ok () \<longrightarrow> (\<forall>b \<in> set bs. accepted txn w b q es))"

lemma sent_only: "sent txn w b q es \<Longrightarrow> only_query q es"
  unfolding sent_def only_query_def by blast

lemma accepted_mono: "accepted txn w b q es \<Longrightarrow> set es \<subseteq> set es' \<Longrightarrow> accepted txn w b q es'"
  by (auto simp: accepted_def)

lemma accepted_frame: "txn_frame t t' \<Longrightarrow> world_ext w w' \<Longrightarrow> accepted t' w' b q es = accepted t w b q es"
  by (simp add: accepted_def back_addr_frame)

lemma group_spec_Cons:
  assumes s: "shard_spec S n b q txn w txn1 w1 y" and g: "group_spec S n q bs txn1 w1 txn' w' z es'"
    and x: "x = Ok () \<Longrightarrow> y = Ok () \<and> z = Ok ()"
  shows "\<exists>es. group_spec S n q (b # bs) txn w txn' w' x es"
proof -
  from s obtain es where es: "txn_frame txn txn1" "world_ext w w1" "w_trace w1 = w_trace w @ es" "sent txn w b q es"
    "execs es \<le> n" "y = Ok () \<longrightarrow> accepted txn w b q es" by (auto simp: shard_spec_def)
  have "only_query q es" using es(4) by (rule sent_only)
  then have "only_query q (es @ es')" using g by (auto simp: group_spec_def only_query_def)
  moreover have "accepted txn w b' q (es @ es')" if "x = Ok ()" "b' \<in> set (b # bs)" for b'
    using that x es g accepted_frame [OF es(1,2)] by (auto simp: group_spec_def intro: accepted_mono)
  moreover have "txn_frame txn txn'" "world_ext w w'"
    using es g by (auto simp: group_spec_def intro: txn_frame_trans world_ext_trans)
  ultimately show ?thesis using es g by (intro exI [of _ "es @ es'"]) (auto simp: group_spec_def)
qed

lemma run_group_spec:
  assumes f: "\<And>b txn w txn' w' x. txn_ok S txn w \<Longrightarrow> f b txn w = (txn', w', x) \<Longrightarrow> shard_spec S n b q txn w txn' w' x"
  shows "txn_ok S txn w \<Longrightarrow> run_group f bs txn w = (txn', w', x) \<Longrightarrow> \<exists>es. group_spec S n q bs txn w txn' w' x es"
proof (induction bs arbitrary: txn w txn' w' x)
  case Nil
  then show ?case by (auto simp: group_spec_def only_query_def execs_def)
next
  case (Cons b bs)
  obtain txn1 w1 y where b: "f b txn w = (txn1, w1, y)" by (metis prod_cases3)
  note s = f [OF Cons.prems(1) b]
  have ok1: "txn_ok S txn1 w1" using s by (simp add: shard_spec_def)
  obtain txn2 w2 z where r: "run_group f bs txn1 w1 = (txn2, w2, z)" by (metis prod_cases3)
  from Cons.IH [OF ok1 r] obtain es where g: "group_spec S n q bs txn1 w1 txn2 w2 z es" by blast
  have stop: "\<exists>es. group_spec S n q (b # bs) txn w txn1 w1 (Panic p) es" for p
    using s by (auto simp: shard_spec_def group_spec_def dest: sent_only)
  from Cons.prems(2) b r group_spec_Cons [OF s g] stop show ?case
    by (cases y; cases z) auto
qed

section \<open>The phases\<close>

lemma xa_shard_spec:
  assumes "st \<in> {txnXAStateStart, txnXAStateEnd, txnXAStatePrepare, txnXAStateCommit, txnXAStateRollback}"
    "txn_ok S txn w" "xa_shard be st q b txn w = (txn', w', x)"
  shows "shard_spec S xaMaxRetryNum b q txn w txn' w' x"
proof (cases "st \<in> {txnXAStateStart, txnXAStateEnd, txnXAStatePrepare}")
  case True
  with assms(3) have "xa_once be q b txn w = (txn', w', x)" by (auto simp: xa_shard_def)
  from xa_once_spec [OF assms(2) this] show ?thesis by (rule shard_spec_mono) (simp add: xaMaxRetryNum_def)
next
  case False
  with assms(1,3) have "xa_retry be q b xaMaxRetryNum 0 (Ok ()) txn w = (txn', w', x)" by (auto simp: xa_shard_def)
  from xa_retry_spec [OF assms(2) this] show ?thesis by (simp add: xaMaxRetryNum_def)
qed

lemma executeXACommand_spec:
  assumes st: "st \<in> {txnXAStateStart, txnXAStateEnd, txnXAStatePrepare, txnXAStateCommit, txnXAStateRollback}"
    and ok: "txn_ok S txn w" and req: "tx_req txn = Some req"
    and e: "executeXACommand be q st txn w = (txn', w', x)"
  shows "\<exists>es. group_spec S xaMaxRetryNum q (xa_backends txn req) txn w txn' w' x es"
proof -
  let ?t = "txn\<lparr>tx_state := txnStateExecutingTwoPC\<rparr>"
  have "txn_ok S ?t w" using ok by (simp add: txn_ok_cong [of ?t txn])
  moreover have "run_group (xa_shard be st q) (xa_backends txn req) ?t w = (txn', w', x)"
    using e req by (simp add: executeXACommand_def executeXA_def)
  ultimately obtain es where g: "group_spec S xaMaxRetryNum q (xa_backends txn req) ?t w txn' w' x es"
    using run_group_spec [of S "xa_shard be st q" xaMaxRetryNum q] xa_shard_spec [OF st] by metis
  have "txn_frame txn ?t" by (simp add: txn_frame_def)
  then have "group_spec S xaMaxRetryNum q (xa_backends txn req) txn w txn' w' x es"
    using g accepted_frame [of txn ?t w w] by (auto simp: group_spec_def intro: txn_frame_trans)
  then show ?thesis by blast
qed

text \<open>The bookkeeping around a command changes nothing that the specification of the group speaks of.\<close>

lemma group_spec_cong:
  assumes "group_spec S n q bs t w t' w' x es"
    and "txn_frame u t" "tx_backends u' = tx_backends t'" "tx_req u' = tx_req t'" "tx_xid u' = tx_xid t'"
      "tx_id u' = tx_id t'" "tx_twopc u' = tx_twopc t'" "tx_isMultiStmtTxn u' = tx_isMultiStmtTxn t'"
      "tx_twopcConnections u' = tx_twopcConnections t'" "tx_normalConnections u' = tx_normalConnections t'"
      "tx_replicaConnections u' = tx_replicaConnections t'"
  shows "group_spec S n q bs u w u' w' x es"
proof -
  have "txn_ok S u' w'" using assms txn_ok_cong [of u' t' S w'] by (simp add: group_spec_def)
  moreover have "txn_frame u u'" using assms by (simp add: group_spec_def txn_frame_def)
  ultimately show ?thesis using assms accepted_frame [OF assms(2), of w w] by (simp add: group_spec_def)
qed

lemma xa_phase_spec:
  assumes st: "st \<in> {txnXAStateStart, txnXAStateEnd, txnXAStatePrepare}"
    and ok: "txn_ok S txn w" and req: "tx_req txn = Some req" and e: "xa_phase be verb st fin txn w = (txn', w', x)"
  shows "\<exists>es. group_spec S xaMaxRetryNum (xa_query verb txn) (xa_backends txn req) txn w txn' w' x es"
proof -
  let ?t = "txn\<lparr>tx_xaState := st\<rparr>"
  obtain txn1 w1 y where c: "executeXACommand be (xa_query verb txn) st ?t w = (txn1, w1, y)" by (metis prod_cases3)
  have "txn_ok S ?t w" using ok by (simp add: txn_ok_cong [of ?t txn])
  from executeXACommand_spec [OF _ this _ c] st req obtain es
    where g: "group_spec S xaMaxRetryNum (xa_query verb txn) (xa_backends ?t req) ?t w txn1 w1 y es" by auto
  have bs: "xa_backends ?t req = xa_backends txn req" by (simp add: xa_backends_def split: RequestMode.splits)
  have eq: "w' = w1" "x = y" "txn' = (case y of Err e \<Rightarrow> (incErrors txn1)\<lparr>tx_xaState := fin\<rparr> | _ \<Rightarrow> txn1\<lparr>tx_xaState := fin\<rparr>)"
    using e c by (auto simp: xa_phase_def split: res.splits)
  have "group_spec S xaMaxRetryNum (xa_query verb txn) (xa_backends txn req) txn w txn' w1 y es"
    by (rule group_spec_cong [OF g [unfolded bs]]) (simp_all add: eq(3) txn_frame_def incErrors_def split: res.splits)
  with eq show ?thesis by blast
qed

definition logged :: "string \<Rightarrow> Sys \<Rightarrow> bool" where
  "logged xid sys \<longleftrightarrow> (\<exists>xc e. sy_xaCheck sys = Some xc \<and> gm_get (xc_retrys xc) xid = Some e)"

lemma xa_log_spec:
  "xa_log be xid st sys = (sys', x) \<Longrightarrow> sy_world sys' = sy_world sys \<and> x \<noteq> Err e \<and> (x = Ok u \<longrightarrow> logged xid sys')"
  using WriteXaCommitErrLog_logged(1)
  by (fastforce simp: xa_log_def nil_pool_def logged_def split: option.splits prod.splits res.splits)

text \<open>The second phase: its failure is not returned, and then the transaction is logged.\<close>

lemma xa_final_spec:
  assumes st: "st \<in> {txnXAStateCommit, txnXAStateRollback}"
    and ok: "txn_ok S txn (sy_world sys)" and req: "tx_req txn = Some req"
    and e: "xa_final be verb ls st fin txn sys = (txn', sys', x)"
  shows "\<exists>y es. group_spec S xaMaxRetryNum (xa_query verb txn) (xa_backends txn req) txn (sy_world sys) txn' (sy_world sys') y es \<and>
     (\<forall>er. x \<noteq> Err er) \<and> (x = Ok () \<longrightarrow> y = Ok () \<or> logged (tx_xid txn) sys')"
proof -
  let ?t = "txn\<lparr>tx_xaState := st\<rparr>" and ?w = "sy_world sys"
  obtain txn1 w1 y where c: "executeXACommand be (xa_query verb txn) st ?t ?w = (txn1, w1, y)" by (metis prod_cases3)
  have "txn_ok S ?t ?w" using ok by (simp add: txn_ok_cong [of ?t txn])
  from executeXACommand_spec [OF _ this _ c] st req obtain es
    where g: "group_spec S xaMaxRetryNum (xa_query verb txn) (xa_backends ?t req) ?t ?w txn1 w1 y es" by auto
  have bs: "xa_backends ?t req = xa_backends txn req" by (simp add: xa_backends_def split: RequestMode.splits)
  obtain sys1 z where l: "xa_log be (tx_xid txn) ls (sys\<lparr>sy_world := w1\<rparr>) = (sys1, z)" by fastforce
  have w': "sy_world sys' = w1"
    using e c l xa_log_spec [OF l] by (auto simp: xa_final_def split: res.splits)
  have "group_spec S xaMaxRetryNum (xa_query verb txn) (xa_backends txn req) txn ?w txn' w1 y es"
    by (rule group_spec_cong [OF g [unfolded bs]])
      (use e c l in \<open>auto simp: xa_final_def txn_frame_def incErrors_def split: res.splits\<close>)
  moreover have "\<forall>er. x \<noteq> Err er" "x = Ok () \<longrightarrow> y = Ok () \<or> logged (tx_xid txn) sys'"
    using e c l xa_log_spec [OF l] by (auto simp: xa_final_def split: res.splits)
  ultimately show ?thesis using w' by blast
qed

section \<open>Two phases\<close>

definition free_of :: "string \<Rightarrow> event list \<Rightarrow> bool" where
  "free_of q es \<longleftrightarrow> (\<forall>a c ok. EvExec a c q ok \<notin> set es)"

definition two_phase_spec ::
  "nat set \<Rightarrow> string \<Rightarrow> string list \<Rightarrow> Txn \<Rightarrow> Sys \<Rightarrow> Txn \<Rightarrow> Sys \<Rightarrow> unit res \<Rightarrow> event list \<Rightarrow> event list \<Rightarrow> bool" where
  "two_phase_spec S verb bs txn sys txn' sys' x es1 es2 \<longleftrightarrow>
     txn_ok S txn' (sy_world sys') \<and> txn_frame txn txn' \<and>
     w_trace (sy_world sys') = w_trace (sy_world sys) @ es1 @ es2 \<and>
     free_of (xa_query verb txn) es1 \<and> only_query (xa_query verb txn) es2 \<and>
     (execs es2 \<noteq> 0 \<longrightarrow> (\<forall>b \<in> set bs. accepted txn (sy_world sys) b (xa_query ''PREPARE'' txn) es1)) \<and>
     (\<forall>er. x = Err er \<longrightarrow> execs es2 = 0) \<and>
     (x = Ok () \<longrightarrow> (\<forall>b \<in> set bs. accepted txn (sy_world sys) b (xa_query verb txn) es2) \<or> logged (tx_xid txn) sys') \<and>
     execs es2 \<le> xaMaxRetryNum * length bs"

lemma xa_backends_frame: "txn_frame t t' \<Longrightarrow> xa_backends t' req = xa_backends t req"
  by (simp add: xa_backends_def txn_frame_def split: RequestMode.splits)

lemma xa_query_frame: "txn_frame t t' \<Longrightarrow> xa_query v t' = xa_query v t"
  by (simp add: xa_query_def txn_frame_def)

lemma only_query_other: "only_query q es \<Longrightarrow> q \<noteq> q' \<Longrightarrow> free_of q' es"
  by (fastforce simp: only_query_def free_of_def)

lemma free_of_append: "free_of q (es @ es') \<longleftrightarrow> free_of q es \<and> free_of q es'"
  by (auto simp: free_of_def)

text \<open>A first phase that stops the sequence: nothing of the second phase was sent.\<close>

lemma two_phase_stop:
  assumes "group_spec S n q bs txn w txn' w' x es" "q \<noteq> xa_query verb txn" "sys' = sys\<lparr>sy_world := w'\<rparr>" "w = sy_world sys"
    "x \<noteq> Ok ()"
  shows "two_phase_spec S verb bs txn sys txn' sys' x es []"
  using assms only_query_other [of q es "xa_query verb txn"]
  by (simp add: two_phase_spec_def group_spec_def execs_def only_query_def)

text \<open>A phase in front of a sequence, whose statement is not the one of the second phase.\<close>

lemma two_phase_front:
  assumes g: "group_spec S n q bs txn w txn1 w1 (Ok ()) es" and q: "q \<noteq> xa_query verb txn"
    and w: "w = sy_world sys" and r: "two_phase_spec S verb bs txn1 (sys\<lparr>sy_world := w1\<rparr>) txn' sys' x es1 es2"
  shows "two_phase_spec S verb bs txn sys txn' sys' x (es @ es1) es2"
proof -
  from g have fr: "txn_frame txn txn1" "world_ext (sy_world sys) w1" "only_query q es"
    "w_trace w1 = w_trace (sy_world sys) @ es" using w by (auto simp: group_spec_def)
  have free: "free_of (xa_query verb txn) es" by (rule only_query_other [OF fr(3) q])
  have same: "tx_xid txn1 = tx_xid txn" "\<And>v. xa_query v txn1 = xa_query v txn"
    "\<And>b q' es'. accepted txn1 w1 b q' es' = accepted txn (sy_world sys) b q' es'"
    using fr(1) xa_query_frame [OF fr(1)] accepted_frame [OF fr(1,2)] by (simp_all add: txn_frame_def)
  have acc: "accepted txn (sy_world sys) b q' es1 \<Longrightarrow> accepted txn (sy_world sys) b q' (es @ es1)" for b q'
    by (erule accepted_mono) simp
  from r have "txn_ok S txn' (sy_world sys')" "txn_frame txn1 txn'" by (simp_all add: two_phase_spec_def)
  with txn_frame_trans [OF fr(1)] show ?thesis
    using r fr(4) free acc by (simp add: two_phase_spec_def same free_of_append)
qed

lemma then_phase_Ok:
  "ph txn (sy_world sys) = (txn1, w1, Ok u) \<Longrightarrow> then_phase ph k txn sys = k txn1 (sys\<lparr>sy_world := w1\<rparr>)"
  by (simp add: then_phase_def)

text \<open>\<open>XA PREPARE\<close> and then the second phase.\<close>

lemma prepare_final:
  assumes st: "st \<in> {txnXAStateCommit, txnXAStateRollback}" and verb: "verb \<noteq> ''PREPARE''"
    and ok: "txn_ok S txn (sy_world sys)" and req: "tx_req txn = Some req"
    and e: "then_phase (xaPrepare be) (xa_final be verb ls st fin) txn sys = (txn', sys', x)"
  shows "\<exists>es1 es2. two_phase_spec S verb (xa_backends txn req) txn sys txn' sys' x es1 es2"
proof -
  let ?bs = "xa_backends txn req"
  obtain txn1 w1 y where p: "xaPrepare be txn (sy_world sys) = (txn1, w1, y)" by (metis prod_cases3)
  from xa_phase_spec [OF _ ok req p [unfolded xaPrepare_def]] obtain es
    where g: "group_spec S xaMaxRetryNum (xa_query ''PREPARE'' txn) ?bs txn (sy_world sys) txn1 w1 y es" by blast
  have q: "xa_query ''PREPARE'' txn \<noteq> xa_query verb txn"
    using verb by (auto simp: xa_query_def)
  show ?thesis
  proof (cases "y = Ok ()")
    case False
    then have "txn' = txn1" "sys' = sys\<lparr>sy_world := w1\<rparr>" "x = y"
      using e p by (auto simp: then_phase_def split: res.splits)
    with two_phase_stop [OF g q _ refl False] show ?thesis by blast
  next
    case True
    let ?sys = "sys\<lparr>sy_world := w1\<rparr>"
    have f: "xa_final be verb ls st fin txn1 ?sys = (txn', sys', x)" using e p True by (simp add: then_phase_def)
    have fr: "txn_ok S txn1 w1" "txn_frame txn txn1" "world_ext (sy_world sys) w1" "w_trace w1 = w_trace (sy_world sys) @ es"
      "\<forall>b \<in> set ?bs. accepted txn (sy_world sys) b (xa_query ''PREPARE'' txn) es"
      using g True by (auto simp: group_spec_def)
    have req1: "tx_req txn1 = Some req" using fr(2) req by (simp add: txn_frame_def)
    have same: "xa_backends txn1 req = ?bs" "\<And>v. xa_query v txn1 = xa_query v txn" "tx_xid txn1 = tx_xid txn"
      using fr(2) xa_backends_frame [OF fr(2)] xa_query_frame [OF fr(2)] by (simp_all add: txn_frame_def)
    have acc: "accepted txn1 w1 b q' es' = accepted txn (sy_world sys) b q' es'" for b q' es'
      by (rule accepted_frame [OF fr(2,3)])
    from xa_final_spec [OF st _ req1 f, of S] fr(1) obtain z es2
      where "group_spec S xaMaxRetryNum (xa_query verb txn1) (xa_backends txn1 req) txn1 w1 txn' (sy_world sys') z es2"
      and x: "\<forall>er. x \<noteq> Err er" "x = Ok () \<longrightarrow> z = Ok () \<or> logged (tx_xid txn) sys'"
      by (auto simp: same)
    then have z: "txn_ok S txn' (sy_world sys')" "txn_frame txn1 txn'" "w_trace (sy_world sys') = w_trace w1 @ es2"
      "only_query (xa_query verb txn) es2" "execs es2 \<le> xaMaxRetryNum * length ?bs"
      "z = Ok () \<longrightarrow> (\<forall>b \<in> set ?bs. accepted txn (sy_world sys) b (xa_query verb txn) es2)"
      by (simp_all add: group_spec_def same acc)
    have "only_query (xa_query ''PREPARE'' txn) es" using g by (simp add: group_spec_def)
    from only_query_other [OF this q] z x fr(4,5) txn_frame_trans [OF fr(2) z(2)]
    have "two_phase_spec S verb ?bs txn sys txn' sys' x es es2" by (auto simp: two_phase_spec_def)
    then show ?thesis by blast
  qed
qed

lemma two_phase:
  assumes st: "st \<in> {txnXAStateCommit, txnXAStateRollback}" and verb: "verb \<noteq> ''PREPARE''" "verb \<noteq> ''END''"
    and ok: "txn_ok S txn (sy_world sys)" and req: "tx_req txn = Some req"
    and e: "then_phase (xaEnd be) (then_phase (xaPrepare be) (xa_final be verb ls st fin)) txn sys = (txn', sys', x)"
  shows "\<exists>es1 es2. two_phase_spec S verb (xa_backends txn req) txn sys txn' sys' x es1 es2"
proof -
  let ?bs = "xa_backends txn req"
  obtain txn1 w1 y where p: "xaEnd be txn (sy_world sys) = (txn1, w1, y)" by (metis prod_cases3)
  from xa_phase_spec [OF _ ok req p [unfolded xaEnd_def]] obtain es
    where g: "group_spec S xaMaxRetryNum (xa_query ''END'' txn) ?bs txn (sy_world sys) txn1 w1 y es" by blast
  have q: "xa_query ''END'' txn \<noteq> xa_query verb txn"
    using verb(2) by (auto simp: xa_query_def)
  show ?thesis
  proof (cases "y = Ok ()")
    case False
    then have "txn' = txn1" "sys' = sys\<lparr>sy_world := w1\<rparr>" "x = y"
      using e p by (auto simp: then_phase_def split: res.splits)
    with two_phase_stop [OF g q _ refl False] show ?thesis by blast
  next
    case True
    have fr: "txn_ok S txn1 w1" "txn_frame txn txn1" using g by (auto simp: group_spec_def)
    have req1: "tx_req txn1 = Some req" using fr(2) req by (simp add: txn_frame_def)
    have "then_phase (xaPrepare be) (xa_final be verb ls st fin) txn1 (sys\<lparr>sy_world := w1\<rparr>) = (txn', sys', x)"
      using e then_phase_Ok [of "xaEnd be" txn sys txn1 w1 "()"] p True by simp
    from prepare_final [OF st verb(1) _ req1 this, of S] fr xa_backends_frame [OF fr(2)] obtain es1 es2
      where "two_phase_spec S verb ?bs txn1 (sys\<lparr>sy_world := w1\<rparr>) txn' sys' x es1 es2" by auto
    from two_phase_front [OF g [unfolded True] q refl this] show ?thesis by blast
  qed
qed

lemma Txn_Commit_two_phase:
  assumes ok: "txn_ok S txn (sy_world sys)" and req: "tx_req txn = Some req" "rq_TxnMode req = TxnWrite"
    and e: "Txn_Commit be txn sys = (txn', sys', x)"
  shows "\<exists>es1 es2. two_phase_spec S ''COMMIT'' (xa_backends txn req) txn sys txn' sys' x es1 es2"
proof -
  let ?t = "txn\<lparr>tx_state := txnStateCommitting\<rparr>"
  have fr: "txn_frame txn ?t" "txn_ok S ?t (sy_world sys)" "tx_req ?t = Some req"
    using ok req txn_ok_cong [of ?t txn] by (simp_all add: txn_frame_def)
  have "then_phase (xaEnd be) (then_phase (xaPrepare be) (xaCommit be)) ?t sys = (txn', sys', x)"
    using e req by (simp add: Txn_Commit_def on_write_def)
  from two_phase [OF _ _ _ fr(2,3) this [unfolded xaCommit_def [abs_def]]] xa_backends_frame [OF fr(1)]
  obtain es1 es2 where r: "two_phase_spec S ''COMMIT'' (xa_backends txn req) ?t sys txn' sys' x es1 es2" by auto
  have "xa_query v ?t = xa_query v txn" "accepted ?t w b q es = accepted txn w b q es" for v w b q es
    by (simp_all add: xa_query_def accepted_def back_addr_def normal_pool_def)
  with r txn_frame_trans [OF fr(1)] have "two_phase_spec S ''COMMIT'' (xa_backends txn req) txn sys txn' sys' x es1 es2"
    by (simp add: two_phase_spec_def)
  then show ?thesis by blast
qed

lemma free_of_split:
  assumes "pre @ EvExec a c q ok # post = es1 @ es2" "free_of q es1"
  shows "set es1 \<subseteq> set pre \<and> execs es2 \<noteq> 0"
proof -
  have "EvExec a c q ok \<notin> set es1" using assms(2) by (simp add: free_of_def)
  with assms(1) obtain us where "pre = es1 @ us \<and> us @ EvExec a c q ok # post = es2"
    by (auto simp: append_eq_append_conv2 append_eq_Cons_conv Cons_eq_append_conv)
  then show ?thesis by (auto simp: execs_def)
qed

end
