(* ===== verification/Txn_Life.thy ===== *)
theory Txn_Life
  imports Txn_Xa
begin

text \<open>
  The life of a transaction: executing queries keeps its invariant, and \<open>Finish\<close> and \<open>Abort\<close> give
  back its connections without touching those of any other transaction.
\<close>

section \<open>Execution keeps the invariant\<close>

text \<open>A connection got S from a pool of the transaction and appended to one of its lists.\<close>

lemma txn_ok_append:
  assumes ok: "txn_ok S txn w" and p: "p < length (w_pools w)" and g: "Pool_Get be w p = (w1, Ok c)"
    and t: "tx_backends t = tx_backends txn" "tx_twopcConnections t = tx_twopcConnections txn"
      "mset (txn_conns t) = add_mset c (mset (txn_conns txn))"
  shows "txn_ok S t w1"
proof -
  have inv: "pool_inv w" using ok by (simp add: txn_ok_def)
  note s = Pool_Get_spec [OF inv p g]
  have held: "out w \<subseteq> out w1" using pools.get_inv [OF inv p g] by blast
  have ok1: "txn_ok S txn w1" by (rule txn_ok_world [OF ok]) (use s ok held in \<open>auto simp: txn_ok_def\<close>)
  have new: "c \<in> out w1" "c \<notin> out w" using pools.get_new [OF inv p g] by auto
  then have fresh: "c \<notin> S" "c \<notin> set (txn_conns txn)" using ok by (auto simp: txn_ok_def)
  then have "distinct (txn_conns t)"
    using ok t(3) by (metis distinct.simps(2) mset.simps(2) mset_eq_imp_distinct_iff txn_ok_def)
  moreover have "set (txn_conns t) = insert c (set (txn_conns txn))"
    using t(3) by (metis list.simps(15) mset.simps(2) set_mset_mset)
  moreover have "normal_pool t b = normal_pool txn b" "pools_known t w1 = pools_known txn w1" for b
    by (simp_all add: normal_pool_def pools_known_def t)
  ultimately show ?thesis using ok1 new(1) fresh(1) by (auto simp: txn_ok_def t)
qed

lemma txn_ok_get_fail:
  assumes ok: "txn_ok S txn w" and p: "p < length (w_pools w)" and g: "Pool_Get be w p = (w1, x)"
  shows "txn_ok S txn w1 \<and> world_ext w w1"
proof -
  have inv: "pool_inv w" using ok by (simp add: txn_ok_def)
  note s = Pool_Get_spec [OF inv p g]
  have held: "out w \<subseteq> out w1" using pools.get_inv [OF inv p g] by blast
  have "txn_ok S txn w1" by (rule txn_ok_world [OF ok]) (use s ok held in \<open>auto simp: txn_ok_def\<close>)
  with s show ?thesis by simp
qed

definition got :: "nat set \<Rightarrow> Txn \<Rightarrow> World \<Rightarrow> Txn \<Rightarrow> World \<Rightarrow> nat res \<Rightarrow> bool" where
  "got S txn w txn' w' x \<longleftrightarrow>
     txn_ok S txn' w' \<and> txn_frame txn txn' \<and> world_ext w w' \<and> (\<forall>c. x = Ok c \<longrightarrow> c \<in> set (txn_conns txn'))"

lemma normalConnection_spec:
  assumes ok: "txn_ok S txn w" and t: "normalConnection be txn w b = (txn', w', x)"
  shows "got S txn w txn' w' x"
proof (cases "normal_pool txn b")
  case None
  with t ok show ?thesis
    by (auto simp: normalConnection_def normal_pool_def nil_pool_def got_def split: option.splits)
next
  case (Some p)
  then obtain pz where pz: "gm_get (tx_backends txn) b = Some pz" "pz_normal pz = Some p"
    by (auto simp: normal_pool_def split: option.splits)
  obtain w1 y where g: "Pool_Get be w p = (w1, y)" by fastforce
  have p: "p < length (w_pools w)" using ok pz by (auto simp: txn_ok_def pools_known_def)
  note fail = txn_ok_get_fail [OF ok p g]
  show ?thesis
  proof (cases y)
    case (Ok c)
    let ?t = "txn\<lparr>tx_normalConnections := tx_normalConnections txn @ [c]\<rparr>"
    have "txn_ok S ?t w1" by (rule txn_ok_append [OF ok p g [unfolded Ok]]) (simp_all add: txn_conns_def)
    moreover have "txn' = ?t" "w' = w1" "x = Ok c" using t pz g Ok by (simp_all add: normalConnection_def)
    ultimately show ?thesis using fail by (simp add: got_def txn_frame_def txn_conns_def)
  qed (use t pz g fail in \<open>auto simp: normalConnection_def got_def\<close>)
qed

lemma replicaConnection_spec:
  assumes ok: "txn_ok S txn w" and t: "replicaConnection be txn w b = (txn', w', x)"
  shows "got S txn w txn' w' x"
proof (cases "\<exists>pz p. gm_get (tx_backends txn) b = Some pz \<and> pz_replica pz = Some p")
  case False
  with t ok show ?thesis by (auto simp: replicaConnection_def got_def split: option.splits)
next
  case True
  then obtain pz p where pz: "gm_get (tx_backends txn) b = Some pz" "pz_replica pz = Some p" by blast
  obtain w1 y where g: "Pool_Get be w p = (w1, y)" by fastforce
  have p: "p < length (w_pools w)" using ok pz by (auto simp: txn_ok_def pools_known_def)
  note fail = txn_ok_get_fail [OF ok p g]
  show ?thesis
  proof (cases y)
    case (Ok c)
    let ?t = "txn\<lparr>tx_replicaConnections := tx_replicaConnections txn @ [c]\<rparr>"
    have "txn_ok S ?t w1" by (rule txn_ok_append [OF ok p g [unfolded Ok]]) (simp_all add: txn_conns_def)
    moreover have "txn' = ?t" "w' = w1" "x = Ok c" using t pz g Ok by (simp_all add: replicaConnection_def)
    ultimately show ?thesis using fail by (simp add: got_def txn_frame_def txn_conns_def)
  qed (use t pz g fail in \<open>auto simp: replicaConnection_def got_def\<close>)
qed

lemma twopc_got: "txn_ok S txn w \<Longrightarrow> twopcConnection be txn w b = (txn', w', x) \<Longrightarrow> got S txn w txn' w' x"
  using twopcConnection_spec [of S txn w be b txn' w' x]
  by (auto simp: got_def txn_conns_def dest!: gm_get_in_set) force

lemma got_trans: "got S txn w txn1 w1 y \<Longrightarrow> got S txn1 w1 txn' w' x \<Longrightarrow> got S txn w txn' w' x"
  by (auto simp: got_def intro: txn_frame_trans world_ext_trans)

lemma fetchOneConnection_spec:
  assumes ok: "txn_ok S txn w" and t: "fetchOneConnection be txn w b = (txn', w', x)"
  shows "got S txn w txn' w' x"
proof (cases "tx_isExecOnRep txn")
  case False
  with t ok show ?thesis by (auto simp: fetchOneConnection_def intro: twopc_got normalConnection_spec split: if_splits)
next
  case True
  obtain txn1 w1 y where r: "replicaConnection be txn w b = (txn1, w1, y)" by (metis prod_cases3)
  note s = replicaConnection_spec [OF ok r]
  then have "txn_ok S txn1 w1" by (simp add: got_def)
  then have "got S txn1 w1 txn' w' x" if "y = Err e" for e
    using t True r that by (auto simp: fetchOneConnection_def Let_def intro: twopc_got normalConnection_spec split: if_splits)
  with s t True r show ?thesis by (cases y) (auto simp: fetchOneConnection_def Let_def intro: got_trans)
qed

lemma run_queries_spec:
  "txn_ok S txn w \<Longrightarrow> c \<in> set (txn_conns txn) \<Longrightarrow> run_queries be t c qs w qr = (w', qr', x) \<Longrightarrow>
     txn_ok S txn w' \<and> world_ext w w'"
proof (induction qs arbitrary: w qr)
  case (Cons q qs)
  obtain w1 y where e: "conn_ExecuteWithLimits be w c q (tx_timeout t) (tx_maxResult t) = (w1, y)" by fastforce
  have inv: "pool_inv w" and c: "c < length (w_conns w)" using Cons.prems by (auto simp: txn_ok_def out_def)
  note s = conn_ExecuteWithLimits_spec [OF inv c e]
  have ok1: "txn_ok S txn w1" by (rule txn_ok_world [OF Cons.prems(1)]) (use s Cons.prems(1) in \<open>auto simp: txn_ok_def\<close>)
  show ?case
  proof (cases y)
    case (Ok r)
    with Cons.prems e have "run_queries be t c qs w1 (AppendResult qr r) = (w', qr', x)" by simp
    from Cons.IH [OF ok1 Cons.prems(2) this] s show ?thesis by (blast intro: world_ext_trans)
  qed (use Cons.prems e ok1 s in auto)
qed simp

lemma one_shard_spec:
  assumes ok: "txn_ok S txn w" and t: "one_shard be b qs txn w qr = (txn', w', qr', x)"
  shows "txn_ok S txn' w' \<and> txn_frame txn txn' \<and> world_ext w w'"
proof -
  obtain txn1 w1 y where f: "fetchOneConnection be txn w b = (txn1, w1, y)" by (metis prod_cases3)
  note s = fetchOneConnection_spec [OF ok f]
  show ?thesis
  proof (cases y)
    case (Ok c)
    with t f have "txn' = txn1" "run_queries be txn1 c qs w1 qr = (w', qr', x)"
      by (auto simp: one_shard_def split: prod.splits)
    with s Ok run_queries_spec [of S txn1 w1 c be txn1 qs qr w' qr' x] show ?thesis
      by (auto simp: got_def intro: world_ext_trans)
  qed (use t f s in \<open>auto simp: one_shard_def got_def\<close>)
qed

lemma run_shards_spec:
  "txn_ok S txn w \<Longrightarrow> run_shards be shards txn w qr = (txn', w', qr', x) \<Longrightarrow>
     txn_ok S txn' w' \<and> txn_frame txn txn' \<and> world_ext w w'"
proof (induction shards arbitrary: txn w qr txn' w' qr' x)
  case (Cons bq shards)
  obtain b qs where bq: "bq = (b, qs)" by fastforce
  obtain txn1 w1 qr1 y where o: "one_shard be b qs txn w qr = (txn1, w1, qr1, y)" by (metis prod_cases4)
  note s = one_shard_spec [OF Cons.prems(1) o]
  obtain txn2 w2 qr2 z where r: "run_shards be shards txn1 w1 qr1 = (txn2, w2, qr2, z)" by (metis prod_cases4)
  have eq: "(txn', w') = (txn1, w1) \<or> (txn', w') = (txn2, w2)"
    using Cons.prems(2) bq o r by (cases y; cases z) auto
  have "txn_ok S txn2 w2 \<and> txn_frame txn1 txn2 \<and> world_ext w1 w2"
    using Cons.IH [OF _ r] s by simp
  with eq s show ?case by (auto intro: txn_frame_trans world_ext_trans)
qed simp

lemma txn_execute_spec:
  assumes ok: "txn_ok S txn w" and e: "txn_execute be req txn w = (txn', w', x)"
  shows "txn_ok S txn' w' \<and> txn_frame txn txn' \<and> world_ext w w'"
proof -
  let ?t = "txn\<lparr>tx_state := if tx_twopc txn then txnStateExecutingTwoPC else txnStateExecutingNormal\<rparr>"
  obtain qr y where r: "run_shards be (exec_shards txn req) ?t w empty_Result = (txn', w', qr, y)"
    using e by (auto simp: txn_execute_def split: prod.splits)
  have "txn_ok S ?t w" using ok txn_ok_cong [of ?t txn] by simp
  from run_shards_spec [OF this r] show ?thesis by (simp add: txn_frame_def)
qed

lemma xaStart_ok:
  assumes ok: "txn_ok S txn w" and req: "tx_req txn = Some req" and e: "xaStart be txn w = (txn', w', x)"
  shows "txn_ok S txn' w' \<and> tx_backends txn' = tx_backends txn \<and> world_ext w w'"
proof -
  define t where "t = txn\<lparr>tx_xid := (if tx_isMultiStmtTxn txn then ''MULTRXID-'' else ''RXID-'') @
     be_stamp be (w_trace w) @ ''-'' @ show_nat (unat (tx_id txn))\<rparr>"
  have t: "txn_ok S t w" "tx_req t = Some req" "tx_backends t = tx_backends txn"
    using ok req txn_ok_cong [of t txn] by (simp_all add: t_def)
  from xa_phase_spec [OF _ t(1,2) e [unfolded xaStart_def, folded t_def]] obtain es
    where "group_spec S xaMaxRetryNum (xa_query ''START'' t) (xa_backends t req) t w txn' w' x es" by auto
  with t(3) show ?thesis by (simp add: group_spec_def txn_frame_def)
qed

text \<open>\<open>Txn.Execute\<close>, with the \<open>XA START\<close> of a single-statement write in front.\<close>

lemma Txn_Execute_ok:
  assumes ok: "txn_ok S txn w" and e: "Txn_Execute be req txn w = (txn', w', x)"
  shows "txn_ok S txn' w' \<and> world_ext w w' \<and> tx_backends txn' = tx_backends txn"
proof -
  define run where "run = (\<lambda>txn w. case txn_execute be req txn w of
      (txn1, w1, Err e) \<Rightarrow> (incErrors txn1, w1, Err e) | (txn1, w1, x) \<Rightarrow> (txn1, w1, x))"
  have run: "txn_ok S t2 v2 \<and> world_ext v v2 \<and> tx_backends t2 = tx_backends t"
    if "txn_ok S t v" "run t v = (t2, v2, y)" for t v t2 v2 y
  proof -
    obtain t1 v1 z where x: "txn_execute be req t v = (t1, v1, z)" by (metis prod_cases3)
    with that(2) have "v2 = v1" "t2 = t1 \<or> t2 = incErrors t1" by (auto simp: run_def split: res.splits)
    with txn_execute_spec [OF that(1) x] txn_ok_cong [of "incErrors t1" t1] show ?thesis
      by (auto simp: txn_frame_def incErrors_def)
  qed
  let ?t = "txn\<lparr>tx_req := Some req\<rparr>"
  have ok0: "txn_ok S ?t w" using ok txn_ok_cong [of ?t txn] by simp
  note e' = e [unfolded Txn_Execute_def, folded run_def, unfolded Let_def]
  consider (xa) "tx_twopc txn" "rq_TxnMode req = TxnWrite \<and> \<not> tx_isMultiStmtTxn ?t"
    | (plain) t where "txn_ok S t w" "tx_backends t = tx_backends txn" "run t w = (txn', w', x)"
    using e' ok ok0 by (auto split: if_splits)
  then show ?thesis
  proof cases
    case xa
    obtain t1 w1 y where st: "xaStart be ?t w = (t1, w1, y)" by (metis prod_cases3)
    then have g: "txn_ok S t1 w1 \<and> tx_backends t1 = tx_backends txn \<and> world_ext w w1"
      using xaStart_ok [OF ok0 _ st] by simp
    show ?thesis
    proof (cases y)
      case (Ok u)
      then have "run t1 w1 = (txn', w', x)" using e' xa st by simp
      with run [of t1 w1] g show ?thesis by (auto intro: world_ext_trans)
    qed (use e' xa st g in auto)
  next
    case plain
    with run [of t w] show ?thesis by simp
  qed
qed

section \<open>Finish and abort\<close>

text \<open>Ending a transaction gives up its own connections only: whatever else is out stays out.\<close>

definition releases :: "Txn \<Rightarrow> World \<Rightarrow> World \<Rightarrow> bool" where
  "releases txn w w' \<longleftrightarrow> pool_inv w' \<and> out w - set (txn_conns txn) \<subseteq> out w' \<and> world_ext w w'"

lemma Txn_Finish_release:
  assumes "txn_ok S txn (sy_world sys)" "Txn_Finish be txn sys = (txn', sys')"
  shows "releases txn (sy_world sys) (sy_world sys')"
  using assms pools.release_all [of "sy_world sys" "txn_conns txn" "0 < tx_errors txn" be]
  by (auto simp: Txn_Finish_def txn_ok_def releases_def split: if_splits)

lemma Txn_Abort_release:
  assumes "txn_ok S txn (sy_world sys)" "Txn_Abort be txn sys = (txn', sys')"
  shows "releases txn (sy_world sys) (sy_world sys')"
  using assms pools.kill_all [of "sy_world sys" "txn_conns txn" be]
  by (auto simp: Txn_Abort_def txn_ok_def releases_def split: if_splits)

section \<open>Steps of a transaction keep its invariant\<close>

definition keeps :: "(Txn \<Rightarrow> World \<Rightarrow> 'a txn_step) \<Rightarrow> bool" where
  "keeps f \<longleftrightarrow> (\<forall>S txn w txn' w' x. txn_ok S txn w \<longrightarrow> f txn w = (txn', w', x) \<longrightarrow> txn_ok S txn' w' \<and> world_ext w w')"

definition sys_keeps :: "(Txn \<Rightarrow> Sys \<Rightarrow> Txn \<times> Sys \<times> 'a res) \<Rightarrow> bool" where
  "sys_keeps f \<longleftrightarrow> (\<forall>S txn sys txn' sys' x. txn_ok S txn (sy_world sys) \<longrightarrow> f txn sys = (txn', sys', x) \<longrightarrow>
     txn_ok S txn' (sy_world sys') \<and> world_ext (sy_world sys) (sy_world sys'))"

lemma xa_phase_keeps:
  assumes "st \<in> {txnXAStateStart, txnXAStateEnd, txnXAStatePrepare}"
  shows "keeps (xa_phase be verb st fin)"
  unfolding keeps_def
proof (intro allI impI)
  fix S txn w txn' w' and x :: "unit res"
  assume ok: "txn_ok S txn w" and e: "xa_phase be verb st fin txn w = (txn', w', x)"
  show "txn_ok S txn' w' \<and> world_ext w w'"
  proof (cases "tx_req txn")
    case None
    then have "w' = w" "txn' = txn\<lparr>tx_xaState := fin\<rparr>"
      using e by (auto simp: xa_phase_def executeXACommand_def nil_pool_def)
    with ok txn_ok_cong [of txn' txn] show ?thesis by simp
  next
    case (Some req)
    from xa_phase_spec [OF assms ok Some e] show ?thesis by (auto simp: group_spec_def)
  qed
qed

lemma xa_final_keeps:
  assumes "st \<in> {txnXAStateCommit, txnXAStateRollback}"
  shows "sys_keeps (xa_final be verb ls st fin)"
  unfolding sys_keeps_def
proof (intro allI impI)
  fix S txn sys txn' sys' and x :: "unit res"
  assume ok: "txn_ok S txn (sy_world sys)" and e: "xa_final be verb ls st fin txn sys = (txn', sys', x)"
  show "txn_ok S txn' (sy_world sys') \<and> world_ext (sy_world sys) (sy_world sys')"
  proof (cases "tx_req txn")
    case None
    then have "sy_world sys' = sy_world sys" "txn' = txn\<lparr>tx_xaState := st\<rparr>"
      using e by (auto simp: xa_final_def executeXACommand_def nil_pool_def)
    with ok txn_ok_cong [of txn' txn] show ?thesis by simp
  next
    case (Some req)
    from xa_final_spec [OF assms ok Some e] show ?thesis by (auto simp: group_spec_def)
  qed
qed

lemma then_phase_keeps: "keeps ph \<Longrightarrow> sys_keeps k \<Longrightarrow> sys_keeps (then_phase ph k)"
  unfolding sys_keeps_def
proof (intro allI impI)
  fix S txn sys txn' sys' and x :: "unit res"
  assume ph: "keeps ph" and k: "\<forall>S txn sys txn' sys' x. txn_ok S txn (sy_world sys) \<longrightarrow> k txn sys = (txn', sys', x) \<longrightarrow>
     txn_ok S txn' (sy_world sys') \<and> world_ext (sy_world sys) (sy_world sys')"
    and ok: "txn_ok S txn (sy_world sys)" and e: "then_phase ph k txn sys = (txn', sys', x)"
  obtain t1 w1 y where p: "ph txn (sy_world sys) = (t1, w1, y)" by (metis prod_cases3)
  with ph ok have s: "txn_ok S t1 w1" "world_ext (sy_world sys) w1" by (auto simp: keeps_def)
  show "txn_ok S txn' (sy_world sys') \<and> world_ext (sy_world sys) (sy_world sys')"
  proof (cases y)
    case (Ok u)
    with e p have "k t1 (sys\<lparr>sy_world := w1\<rparr>) = (txn', sys', x)" by (simp add: then_phase_def)
    moreover have "txn_ok S t1 (sy_world (sys\<lparr>sy_world := w1\<rparr>))" using s by simp
    ultimately have "txn_ok S txn' (sy_world sys') \<and> world_ext w1 (sy_world sys')" using k by fastforce
    with s show ?thesis by (blast intro: world_ext_trans)
  qed (use e p s in \<open>auto simp: then_phase_def\<close>)
qed

lemma on_write_keeps: "sys_keeps k \<Longrightarrow> sys_keeps (on_write k)"
  by (auto simp: sys_keeps_def on_write_def split: option.splits if_splits)

text \<open>Setting fields the invariant does not read, before the steps.\<close>

lemma sys_keeps_upd:
  assumes "sys_keeps f" "\<And>t. tx_backends (u t) = tx_backends t \<and> tx_twopcConnections (u t) = tx_twopcConnections t \<and>
     tx_normalConnections (u t) = tx_normalConnections t \<and> tx_replicaConnections (u t) = tx_replicaConnections t"
  shows "sys_keeps (\<lambda>t. f (u t))"
  using assms txn_ok_cong unfolding sys_keeps_def by metis

lemma phase_keeps: "keeps (xaEnd be)" "keeps (xaPrepare be)"
  using xa_phase_keeps by (simp_all add: xaEnd_def [abs_def] xaPrepare_def [abs_def])

lemma final_keeps: "sys_keeps (xaCommit be)" "sys_keeps (xaRollback be)"
  using xa_final_keeps by (simp_all add: xaCommit_def [abs_def] xaRollback_def [abs_def])

lemma commit_keeps: "sys_keeps (then_phase (xaEnd be) (then_phase (xaPrepare be) (xaCommit be)))"
  by (intro then_phase_keeps phase_keeps final_keeps)

lemma rollback_keeps: "sys_keeps (then_phase (xaEnd be) (then_phase (xaPrepare be) (xaRollback be)))"
  by (intro then_phase_keeps phase_keeps final_keeps)

lemma Txn_Commit_keeps: "sys_keeps (Txn_Commit be)"
  unfolding Txn_Commit_def [abs_def] by (rule sys_keeps_upd [OF on_write_keeps [OF commit_keeps]]) simp

lemma Txn_Rollback_keeps: "sys_keeps (Txn_Rollback be)"
  unfolding Txn_Rollback_def [abs_def] by (rule sys_keeps_upd [OF on_write_keeps [OF rollback_keeps]]) simp

lemma Txn_RollbackPhaseOne_keeps: "sys_keeps (Txn_RollbackPhaseOne be)"
  unfolding Txn_RollbackPhaseOne_def [abs_def]
  by (rule sys_keeps_upd [OF on_write_keeps [OF then_phase_keeps [OF phase_keeps(1) final_keeps(2)]]]) simp

lemma Txn_CommitScatter_keeps: "sys_keeps (Txn_CommitScatter be)"
  unfolding Txn_CommitScatter_def [abs_def] by (rule sys_keeps_upd [OF commit_keeps]) simp

lemma Txn_RollbackScatter_keeps: "sys_keeps (Txn_RollbackScatter be)"
  unfolding Txn_RollbackScatter_def [abs_def] by (rule sys_keeps_upd [OF rollback_keeps]) simp

lemma Txn_BeginScatter_keeps: "keeps (Txn_BeginScatter be)"
  unfolding keeps_def Txn_BeginScatter_def
proof (intro allI impI)
  fix S w txn' w' and txn :: Txn and x :: "unit res"
  let ?t = "txn\<lparr>tx_twopc := True, tx_req := Some scatter_req\<rparr>"
  assume ok: "txn_ok S txn w" and e: "xaStart be ?t w = (txn', w', x)"
  have "txn_ok S ?t w" using ok txn_ok_cong [of ?t txn] by simp
  from xaStart_ok [OF this _ e] show "txn_ok S txn' w' \<and> world_ext w w'" by simp
qed

lemma Txn_Execute_keeps: "keeps (Txn_Execute be req)"
  using Txn_Execute_ok unfolding keeps_def by blast

section \<open>Interleaved transactions\<close>

text \<open>
  Any number of transactions over the same pools, each step one call of one of them. The state is
  the list of transactions that have not ended. The calls are the ones the proxy makes; an aborted or
  finished transaction makes no further call.
\<close>

inductive txn_step_rel :: "Backends \<Rightarrow> (string, Poolz) gomap \<Rightarrow> Txn list \<times> Sys \<Rightarrow> Txn list \<times> Sys \<Rightarrow> bool"
  for be :: Backends and bs :: "(string, Poolz) gomap" where
  create: "CreateTxn (sy_mgr sys) bs = (m, Ok txn) \<Longrightarrow> txn_step_rel be bs (ts, sys) (ts @ [txn], sys\<lparr>sy_mgr := m\<rparr>)"
| begin_txn: "i < length ts \<Longrightarrow> txn_step_rel be bs (ts, sys) (ts[i := Txn_Begin (ts ! i)], sys)"
| world_op: "i < length ts \<Longrightarrow> f \<in> {Txn_Execute be req, Txn_ExecuteScatter be q, Txn_ExecuteSingle be q, Txn_ExecuteOnThisBackend be b q} \<Longrightarrow>
    f (ts ! i) (sy_world sys) = (t, w, x) \<Longrightarrow> txn_step_rel be bs (ts, sys) (ts[i := t], sys\<lparr>sy_world := w\<rparr>)"
| start: "i < length ts \<Longrightarrow> Txn_BeginScatter be (ts ! i) (sy_world sys) = (t, w, y) \<Longrightarrow>
    txn_step_rel be bs (ts, sys) (ts[i := t], sys\<lparr>sy_world := w\<rparr>)"
| phase: "i < length ts \<Longrightarrow>
    f \<in> {Txn_Commit be, Txn_Rollback be, Txn_RollbackPhaseOne be, Txn_CommitScatter be, Txn_RollbackScatter be} \<Longrightarrow>
    f (ts ! i) sys = (t, sys', z) \<Longrightarrow> txn_step_rel be bs (ts, sys) (ts[i := t], sys')"
| finish: "Txn_Finish be t sys = (t', sys') \<Longrightarrow> txn_step_rel be bs (ts @ t # us, sys) (ts @ us, sys')"
| abort: "Txn_Abort be t sys = (t', sys') \<Longrightarrow> txn_step_rel be bs (ts @ t # us, sys) (ts @ us, sys')"

text \<open>
  The invariant: the pools are well-formed and every transaction is well-formed with the connections
  of all the others as its frame, so no two transactions hold the same connection.
\<close>

definition held_by :: "Txn list \<Rightarrow> nat set" where
  "held_by ts = (\<Union>t \<in> set ts. set (txn_conns t))"

fun isolated :: "Txn list \<Rightarrow> World \<Rightarrow> bool" where
  "isolated [] w \<longleftrightarrow> pool_inv w"
| "isolated (t # ts) w \<longleftrightarrow> txn_ok (held_by ts) t w \<and> isolated ts w"

lemma held_by_simps [simp]:
  "held_by [] = {}" "held_by (t # ts) = set (txn_conns t) \<union> held_by ts" "held_by (ts @ us) = held_by ts \<union> held_by us"
  by (auto simp: held_by_def)

lemma txn_ok_split: "txn_ok S txn w \<longleftrightarrow> txn_ok {} txn w \<and> S \<subseteq> out w \<and> S \<inter> set (txn_conns txn) = {}"
  by (auto simp: txn_ok_def)

lemma isolated_iff:
  "isolated ts w \<longleftrightarrow> pool_inv w \<and> (\<forall>t \<in> set ts. txn_ok {} t w) \<and> distinct (concat (map txn_conns ts))"
proof (induction ts)
  case (Cons t ts)
  have "held_by ts = set (concat (map txn_conns ts))" by (simp add: held_by_def)
  moreover have "distinct (txn_conns t)" "set (txn_conns t) \<subseteq> out w" "pool_inv w" if "txn_ok {} t w" for t
    using that by (simp_all add: txn_ok_def)
  ultimately show ?case using Cons.IH txn_ok_split [of "held_by ts" t w] by (auto simp: held_by_def)
qed simp

text \<open>One transaction moves, the others are its frame.\<close>

lemma isolated_move:
  assumes iso: "isolated (ts @ t # us) w"
    and move: "\<And>S. txn_ok S t w \<Longrightarrow> txn_ok S t' w' \<and> world_ext w w'"
  shows "isolated (ts @ t' # us) w'"
proof -
  let ?S = "held_by (ts @ us)"
  have all: "pool_inv w" "\<forall>u \<in> set (ts @ us). txn_ok {} u w" "txn_ok {} t w" "distinct (concat (map txn_conns (ts @ t # us)))"
    using iso by (auto simp: isolated_iff)
  have "?S \<subseteq> out w" using all(2) by (auto simp: held_by_def txn_ok_def)
  moreover have "?S \<inter> set (txn_conns t) = {}" using all(4) by (auto simp: held_by_def)
  ultimately have "txn_ok ?S t w" using all(3) txn_ok_split [of ?S t w] by simp
  from move [OF this] have m: "txn_ok ?S t' w'" "world_ext w w'" by simp_all
  then have t': "pool_inv w'" "?S \<subseteq> out w'" "?S \<inter> set (txn_conns t') = {}" "txn_ok {} t' w'" "distinct (txn_conns t')"
    by (auto simp: txn_ok_def)
  have "txn_ok {} u w'" if "u \<in> set (ts @ us)" for u
  proof (rule txn_ok_world [OF _ t'(1) m(2)])
    show "txn_ok {} u w" using that all(2) by blast
    show "{} \<union> set (txn_conns u) \<subseteq> out w'" using that t'(2) by (auto simp: held_by_def)
  qed
  moreover have "distinct (concat (map txn_conns (ts @ t' # us)))"
    using all(4) t'(3,5) by (auto simp: held_by_def)
  ultimately show ?thesis using t' by (auto simp: isolated_iff)
qed

lemma isolated_end:
  assumes iso: "isolated (ts @ t # us) w" and rel: "releases t w w'"
  shows "isolated (ts @ us) w'"
proof -
  have all: "\<forall>u \<in> set (ts @ us). txn_ok {} u w" "distinct (concat (map txn_conns (ts @ t # us)))"
    using iso by (auto simp: isolated_iff)
  have "txn_ok {} u w'" if u: "u \<in> set (ts @ us)" for u
  proof (rule txn_ok_world)
    show "txn_ok {} u w" using u all(1) by blast
    moreover have "set (txn_conns u) \<inter> set (txn_conns t) = {}" using u all(2) by auto
    ultimately show "{} \<union> set (txn_conns u) \<subseteq> out w'" using rel by (auto simp: releases_def txn_ok_def)
  qed (use rel in \<open>simp_all add: releases_def\<close>)
  moreover have "distinct (concat (map txn_conns (ts @ us)))" using all(2) by auto
  ultimately show ?thesis using rel by (simp add: isolated_iff releases_def)
qed

lemma isolated_upd:
  assumes "isolated ts w" "i < length ts" "\<And>S. txn_ok S (ts ! i) w \<Longrightarrow> txn_ok S t' w' \<and> world_ext w w'"
  shows "isolated (ts[i := t']) w'"
  using isolated_move [of "take i ts" "ts ! i" "drop (Suc i) ts" w t' w'] assms
  by (simp add: id_take_nth_drop [symmetric] upd_conv_take_nth_drop)

lemma NewTxn_isolated:
  assumes "isolated ts w" "pools_known (NewTxn i bs) w"
  shows "isolated (ts @ [NewTxn i bs]) w"
  using assms by (auto simp: isolated_iff txn_ok_def NewTxn_def txn_conns_def normal_pool_def)

definition poolz_known :: "(string, Poolz) gomap \<Rightarrow> World \<Rightarrow> bool" where
  "poolz_known bs w \<longleftrightarrow> pools_known (NewTxn 0 bs) w"

lemma poolz_known_ext: "poolz_known bs w \<Longrightarrow> world_ext w w' \<Longrightarrow> poolz_known bs w'"
  by (simp add: poolz_known_def pools_known_def world_ext_def)

text \<open>One step of a transaction, with what the pools of the configuration need.\<close>

lemma isolated_step:
  assumes "isolated ts w" "poolz_known bs w" "i < length ts"
    and move: "\<And>S. txn_ok S (ts ! i) w \<Longrightarrow> txn_ok S t' w' \<and> world_ext w w'"
  shows "isolated (ts[i := t']) w' \<and> poolz_known bs w'"
proof -
  have "txn_ok {} (ts ! i) w" using assms(1,3) by (simp add: isolated_iff)
  with move assms(2) poolz_known_ext show ?thesis using isolated_upd [OF assms(1,3) move] by blast
qed

lemma keeps_step: "keeps f \<Longrightarrow> f t w = (t', w', x) \<Longrightarrow> txn_ok S t w \<Longrightarrow> txn_ok S t' w' \<and> world_ext w w'"
  unfolding keeps_def by blast

lemma sys_keeps_step:
  "sys_keeps f \<Longrightarrow> f t sys = (t', sys', x) \<Longrightarrow> txn_ok S t (sy_world sys) \<Longrightarrow>
     txn_ok S t' (sy_world sys') \<and> world_ext (sy_world sys) (sy_world sys')"
  unfolding sys_keeps_def by blast

lemma txn_step_isolated:
  assumes "txn_step_rel be bs (ts, sys) (ts', sys')" "isolated ts (sy_world sys)" "poolz_known bs (sy_world sys)"
  shows "isolated ts' (sy_world sys') \<and> poolz_known bs (sy_world sys')"
  using assms
proof (cases rule: txn_step_rel.cases)
  case (create m txn)
  then obtain i where "txn = NewTxn i bs" by (auto simp: CreateTxn_def mgr_GetID_def Let_def split: if_splits)
  with create assms NewTxn_isolated [of ts _ i bs] show ?thesis by (simp add: poolz_known_def pools_known_def NewTxn_def)
next
  case (begin_txn i)
  have "txn_ok S (Txn_Begin t) w = txn_ok S t w" for S t w by (rule txn_ok_cong) (simp_all add: Txn_Begin_def)
  with begin_txn isolated_step [OF assms(2,3), of i] show ?thesis by simp
next
  case (world_op i f req q b t w x)
  then have "keeps f" using Txn_Execute_keeps
    by (auto simp: Txn_ExecuteScatter_def [abs_def] Txn_ExecuteSingle_def [abs_def] Txn_ExecuteOnThisBackend_def [abs_def])
  from isolated_step [OF assms(2,3) _ keeps_step [OF this]] world_op show ?thesis by simp
next
  case (start i t w y)
  from isolated_step [OF assms(2,3) _ keeps_step [OF Txn_BeginScatter_keeps]] start show ?thesis by simp
next
  case (phase i f t z)
  then have "sys_keeps f"
    using Txn_Commit_keeps Txn_Rollback_keeps Txn_RollbackPhaseOne_keeps Txn_CommitScatter_keeps Txn_RollbackScatter_keeps by auto
  from isolated_step [OF assms(2,3) _ sys_keeps_step [OF this]] phase show ?thesis by simp
next
  case (finish t t' us0 us)
  then have "txn_ok {} t (sy_world sys)" using assms(2) by (simp add: isolated_iff)
  from Txn_Finish_release [OF this] finish have "releases t (sy_world sys) (sy_world sys')" by simp
  with finish assms isolated_end poolz_known_ext show ?thesis by (auto simp: releases_def)
next
  case (abort t t' us0 us)
  then have "txn_ok {} t (sy_world sys)" using assms(2) by (simp add: isolated_iff)
  from Txn_Abort_release [OF this] abort have "releases t (sy_world sys) (sy_world sys')" by simp
  with abort assms isolated_end poolz_known_ext show ?thesis by (auto simp: releases_def)
qed

end
