(* ===== verification/Txn_Props.thy ===== *)
theory Txn_Props
  imports Txn_Life
begin

text \<open>
  What the two-phase commit, the pools and the log of failed commits guarantee, stated over the
  operations themselves. The concrete servers, pools and transactions of the examples are
  \<open>demo_be\<close>, \<open>demo_world\<close> and \<open>demo_txn\<close>.
\<close>

section \<open>A concrete system\<close>

definition demo_be :: Backends where
  "demo_be = \<lparr>be_dial = \<lambda>_. True, be_thread = length, be_ping = \<lambda>_. True, be_exec = \<lambda>_ _ _ _. XOk empty_Result 0,
     be_now = \<lambda>_. 0, be_stamp = \<lambda>_. ''20200101'', be_write = \<lambda>_. True\<rparr>"

text \<open>The same servers, except that the second one refuses every \<open>XA PREPARE\<close>.\<close>

definition refusing_be :: Backends where
  "refusing_be = demo_be\<lparr>be_exec := \<lambda>_ a _ q.
     if a = ''h2:3306'' \<and> take 10 q = ''XA PREPARE'' then XErr (Errorf ''refused'' []) False else XOk empty_Result 0\<rparr>"

definition demo_conf :: "string \<Rightarrow> BackendConfig" where
  "demo_conf a = \<lparr>bc_Name = a, bc_Address = a, bc_Replica = [], bc_User = [], bc_Password = [], bc_DBName = [],
     bc_Charset = [], bc_MaxConnections = 4, bc_Role = NormalBackend\<rparr>"

definition demo_pool :: "string \<Rightarrow> Pool" where
  "demo_pool a = \<lparr>p_address = a, p_conf = demo_conf a, p_connections = Some [], p_maxIdleTime = 20\<rparr>"

definition demo_world :: World where
  "demo_world = \<lparr>w_conns = [], w_pools = [demo_pool ''h1:3306'', demo_pool ''h2:3306''], w_trace = []\<rparr>"

definition demo_backends :: "(string, Poolz) gomap" where
  "demo_backends = [(''b1'', \<lparr>pz_conf = demo_conf ''h1:3306'', pz_normal = Some 0, pz_replica = None\<rparr>),
     (''b2'', \<lparr>pz_conf = demo_conf ''h2:3306'', pz_normal = Some 1, pz_replica = None\<rparr>)]"

definition demo_req :: RequestContext where
  "demo_req = \<lparr>rq_RawQuery = [], rq_Mode = ReqNormal, rq_TxnMode = TxnWrite,
     rq_Querys = [\<lparr>qt_Query = ''u1'', qt_Backend = ''b1'', qt_Range = []\<rparr>, \<lparr>qt_Query = ''u2'', qt_Backend = ''b2'', qt_Range = []\<rparr>]\<rparr>"

definition demo_txn :: Txn where
  "demo_txn = (NewTxn 1 demo_backends)\<lparr>tx_twopc := True, tx_xid := ''RXID-20200101-1'', tx_req := Some demo_req\<rparr>"

definition demo_sys :: Sys where
  "demo_sys = \<lparr>sy_world = demo_world, sy_mgr = \<lparr>m_txnid = 1, m_txnNums = 1\<rparr>, sy_xaCheck = Some (NewXaCheck 10 None)\<rparr>"

lemma demo_pool_inv: "pool_inv demo_world"
  by (auto simp: pool_inv_def conns_wf_def queue_wf_def demo_world_def demo_pool_def less_Suc_eq)

lemma demo_known: "poolz_known demo_backends demo_world"
  by (auto simp: poolz_known_def pools_known_def NewTxn_def demo_backends_def demo_world_def split: if_splits)

lemma demo_ok: "txn_ok {} demo_txn (sy_world demo_sys)"
  using demo_pool_inv demo_known
  by (simp add: txn_ok_def demo_txn_def demo_sys_def NewTxn_def txn_conns_def poolz_known_def pools_known_def)

section \<open>Two-phase commit\<close>

text \<open>The events a commit adds to the history.\<close>

definition commit_events :: "Backends \<Rightarrow> Txn \<Rightarrow> Sys \<Rightarrow> event list" where
  "commit_events be txn sys =
     (case Txn_Commit be txn sys of (_, sys', _) \<Rightarrow> drop (length (w_trace (sy_world sys))) (w_trace (sy_world sys')))"

lemma commit_events_spec:
  assumes "txn_ok S txn (sy_world sys)" "tx_req txn = Some req" "rq_TxnMode req = TxnWrite"
    "Txn_Commit be txn sys = (txn', sys', x)"
  shows "\<exists>es1 es2. two_phase_spec S ''COMMIT'' (xa_backends txn req) txn sys txn' sys' x es1 es2 \<and>
     commit_events be txn sys = es1 @ es2"
proof -
  from Txn_Commit_two_phase [OF assms] obtain es1 es2
    where s: "two_phase_spec S ''COMMIT'' (xa_backends txn req) txn sys txn' sys' x es1 es2" by blast
  then have "commit_events be txn sys = es1 @ es2" using assms(4) by (simp add: commit_events_def two_phase_spec_def)
  with s show ?thesis by blast
qed

text \<open>
  C1. Whatever the servers answer, a commit sends \<open>XA COMMIT\<close> to a backend only after every backend of
  the transaction has accepted \<open>XA PREPARE\<close>.
\<close>

theorem commit_after_prepare:
  assumes "txn_ok S txn (sy_world sys)" "tx_req txn = Some req" "rq_TxnMode req = TxnWrite"
    and "commit_events be txn sys = pre @ EvExec a c (xa_query ''COMMIT'' txn) ok # post"
    and "b \<in> set (xa_backends txn req)"
  shows "accepted txn (sy_world sys) b (xa_query ''PREPARE'' txn) pre"
proof -
  obtain txn' sys' x where e: "Txn_Commit be txn sys = (txn', sys', x)" by (metis prod_cases3)
  from commit_events_spec [OF assms(1-3) e] obtain es1 es2
    where s: "two_phase_spec S ''COMMIT'' (xa_backends txn req) txn sys txn' sys' x es1 es2"
      and es: "pre @ EvExec a c (xa_query ''COMMIT'' txn) ok # post = es1 @ es2" using assms(4) by auto
  have "set es1 \<subseteq> set pre \<and> execs es2 \<noteq> 0"
    by (rule free_of_split [OF es]) (use s in \<open>simp add: two_phase_spec_def\<close>)
  with s assms(5) show ?thesis by (auto simp: two_phase_spec_def intro: accepted_mono)
qed

theorem commit_after_prepare_witness:
  "accepted demo_txn (sy_world demo_sys) ''b2'' (xa_query ''PREPARE'' demo_txn)
     (take 6 (commit_events demo_be demo_txn demo_sys))"
proof (rule commit_after_prepare [OF demo_ok, of demo_req])
  show "commit_events demo_be demo_txn demo_sys = take 6 (commit_events demo_be demo_txn demo_sys) @
      EvExec ''h1:3306'' 0 (xa_query ''COMMIT'' demo_txn) True # [EvExec ''h2:3306'' 1 (xa_query ''COMMIT'' demo_txn) True]"
    by code_simp
qed (code_simp+)

text \<open>
  C2. The outcome of a commit: an error means that no backend was sent \<open>XA COMMIT\<close>; success means
  that every backend accepted it, or that the identifier is in the log of commits to retry.
\<close>

theorem commit_outcome:
  assumes "txn_ok S txn (sy_world sys)" "tx_req txn = Some req" "rq_TxnMode req = TxnWrite"
    and "Txn_Commit be txn sys = (txn', sys', x)"
  shows "(\<forall>e. x = Err e \<longrightarrow> (\<forall>a c ok. EvExec a c (xa_query ''COMMIT'' txn) ok \<notin> set (commit_events be txn sys))) \<and>
     (x = Ok () \<longrightarrow> logged (tx_xid txn) sys' \<or>
        (\<forall>b \<in> set (xa_backends txn req). accepted txn (sy_world sys) b (xa_query ''COMMIT'' txn) (commit_events be txn sys)))"
proof -
  from commit_events_spec [OF assms] obtain es1 es2
    where s: "two_phase_spec S ''COMMIT'' (xa_backends txn req) txn sys txn' sys' x es1 es2"
      and es: "commit_events be txn sys = es1 @ es2" by blast
  have "EvExec a c q ok \<notin> set es2" if "execs es2 = 0" for a c q ok
    using that by (auto simp: execs_def filter_empty_conv)
  with s show ?thesis unfolding es
    by (auto simp: two_phase_spec_def free_of_def intro: accepted_mono)
qed

theorem commit_outcome_witness:
  "(\<exists>e. snd (snd (Txn_Commit refusing_be demo_txn demo_sys)) = Err e) \<and>
     (\<forall>a c ok. EvExec a c (xa_query ''COMMIT'' demo_txn) ok \<notin> set (commit_events refusing_be demo_txn demo_sys))"
proof -
  obtain txn' sys' x where e: "Txn_Commit refusing_be demo_txn demo_sys = (txn', sys', x)" by (metis prod_cases3)
  have "snd (snd (Txn_Commit refusing_be demo_txn demo_sys)) = Err (Errorf ''refused'' [])" by code_simp
  then show ?thesis
    using commit_outcome [OF demo_ok _ _ e, of demo_req] e by (simp add: demo_txn_def demo_req_def)
qed

text \<open>A commit sends \<open>XA COMMIT\<close> at most \<open>xaMaxRetryNum\<close> times per backend.\<close>

theorem commit_retry_bound:
  assumes "txn_ok S txn (sy_world sys)" "tx_req txn = Some req" "rq_TxnMode req = TxnWrite"
  shows "length (filter (\<lambda>e. \<exists>a c ok. e = EvExec a c (xa_query ''COMMIT'' txn) ok) (commit_events be txn sys))
     \<le> 10 * length (xa_backends txn req)"
proof -
  obtain txn' sys' x where e: "Txn_Commit be txn sys = (txn', sys', x)" by (metis prod_cases3)
  from commit_events_spec [OF assms e] obtain es1 es2
    where s: "two_phase_spec S ''COMMIT'' (xa_backends txn req) txn sys txn' sys' x es1 es2"
      and es: "commit_events be txn sys = es1 @ es2" by blast
  let ?P = "\<lambda>e. \<exists>a c ok. e = EvExec a c (xa_query ''COMMIT'' txn) ok"
  have "filter ?P es1 = []" using s by (auto simp: two_phase_spec_def free_of_def filter_empty_conv)
  moreover have "filter ?P es2 = filter ?P (filter is_exec es2)" by (auto intro!: filter_cong)
  ultimately have "length (filter ?P (commit_events be txn sys)) \<le> execs es2"
    unfolding es execs_def by (simp del: filter_filter)
  with s show ?thesis by (simp add: two_phase_spec_def xaMaxRetryNum_def)
qed

theorem commit_retry_bound_witness:
  "length (filter (\<lambda>e. \<exists>a c ok. e = EvExec a c (xa_query ''COMMIT'' demo_txn) ok) (commit_events demo_be demo_txn demo_sys)) \<le> 20"
  using commit_retry_bound [OF demo_ok, of demo_req demo_be]
  by (simp add: demo_txn_def demo_req_def xa_backends_def)

section \<open>Isolation of the connections\<close>

inductive txn_reach :: "Backends \<Rightarrow> (string, Poolz) gomap \<Rightarrow> Txn list \<times> Sys \<Rightarrow> bool"
  for be :: Backends and bs :: "(string, Poolz) gomap" where
  reach_init: "pool_inv (sy_world sys) \<Longrightarrow> poolz_known bs (sy_world sys) \<Longrightarrow> txn_reach be bs ([], sys)"
| reach_step: "txn_reach be bs s \<Longrightarrow> txn_step_rel be bs s s' \<Longrightarrow> txn_reach be bs s'"

lemma txn_reach_isolated:
  "txn_reach be bs s \<Longrightarrow> isolated (fst s) (sy_world (snd s)) \<and> poolz_known bs (sy_world (snd s))"
proof (induction rule: txn_reach.induct)
  case (reach_step s s')
  then show ?case using txn_step_isolated [of be bs "fst s" "snd s" "fst s'" "snd s'"] by simp
qed simp

lemma distinct_concat_nth:
  "distinct (concat (map f ts)) \<Longrightarrow> i < length ts \<Longrightarrow> j < length ts \<Longrightarrow> i \<noteq> j \<Longrightarrow> set (f (ts ! i)) \<inter> set (f (ts ! j)) = {}"
proof (induction ts arbitrary: i j)
  case (Cons t ts)
  have "set (f t) \<inter> set (f (ts ! k)) = {}" if "k < length ts" for k
    using Cons.prems(1) nth_mem [OF that] by (simp add: disjoint_iff)
  with Cons show ?case by (cases i; cases j) auto
qed simp

text \<open>
  C3. However the calls of any number of transactions interleave and whatever the servers answer, no
  two transactions hold the same connection, no connection that is held lies in a pool, and no pool
  holds more than its configured number of connections.
\<close>

theorem connections_isolated:
  assumes "txn_reach be bs (ts, sys)" "i < length ts" "j < length ts" "i \<noteq> j"
  shows "set (txn_conns (ts ! i)) \<inter> set (txn_conns (ts ! j)) = {} \<and>
     set (txn_conns (ts ! i)) \<inter> idle (sy_world sys) = {} \<and>
     (\<forall>p q. p < length (w_pools (sy_world sys)) \<longrightarrow> queue_of (sy_world sys) p = Some q \<longrightarrow>
        distinct q \<and> length q \<le> nat (bc_MaxConnections (p_conf (w_pools (sy_world sys) ! p))))"
proof -
  have iso: "isolated ts (sy_world sys)" using txn_reach_isolated [OF assms(1)] by simp
  have "distinct (concat (map txn_conns ts))" using iso by (simp add: isolated_iff)
  then have "set (txn_conns (ts ! i)) \<inter> set (txn_conns (ts ! j)) = {}"
    by (rule distinct_concat_nth [OF _ assms(2-4)])
  moreover have "txn_ok {} (ts ! i) (sy_world sys)" "pool_inv (sy_world sys)"
    using iso assms(2) by (simp_all add: isolated_iff)
  then have "set (txn_conns (ts ! i)) \<inter> idle (sy_world sys) = {}" by (auto simp: txn_ok_def out_def)
  moreover note \<open>pool_inv (sy_world sys)\<close>
  ultimately show ?thesis by (auto simp: pool_inv_def queue_wf_def)
qed

text \<open>Two transactions of the demo system that have each executed the demo request.\<close>

definition demo_two :: "Txn list \<times> Sys" where
  "demo_two =
     (let (t0, w0, _) = Txn_Execute demo_be demo_req (NewTxn 2 demo_backends) demo_world;
          (t1, w1, _) = Txn_Execute demo_be demo_req (NewTxn 3 demo_backends) w0 in
      ([t0, t1], \<lparr>sy_world = w1, sy_mgr = \<lparr>m_txnid = 3, m_txnNums = 3\<rparr>, sy_xaCheck = Some (NewXaCheck 10 None)\<rparr>))"

lemma demo_two_reach: "txn_reach demo_be demo_backends demo_two"
proof -
  let ?e = "Txn_Execute demo_be demo_req" and ?n = "\<lambda>k. NewTxn k demo_backends"
  obtain t0 w0 x0 where e0: "?e (?n 2) demo_world = (t0, w0, x0)" by (metis prod_cases3)
  obtain t1 w1 x1 where e1: "?e (?n 3) w0 = (t1, w1, x1)" by (metis prod_cases3)
  have c: "CreateTxn \<lparr>m_txnid = k, m_txnNums = k\<rparr> demo_backends = (\<lparr>m_txnid = k + 1, m_txnNums = k + 1\<rparr>, Ok (?n (k + 1)))" for k
    by (simp add: CreateTxn_def mgr_GetID_def mgr_Add_def demo_backends_def)
  have "txn_reach demo_be demo_backends ([], demo_sys)"
    by (rule reach_init) (simp_all add: demo_sys_def demo_pool_inv demo_known)
  from reach_step [OF this txn_step_rel.create, of "\<lparr>m_txnid = 2, m_txnNums = 2\<rparr>" "?n 2"] c [of 1]
  have "txn_reach demo_be demo_backends ([?n 2], demo_sys\<lparr>sy_mgr := \<lparr>m_txnid = 2, m_txnNums = 2\<rparr>\<rparr>)"
    by (simp add: demo_sys_def)
  from reach_step [OF this txn_step_rel.world_op [where i = 0 and f = ?e and req = demo_req]] e0
  have "txn_reach demo_be demo_backends ([t0], demo_sys\<lparr>sy_mgr := \<lparr>m_txnid = 2, m_txnNums = 2\<rparr>, sy_world := w0\<rparr>)"
    by (simp add: demo_sys_def)
  from reach_step [OF this txn_step_rel.create, of "\<lparr>m_txnid = 3, m_txnNums = 3\<rparr>" "?n 3"] c [of 2]
  have "txn_reach demo_be demo_backends ([t0, ?n 3], demo_sys\<lparr>sy_mgr := \<lparr>m_txnid = 3, m_txnNums = 3\<rparr>, sy_world := w0\<rparr>)"
    by (simp add: demo_sys_def)
  from reach_step [OF this txn_step_rel.world_op [where i = 1 and f = ?e and req = demo_req]] e1
  have "txn_reach demo_be demo_backends ([t0, t1], demo_sys\<lparr>sy_mgr := \<lparr>m_txnid = 3, m_txnNums = 3\<rparr>, sy_world := w1\<rparr>)"
    by (simp add: demo_sys_def)
  then show ?thesis by (simp add: demo_two_def e0 e1 demo_sys_def)
qed

theorem connections_isolated_witness:
  "txn_conns (fst demo_two ! 0) \<noteq> [] \<and> txn_conns (fst demo_two ! 1) \<noteq> [] \<and>
     set (txn_conns (fst demo_two ! 0)) \<inter> set (txn_conns (fst demo_two ! 1)) = {}"
proof -
  have "txn_reach demo_be demo_backends (fst demo_two, snd demo_two)" using demo_two_reach by simp
  moreover have "length (fst demo_two) = 2" "txn_conns (fst demo_two ! 0) \<noteq> []" "txn_conns (fst demo_two ! 1) \<noteq> []"
    by code_simp+
  ultimately show ?thesis using connections_isolated [of demo_be demo_backends "fst demo_two" "snd demo_two" 0 1] by simp
qed

section \<open>The end of a transaction\<close>

text \<open>A connection that is nobody's: back in its pool, closed, or its pool is closed.\<close>

definition settled :: "World \<Rightarrow> nat \<Rightarrow> bool" where
  "settled w c \<longleftrightarrow> c \<in> idle w \<or> c_closed (w_conns w ! c) \<or> queue_of w (c_pool (w_conns w ! c)) = None"

lemma upd_conn_idle [simp]: "idle (upd_conn c f w) = idle w"
  by (simp add: idle_def world_simps)

lemma conn_Close_settled:
  "c' < length (w_conns w) \<Longrightarrow> settled w c' \<or> c' = c \<Longrightarrow> settled (conn_Close c w) c'"
  by (auto simp: settled_def conn_Close_def emit_def upd_conn_def idle_def nth_upd)

lemma Pool_put_settled:
  assumes c: "c' < length (w_conns w)" "settled w c' \<or> c' = c" and p: "p < length (w_pools w)" "c_pool (w_conns w ! c) = p"
  shows "settled (Pool_put be w p c b) c'"
proof (cases "queue_of w p")
  case None
  with c p show ?thesis by (auto simp: Pool_put_def settled_def)
next
  case (Some q)
  define w1 where "w1 = (if b then upd_conn c (\<lambda>x. x\<lparr>c_timestamp := be_now be (w_trace w)\<rparr>) w else w)"
  have w1: "w_pools w1 = w_pools w" "length (w_conns w1) = length (w_conns w)" "idle w1 = idle w"
    "\<And>k. c_closed (w_conns w1 ! k) = c_closed (w_conns w ! k) \<and> c_pool (w_conns w1 ! k) = c_pool (w_conns w ! k)"
    by (auto simp: w1_def upd_conn_def nth_upd idle_def)
  have s1: "settled w1 c' \<or> c' = c" using c(2) by (simp add: settled_def w1)
  show ?thesis
  proof (cases "length q < nat (bc_MaxConnections (p_conf (w_pools w ! p)))")
    case True
    have "set_queue p (Some (q @ [c])) w1 = Pool_put be w p c b" using Some True by (simp add: Pool_put_def w1_def Let_def)
    moreover have "idle w1 \<union> {c} \<subseteq> idle (set_queue p (Some (q @ [c])) w1)"
      using Some p w1(1) by (auto simp: idle_def set_queue_def nth_upd) (metis option.inject)
    moreover have "queue_of (set_queue p (Some (q @ [c])) w1) k = None \<longleftrightarrow> queue_of w1 k = None" for k
      using Some p w1(1) by (auto simp: set_queue_def nth_upd)
    moreover have "w_conns (set_queue p (Some (q @ [c])) w1) = w_conns w1" by (simp add: set_queue_def)
    ultimately show ?thesis using s1 unfolding settled_def by auto
  next
    case False
    then have "Pool_put be w p c b = conn_Close c w1" using Some by (simp add: Pool_put_def w1_def Let_def)
    with conn_Close_settled [of c' w1 c] c(1) s1 w1(2) show ?thesis by simp
  qed
qed

lemma conn_Recycle_settled:
  assumes "pool_inv w" "c < length (w_conns w)" "c' < length (w_conns w)" "settled w c' \<or> c' = c"
  shows "settled (conn_Recycle be w c) c'"
proof (cases "c_closed (w_conns w ! c)")
  case True
  with assms show ?thesis by (auto simp: conn_Recycle_def settled_def)
next
  case False
  have "c_pool (w_conns w ! c) < length (w_pools w)" using assms by (simp add: pool_inv_def conns_wf_def)
  with False assms Pool_put_settled [OF assms(3,4)] show ?thesis by (simp add: conn_Recycle_def Pool_Put_def)
qed

lemma release_settled:
  assumes "pool_inv w" "distinct cs" "set cs \<subseteq> out w" "c < length (w_conns w)" "settled w c \<or> c \<in> set cs"
  shows "settled (foldl (\<lambda>w c. if b then conn_Close c w else conn_Recycle be w c) w cs) c"
  using assms
proof (induction cs arbitrary: w)
  case (Cons d cs)
  let ?w = "if b then conn_Close d w else conn_Recycle be w d"
  have d: "d \<in> out w" "d < length (w_conns w)" using Cons.prems(3) by (auto simp: out_def)
  have w: "pool_inv ?w" "out w - {d} \<subseteq> out ?w" "world_ext w ?w"
    using pools.close_inv [OF Cons.prems(1), of d] pools.recycle_inv [OF Cons.prems(1) d(1), of be] by auto
  have "settled ?w c \<or> c \<in> set cs"
    using Cons.prems conn_Close_settled [of c w d] conn_Recycle_settled [OF _ d(2), of c be] by auto
  moreover have "c < length (w_conns ?w)" using w(3) Cons.prems(4) by (simp add: world_ext_def split del: if_split)
  moreover have "set cs \<subseteq> out ?w" using w(2) Cons.prems(2,3) by auto
  ultimately show ?case using Cons.IH [of ?w] w(1) Cons.prems(2) by simp
qed simp


lemma demo_two_state: "tx_state (fst demo_two ! 0) \<noteq> txnStateAborting"
  by code_simp


section \<open>Queries of a request\<close>

lemma query_map_step:
  "gm_wf m \<Longrightarrow> \<forall>b. gm_get m b = (if f b = [] then None else Some (f b)) \<Longrightarrow>
     gm_wf (foldl (\<lambda>m q. gm_put (qt_Backend q)
              (case gm_get m (qt_Backend q) of None \<Rightarrow> [qt_Query q] | Some v \<Rightarrow> v @ [qt_Query q]) m) m qs) \<and>
     (\<forall>b. gm_get (foldl (\<lambda>m q. gm_put (qt_Backend q)
              (case gm_get m (qt_Backend q) of None \<Rightarrow> [qt_Query q] | Some v \<Rightarrow> v @ [qt_Query q]) m) m qs) b =
        (let l = f b @ map qt_Query (filter (\<lambda>q. qt_Backend q = b) qs) in if l = [] then None else Some l))"
proof (induction qs arbitrary: m f)
  case (Cons q qs)
  let ?m = "gm_put (qt_Backend q) (case gm_get m (qt_Backend q) of None \<Rightarrow> [qt_Query q] | Some v \<Rightarrow> v @ [qt_Query q]) m"
  let ?f = "\<lambda>b. if qt_Backend q = b then f b @ [qt_Query q] else f b"
  have "gm_wf ?m" using Cons.prems by simp
  moreover have "\<forall>b. gm_get ?m b = (if ?f b = [] then None else Some (?f b))"
    using Cons.prems(2) by (simp add: gomap_simps)
  ultimately have "gm_wf (foldl (\<lambda>m q. gm_put (qt_Backend q)
              (case gm_get m (qt_Backend q) of None \<Rightarrow> [qt_Query q] | Some v \<Rightarrow> v @ [qt_Query q]) m) ?m qs) \<and>
     (\<forall>b. gm_get (foldl (\<lambda>m q. gm_put (qt_Backend q)
              (case gm_get m (qt_Backend q) of None \<Rightarrow> [qt_Query q] | Some v \<Rightarrow> v @ [qt_Query q]) m) ?m qs) b =
        (let l = ?f b @ map qt_Query (filter (\<lambda>q. qt_Backend q = b) qs) in if l = [] then None else Some l))"
    by (rule Cons.IH)
  then show ?case by simp
qed (simp add: Let_def)

text \<open>A request in normal mode sends every backend exactly its queries, in their order.\<close>

theorem exec_shards_normal:
  "gm_wf (exec_shards txn (NewRequestContext\<lparr>rq_Querys := qs\<rparr>)) \<and>
     gm_get (exec_shards txn (NewRequestContext\<lparr>rq_Querys := qs\<rparr>)) b =
       (let l = map qt_Query (filter (\<lambda>q. qt_Backend q = b) qs) in if l = [] then None else Some l)"
  using query_map_step [of "[]" "\<lambda>_. []" qs]
  by (simp add: exec_shards_def NewRequestContext_def query_map_def)

section \<open>The log of failed commits\<close>

text \<open>
  C31. After a failed commit was written to the log, a restart that reads the file back has the same
  entries as the log in memory, the new one included.
\<close>

theorem xa_log_restart:
  assumes "xc_inv xc" "WriteXaCommitErrLog True stamp xc xid st = (xc', Ok ())"
  shows "\<exists>xc''. LoadXaCommitErrLogs True (NewXaCheck n (xc_file xc')) = (xc'', Ok ()) \<and>
     (\<forall>k. gm_get (xc_retrys xc'') k = gm_get (xc_retrys xc') k) \<and>
     gm_get (xc_retrys xc'') xid = Some \<lparr>xe_Time = stamp, xe_Xaid = xid, xe_State = st, xe_Times = xc_times xc\<rparr>"
proof -
  have inv: "xc_inv xc'" using WriteXaCommitErrLog_inv [OF assms] .
  have new: "gm_get (xc_retrys xc') xid = Some \<lparr>xe_Time = stamp, xe_Xaid = xid, xe_State = st, xe_Times = xc_times xc\<rparr>"
    and onDisk: "xc_file xc' = Some (map snd (xc_retrys xc'))"
    using assms(2) by (auto simp: WriteXaCommitErrLog_def addXaCommitErrLog_def flushXaCommitErrLog_def gomap_simps split: option.splits)
  have "map xe_Xaid (map snd (xc_retrys xc')) = map fst (xc_retrys xc')"
    using inv by (auto simp: xc_inv_def)
  then have "distinct (map xe_Xaid (map snd (xc_retrys xc')))" using inv unfolding xc_inv_def gm_wf_def by metis
  moreover have empty: "gm_get (xc_retrys (NewXaCheck n (xc_file xc'))) k = None" for k by (simp add: NewXaCheck_def)
  ultimately obtain xc''
    where "load_errs (NewXaCheck n (xc_file xc')) (map snd (xc_retrys xc')) = (xc'', Ok ())"
      "\<forall>k. gm_get (xc_retrys xc'') k = (case find (\<lambda>e. xe_Xaid e = k) (map snd (xc_retrys xc')) of
         Some e \<Rightarrow> Some e | None \<Rightarrow> gm_get (xc_retrys (NewXaCheck n (xc_file xc'))) k)"
    using load_errs_map by blast
  moreover have "find (\<lambda>e. xe_Xaid e = k) (map snd (xc_retrys xc')) = gm_get (xc_retrys xc') k" for k
    by (rule find_map_snd) (use inv in \<open>simp_all add: xc_inv_def\<close>)
  ultimately have "LoadXaCommitErrLogs True (NewXaCheck n (xc_file xc')) = (xc'', Ok ())"
    "\<forall>k. gm_get (xc_retrys xc'') k = gm_get (xc_retrys xc') k"
    using onDisk empty by (simp_all add: LoadXaCommitErrLogs_def NewXaCheck_def split: option.split)
  with new show ?thesis by auto
qed

theorem xa_log_restart_witness:
  "\<exists>xc''. LoadXaCommitErrLogs True (NewXaCheck 3 (xc_file (fst (WriteXaCommitErrLog True ''t'' (NewXaCheck 3 None) ''x1'' ''commit'')))) = (xc'', Ok ()) \<and>
     gm_get (xc_retrys xc'') ''x1'' = Some \<lparr>xe_Time = ''t'', xe_Xaid = ''x1'', xe_State = ''commit'', xe_Times = 3\<rparr>"
proof -
  have "xc_inv (NewXaCheck 3 None)" by (simp add: xc_inv_def NewXaCheck_def)
  moreover have "WriteXaCommitErrLog True ''t'' (NewXaCheck 3 None) ''x1'' ''commit'' =
      (fst (WriteXaCommitErrLog True ''t'' (NewXaCheck 3 None) ''x1'' ''commit''), Ok ())" by code_simp
  ultimately show ?thesis using xa_log_restart [of "NewXaCheck 3 None" "''t''" "''x1''" "''commit''" _ 3]
    by (metis NewXaCheck_def XaCheck.select_convs(1))
qed

end
