(* ===== verification/Sessions.thy ===== *)
theory Sessions
  imports Sql_Stmt Txn_Props
begin

text \<open>
  The client sessions of the proxy, \<open>proxy/session.go\<close>, \<open>proxy/sessions.go\<close> and \<open>proxy/manager.go\<close>. A session
  holds the transaction that runs in it; the code shares it by pointer, here a session holds its current value, and the
  operations of the proxy store it back. Each operation runs under the mutex of the sessions and is one step. The time of a
  snapshot is an argument; the timestamp of a session and the session number of a transaction, which nothing reads, are left out.
\<close>

section \<open>State\<close>

record DSession =
  ds_ID :: "32 word"
  ds_User :: string
  ds_Addr :: string
  ds_Schema :: string
  ds_LastQueryTime :: int

record session =
  ss_session :: DSession
  ss_node :: "Statement option"
  ss_query :: string
  ss_capabilities :: "32 word"
  ss_transaction :: "Txn option"

type_synonym Sessions = "(32 word, session) gomap"

definition cap_streaming_fetch :: "32 word" where "cap_streaming_fetch = 1"

unbundle bit_operations_syntax

definition setStreamingFetchVar :: "bool \<Rightarrow> session \<Rightarrow> session" where
  "setStreamingFetchVar r s =
     s\<lparr>ss_capabilities := (if r then ss_capabilities s OR cap_streaming_fetch else ss_capabilities s AND NOT cap_streaming_fetch)\<rparr>"

definition getStreamingFetchVar :: "session \<Rightarrow> bool" where
  "getStreamingFetchVar s \<longleftrightarrow> ss_capabilities s AND cap_streaming_fetch \<noteq> 0"

definition newSession :: "DSession \<Rightarrow> session" where
  "newSession s = \<lparr>ss_session = s, ss_node = None, ss_query = [], ss_capabilities = 0, ss_transaction = None\<rparr>"

text \<open>Closing a session aborts its transaction.\<close>

definition session_close :: "Backends \<Rightarrow> session \<Rightarrow> Sys \<Rightarrow> Sys" where
  "session_close be s sys = (case ss_transaction s of None \<Rightarrow> sys | Some txn \<Rightarrow> snd (Txn_Abort be txn sys))"

section \<open>Operations\<close>

definition Sessions_Add :: "DSession \<Rightarrow> Sessions \<Rightarrow> Sessions" where
  "Sessions_Add s ss = gm_put (ds_ID s) (newSession s) ss"

definition Sessions_Kill :: "Backends \<Rightarrow> 32 word \<Rightarrow> Sessions \<Rightarrow> Sys \<Rightarrow> Sessions \<times> Sys" where
  "Sessions_Kill be i ss sys =
     (case gm_get ss i of
        None \<Rightarrow> (ss, sys)
      | Some s \<Rightarrow> (gm_del i ss, session_close be s sys))"

definition Sessions_Remove :: "Backends \<Rightarrow> DSession \<Rightarrow> Sessions \<Rightarrow> Sys \<Rightarrow> Sessions \<times> Sys" where
  "Sessions_Remove be s ss sys =
     (case gm_get ss (ds_ID s) of
        None \<Rightarrow> (ss, sys)
      | Some x \<Rightarrow> (gm_del (ds_ID s) ss, session_close be x sys))"

definition Reaches :: "int \<Rightarrow> Sessions \<Rightarrow> bool" where
  "Reaches quota ss \<longleftrightarrow> quota \<le> int (length ss)"

definition getTxnSession :: "Sessions \<Rightarrow> DSession \<Rightarrow> session option" where
  "getTxnSession ss s = gm_get ss (ds_ID s)"

definition getSession :: "Sessions \<Rightarrow> 32 word \<Rightarrow> session option" where
  "getSession ss i = gm_get ss i"

definition upd_session :: "32 word \<Rightarrow> (session \<Rightarrow> session) \<Rightarrow> Sessions \<Rightarrow> Sessions" where
  "upd_session i f ss = (case gm_get ss i of None \<Rightarrow> ss | Some s \<Rightarrow> gm_put i (f s) ss)"

definition TxnBinding :: "DSession \<Rightarrow> Txn \<Rightarrow> Statement \<Rightarrow> string \<Rightarrow> Sessions \<Rightarrow> Sessions" where
  "TxnBinding s txn node query =
     upd_session (ds_ID s) (\<lambda>x. x\<lparr>ss_query := take 128 query, ss_node := Some node, ss_transaction := Some txn\<rparr>)"

definition TxnUnBinding :: "DSession \<Rightarrow> Sessions \<Rightarrow> Sessions" where
  "TxnUnBinding s = upd_session (ds_ID s) (\<lambda>x. x\<lparr>ss_node := None, ss_query := [], ss_transaction := None\<rparr>)"

definition MultiStmtTxnBinding :: "DSession \<Rightarrow> Txn option \<Rightarrow> Statement \<Rightarrow> string \<Rightarrow> Sessions \<Rightarrow> Sessions" where
  "MultiStmtTxnBinding s txn node query =
     upd_session (ds_ID s) (\<lambda>x. x\<lparr>ss_query := take 128 query, ss_node := Some node,
       ss_transaction := (case txn of None \<Rightarrow> ss_transaction x | Some t \<Rightarrow> Some t)\<rparr>)"

definition MultiStmtTxnUnBinding :: "DSession \<Rightarrow> bool \<Rightarrow> Sessions \<Rightarrow> Sessions" where
  "MultiStmtTxnUnBinding s isEnd =
     upd_session (ds_ID s) (\<lambda>x. x\<lparr>ss_node := None, ss_query := [],
       ss_transaction := (if isEnd then None else ss_transaction x)\<rparr>)"

text \<open>One round of \<open>Close\<close>: every session is closed. The code repeats it until the sessions have removed themselves.\<close>

definition Sessions_close_round :: "Backends \<Rightarrow> Sessions \<Rightarrow> Sys \<Rightarrow> Sys" where
  "Sessions_close_round be ss sys = foldl (\<lambda>sys (_, s). session_close be s sys) sys ss"

section \<open>Snapshots\<close>

record SessionInfo =
  si_ID :: "32 word"
  si_User :: string
  si_Host :: string
  si_DB :: string
  si_Command :: string
  si_Time :: "32 word"
  si_State :: string
  si_Info :: string

definition session_info :: "int \<Rightarrow> session \<Rightarrow> SessionInfo" where
  "session_info now v =
     (let d = ss_session v in
      \<lparr>si_ID = ds_ID d, si_User = ds_User d, si_Host = ds_Addr d, si_DB = ds_Schema d,
       si_Command = (if ss_node v = None then ''Sleep'' else ''Query''), si_Time = word_of_int (now - ds_LastQueryTime d),
       si_State = (if ss_transaction v = None then [] else ''In transaction''),
       si_Info = (if ss_node v = None then [] else ss_query v)\<rparr>)"

definition Snapshot :: "int \<Rightarrow> Sessions \<Rightarrow> SessionInfo list" where
  "Snapshot now ss = sort_key si_ID (map (\<lambda>(_, v). session_info now v) ss)"

definition SnapshotTxn :: "int \<Rightarrow> Sessions \<Rightarrow> SessionInfo list" where
  "SnapshotTxn now ss =
     sort_key si_ID (map (\<lambda>(_, v). session_info now v) (filter (\<lambda>(_, v). ss_transaction v \<noteq> None) ss))"

definition SnapshotUser :: "int \<Rightarrow> string \<Rightarrow> Sessions \<Rightarrow> SessionInfo list" where
  "SnapshotUser now user ss =
     sort_key si_ID (map (\<lambda>(_, v). session_info now v) (filter (\<lambda>(_, v). ds_User (ss_session v) = user) ss))"

section \<open>Killing idle transactions\<close>

definition killIdleTxn :: "Backends \<Rightarrow> 32 word \<Rightarrow> int \<Rightarrow> Sessions \<Rightarrow> Sys \<Rightarrow> Sessions \<times> Sys" where
  "killIdleTxn be idleTxnTimeout now ss sys =
     foldl (\<lambda>(ss, sys) tsi.
        if idleTxnTimeout \<noteq> 0 \<and> idleTxnTimeout < si_Time tsi \<and> (si_Info tsi = ''begin'' \<or> si_Info tsi = [])
        then Sessions_Kill be (si_ID tsi) ss sys else (ss, sys))
       (ss, sys) (SnapshotTxn now ss)"

end
