(* ===== verification/Frm.thy ===== *)
theory Frm
  imports Router
begin

text \<open>
  The data definition operations, \<open>router/frm.go\<close> and the rule shift of \<open>router/api.go\<close>: they
  change the router in memory and the JSON files under the metadata directory. The disk maps a
  database to its directory and a file name to its content; a file \<open>WriteConfig\<close> wrote holds the
  configuration (\<open>encoding/json\<close> reads back what it wrote), any other file does not parse.

  Each operation takes an \<open>Env\<close> that decides which of its file operations fail. A write that fails
  either never opened the file or truncated it first, since \<open>xbase.WriteFile\<close> opens with
  \<open>O_TRUNC\<close>. A failed \<open>UpdateVersion\<close> makes the operations panic, as in the source.
\<close>

section \<open>The disk\<close>

datatype content = Json TableConfig | Garbage

type_synonym dir = "(string, content) gomap"
type_synonym Disk = "(string, dir) gomap"

datatype write_outcome = Written | NotOpened | Truncated

record Env =
  env_write :: write_outcome
  env_mkdir :: bool
  env_remove :: bool
  env_removeall :: "dir option"
  env_version :: bool
  env_readdir :: "string \<Rightarrow> bool"
  env_readfile :: "string \<Rightarrow> string \<Rightarrow> bool"

text \<open>An environment in which nothing fails.\<close>

definition env_fine :: Env where
  "env_fine =
     \<lparr>env_write = Written, env_mkdir = True, env_remove = True, env_removeall = None, env_version = True,
      env_readdir = (\<lambda>_. True), env_readfile = (\<lambda>_ _. True)\<rparr>"

definition io_err :: "string \<Rightarrow> string \<Rightarrow> 'a res" where
  "io_err oper path = Err (Errorf oper [path])"

definition frm_file :: "string \<Rightarrow> string" where
  "frm_file table = table @ ''.json''"

definition disk_file :: "Disk \<Rightarrow> string \<Rightarrow> string \<Rightarrow> content option" where
  "disk_file d db file = (case gm_get d db of None \<Rightarrow> None | Some fs \<Rightarrow> gm_get fs file)"

definition put_file :: "string \<Rightarrow> string \<Rightarrow> content \<Rightarrow> Disk \<Rightarrow> Disk" where
  "put_file db file c d = (case gm_get d db of None \<Rightarrow> d | Some fs \<Rightarrow> gm_put db (gm_put file c fs) d)"

definition del_file :: "string \<Rightarrow> string \<Rightarrow> Disk \<Rightarrow> Disk" where
  "del_file db file d = (case gm_get d db of None \<Rightarrow> d | Some fs \<Rightarrow> gm_put db (gm_del file fs) d)"

definition writeTableFrmData :: "Env \<Rightarrow> Disk \<Rightarrow> string \<Rightarrow> string \<Rightarrow> TableConfig \<Rightarrow> Disk \<times> unit res" where
  "writeTableFrmData env d db table tconf =
     (case gm_get d db of
        None \<Rightarrow> (d, io_err ''open'' (frm_file table))
      | Some _ \<Rightarrow>
          (case env_write env of
             Written \<Rightarrow> (put_file db (frm_file table) (Json tconf) d, Ok ())
           | NotOpened \<Rightarrow> (d, io_err ''open'' (frm_file table))
           | Truncated \<Rightarrow> (put_file db (frm_file table) Garbage d, io_err ''write'' (frm_file table))))"

definition removeTableFrmData :: "Env \<Rightarrow> Disk \<Rightarrow> string \<Rightarrow> string \<Rightarrow> Disk \<times> unit res" where
  "removeTableFrmData env d db table =
     (case disk_file d db (frm_file table) of
        None \<Rightarrow> (d, io_err ''remove'' (frm_file table))
      | Some _ \<Rightarrow>
          if env_remove env then (del_file db (frm_file table) d, Ok ())
          else (d, io_err ''remove'' (frm_file table)))"

definition readTableFrmData :: "Env \<Rightarrow> Disk \<Rightarrow> string \<Rightarrow> string \<Rightarrow> TableConfig res" where
  "readTableFrmData env d db file =
     (case disk_file d db file of
        None \<Rightarrow> io_err ''open'' file
      | Some c \<Rightarrow>
          if \<not> env_readfile env db file then io_err ''read'' file
          else (case c of Json conf \<Rightarrow> Ok conf | Garbage \<Rightarrow> io_err ''unexpected end of JSON input'' file))"

definition loadTableFromFile :: "Env \<Rightarrow> Router \<Rightarrow> Disk \<Rightarrow> string \<Rightarrow> string \<Rightarrow> Router \<times> unit res" where
  "loadTableFromFile env r d db file =
     (case readTableFrmData env d db file of
        Err e \<Rightarrow> (r, Err e)
      | Panic p \<Rightarrow> (r, Panic p)
      | Ok conf \<Rightarrow> let (r1, a) = alloc_conf r conf in addTable r1 db (Some a))"

definition loadTable :: "Env \<Rightarrow> Router \<Rightarrow> Disk \<Rightarrow> string \<Rightarrow> string \<Rightarrow> Router \<times> unit res" where
  "loadTable env r d db table = loadTableFromFile env r d db (frm_file table)"

definition writeDatabaseFrmData :: "Env \<Rightarrow> Disk \<Rightarrow> string \<Rightarrow> Disk \<times> unit res" where
  "writeDatabaseFrmData env d db =
     (case gm_get d db of
        Some _ \<Rightarrow> (d, Ok ())
      | None \<Rightarrow> if env_mkdir env then (gm_put db [] d, Ok ()) else (d, io_err ''mkdir'' db))"

text \<open>\<open>config.UpdateVersion\<close>, whose failure the callers turn into a panic.\<close>

definition update_version :: "Env \<Rightarrow> string \<Rightarrow> unit res" where
  "update_version env msg = (if env_version env then Ok () else Panic msg)"

section \<open>Databases\<close>

definition checkNameInvalid :: "string \<Rightarrow> bool" where
  "checkNameInvalid name = contains_any name '' /''"

type_synonym 'a step = "(Router \<times> Disk) \<times> 'a res"

definition CreateDatabase :: "Env \<Rightarrow> Router \<Rightarrow> Disk \<Rightarrow> string \<Rightarrow> unit step" where
  "CreateDatabase env r d db =
     (if 64 < length db then ((r, d), Err (SQLError ER_TOO_LONG_IDENT db))
      else if checkNameInvalid db
      then ((r, d), Err (Errorf (''invalid.database.name.currently.not.support.dbname[%v].contains.with.char:'/' or space ' '' @ [CHR 0x27]) [db]))
      else case addDatabase r db of
        (r1, Err e) \<Rightarrow> ((r1, d), Err e)
      | (r1, Panic p) \<Rightarrow> ((r1, d), Panic p)
      | (r1, Ok _) \<Rightarrow>
          (case writeDatabaseFrmData env d db of
             (d1, Err e) \<Rightarrow> ((fst (dropDatabase r1 db), d1), Err e)
           | (d1, Panic p) \<Rightarrow> ((r1, d1), Panic p)
           | (d1, Ok _) \<Rightarrow> ((r1, d1), update_version env ''frm.create.table.update.version.error'')))"

definition DropDatabase :: "Env \<Rightarrow> Router \<Rightarrow> Disk \<Rightarrow> string \<Rightarrow> unit step" where
  "DropDatabase env r d db =
     (case dropDatabase r db of
        (r1, Err e) \<Rightarrow> ((r1, d), Err e)
      | (r1, Panic p) \<Rightarrow> ((r1, d), Panic p)
      | (r1, Ok _) \<Rightarrow>
          (case env_removeall env of
             Some rest \<Rightarrow> ((r1, gm_put db rest d), io_err ''unlinkat'' db)
           | None \<Rightarrow> ((r1, gm_del db d), update_version env ''frm.drop.database.update.version.error'')))"

definition CheckDatabase :: "Router \<Rightarrow> string \<Rightarrow> unit res" where
  "CheckDatabase r db = checkDatabase r db"

section \<open>Tables\<close>

definition createTable :: "Env \<Rightarrow> Router \<Rightarrow> Disk \<Rightarrow> string \<Rightarrow> string \<Rightarrow> nat \<Rightarrow> unit step" where
  "createTable env r d db table a =
     (if 64 < length table + 5 then ((r, d), Err (SQLError ER_TOO_LONG_IDENT table))
      else if checkNameInvalid table
      then ((r, d), Err (Errorf (''invalid.table.name.currently.not.support.tablename[%v].contains.with.char:'/' or space ' '' @ [CHR 0x27]) [table]))
      else case addTable r db (Some a) of
        (r1, Err e) \<Rightarrow> ((r1, d), Err e)
      | (r1, Panic p) \<Rightarrow> ((r1, d), Panic p)
      | (r1, Ok _) \<Rightarrow>
          (case writeTableFrmData env d db table (conf_at r1 a) of
             (d1, Err e) \<Rightarrow> ((fst (removeTable r1 db table), d1), Err e)
           | (d1, Panic p) \<Rightarrow> ((r1, d1), Panic p)
           | (d1, Ok _) \<Rightarrow> ((r1, d1), update_version env ''frm.create.table.update.version.error'')))"

text \<open>What the three \<open>Create...Table\<close> operations do with the configuration of \<open>compute.go\<close>.\<close>

definition create_with ::
  "Env \<Rightarrow> Router \<Rightarrow> Disk \<Rightarrow> string \<Rightarrow> string \<Rightarrow> TableConfig res \<Rightarrow> AutoIncrement option option \<Rightarrow> unit step" where
  "create_with env r d db table conf extra =
     (case conf of
        Err e \<Rightarrow> ((r, d), Err e)
      | Panic p \<Rightarrow> ((r, d), Panic p)
      | Ok tableConf \<Rightarrow>
          let tableConf' = (case extra of None \<Rightarrow> tableConf | Some auto \<Rightarrow> tableConf\<lparr>tc_AutoIncrement := auto\<rparr>);
              (r1, a) = alloc_conf r tableConf' in
          createTable env r1 d db table a)"

definition unsupported_type :: "string \<Rightarrow> TableConfig res" where
  "unsupported_type tableType = Err (Errorf ''tableType is unsupported: %s'' [tableType])"

definition CreateNonPartTable ::
  "Env \<Rightarrow> Router \<Rightarrow> Disk \<Rightarrow> string \<Rightarrow> string \<Rightarrow> string \<Rightarrow> string list \<Rightarrow> AutoIncrement option option \<Rightarrow> unit step" where
  "CreateNonPartTable env r d db table tableType backends extra =
     create_with env r d db table
       (if tableType = ''global'' then GlobalUniform table backends
        else if tableType = ''single'' then SingleUniform table backends
        else unsupported_type tableType) extra"

definition CreateHashTable ::
  "Env \<Rightarrow> Router \<Rightarrow> Disk \<Rightarrow> string \<Rightarrow> string \<Rightarrow> string \<Rightarrow> string \<Rightarrow> string list \<Rightarrow> SQLVal option \<Rightarrow>
     AutoIncrement option option \<Rightarrow> unit step" where
  "CreateHashTable env r d db table shardKey tableType backends partitionNum extra =
     create_with env r d db table
       (if tableType = ''hash'' then HashUniform (r_conf r) table shardKey backends partitionNum
        else unsupported_type tableType) extra"

definition CreateListTable ::
  "((string, string) gomap \<Rightarrow> (string, string) gomap) \<Rightarrow> Env \<Rightarrow> Router \<Rightarrow> Disk \<Rightarrow> string \<Rightarrow> string \<Rightarrow> string \<Rightarrow>
     string \<Rightarrow> PartitionDefinition list \<Rightarrow> AutoIncrement option option \<Rightarrow> unit step" where
  "CreateListTable rng env r d db table shardKey tableType partitionDef extra =
     create_with env r d db table
       (if tableType = ''list'' then ListUniform rng table shardKey partitionDef
        else unsupported_type tableType) extra"

text \<open>\<open>DropTable\<close> and the unlocked \<open>dropTable\<close> have the same body.\<close>

definition DropTable :: "Env \<Rightarrow> Router \<Rightarrow> Disk \<Rightarrow> string \<Rightarrow> string \<Rightarrow> unit step" where
  "DropTable env r d db table =
     (case removeTable r db table of
        (r1, Err e) \<Rightarrow> ((r1, d), Err e)
      | (r1, Panic p) \<Rightarrow> ((r1, d), Panic p)
      | (r1, Ok _) \<Rightarrow>
          (case removeTableFrmData env d db table of
             (d1, Err e) \<Rightarrow> ((r1, d1), Err e)
           | (d1, Panic p) \<Rightarrow> ((r1, d1), Panic p)
           | (d1, Ok _) \<Rightarrow> ((r1, d1), update_version env ''frm.drop.table.update.version.error'')))"

text \<open>Creating the new table and dropping the old one touch different files, so each has its own environment.\<close>

definition RenameTable :: "Env \<Rightarrow> Env \<Rightarrow> Router \<Rightarrow> Disk \<Rightarrow> string \<Rightarrow> string \<Rightarrow> string \<Rightarrow> unit step" where
  "RenameTable env env' r d db fromTable toTable =
     (case getRenameTableConfig r db fromTable toTable of
        (r1, Err e) \<Rightarrow> ((r1, d), Err e)
      | (r1, Panic p) \<Rightarrow> ((r1, d), Panic p)
      | (r1, Ok a) \<Rightarrow>
          (case createTable env r1 d db toTable a of
             (s, Err e) \<Rightarrow> (s, Err e)
           | (s, Panic p) \<Rightarrow> (s, Panic p)
           | ((r2, d2), Ok _) \<Rightarrow> DropTable env' r2 d2 db fromTable))"

definition RefreshTable :: "Env \<Rightarrow> Router \<Rightarrow> Disk \<Rightarrow> string \<Rightarrow> string \<Rightarrow> Router \<times> unit res" where
  "RefreshTable env r d db table =
     (case removeTable r db table of
        (r1, Err e) \<Rightarrow> (r1, Err e)
      | (r1, Panic p) \<Rightarrow> (r1, Panic p)
      | (r1, Ok _) \<Rightarrow> loadTable env r1 d db table)"

section \<open>Loading\<close>

text \<open>
  \<open>LoadConfig\<close> first adds every database directory and collects its files, then loads the files.
  An absent metadata directory (\<open>None\<close>) is created empty.
\<close>

fun load_dirs :: "Env \<Rightarrow> Router \<Rightarrow> Disk \<Rightarrow> Router \<times> unit res" where
  "load_dirs env r [] = (r, Ok ())"
| "load_dirs env r ((dbName, fs) # ds) =
     (if \<not> env_readdir env dbName then (r, io_err ''readdir'' dbName)
      else case addDatabase r dbName of
        (r1, Ok _) \<Rightarrow> load_dirs env r1 ds
      | (r1, Err e) \<Rightarrow> (r1, Err e)
      | (r1, Panic p) \<Rightarrow> (r1, Panic p))"

fun load_files :: "Env \<Rightarrow> Router \<Rightarrow> Disk \<Rightarrow> (string \<times> string) list \<Rightarrow> Router \<times> unit res" where
  "load_files env r d [] = (r, Ok ())"
| "load_files env r d ((db, file) # files) =
     (case loadTableFromFile env r d db file of
        (r1, Ok _) \<Rightarrow> load_files env r1 d files
      | (r1, Err e) \<Rightarrow> (r1, Err e)
      | (r1, Panic p) \<Rightarrow> (r1, Panic p))"

definition disk_listing :: "Disk \<Rightarrow> (string \<times> string) list" where
  "disk_listing d = concat (map (\<lambda>(db, fs). map (\<lambda>(file, _). (db, file)) fs) d)"

definition LoadConfig :: "Env \<Rightarrow> Router \<Rightarrow> Disk option \<Rightarrow> (Router \<times> Disk option) \<times> unit res" where
  "LoadConfig env r md =
     (let r0 = clear_router r in
      case md of
        None \<Rightarrow> if env_mkdir env then ((r0, Some []), Ok ()) else ((r0, None), io_err ''mkdir'' ''metadir'')
      | Some d \<Rightarrow>
          if \<not> env_readdir env [] then ((r0, md), io_err ''readdir'' ''metadir'')
          else (case load_dirs env r0 d of
                  (r1, Ok _) \<Rightarrow> (let (r2, x) = load_files env r1 d (disk_listing d) in ((r2, md), x))
                | (r1, Err e) \<Rightarrow> ((r1, md), Err e)
                | (r1, Panic p) \<Rightarrow> ((r1, md), Panic p)))"

definition ReLoad :: "Env \<Rightarrow> Router \<Rightarrow> Disk option \<Rightarrow> (Router \<times> Disk option) \<times> unit res" where
  "ReLoad env r md = LoadConfig env (clear_router r) md"

section \<open>Rule shift\<close>

fun find_part :: "string \<Rightarrow> string \<Rightarrow> nat \<Rightarrow> PartitionConfig list \<Rightarrow> nat option" where
  "find_part fromBackend partitionTable i [] = None"
| "find_part fromBackend partitionTable i (p # ps) =
     (if pc_Backend p = fromBackend \<and> pc_Table p = partitionTable then Some i
      else find_part fromBackend partitionTable (Suc i) ps)"

fun find_rule :: "Router \<Rightarrow> string \<Rightarrow> string \<Rightarrow> (string \<times> Table) list \<Rightarrow> (Table \<times> nat) option" where
  "find_rule r fromBackend partitionTable [] = None"
| "find_rule r fromBackend partitionTable ((_, v) # ts) =
     (case find_part fromBackend partitionTable 0 (tc_Partitions (conf_at r (t_TableConfig v))) of
        Some i \<Rightarrow> Some (v, i)
      | None \<Rightarrow> find_rule r fromBackend partitionTable ts)"

definition set_conf :: "Router \<Rightarrow> nat \<Rightarrow> TableConfig \<Rightarrow> Router" where
  "set_conf r a conf = r\<lparr>r_heap := (r_heap r)[a := conf]\<rparr>"

definition shift_conf :: "string \<Rightarrow> string \<Rightarrow> nat \<Rightarrow> TableConfig \<Rightarrow> TableConfig" where
  "shift_conf table toBackend i conf =
     (if tc_ShardType conf = ''GLOBAL''
      then conf\<lparr>tc_Partitions := tc_Partitions conf @ [plain_partConf table toBackend]\<rparr>
      else conf\<lparr>tc_Partitions := (tc_Partitions conf)[i := (tc_Partitions conf ! i)\<lparr>pc_Backend := toBackend\<rparr>]\<rparr>)"

definition unshift_conf :: "string \<Rightarrow> nat \<Rightarrow> TableConfig \<Rightarrow> TableConfig" where
  "unshift_conf fromBackend i conf =
     (if tc_ShardType conf = ''GLOBAL''
      then conf\<lparr>tc_Partitions := butlast (tc_Partitions conf)\<rparr>
      else conf\<lparr>tc_Partitions := (tc_Partitions conf)[i := (tc_Partitions conf ! i)\<lparr>pc_Backend := fromBackend\<rparr>]\<rparr>)"

definition changeTheRuleBackend ::
  "Env \<Rightarrow> Router \<Rightarrow> Disk \<Rightarrow> string \<Rightarrow> string \<Rightarrow> string \<Rightarrow> string \<Rightarrow> string step" where
  "changeTheRuleBackend env r d fromBackend toBackend database partitionTable =
     (if fromBackend = toBackend
      then ((r, d), Err (Errorf ''router.rule.change.from[%s].cant.equal.to[%s]'' [fromBackend, toBackend]))
      else case gm_get (r_Schemas r) database of
        None \<Rightarrow> ((r, d), Err (Errorf ''router.rule.change.cant.found.database:%s'' [database]))
      | Some sc \<Rightarrow>
          (case find_rule r fromBackend partitionTable (sc_Tables sc) of
             None \<Rightarrow> ((r, d), Err (Errorf ''router.rule.change.cant.found.backend[%s]+table:[%s]'' [fromBackend, partitionTable]))
           | Some (v, i) \<Rightarrow>
               let a = t_TableConfig v; table = t_Name v; conf = conf_at r a in
               if tc_ShardType conf = ''GLOBAL'' \<and> list_ex (\<lambda>p. pc_Backend p = toBackend) (tc_Partitions conf)
               then ((r, d), Err (Errorf ''the.table:[%s].already.exists.in.the.backend[%s]'' [partitionTable, toBackend]))
               else
                 let conf' = shift_conf table toBackend i conf; r1 = set_conf r a conf' in
                 (case writeTableFrmData env d database table conf' of
                    (d1, Err e) \<Rightarrow> ((set_conf r1 a (unshift_conf fromBackend i conf'), d1), Err e)
                  | (d1, Panic p) \<Rightarrow> ((r1, d1), Panic p)
                  | (d1, Ok _) \<Rightarrow>
                      ((r1, d1), rbind (update_version env ''change.the.rule.table.update.version.error'') (\<lambda>_. Ok table)))))"

text \<open>A refresh that fails after the rule was changed makes the shift panic.\<close>

definition PartitionRuleShift ::
  "Env \<Rightarrow> Router \<Rightarrow> Disk \<Rightarrow> string \<Rightarrow> string \<Rightarrow> string \<Rightarrow> string \<Rightarrow> unit step" where
  "PartitionRuleShift env r d fromBackend toBackend database partitionTable =
     (case changeTheRuleBackend env r d fromBackend toBackend database partitionTable of
        (s, Err e) \<Rightarrow> (s, Err e)
      | (s, Panic p) \<Rightarrow> (s, Panic p)
      | ((r1, d1), Ok table) \<Rightarrow>
          (case RefreshTable env r1 d1 database table of
             (r2, Ok _) \<Rightarrow> ((r2, d1), Ok ())
           | (r2, _) \<Rightarrow> ((r2, d1), Panic ''router.partition.rule.shift.RefreshTable.error'')))"

end
