(* ===== verification/Scatter.thy ===== *)
theory Scatter
  imports Txn_Props Frm
begin

text \<open>
  The set of backends, \<open>backend/scatter.go\<close>: names mapped to their pools, and the file
  \<open>backend.json\<close> that lists their configurations. An absent file is \<open>None\<close>. As in \<open>Frm\<close>, an \<open>Env\<close>
  decides which file operations fail, and a write that fails after the truncation leaves a file that
  does not parse.
\<close>

section \<open>The code\<close>

datatype backends_file = BackendsJson "BackendConfig list" | BackendsGarbage

record Scatter =
  st_backends :: "(string, Poolz) gomap"
  st_file :: "backends_file option"

definition NewScatter :: "backends_file option \<Rightarrow> Scatter" where
  "NewScatter onDisk = \<lparr>st_backends = [], st_file = onDisk\<rparr>"

type_synonym 'a scatter_step = "World \<times> Scatter \<times> 'a res"

definition scatter_add :: "World \<Rightarrow> Scatter \<Rightarrow> BackendConfig \<Rightarrow> unit scatter_step" where
  "scatter_add w s conf =
     (case gm_get (st_backends s) (bc_Name conf) of
        Some _ \<Rightarrow> (w, s, Err (Errorf ''scatter.backend[%v].duplicate'' [bc_Name conf]))
      | None \<Rightarrow>
          if list_ex (\<lambda>(_, pool). bc_Address (pz_conf pool) = bc_Address conf) (st_backends s)
          then (w, s, Err (Errorf ''scatter.address[%v].already.exists.in.backends'' [bc_Address conf]))
          else (case NewPoolz w conf of
                  (w1, Ok pz) \<Rightarrow> (w1, s\<lparr>st_backends := gm_put (bc_Name conf) pz (st_backends s)\<rparr>, Ok ())
                | (w1, Err e) \<Rightarrow> (w1, s, Err e)
                | (w1, Panic p) \<Rightarrow> (w1, s, Panic p)))"

definition scatter_remove :: "World \<Rightarrow> Scatter \<Rightarrow> BackendConfig \<Rightarrow> unit scatter_step" where
  "scatter_remove w s conf =
     (case gm_get (st_backends s) (bc_Name conf) of
        None \<Rightarrow> (w, s, Err (Errorf ''scatter.backend[%v].can.not.be.found'' [bc_Name conf]))
      | Some pool \<Rightarrow> (Poolz_Close w pool, s\<lparr>st_backends := gm_del (bc_Name conf) (st_backends s)\<rparr>, Ok ()))"

text \<open>\<open>Add\<close> and \<open>Remove\<close> take the lock around these two.\<close>

definition scatter_clear :: "World \<Rightarrow> Scatter \<Rightarrow> World \<times> Scatter" where
  "scatter_clear w s = (foldl (\<lambda>w (_, pz). Poolz_Close w pz) w (st_backends s), s\<lparr>st_backends := []\<rparr>)"

definition Scatter_FlushConfig :: "Env \<Rightarrow> Scatter \<Rightarrow> Scatter \<times> unit res" where
  "Scatter_FlushConfig env s =
     (case env_write env of
        Written \<Rightarrow>
          (s\<lparr>st_file := Some (BackendsJson (map (\<lambda>(_, pz). pz_conf pz) (st_backends s)))\<rparr>,
           update_version env ''scatter.flush.config.update.version.error'')
      | NotOpened \<Rightarrow> (s, Panic ''scatter.flush.config.to.file.error'')
      | Truncated \<Rightarrow> (s\<lparr>st_file := Some BackendsGarbage\<rparr>, Panic ''scatter.flush.config.to.file.error''))"

fun scatter_add_all :: "World \<Rightarrow> Scatter \<Rightarrow> BackendConfig list \<Rightarrow> unit scatter_step" where
  "scatter_add_all w s [] = (w, s, Ok ())"
| "scatter_add_all w s (conf # confs) =
     (case scatter_add w s conf of
        (w1, s1, Ok _) \<Rightarrow> scatter_add_all w1 s1 confs
      | (w1, s1, Err e) \<Rightarrow> (w1, s1, Err e)
      | (w1, s1, Panic p) \<Rightarrow> (w1, s1, Panic p))"

definition Scatter_LoadConfig :: "Env \<Rightarrow> World \<Rightarrow> Scatter \<Rightarrow> unit scatter_step" where
  "Scatter_LoadConfig env w s =
     (let (w1, s1) = scatter_clear w s in
      case (case st_file s1 of
              Some _ \<Rightarrow> (s1, Ok ())
            | None \<Rightarrow>
                (case env_write env of
                   Written \<Rightarrow> (s1\<lparr>st_file := Some (BackendsJson [])\<rparr>, Ok ())
                 | NotOpened \<Rightarrow> (s1, io_err ''open'' ''backend.json'')
                 | Truncated \<Rightarrow> (s1\<lparr>st_file := Some BackendsGarbage\<rparr>, io_err ''write'' ''backend.json''))) of
        (s2, Err e) \<Rightarrow> (w1, s2, Err e)
      | (s2, Panic p) \<Rightarrow> (w1, s2, Panic p)
      | (s2, Ok _) \<Rightarrow>
          if \<not> env_readfile env [] ''backend.json'' then (w1, s2, io_err ''read'' ''backend.json'')
          else (case st_file s2 of
                  Some (BackendsJson confs) \<Rightarrow> scatter_add_all w1 s2 confs
                | _ \<Rightarrow> (w1, s2, io_err ''unexpected end of JSON input'' ''backend.json'')))"

definition AllBackends :: "Scatter \<Rightarrow> string list" where
  "AllBackends s = sort (map fst (st_backends s))"

definition Scatter_Backends :: "Scatter \<Rightarrow> string list" where
  "Scatter_Backends s = sort (map fst (filter (\<lambda>(_, pool). bc_Role (pz_conf pool) = NormalBackend) (st_backends s)))"

fun check_backend :: "string \<Rightarrow> (string, Poolz) gomap \<Rightarrow> bool" where
  "check_backend name [] = False"
| "check_backend name ((k, pool) # bs) =
     (if bc_Role (pz_conf pool) \<noteq> NormalBackend then check_backend name bs
      else if k = name then True else check_backend name bs)"

definition CheckBackend :: "Scatter \<Rightarrow> string \<Rightarrow> bool" where
  "CheckBackend s name = check_backend name (st_backends s)"

definition PoolzClone :: "Scatter \<Rightarrow> (string, Poolz) gomap" where
  "PoolzClone s = foldl (\<lambda>m (k, v). gm_put k v m) [] (st_backends s)"

definition BackendConfigsClone :: "Scatter \<Rightarrow> BackendConfig list" where
  "BackendConfigsClone s = map (\<lambda>(_, v). pz_conf v) (st_backends s)"

definition CreateTransaction :: "TxnManager \<Rightarrow> Scatter \<Rightarrow> TxnManager \<times> Txn res" where
  "CreateTransaction m s = CreateTxn m (PoolzClone s)"

section \<open>The invariant\<close>

text \<open>
  A backend is filed under its configured name, no two share an address, and its pools are in the store.
\<close>

definition scatter_inv :: "World \<Rightarrow> Scatter \<Rightarrow> bool" where
  "scatter_inv w s \<longleftrightarrow>
     pool_inv w \<and> gm_wf (st_backends s) \<and> (\<forall>(k, pz) \<in> set (st_backends s). bc_Name (pz_conf pz) = k) \<and>
     distinct (map (\<lambda>(_, pz). bc_Address (pz_conf pz)) (st_backends s)) \<and> poolz_known (st_backends s) w"

lemma add_pool_inv:
  assumes inv: "pool_inv w" and pool: "NewPool conf addr = Ok po" and a: "add_pool w po = (w', n)"
  shows "pool_inv w' \<and> length (w_pools w) \<le> length (w_pools w') \<and> (\<forall>p. n = Some p \<longrightarrow> p < length (w_pools w')) \<and>
     w_conns w' = w_conns w \<and> (\<forall>p < length (w_pools w). w_pools w' ! p = w_pools w ! p)"
proof (cases po)
  case None
  with a inv show ?thesis by (simp add: add_pool_def)
next
  case (Some x)
  then have w': "w' = w\<lparr>w_pools := w_pools w @ [x]\<rparr>" "n = Some (length (w_pools w))" using a by (simp_all add: add_pool_def)
  have x: "p_connections x = Some []" using pool Some by (auto simp: NewPool_def split: if_splits)
  have "conns_wf w'" using inv by (auto simp: pool_inv_def conns_wf_def w' nth_append)
  moreover have "queue_wf w' p q" if "p < length (w_pools w')" "queue_of w' p = Some q" for p q
  proof (cases "p < length (w_pools w)")
    case True
    with that inv show ?thesis by (auto simp: pool_inv_def queue_wf_def w' nth_append)
  next
    case False
    with that x show ?thesis by (auto simp: queue_wf_def w' nth_append less_Suc_eq)
  qed
  ultimately show ?thesis by (auto simp: pool_inv_def w' nth_append)
qed

lemma NewPoolz_inv:
  assumes inv: "pool_inv w" and n: "NewPoolz w conf = (w', x)"
  shows "pool_inv w' \<and> length (w_pools w) \<le> length (w_pools w') \<and>
     (\<forall>pz p. x = Ok pz \<longrightarrow> pz_conf pz = conf \<and> (pz_normal pz = Some p \<or> pz_replica pz = Some p \<longrightarrow> p < length (w_pools w')))"
proof (cases "\<exists>po ro. NewPool conf (bc_Address conf) = Ok po \<and> NewPool conf (bc_Replica conf) = Ok ro")
  case False
  with n inv show ?thesis by (auto simp: NewPoolz_def split: res.splits)
next
  case True
  then obtain po ro where p: "NewPool conf (bc_Address conf) = Ok po" "NewPool conf (bc_Replica conf) = Ok ro" by blast
  obtain w1 i where a1: "add_pool w po = (w1, i)" by fastforce
  obtain w2 j where a2: "add_pool w1 ro = (w2, j)" by fastforce
  note s1 = add_pool_inv [OF inv p(1) a1]
  note s2 = add_pool_inv [OF _ p(2) a2]
  have "w' = w2" "x = Ok \<lparr>pz_conf = conf, pz_normal = i, pz_replica = j\<rparr>" using n p a1 a2 by (simp_all add: NewPoolz_def)
  with s1 s2 show ?thesis by auto
qed

lemma poolz_known_iff:
  "poolz_known bs w \<longleftrightarrow> (\<forall>b pz p. gm_get bs b = Some pz \<longrightarrow> pz_normal pz = Some p \<or> pz_replica pz = Some p \<longrightarrow> p < length (w_pools w))"
  by (simp add: poolz_known_def pools_known_def NewTxn_def)

lemma scatter_add_inv:
  assumes inv: "scatter_inv w s" and a: "scatter_add w s conf = (w', s', x)"
  shows "scatter_inv w' s'"
proof (cases "gm_get (st_backends s) (bc_Name conf) = None \<and>
    \<not> list_ex (\<lambda>(_, pool). bc_Address (pz_conf pool) = bc_Address conf) (st_backends s)")
  case False
  with a have "w' = w" "s' = s" by (auto simp: scatter_add_def split: option.splits if_splits)
  with inv show ?thesis by simp
next
  case True
  obtain w1 y where n: "NewPoolz w conf = (w1, y)" by fastforce
  have "pool_inv w" using inv by (simp add: scatter_inv_def)
  note np = NewPoolz_inv [OF this n]
  have known: "poolz_known (st_backends s) w1" using inv np by (fastforce simp: scatter_inv_def poolz_known_iff)
  show ?thesis
  proof (cases y)
    case (Ok pz)
    have eq: "w' = w1" "st_backends s' = gm_put (bc_Name conf) pz (st_backends s)" using a True n Ok by (auto simp: scatter_add_def)
    have new: "gm_put (bc_Name conf) pz (st_backends s) = st_backends s @ [(bc_Name conf, pz)]"
      by (rule gm_put_new_end) (use True in simp)
    have pz: "pz_conf pz = conf" "\<And>p. pz_normal pz = Some p \<or> pz_replica pz = Some p \<Longrightarrow> p < length (w_pools w1)"
      using np Ok by blast+
    have old: "gm_wf (st_backends s)" "\<forall>(k, pz) \<in> set (st_backends s). bc_Name (pz_conf pz) = k"
      "distinct (map (\<lambda>(_, pz). bc_Address (pz_conf pz)) (st_backends s))" using inv by (simp_all add: scatter_inv_def)
    have fresh: "bc_Address conf \<notin> set (map (\<lambda>(_, pz). bc_Address (pz_conf pz)) (st_backends s))"
      using True by (force simp: list_ex_iff)
    have "distinct (map (\<lambda>(_, pz). bc_Address (pz_conf pz)) (st_backends s @ [(bc_Name conf, pz)]))"
      using old(3) fresh pz(1) by simp
    moreover have "\<forall>(k, pz) \<in> set (st_backends s @ [(bc_Name conf, pz)]). bc_Name (pz_conf pz) = k" using old(2) pz(1) by simp
    moreover have "poolz_known (gm_put (bc_Name conf) pz (st_backends s)) w1"
      using known pz(2) by (simp add: poolz_known_iff gomap_simps)
    ultimately show ?thesis using old(1) np by (simp only: scatter_inv_def eq new [symmetric] gm_wf_put)
  qed (use a True n np known inv in \<open>auto simp: scatter_add_def scatter_inv_def\<close>)
qed

lemma Pool_Close_ext: "length (w_pools (Pool_Close w p)) = length (w_pools w)"
  using fold_Close_only [of w] by (auto simp: Pool_Close_def world_simps conn_only_def split: option.split)

lemma Poolz_Close_inv:
  assumes "pool_inv w" "\<And>p. pz_normal pz = Some p \<or> pz_replica pz = Some p \<Longrightarrow> p < length (w_pools w)"
  shows "pool_inv (Poolz_Close w pz) \<and> length (w_pools (Poolz_Close w pz)) = length (w_pools w)"
  using assms Pool_Close_spec Pool_Close_ext by (auto simp: Poolz_Close_def Let_def split: option.splits)

lemma poolz_close_all:
  "pool_inv w \<Longrightarrow> \<forall>(k, pz) \<in> set bs. \<forall>p. pz_normal pz = Some p \<or> pz_replica pz = Some p \<longrightarrow> p < length (w_pools w) \<Longrightarrow>
     pool_inv (foldl (\<lambda>w (_, pz). Poolz_Close w pz) w bs)"
proof (induction bs arbitrary: w)
  case (Cons b bs)
  obtain k pz where b: "b = (k, pz)" by fastforce
  have "pool_inv (Poolz_Close w pz) \<and> length (w_pools (Poolz_Close w pz)) = length (w_pools w)"
    using Cons.prems b by (intro Poolz_Close_inv) auto
  with Cons b show ?case by simp
qed simp

lemma scatter_remove_inv:
  assumes inv: "scatter_inv w s" and r: "scatter_remove w s conf = (w', s', x)"
  shows "scatter_inv w' s'"
proof (cases "gm_get (st_backends s) (bc_Name conf)")
  case None
  with r inv show ?thesis by (simp add: scatter_remove_def)
next
  case (Some pz)
  have eq: "w' = Poolz_Close w pz" "st_backends s' = gm_del (bc_Name conf) (st_backends s)"
    using r Some by (auto simp: scatter_remove_def)
  have w': "pool_inv w'" "length (w_pools w') = length (w_pools w)"
    unfolding eq using inv Some Poolz_Close_inv [of w pz] by (auto simp: scatter_inv_def poolz_known_iff)
  have "distinct (map f (gm_del k m))" if "distinct (map f m)" for f :: "string \<times> Poolz \<Rightarrow> string" and k m
    using that by (simp add: gm_del_def AList.delete_eq distinct_map_filter)
  then show ?thesis using inv w' by (auto simp: scatter_inv_def eq poolz_known_iff gomap_simps gm_del_set split: if_splits)
qed

lemma scatter_clear_inv:
  assumes "scatter_inv w s" "scatter_clear w s = (w', s')"
  shows "scatter_inv w' s' \<and> st_backends s' = [] \<and> st_file s' = st_file s"
proof -
  have "\<forall>(k, pz) \<in> set (st_backends s). \<forall>p. pz_normal pz = Some p \<or> pz_replica pz = Some p \<longrightarrow> p < length (w_pools w)"
    using assms(1) by (auto simp: scatter_inv_def poolz_known_iff gm_wf_get_iff)
  with assms poolz_close_all [of w "st_backends s"] show ?thesis
    by (auto simp: scatter_clear_def scatter_inv_def poolz_known_iff)
qed

lemma scatter_add_all_inv:
  "scatter_inv w s \<Longrightarrow> scatter_add_all w s confs = (w', s', x) \<Longrightarrow> scatter_inv w' s'"
proof (induction confs arbitrary: w s)
  case (Cons c confs)
  obtain w1 s1 y where a: "scatter_add w s c = (w1, s1, y)" by (metis prod_cases3)
  from scatter_add_inv [OF Cons.prems(1) a] have i1: "scatter_inv w1 s1" .
  with Cons a show ?case by (cases y) auto
qed simp

lemma scatter_inv_file: "st_backends s' = st_backends s \<Longrightarrow> scatter_inv w s' = scatter_inv w s"
  by (simp add: scatter_inv_def)

lemma Scatter_LoadConfig_inv:
  assumes inv: "scatter_inv w s" and l: "Scatter_LoadConfig env w s = (w', s', x)"
  shows "scatter_inv w' s'"
proof -
  obtain w1 s1 where c: "scatter_clear w s = (w1, s1)" by fastforce
  note i1 = scatter_clear_inv [OF inv c]
  have "scatter_inv w1 (s1\<lparr>st_file := f\<rparr>)" for f using i1 scatter_inv_file [of "s1\<lparr>st_file := f\<rparr>" s1 w1] by simp
  with i1 l c show ?thesis
    by (auto simp: Scatter_LoadConfig_def io_err_def dest: scatter_add_all_inv
        split: option.splits write_outcome.splits if_splits backends_file.splits)
qed

text \<open>The clone that a transaction gets.\<close>

lemma PoolzClone_get: "gm_wf (st_backends s) \<Longrightarrow> gm_get (PoolzClone s) k = gm_get (st_backends s) k"
proof -
  have step: "gm_wf bs \<Longrightarrow> \<forall>k \<in> fst ` set bs. gm_get m k = None \<Longrightarrow>
     gm_get (foldl (\<lambda>m (k, v). gm_put k v m) m bs) j = (case gm_get bs j of Some v \<Rightarrow> Some v | None \<Rightarrow> gm_get m j)"
    for bs m :: "(string, Poolz) gomap" and j :: string
  proof (induction bs arbitrary: m)
    case (Cons b bs)
    obtain k v where b: "b = (k, v)" by fastforce
    have "\<forall>j \<in> fst ` set bs. gm_get (gm_put k v m) j = None" "gm_wf bs"
      using Cons.prems b by (auto simp: gomap_simps gm_wf_def image_iff)
    moreover have "gm_get bs k = None" using Cons.prems b by (simp add: gm_wf_def map_of_eq_None_iff)
    ultimately show ?case using Cons.IH [of "gm_put k v m"] b by (auto simp: gomap_simps split: option.splits)
  qed simp
  show "gm_wf (st_backends s) \<Longrightarrow> gm_get (PoolzClone s) k = gm_get (st_backends s) k"
    using step [of "st_backends s" "[]" k] by (simp add: PoolzClone_def split: option.splits)
qed

lemma clone_addresses:
  "map bc_Address (BackendConfigsClone s) = map (\<lambda>(_, pz). bc_Address (pz_conf pz)) (st_backends s)"
  by (auto simp: BackendConfigsClone_def)

section \<open>Properties\<close>

text \<open>The states a scatter reaches from a file by adding, removing and loading backends.\<close>

inductive scatter_reach :: "World \<Rightarrow> Scatter \<Rightarrow> bool" where
  start: "scatter_reach \<lparr>w_conns = [], w_pools = [], w_trace = []\<rparr> (NewScatter onDisk)"
| add: "scatter_reach w s \<Longrightarrow> scatter_add w s conf = (w', s', x) \<Longrightarrow> scatter_reach w' s'"
| remove: "scatter_reach w s \<Longrightarrow> scatter_remove w s conf = (w', s', x) \<Longrightarrow> scatter_reach w' s'"
| clear: "scatter_reach w s \<Longrightarrow> scatter_clear w s = (w', s') \<Longrightarrow> scatter_reach w' s'"
| flush: "scatter_reach w s \<Longrightarrow> Scatter_FlushConfig env s = (s', x) \<Longrightarrow> scatter_reach w s'"
| load: "scatter_reach w s \<Longrightarrow> Scatter_LoadConfig env w s = (w', s', x) \<Longrightarrow> scatter_reach w' s'"

lemma scatter_reach_inv: "scatter_reach w s \<Longrightarrow> scatter_inv w s"
proof (induction rule: scatter_reach.induct)
  case (flush w s env s' x)
  then have "st_backends s' = st_backends s" by (auto simp: Scatter_FlushConfig_def split: write_outcome.splits)
  with flush scatter_inv_file show ?case by blast
next
  case (start onDisk)
  show ?case by (simp add: scatter_inv_def pool_inv_def conns_wf_def NewScatter_def poolz_known_iff)
next
  case (clear w s w' s')
  with scatter_clear_inv show ?case by blast
qed (blast intro: scatter_add_inv scatter_remove_inv Scatter_LoadConfig_inv)+

text \<open>
  C29. Whatever backends are added, removed and loaded, in whatever order and with whatever failures, a
  backend is filed under its own name and no two backends share an address; and a transaction created
  from the scatter starts with its invariant: all its pools exist and it holds no connection.
\<close>

theorem scatter_backends_distinct:
  assumes "scatter_reach w s"
  shows "distinct (AllBackends s) \<and> distinct (map bc_Address (BackendConfigsClone s)) \<and>
     map bc_Name (BackendConfigsClone s) = map fst (st_backends s) \<and>
     (\<forall>m m' txn. CreateTransaction m s = (m', Ok txn) \<longrightarrow> txn_ok {} txn w)"
proof -
  note inv = scatter_reach_inv [OF assms]
  have wf: "gm_wf (st_backends s)" and known: "poolz_known (st_backends s) w" and pool: "pool_inv w"
    using inv by (simp_all add: scatter_inv_def)
  have "txn_ok {} txn w" if t: "CreateTransaction m s = (m', Ok txn)" for m m' txn
  proof -
    from t obtain i where "txn = NewTxn i (PoolzClone s)"
      by (auto simp: CreateTransaction_def CreateTxn_def mgr_GetID_def Let_def split: if_splits)
    moreover have "poolz_known (PoolzClone s) w" using known by (simp add: poolz_known_iff PoolzClone_get [OF wf])
    ultimately show ?thesis using pool
      by (simp add: txn_ok_def NewTxn_def txn_conns_def poolz_known_def pools_known_def)
  qed
  moreover have "distinct (AllBackends s)" using wf by (simp add: AllBackends_def gm_wf_def)
  moreover have "distinct (map bc_Address (BackendConfigsClone s))"
    using inv unfolding clone_addresses by (simp add: scatter_inv_def)
  moreover have "map bc_Name (BackendConfigsClone s) = map fst (st_backends s)"
    using inv by (auto simp: scatter_inv_def BackendConfigsClone_def)
  ultimately show ?thesis by blast
qed

lemma scatter_add_all_fresh:
  assumes "scatter_inv w s" "distinct (map bc_Name confs)" "distinct (map bc_Address confs)"
    "\<forall>c \<in> set confs. gm_get (st_backends s) (bc_Name c) = None \<and> 0 \<le> bc_MaxConnections c \<and>
       bc_Address c \<notin> set (map (\<lambda>(_, pz). bc_Address (pz_conf pz)) (st_backends s))"
  shows "\<exists>w' s'. scatter_add_all w s confs = (w', s', Ok ()) \<and> BackendConfigsClone s' = BackendConfigsClone s @ confs \<and>
     map fst (st_backends s') = map fst (st_backends s) @ map bc_Name confs"
  using assms
proof (induction confs arbitrary: w s)
  case (Cons c confs)
  obtain w1 y where n: "NewPoolz w c = (w1, y)" by fastforce
  have "\<exists>pz. y = Ok pz \<and> pz_conf pz = c" using n Cons.prems(4) by (auto simp: NewPoolz_def NewPool_def add_pool_def split: if_splits)
  then obtain pz where pz: "y = Ok pz" "pz_conf pz = c" by blast
  let ?s = "s\<lparr>st_backends := gm_put (bc_Name c) pz (st_backends s)\<rparr>"
  have new: "gm_put (bc_Name c) pz (st_backends s) = st_backends s @ [(bc_Name c, pz)]"
    by (rule gm_put_new_end) (use Cons.prems(4) in simp)
  have add: "scatter_add w s c = (w1, ?s, Ok ())"
    using Cons.prems(4) n pz by (force simp: scatter_add_def list_ex_iff)
  have "\<forall>d \<in> set confs. gm_get (st_backends ?s) (bc_Name d) = None \<and> 0 \<le> bc_MaxConnections d \<and>
       bc_Address d \<notin> set (map (\<lambda>(_, pz). bc_Address (pz_conf pz)) (st_backends ?s))"
  proof
    fix d
    assume d: "d \<in> set confs"
    then have "bc_Name d \<noteq> bc_Name c" "bc_Address d \<noteq> bc_Address c" using Cons.prems(2,3) by (auto simp: rev_image_eqI)
    then show "gm_get (st_backends ?s) (bc_Name d) = None \<and> 0 \<le> bc_MaxConnections d \<and>
       bc_Address d \<notin> set (map (\<lambda>(_, pz). bc_Address (pz_conf pz)) (st_backends ?s))"
      using Cons.prems(4) d pz(2) by (simp add: new)
  qed
  from Cons.IH [OF scatter_add_inv [OF Cons.prems(1) add] _ _ this] Cons.prems(2,3) obtain w' s'
    where "scatter_add_all w1 ?s confs = (w', s', Ok ())" "BackendConfigsClone s' = BackendConfigsClone ?s @ confs"
      "map fst (st_backends s') = map fst (st_backends ?s) @ map bc_Name confs" by auto
  with add new pz(2) show ?case by (auto simp: BackendConfigsClone_def)
qed (simp add: BackendConfigsClone_def)

text \<open>
  C30. Writing the backends to the file and loading them again, in a new process or in the same one,
  gives the same backends with the same configurations.
\<close>

theorem backends_roundtrip:
  assumes reach: "scatter_reach w s" and caps: "list_all (\<lambda>c. 0 \<le> bc_MaxConnections c) (BackendConfigsClone s)"
    and flush: "Scatter_FlushConfig env s = (s1, Ok u)" and read: "env_readfile env' [] ''backend.json''"
    and start: "scatter_reach w0 s0" "st_file s0 = st_file s1"
  shows "\<exists>w' s'. Scatter_LoadConfig env' w0 s0 = (w', s', Ok ()) \<and>
     BackendConfigsClone s' = BackendConfigsClone s \<and> AllBackends s' = AllBackends s"
proof -
  note inv = scatter_reach_inv [OF reach]
  let ?confs = "BackendConfigsClone s"
  have onDisk: "st_file s0 = Some (BackendsJson ?confs)"
    using flush start(2) by (auto simp: Scatter_FlushConfig_def BackendConfigsClone_def split: write_outcome.splits)
  obtain w1 s1 where c: "scatter_clear w0 s0 = (w1, s1)" by fastforce
  note i1 = scatter_clear_inv [OF scatter_reach_inv [OF start(1)] c]
  have names: "map bc_Name ?confs = map fst (st_backends s)"
    using inv by (auto simp: scatter_inv_def BackendConfigsClone_def)
  have "distinct (map bc_Name ?confs)" using inv by (simp add: names scatter_inv_def gm_wf_def)
  moreover have "distinct (map bc_Address ?confs)"
    using inv unfolding clone_addresses by (simp add: scatter_inv_def)
  ultimately obtain w' s' where l: "scatter_add_all w1 s1 ?confs = (w', s', Ok ())"
    "BackendConfigsClone s' = BackendConfigsClone s1 @ ?confs" "map fst (st_backends s') = map fst (st_backends s1) @ map bc_Name ?confs"
    using scatter_add_all_fresh [of w1 s1 ?confs] i1 caps by (auto simp: list_all_iff)
  have "Scatter_LoadConfig env' w0 s0 = (w', s', Ok ())"
    using c onDisk i1 read l(1) by (simp add: Scatter_LoadConfig_def)
  moreover have "BackendConfigsClone s' = ?confs" using l(2) i1 by (simp add: BackendConfigsClone_def)
  moreover have "map fst (st_backends s') = map fst (st_backends s)" using l(3) i1 unfolding names by simp
  ultimately show ?thesis by (simp add: AllBackends_def)
qed

definition demo_scatter :: "World \<times> Scatter" where
  "demo_scatter =
     (let (w1, s1, _) = scatter_add \<lparr>w_conns = [], w_pools = [], w_trace = []\<rparr> (NewScatter None) (demo_conf ''h1:3306'');
          (w2, s2, _) = scatter_add w1 s1 (demo_conf ''h2:3306'') in (w2, s2))"

lemma demo_scatter_reach: "scatter_reach (fst demo_scatter) (snd demo_scatter)"
proof -
  obtain w1 s1 x1 where a1: "scatter_add \<lparr>w_conns = [], w_pools = [], w_trace = []\<rparr> (NewScatter None) (demo_conf ''h1:3306'') = (w1, s1, x1)"
    by (metis prod_cases3)
  obtain w2 s2 x2 where a2: "scatter_add w1 s1 (demo_conf ''h2:3306'') = (w2, s2, x2)" by (metis prod_cases3)
  have "scatter_reach w2 s2" by (rule scatter_reach.add [OF scatter_reach.add [OF scatter_reach.start a1] a2])
  then show ?thesis by (simp add: demo_scatter_def a1 a2)
qed

theorem scatter_backends_distinct_witness:
  "AllBackends (snd demo_scatter) = [''h1:3306'', ''h2:3306''] \<and> distinct (AllBackends (snd demo_scatter)) \<and>
     distinct (map bc_Address (BackendConfigsClone (snd demo_scatter)))"
proof -
  have "AllBackends (snd demo_scatter) = [''h1:3306'', ''h2:3306'']" by code_simp
  with scatter_backends_distinct [OF demo_scatter_reach] show ?thesis by blast
qed

theorem backends_roundtrip_witness:
  "\<exists>w' s'. Scatter_LoadConfig env_fine \<lparr>w_conns = [], w_pools = [], w_trace = []\<rparr>
        (NewScatter (st_file (fst (Scatter_FlushConfig env_fine (snd demo_scatter))))) = (w', s', Ok ()) \<and>
     AllBackends s' = [''h1:3306'', ''h2:3306'']"
proof -
  have caps: "list_all (\<lambda>c. 0 \<le> bc_MaxConnections c) (BackendConfigsClone (snd demo_scatter))"
    "snd (Scatter_FlushConfig env_fine (snd demo_scatter)) = Ok ()" "AllBackends (snd demo_scatter) = [''h1:3306'', ''h2:3306'']"
    by code_simp+
  then obtain s1 where f: "Scatter_FlushConfig env_fine (snd demo_scatter) = (s1, Ok ())" by (metis prod.collapse)
  have "env_readfile env_fine [] ''backend.json''" by (simp add: env_fine_def)
  from backends_roundtrip [OF demo_scatter_reach caps(1) f this scatter_reach.start, of "st_file s1"] caps(3) f
  show ?thesis by (auto simp: NewScatter_def)
qed

end
