(* ===== verification/Row_Order.thy ===== *)
theory Row_Order
  imports Sql_Values
begin

text \<open>
  Sorting rows by columns, as the join, the group-by and the order-by operators of \<open>executor/engine\<close> do
  it. The function \<open>sort.Slice\<close> of the standard library is an argument of the model: it is not stable, and
  which permutation it returns among equal rows is left open. What the operators rely on is the locale
  \<open>row_sorter\<close>. Go's own insertion sort, which \<open>sort.Slice\<close> runs on short slices, is one instance of it.

  The comparison of the operators answers \<open>true\<close> on equal rows, so it is a weak order and not the
  strict one that the documentation of \<open>sort.Slice\<close> asks for; the locale asks that a weak total order
  be sorted.
\<close>

section \<open>Cells\<close>

text \<open>A slice expression \<open>row[i]\<close>.\<close>

definition cell :: "'a list \<Rightarrow> int \<Rightarrow> 'a res" where
  "cell row i = (if 0 \<le> i \<and> i < int (length row) then Ok (row ! nat i) else Panic ''index out of range'')"

lemma cell_Ok: "0 \<le> i \<Longrightarrow> i < int (length row) \<Longrightarrow> cell row i = Ok (row ! nat i)"
  by (simp add: cell_def)

lemma cell_Ok_iff: "cell row i = Ok v \<longleftrightarrow> 0 \<le> i \<and> i < int (length row) \<and> v = row ! nat i"
  by (auto simp: cell_def)

section \<open>The comparison of the sorts\<close>

fun rows_less :: "NumLib \<Rightarrow> int list \<Rightarrow> row \<Rightarrow> row \<Rightarrow> bool res" where
  "rows_less nl [] r1 r2 = Ok True"
| "rows_less nl (key # keys) r1 r2 =
     rbind (cell r1 key) (\<lambda>v1. rbind (cell r2 key) (\<lambda>v2. rbind (NullsafeCompare nl v1 v2) (\<lambda>cmp.
       if cmp = 0 then rows_less nl keys r1 r2 else Ok (cmp < 0))))"

text \<open>\<open>keysEqual\<close> of the join and of the aggregate operator.\<close>

fun keysEqual :: "NumLib \<Rightarrow> row \<Rightarrow> row \<Rightarrow> int list \<Rightarrow> bool res" where
  "keysEqual nl row1 row2 [] = Ok True"
| "keysEqual nl row1 row2 (key # keys) =
     rbind (cell row1 key) (\<lambda>v1. rbind (cell row2 key) (\<lambda>v2. rbind (NullsafeCompare nl v1 v2) (\<lambda>cmp.
       if cmp \<noteq> 0 then Ok False else keysEqual nl row1 row2 keys)))"

section \<open>What sorting promises\<close>

type_synonym 'a sorter = "('a \<Rightarrow> 'a \<Rightarrow> bool res) \<Rightarrow> 'a list \<Rightarrow> 'a list res"

definition weak_order :: "('a \<Rightarrow> 'a \<Rightarrow> bool res) \<Rightarrow> 'a set \<Rightarrow> bool" where
  "weak_order lt A \<longleftrightarrow>
     (\<forall>x \<in> A. \<forall>y \<in> A. \<exists>b. lt x y = Ok b) \<and>
     (\<forall>x \<in> A. \<forall>y \<in> A. lt x y = Ok True \<or> lt y x = Ok True) \<and>
     (\<forall>x \<in> A. \<forall>y \<in> A. \<forall>z \<in> A. lt x y = Ok True \<longrightarrow> lt y z = Ok True \<longrightarrow> lt x z = Ok True)"

lemma weak_order_ok: "weak_order lt A \<Longrightarrow> x \<in> A \<Longrightarrow> y \<in> A \<Longrightarrow> \<exists>b. lt x y = Ok b"
  unfolding weak_order_def by blast

lemma weak_order_total:
  assumes "weak_order lt A" "x \<in> A" "y \<in> A" "lt x y = Ok False"
  shows "lt y x = Ok True"
proof -
  have "lt x y = Ok True \<or> lt y x = Ok True" using assms(1-3) unfolding weak_order_def by blast
  with assms(4) show ?thesis by simp
qed

lemma weak_order_trans:
  "weak_order lt A \<Longrightarrow> x \<in> A \<Longrightarrow> y \<in> A \<Longrightarrow> z \<in> A \<Longrightarrow> lt x y = Ok True \<Longrightarrow> lt y z = Ok True \<Longrightarrow> lt x z = Ok True"
  unfolding weak_order_def by blast

lemma weak_order_mono: "weak_order lt A \<Longrightarrow> B \<subseteq> A \<Longrightarrow> weak_order lt B"
  unfolding weak_order_def by blast

locale row_sorter =
  fixes srt :: "'a sorter"
  assumes sort_ok: "weak_order lt (set xs) \<Longrightarrow>
       \<exists>ys. srt lt xs = Ok ys \<and> mset ys = mset xs \<and> sorted_wrt (\<lambda>x y. lt x y = Ok True) ys"
    and sort_err: "srt lt xs = Err e \<Longrightarrow> \<exists>x \<in> set xs. \<exists>y \<in> set xs. lt x y = Err e"
    and sort_perm: "srt lt xs = Ok ys \<Longrightarrow> mset ys = mset xs"
begin

lemma sort_set: "srt lt xs = Ok ys \<Longrightarrow> set ys = set xs"
  using sort_perm [THEN arg_cong, of lt xs ys set_mset] by simp

lemma sort_length: "srt lt xs = Ok ys \<Longrightarrow> length ys = length xs"
  using sort_perm [THEN arg_cong, of lt xs ys size] by simp

lemma sort_no_err:
  assumes "\<And>x y. x \<in> set xs \<Longrightarrow> y \<in> set xs \<Longrightarrow> \<forall>e. lt x y \<noteq> Err e"
  shows "srt lt xs \<noteq> Err e"
  using assms sort_err by metis

end

section \<open>Go's insertion sort\<close>

text \<open>
  \<open>for i := 1; i < n; i++ { for j := i; j > 0 && less(j, j-1); j-- { swap(j, j-1) } }\<close>: the prefix is kept
  reversed, so its head is the element at \<open>j-1\<close>.
\<close>

fun insert_back :: "('a \<Rightarrow> 'a \<Rightarrow> bool res) \<Rightarrow> 'a \<Rightarrow> 'a list \<Rightarrow> 'a list res" where
  "insert_back lt x [] = Ok [x]"
| "insert_back lt x (y # ys) =
     rbind (lt x y) (\<lambda>b. if b then rbind (insert_back lt x ys) (\<lambda>zs. Ok (y # zs)) else Ok (x # y # ys))"

fun insertion_loop :: "('a \<Rightarrow> 'a \<Rightarrow> bool res) \<Rightarrow> 'a list \<Rightarrow> 'a list \<Rightarrow> 'a list res" where
  "insertion_loop lt pre [] = Ok (rev pre)"
| "insertion_loop lt pre (x # xs) = rbind (insert_back lt x pre) (\<lambda>pre'. insertion_loop lt pre' xs)"

definition insertionSort :: "'a sorter" where
  "insertionSort lt xs = insertion_loop lt [] xs"

lemma insert_back_perm: "insert_back lt x ys = Ok zs \<Longrightarrow> mset zs = add_mset x (mset ys)"
  by (induction ys arbitrary: zs) (auto simp: res_simps split: if_splits)

lemma insertion_loop_perm: "insertion_loop lt pre xs = Ok zs \<Longrightarrow> mset zs = mset pre + mset xs"
  by (induction xs arbitrary: pre) (auto simp: res_simps dest!: insert_back_perm)

lemma insert_back_err: "insert_back lt x ys = Err e \<Longrightarrow> \<exists>y \<in> set ys. lt x y = Err e"
  by (induction ys) (auto simp: rbind_Err_iff split: if_splits)

lemma insert_back_set: "insert_back lt x ys = Ok zs \<Longrightarrow> set zs = insert x (set ys)"
  using insert_back_perm [THEN arg_cong, of lt x ys zs set_mset] by simp

lemma insertion_loop_err:
  "insertion_loop lt pre xs = Err e \<Longrightarrow> \<exists>x \<in> set pre \<union> set xs. \<exists>y \<in> set pre \<union> set xs. lt x y = Err e"
proof (induction xs arbitrary: pre)
  case (Cons x xs)
  then consider "insert_back lt x pre = Err e"
    | pre' where "insert_back lt x pre = Ok pre'" "insertion_loop lt pre' xs = Err e"
    by (auto simp: rbind_Err_iff)
  then show ?case
  proof cases
    case 1
    then show ?thesis by (auto dest: insert_back_err)
  next
    case 2
    with Cons.IH [OF 2(2)] insert_back_set [OF 2(1)] show ?thesis by auto
  qed
qed simp

lemma insert_back_sorted:
  assumes w: "weak_order lt (insert x (set ys))" and s: "sorted_wrt (\<lambda>a b. lt b a = Ok True) ys"
  shows "\<exists>zs. insert_back lt x ys = Ok zs \<and> sorted_wrt (\<lambda>a b. lt b a = Ok True) zs"
  using assms
proof (induction ys)
  case (Cons y ys)
  let ?A = "insert x (set (y # ys))"
  have w: "weak_order lt ?A" by (rule Cons.prems(1))
  have "weak_order lt (insert x (set ys))" by (rule weak_order_mono [OF w]) auto
  from Cons.IH [OF this] Cons.prems(2) obtain zs
    where zs: "insert_back lt x ys = Ok zs" "sorted_wrt (\<lambda>a b. lt b a = Ok True) zs" by auto
  obtain b where b: "lt x y = Ok b" using weak_order_ok [OF w, of x y] by auto
  show ?case
  proof (cases b)
    case True
    with b Cons.prems(2) insert_back_set [OF zs(1)] have "\<forall>z \<in> set zs. lt z y = Ok True" by simp
    with True zs b show ?thesis by simp
  next
    case False
    then have yx: "lt y x = Ok True" using b weak_order_total [OF w, of x y] by simp
    have "lt z x = Ok True" if "z \<in> set ys" for z
      using weak_order_trans [OF w, of z y x] Cons.prems(2) that yx by simp
    with False b yx Cons.prems(2) show ?thesis by simp
  qed
qed simp

lemma insertion_loop_sorted:
  assumes "weak_order lt (set pre \<union> set xs)" "sorted_wrt (\<lambda>a b. lt b a = Ok True) pre"
  shows "\<exists>zs. insertion_loop lt pre xs = Ok zs \<and> sorted_wrt (\<lambda>a b. lt a b = Ok True) zs"
  using assms
proof (induction xs arbitrary: pre)
  case Nil
  then show ?case by (simp add: sorted_wrt_rev)
next
  case (Cons x xs)
  have "weak_order lt (insert x (set pre))" by (rule weak_order_mono [OF Cons.prems(1)]) auto
  from insert_back_sorted [OF this Cons.prems(2)] obtain pre' where p: "insert_back lt x pre = Ok pre'"
    "sorted_wrt (\<lambda>a b. lt b a = Ok True) pre'" by blast
  have "set pre' \<union> set xs = set pre \<union> set (x # xs)" using insert_back_set [OF p(1)] by auto
  with Cons.IH [OF _ p(2)] Cons.prems(1) p(1) show ?case by simp
qed

interpretation insertion: row_sorter insertionSort
proof unfold_locales
  fix lt :: "'a \<Rightarrow> 'a \<Rightarrow> bool res" and xs
  assume "weak_order lt (set xs)"
  with insertion_loop_sorted [of lt "[]" xs] insertion_loop_perm [of lt "[]" xs]
  show "\<exists>ys. insertionSort lt xs = Ok ys \<and> mset ys = mset xs \<and> sorted_wrt (\<lambda>x y. lt x y = Ok True) ys"
    by (auto simp: insertionSort_def)
next
  fix lt :: "'a \<Rightarrow> 'a \<Rightarrow> bool res" and xs e
  assume "insertionSort lt xs = Err e"
  with insertion_loop_err [of lt "[]" xs e] show "\<exists>x \<in> set xs. \<exists>y \<in> set xs. lt x y = Err e"
    by (simp add: insertionSort_def)
next
  fix lt :: "'a \<Rightarrow> 'a \<Rightarrow> bool res" and xs ys
  assume "insertionSort lt xs = Ok ys"
  with insertion_loop_perm [of lt "[]" xs ys] show "mset ys = mset xs" by (simp add: insertionSort_def)
qed

section \<open>Rows ordered by key columns\<close>

text \<open>The lexicographic comparison of lists of values.\<close>

fun lexcmp :: "('a \<Rightarrow> 'a \<Rightarrow> int) \<Rightarrow> 'a list \<Rightarrow> 'a list \<Rightarrow> int" where
  "lexcmp cmp (x # xs) (y # ys) = (if cmp x y = 0 then lexcmp cmp xs ys else cmp x y)"
| "lexcmp cmp _ _ = 0"

definition columns :: "'a set list \<Rightarrow> 'a list set" where
  "columns Cs = {vs. list_all2 (\<lambda>v C. v \<in> C) vs Cs}"

lemma columns_Nil [simp]: "vs \<in> columns [] \<longleftrightarrow> vs = []"
  by (simp add: columns_def)

lemma columns_Cons: "vs \<in> columns (C # Cs) \<longleftrightarrow> (\<exists>w ws. vs = w # ws \<and> w \<in> C \<and> ws \<in> columns Cs)"
  by (cases vs) (auto simp: columns_def)

lemma lexcmp_order:
  assumes "\<forall>C \<in> set Cs. value_order cmp C"
  shows "value_order (lexcmp cmp) (columns Cs)"
  using assms
proof (induction Cs)
  case Nil
  then show ?case by unfold_locales simp_all
next
  case (Cons C Cs)
  have r: "value_order (lexcmp cmp) (columns Cs)" and c: "value_order cmp C" using Cons by simp_all
  note rules = value_order.cmp_refl [OF c] value_order.cmp_swap [OF c] value_order.cmp_trans [OF c]
    value_order.cmp_refl [OF r] value_order.cmp_swap [OF r] value_order.cmp_trans [OF r]
  show ?case
  proof unfold_locales
    fix x y z
    assume "x \<in> columns (C # Cs)"
    then obtain a as where x: "x = a # as" "a \<in> C" "as \<in> columns Cs" by (auto simp: columns_Cons)
    show "lexcmp cmp x x = 0" using x rules(1,4) by simp
    assume "y \<in> columns (C # Cs)"
    then obtain b bs where y: "y = b # bs" "b \<in> C" "bs \<in> columns Cs" by (auto simp: columns_Cons)
    show "lexcmp cmp y x = - lexcmp cmp x y" using x y rules(2) [of a b] rules(5) [of as bs] by simp
    assume "z \<in> columns (C # Cs)"
    then obtain d ds where z: "z = d # ds" "d \<in> C" "ds \<in> columns Cs" by (auto simp: columns_Cons)
    assume le: "lexcmp cmp x y \<le> 0" "lexcmp cmp y z \<le> 0"
    have ab: "cmp a b \<le> 0" "cmp b d \<le> 0" using le x y z by (auto split: if_splits)
    have ad: "cmp a d \<le> 0" by (rule rules(3) [OF x(2) y(2) z(2) ab])
    have eq: "cmp a b = 0 \<and> cmp b d = 0" if "cmp a d = 0"
    proof -
      have "cmp d a \<le> 0" using that rules(2) [OF x(2) z(2)] by simp
      then have "cmp b a \<le> 0" "cmp d b \<le> 0"
        using rules(3) [OF y(2) z(2) x(2) ab(2)] rules(3) [OF z(2) x(2) y(2) _ ab(1)] by simp_all
      with ab show ?thesis using rules(2) [OF x(2) y(2)] rules(2) [OF y(2) z(2)] by simp
    qed
    show "lexcmp cmp x z \<le> 0"
    proof (cases "cmp a d = 0")
      case True
      with eq le x y z rules(6) [OF x(3) y(3) z(3)] show ?thesis by simp
    next
      case False
      with ad x z show ?thesis by simp
    qed
  qed
qed

text \<open>Strict steps.\<close>

context value_order
begin

lemma cmp_less_le:
  assumes "x \<in> C" "y \<in> C" "z \<in> C" "cmp x y < 0" "cmp y z \<le> 0"
  shows "cmp x z < 0"
proof -
  have "cmp x z \<le> 0" using assms by (intro cmp_trans [of x y z]) simp_all
  moreover have "cmp x z \<noteq> 0"
  proof
    assume "cmp x z = 0"
    then have "cmp z x \<le> 0" using cmp_swap [of x z] assms by simp
    then have "cmp y x \<le> 0" using cmp_trans [of y z x] assms by simp
    with cmp_swap [of x y] assms show False by simp
  qed
  ultimately show ?thesis by simp
qed

lemma cmp_le_less:
  assumes "x \<in> C" "y \<in> C" "z \<in> C" "cmp x y \<le> 0" "cmp y z < 0"
  shows "cmp x z < 0"
proof -
  have "cmp x z \<le> 0" using assms by (intro cmp_trans [of x y z]) simp_all
  moreover have "cmp x z \<noteq> 0"
  proof
    assume "cmp x z = 0"
    then have "cmp z x \<le> 0" using cmp_swap [of x z] assms by simp
    then have "cmp z y \<le> 0" using cmp_trans [of z x y] assms by simp
    with cmp_swap [of y z] assms show False by simp
  qed
  ultimately show ?thesis by simp
qed

end

text \<open>The key of a row, and the rows whose keys lie in given columns.\<close>

definition key_of :: "int list \<Rightarrow> row \<Rightarrow> Value list" where
  "key_of keys r = map (\<lambda>k. r ! nat k) keys"

definition in_range :: "int list \<Rightarrow> row \<Rightarrow> bool" where
  "in_range keys r \<longleftrightarrow> (\<forall>k \<in> set keys. 0 \<le> k \<and> k < int (length r))"

text \<open>On a column every two values can be compared, and the comparison is a total preorder.\<close>

definition ordered_column :: "NumLib \<Rightarrow> Value set \<Rightarrow> bool" where
  "ordered_column nl C \<longleftrightarrow>
     value_order (vcmp nl) C \<and> (\<forall>v \<in> C. \<forall>w \<in> C. NullsafeCompare nl v w = Ok (vcmp nl v w))"

lemma int_column_ordered: "ordered_column nl int_column"
  unfolding ordered_column_def
  by (simp add: int_order.value_order_axioms)
    (auto simp: int_column_def vcmp_def NullsafeCompare_def NULL_def IsNull_def newNumeric_def type_defs)

lemma text_column_ordered: "ordered_column nl text_column"
  unfolding ordered_column_def
  by (simp add: text_order.value_order_axioms)
    (auto simp: text_column_def vcmp_def NullsafeCompare_def NULL_def IsNull_def type_defs)

abbreviation lexv :: "NumLib \<Rightarrow> Value list \<Rightarrow> Value list \<Rightarrow> int" where
  "lexv nl \<equiv> lexcmp (vcmp nl)"

lemma lexv_order: "\<forall>C \<in> set Cs. ordered_column nl C \<Longrightarrow> value_order (lexv nl) (columns Cs)"
  by (rule lexcmp_order) (simp add: ordered_column_def)

lemma rows_less_key:
  assumes "in_range keys r1" "in_range keys r2" "\<forall>C \<in> set Cs. ordered_column nl C"
    "key_of keys r1 \<in> columns Cs" "key_of keys r2 \<in> columns Cs"
  shows "rows_less nl keys r1 r2 = Ok (lexv nl (key_of keys r1) (key_of keys r2) \<le> 0)"
  using assms
proof (induction keys arbitrary: Cs)
  case (Cons k keys)
  then obtain C Cs' where "Cs = C # Cs'" by (auto simp: key_of_def columns_def list_all2_Cons1)
  with Cons show ?case by (auto simp: key_of_def columns_Cons in_range_def cell_Ok ordered_column_def)
qed (simp add: key_of_def)

lemma keysEqual_key:
  assumes "in_range keys r1" "in_range keys r2" "\<forall>C \<in> set Cs. ordered_column nl C"
    "key_of keys r1 \<in> columns Cs" "key_of keys r2 \<in> columns Cs"
  shows "keysEqual nl r1 r2 keys = Ok (lexv nl (key_of keys r1) (key_of keys r2) = 0)"
  using assms
proof (induction keys arbitrary: Cs)
  case (Cons k keys)
  then obtain C Cs' where "Cs = C # Cs'" by (auto simp: key_of_def columns_def list_all2_Cons1)
  with Cons show ?case by (auto simp: key_of_def columns_Cons in_range_def cell_Ok ordered_column_def)
qed (simp add: key_of_def)

text \<open>A set of rows whose keys can be sorted.\<close>

definition keyed_rows :: "NumLib \<Rightarrow> Value set list \<Rightarrow> int list \<Rightarrow> row set \<Rightarrow> bool" where
  "keyed_rows nl Cs keys A \<longleftrightarrow>
     (\<forall>C \<in> set Cs. ordered_column nl C) \<and> (\<forall>r \<in> A. in_range keys r \<and> key_of keys r \<in> columns Cs)"

lemma keyed_rows_mono: "keyed_rows nl Cs keys A \<Longrightarrow> B \<subseteq> A \<Longrightarrow> keyed_rows nl Cs keys B"
  by (auto simp: keyed_rows_def)

text \<open>A comparison through keys that lie in an ordered set.\<close>

lemma weak_order_by:
  assumes o: "value_order cmp K" and c: "\<And>x. x \<in> A \<Longrightarrow> f x \<in> K"
    and k: "\<And>x y. x \<in> A \<Longrightarrow> y \<in> A \<Longrightarrow> lt x y = Ok (cmp (f x) (f y) \<le> 0)"
  shows "weak_order lt A"
  unfolding weak_order_def
proof (intro conjI ballI impI)
  fix x y
  assume A: "x \<in> A" "y \<in> A"
  show "\<exists>b. lt x y = Ok b" using k [OF A] by blast
  show "lt x y = Ok True \<or> lt y x = Ok True"
    using k [OF A] k [OF A(2,1)] value_order.cmp_total [OF o c [OF A(1)] c [OF A(2)]] by simp
  fix z
  assume z: "z \<in> A" and "lt x y = Ok True" "lt y z = Ok True"
  then show "lt x z = Ok True"
    using k [OF A] k [OF A(2) z] k [OF A(1) z] value_order.cmp_trans [OF o c [OF A(1)] c [OF A(2)] c [OF z]] by simp
qed

lemma rows_less_weak_order:
  assumes "keyed_rows nl Cs keys A"
  shows "weak_order (rows_less nl keys) A"
  by (rule weak_order_by [of "lexv nl" "columns Cs" A "key_of keys"])
    (use assms in \<open>auto simp: keyed_rows_def intro: lexv_order rows_less_key\<close>)

section \<open>The first rows of sorted lists\<close>

context value_order
begin

abbreviation le_list :: "'a list \<Rightarrow> bool" where "le_list \<equiv> sorted_wrt (\<lambda>x y. cmp x y \<le> 0)"

definition cnt_le :: "'a \<Rightarrow> 'a list \<Rightarrow> nat" where "cnt_le t xs = length (filter (\<lambda>x. cmp x t \<le> 0) xs)"

lemma cnt_le_mset: "mset xs = mset ys \<Longrightarrow> cnt_le t xs = cnt_le t ys"
  unfolding cnt_le_def by (metis mset_filter size_mset)

lemma nth_le_iff:
  assumes "le_list xs" "set xs \<subseteq> C" "t \<in> C" "i < length xs"
  shows "cmp (xs ! i) t \<le> 0 \<longleftrightarrow> i < cnt_le t xs"
  using assms
proof (induction xs arbitrary: i)
  case (Cons x xs)
  have none: "filter (\<lambda>y. cmp y t \<le> 0) xs = []" if "\<not> cmp x t \<le> 0"
  proof -
    have "\<not> cmp y t \<le> 0" if "y \<in> set xs" for y
      using cmp_trans [of x y t] Cons.prems \<open>\<not> cmp x t \<le> 0\<close> that by auto
    then show ?thesis by (simp add: filter_empty_conv)
  qed
  show ?case
  proof (cases i)
    case 0
    then show ?thesis using none by (auto simp: cnt_le_def)
  next
    case (Suc j)
    with Cons none show ?thesis by (auto simp: cnt_le_def split: if_splits)
  qed
qed simp

lemma cnt_le_take:
  assumes "le_list xs" "set xs \<subseteq> C" "t \<in> C"
  shows "cnt_le t (take n xs) = min n (cnt_le t xs)"
  using assms
proof (induction xs arbitrary: n)
  case (Cons x xs)
  have "filter (\<lambda>y. cmp y t \<le> 0) xs = []" if "\<not> cmp x t \<le> 0"
  proof -
    have "\<not> cmp y t \<le> 0" if "y \<in> set xs" for y
      using cmp_trans [of x y t] Cons.prems \<open>\<not> cmp x t \<le> 0\<close> that by auto
    then show ?thesis by (simp add: filter_empty_conv)
  qed
  with Cons show ?case by (cases n) (auto simp: cnt_le_def)
qed (simp add: cnt_le_def)

lemma cnt_le_concat: "cnt_le t (concat xss) = sum_list (map (cnt_le t) xss)"
  by (induction xss) (simp_all add: cnt_le_def)

lemma sum_min_less: "i < n \<Longrightarrow> i < sum_list (map (min n) ms) \<longleftrightarrow> i < sum_list (ms :: nat list)"
proof (induction ms arbitrary: i)
  case (Cons m ms)
  show ?case
  proof (cases "i < m")
    case False
    with Cons.prems Cons.IH [of "i - m"] show ?thesis by (simp add: min_def) linarith
  qed (use Cons.prems in simp)
qed simp

text \<open>
  The first \<open>n\<close> elements of a sorted whole are, up to equivalence, those of the whole sorted from the first
  \<open>n\<close> elements of each sorted part.
\<close>

lemma take_of_parts:
  assumes parts: "\<forall>p \<in> set parts. le_list p \<and> set p \<subseteq> C"
    and xs: "le_list xs" "mset xs = mset (concat parts)"
    and ys: "le_list ys" "mset ys = mset (concat (map (take n) parts))"
  shows "list_all2 (\<lambda>x y. cmp x y = 0) (take n xs) (take n ys)"
proof -
  have sub: "set xs \<subseteq> C" "set ys \<subseteq> C"
    using parts mset_eq_setD [OF xs(2)] mset_eq_setD [OF ys(2)] set_take_subset [of n] by fastforce+
  have "length xs = sum_list (map length parts)" "length ys = sum_list (map (min n) (map length parts))"
    using mset_eq_length [OF xs(2)] mset_eq_length [OF ys(2)] by (simp_all add: length_concat comp_def min.commute)
  with sum_min_less [of _ n "map length parts"] have len: "i < length ys \<longleftrightarrow> i < length xs" if "i < n" for i
    using that by simp
  have cnt: "i < cnt_le t ys \<longleftrightarrow> i < cnt_le t xs" if "i < n" "t \<in> C" for i t
  proof -
    have "map (cnt_le t) (map (take n) parts) = map (min n) (map (cnt_le t) parts)"
      using parts cnt_le_take that by (simp cong: map_cong)
    then have "cnt_le t ys = sum_list (map (min n) (map (cnt_le t) parts))"
      using cnt_le_mset [OF ys(2)] by (simp only: cnt_le_concat)
    then show ?thesis using sum_min_less [OF that(1)] cnt_le_mset [OF xs(2)] by (simp only: cnt_le_concat)
  qed
  have eq: "cmp (xs ! i) (ys ! i) = 0" if i: "i < n" "i < length xs" for i
  proof -
    have y: "i < length ys" using len i by simp
    have t: "xs ! i \<in> C" "ys ! i \<in> C" using sub i y by (auto simp: subset_iff)
    have "cmp (ys ! i) (xs ! i) \<le> 0"
      using nth_le_iff [OF ys(1) sub(2) t(1) y] nth_le_iff [OF xs(1) sub(1) t(1) i(2)] cnt [OF i(1) t(1)] cmp_refl [OF t(1)] by simp
    moreover have "cmp (xs ! i) (ys ! i) \<le> 0"
      using nth_le_iff [OF ys(1) sub(2) t(2) y] nth_le_iff [OF xs(1) sub(1) t(2) i(2)] cnt [OF i(1) t(2)] cmp_refl [OF t(2)] by simp
    ultimately show ?thesis using cmp_swap [OF t] by simp
  qed
  have "min (length xs) n = min (length ys) n"
    using len [of "length xs"] len [of "length ys"] by (cases "length xs < n"; cases "length ys < n") auto
  with eq len show ?thesis by (auto simp: list_all2_conv_all_nth)
qed

end

end
