(* ===== verification/Privileges.thy ===== *)
theory Privileges
  imports Sql_Stmt Scatter Row_Order
begin

text \<open>
  The privileges of users, \<open>plugins/privilege/privilege.go\<close>. The plugin holds a copy of \<open>mysql.user\<close> and
  \<open>mysql.db\<close> of one backend, which it refreshes every five seconds; a refresh is the operation \<open>UpdatePrivileges\<close>. The zero
  value of a Go map lookup is \<open>no_user\<close> or \<open>no_db\<close>.
\<close>

section \<open>State\<close>

record privilege =
  pv_select :: bool
  pv_insert :: bool
  pv_update :: bool
  pv_delete :: bool
  pv_create :: bool
  pv_drop :: bool
  pv_grant :: bool
  pv_alter :: bool
  pv_index :: bool
  pv_showDB :: bool
  pv_super :: bool

record dbPriv =
  dp_host :: string
  dp_user :: string
  dp_db :: string
  dp_priv :: privilege

record userPriv =
  up_host :: string
  up_user :: string
  up_priv :: privilege
  up_dbPrivs :: "(string, dbPriv) gomap"

type_synonym Privilege = "(string, userPriv) gomap"

definition no_priv :: privilege where
  "no_priv = \<lparr>pv_select = False, pv_insert = False, pv_update = False, pv_delete = False, pv_create = False, pv_drop = False,
     pv_grant = False, pv_alter = False, pv_index = False, pv_showDB = False, pv_super = False\<rparr>"

definition no_db :: dbPriv where
  "no_db = \<lparr>dp_host = [], dp_user = [], dp_db = [], dp_priv = no_priv\<rparr>"

definition no_user :: userPriv where
  "no_user = \<lparr>up_host = [], up_user = [], up_priv = no_priv, up_dbPrivs = []\<rparr>"

definition user_of :: "Privilege \<Rightarrow> string \<Rightarrow> userPriv" where
  "user_of p user = (case gm_get p user of None \<Rightarrow> no_user | Some u \<Rightarrow> u)"

section \<open>Checks\<close>

definition ddl_priv :: "privilege \<Rightarrow> bool" where
  "ddl_priv v \<longleftrightarrow> pv_create v \<and> pv_drop v \<and> pv_alter v \<and> pv_index v"

text \<open>The right a statement needs; none is enough for a statement the plugin does not support.\<close>

fun needed_priv :: "Statement \<Rightarrow> (privilege \<Rightarrow> bool) option" where
  "needed_priv (StOthers n) = (if ot_Kind n = Checksum then Some pv_select else None)"
| "needed_priv (StUnion _) = Some pv_select"
| "needed_priv (StSelect _) = Some pv_select"
| "needed_priv (StInsert _) = Some pv_insert"
| "needed_priv (StUpdate _) = Some pv_update"
| "needed_priv (StDelete _) = Some pv_delete"
| "needed_priv StShow = Some pv_showDB"
| "needed_priv (StDDL _) = Some ddl_priv"
| "needed_priv (StTransaction _) = None"
| "needed_priv (StOther _) = None"

definition CheckPrivilege :: "Privilege \<Rightarrow> string \<Rightarrow> string \<Rightarrow> Statement option \<Rightarrow> bool" where
  "CheckPrivilege p db user node =
     (let userpriv = user_of p user;
          dbpriv = (case gm_get (up_dbPrivs userpriv) db of None \<Rightarrow> no_db | Some d \<Rightarrow> d)
      in case node of
           None \<Rightarrow> pv_super (up_priv userpriv)
         | Some st \<Rightarrow>
             (case needed_priv st of
                None \<Rightarrow> False
              | Some needs \<Rightarrow> pv_super (up_priv userpriv) \<or> needs (up_priv userpriv) \<or> needs (dp_priv dbpriv)))"

text \<open>The walk over the table names: the current database and whether every table so far was allowed.\<close>

fun check_tables :: "Privilege \<Rightarrow> string \<Rightarrow> Statement \<Rightarrow> TableName list \<Rightarrow> string \<Rightarrow> bool \<Rightarrow> string \<times> bool" where
  "check_tables p user node [] db ok = (db, ok)"
| "check_tables p user node (t # ts) db ok =
     (let db' = or_default (tn_Qualifier t) db in
      check_tables p user node ts db' (if CheckPrivilege p db' user (Some node) then ok else False))"

definition quoted :: "string \<Rightarrow> string" where
  "quoted s = [CHR 0x27] @ s @ [CHR 0x27]"

definition denied_text :: "string \<Rightarrow> string \<Rightarrow> string" where
  "denied_text user db = ''Access denied for user '' @ quoted user @ ''@'' @ quoted ''%'' @ '' to database '' @ quoted db"

definition access_denied :: "string \<Rightarrow> string \<Rightarrow> go_error" where
  "access_denied user db = SQLError (ER_OTHER 1045) (denied_text user db)"

definition Privilege_Check :: "Privilege \<Rightarrow> string \<Rightarrow> string \<Rightarrow> Statement option \<Rightarrow> unit res" where
  "Privilege_Check p database user node =
     (let (db, ok) = (case node of None \<Rightarrow> (database, True) | Some st \<Rightarrow> check_tables p user st (stmt_tables st) database True) in
      if ok \<and> CheckPrivilege p db user node then Ok () else Err (access_denied user db))"

definition IsSuperPriv :: "Privilege \<Rightarrow> string \<Rightarrow> bool" where
  "IsSuperPriv p user = pv_super (up_priv (user_of p user))"

definition CheckUserPrivilegeIsSet :: "Privilege \<Rightarrow> string \<Rightarrow> bool" where
  "CheckUserPrivilegeIsSet p user =
     (let v = up_priv (user_of p user) in
      pv_select v \<or> pv_insert v \<or> pv_update v \<or> pv_delete v \<or> pv_create v \<or> pv_drop v \<or> pv_grant v \<or> pv_alter v \<or>
      pv_index v \<or> pv_showDB v \<or> pv_super v)"

definition GetUserPrivilegeDBS :: "Privilege \<Rightarrow> string \<Rightarrow> string set" where
  "GetUserPrivilegeDBS p user = set (map fst (up_dbPrivs (user_of p user)))"

definition CheckDBinUserPrivilege :: "Privilege \<Rightarrow> string \<Rightarrow> string \<Rightarrow> bool" where
  "CheckDBinUserPrivilege p user db \<longleftrightarrow> gm_get (up_dbPrivs (user_of p user)) db \<noteq> None"

section \<open>Reading the privileges\<close>

text \<open>A query on the first backend, in a transaction of its own that always ends.\<close>

definition own_txn ::
  "Backends \<Rightarrow> Scatter \<Rightarrow> Sys \<Rightarrow> (Txn \<Rightarrow> World \<Rightarrow> 'a txn_step) \<Rightarrow> Sys \<times> 'a res" where
  "own_txn be s sys f =
     (case CreateTransaction (sy_mgr sys) s of
        (m, Err e) \<Rightarrow> (sys\<lparr>sy_mgr := m\<rparr>, Err e)
      | (m, Panic x) \<Rightarrow> (sys\<lparr>sy_mgr := m\<rparr>, Panic x)
      | (m, Ok txn) \<Rightarrow>
          (case f txn (sy_world sys) of
             (txn1, w, x) \<Rightarrow> (snd (Txn_Finish be txn1 (sys\<lparr>sy_mgr := m, sy_world := w\<rparr>)), x)))"

definition privilege_execute :: "Backends \<Rightarrow> Scatter \<Rightarrow> string \<Rightarrow> Sys \<Rightarrow> Sys \<times> Result res" where
  "privilege_execute be s query sys = own_txn be s sys (Txn_ExecuteSingle be query)"

definition raw_at :: "row \<Rightarrow> int \<Rightarrow> string res" where
  "raw_at r i = rbind (cell r i) (\<lambda>v. Ok (v_val v))"

definition yes_at :: "row \<Rightarrow> int \<Rightarrow> bool res" where
  "yes_at r i = rbind (raw_at r i) (\<lambda>s. Ok (s = ''Y''))"

definition db_row :: "row \<Rightarrow> dbPriv res" where
  "db_row r =
     rbind (rmapM (raw_at r) [0, 1, 11]) (\<lambda>names. rbind (rmapM (yes_at r) [2, 3, 4, 5, 6, 7, 8, 9, 10]) (\<lambda>v.
       Ok \<lparr>dp_host = names ! 0, dp_user = names ! 1, dp_db = names ! 2,
           dp_priv = no_priv\<lparr>pv_select := v ! 0, pv_insert := v ! 1, pv_update := v ! 2, pv_delete := v ! 3, pv_create := v ! 4,
             pv_drop := v ! 5, pv_grant := v ! 6, pv_alter := v ! 7, pv_index := v ! 8\<rparr>\<rparr>))"

definition db_query :: "string \<Rightarrow> string \<Rightarrow> string" where
  "db_query host user =
     ''select Host, User, Select_priv, Insert_priv, Update_priv, Delete_priv, Create_priv, Drop_priv, Grant_priv, Alter_priv, Index_priv, db from mysql.db where Host='' @
     quoted host @ '' and User='' @ quoted user"

definition loadDBPrivileges :: "Backends \<Rightarrow> Scatter \<Rightarrow> string \<Rightarrow> string \<Rightarrow> Sys \<Rightarrow> Sys \<times> (string, dbPriv) gomap res" where
  "loadDBPrivileges be s host user sys =
     (case privilege_execute be s (db_query host user) sys of
        (sys1, x) \<Rightarrow> (sys1, rbind x (\<lambda>qr. rbind (rmapM db_row (rs_Rows qr)) (\<lambda>ds.
           Ok (foldl (\<lambda>m d. gm_put (dp_db d) d m) [] ds)))))"

definition user_row :: "row \<Rightarrow> (string, dbPriv) gomap \<Rightarrow> userPriv res" where
  "user_row r dbprivs =
     rbind (rmapM (raw_at r) [0, 1]) (\<lambda>names. rbind (rmapM (yes_at r) [2, 3, 4, 5, 6, 7, 8, 9, 10, 11]) (\<lambda>v.
       Ok \<lparr>up_host = names ! 0, up_user = names ! 1,
           up_priv = no_priv\<lparr>pv_select := v ! 0, pv_insert := v ! 1, pv_update := v ! 2, pv_delete := v ! 3, pv_create := v ! 4,
             pv_drop := v ! 5, pv_alter := v ! 6, pv_index := v ! 7, pv_showDB := v ! 8, pv_super := v ! 9\<rparr>,
           up_dbPrivs = dbprivs\<rparr>))"

definition user_query :: string where
  "user_query =
     ''select Host, User, Select_priv, Insert_priv, Update_priv, Delete_priv, Create_priv, Drop_priv, Alter_priv, Index_priv, Show_db_priv, Super_priv from mysql.user''"

fun load_users :: "Backends \<Rightarrow> Scatter \<Rightarrow> row list \<Rightarrow> Privilege \<Rightarrow> Sys \<Rightarrow> Sys \<times> Privilege res" where
  "load_users be s [] privis sys = (sys, Ok privis)"
| "load_users be s (r # rs) privis sys =
     (case rmapM (raw_at r) [0, 1] of
        Ok names \<Rightarrow>
          (case loadDBPrivileges be s (names ! 0) (names ! 1) sys of
             (sys1, Ok dbprivs) \<Rightarrow>
               (case user_row r dbprivs of
                  Ok u \<Rightarrow> load_users be s rs (gm_put (up_user u) u privis) sys1
                | Err e \<Rightarrow> (sys1, Err e)
                | Panic x \<Rightarrow> (sys1, Panic x))
           | (sys1, Err e) \<Rightarrow> (sys1, Err e)
           | (sys1, Panic x) \<Rightarrow> (sys1, Panic x))
      | Err e \<Rightarrow> (sys, Err e)
      | Panic x \<Rightarrow> (sys, Panic x))"

definition loadUserPrivileges :: "Backends \<Rightarrow> Scatter \<Rightarrow> Sys \<Rightarrow> Sys \<times> Privilege res" where
  "loadUserPrivileges be s sys =
     (case privilege_execute be s user_query sys of
        (sys1, Ok qr) \<Rightarrow> load_users be s (rs_Rows qr) [] sys1
      | (sys1, Err e) \<Rightarrow> (sys1, Err e)
      | (sys1, Panic x) \<Rightarrow> (sys1, Panic x))"

definition UpdatePrivileges :: "Backends \<Rightarrow> Scatter \<Rightarrow> Privilege \<Rightarrow> Sys \<Rightarrow> Privilege \<times> Sys \<times> unit res" where
  "UpdatePrivileges be s p sys =
     (case loadUserPrivileges be s sys of
        (sys1, Ok userpriv) \<Rightarrow> (userpriv, sys1, Ok ())
      | (sys1, Err e) \<Rightarrow> (p, sys1, Err e)
      | (sys1, Panic x) \<Rightarrow> (p, sys1, Panic x))"

section \<open>What a check allows\<close>

text \<open>The database each table is checked against: the last qualifier seen, at first the database of the session.\<close>

fun running_dbs :: "string \<Rightarrow> TableName list \<Rightarrow> string list" where
  "running_dbs db [] = []"
| "running_dbs db (t # ts) = or_default (tn_Qualifier t) db # running_dbs (or_default (tn_Qualifier t) db) ts"

lemma check_tables_running:
  "check_tables p user node ts db ok =
     (last (db # running_dbs db ts), ok \<and> list_all (\<lambda>d. CheckPrivilege p d user (Some node)) (running_dbs db ts))"
  by (induction ts arbitrary: db ok) (auto simp: Let_def)

lemma Privilege_Check_running:
  "Privilege_Check p database user (Some st) = Ok () \<longleftrightarrow>
     (let ds = running_dbs database (stmt_tables st) in
      list_all (\<lambda>d. CheckPrivilege p d user (Some st)) (if ds = [] then [database] else ds))"
  by (auto simp: Privilege_Check_def check_tables_running Let_def list_all_iff)

text \<open>No table without a qualifier comes after one that has one.\<close>

fun qualified_last :: "TableName list \<Rightarrow> bool" where
  "qualified_last [] = True"
| "qualified_last (t # ts) \<longleftrightarrow>
     (tn_Qualifier t \<noteq> [] \<longrightarrow> list_all (\<lambda>u. tn_Qualifier u \<noteq> []) ts) \<and> qualified_last ts"

lemma running_dbs_qualified:
  "list_all (\<lambda>u. tn_Qualifier u \<noteq> []) ts \<Longrightarrow> running_dbs db ts = map tn_Qualifier ts"
  by (induction ts arbitrary: db) (auto simp: or_default_def)

lemma running_dbs_exact:
  "qualified_last ts \<Longrightarrow> running_dbs db ts = map (\<lambda>t. or_default (tn_Qualifier t) db) ts"
proof (induction ts)
  case (Cons t ts)
  have "map (\<lambda>t. or_default (tn_Qualifier t) db) ts = map tn_Qualifier ts" if "list_all (\<lambda>u. tn_Qualifier u \<noteq> []) ts"
    using that by (induction ts) (auto simp: or_default_def)
  with Cons running_dbs_qualified [of ts] show ?case by (cases "tn_Qualifier t = []") (simp_all add: or_default_def)
qed simp


definition demo_priv :: Privilege where
  "demo_priv = [(''u'', \<lparr>up_host = ''%'', up_user = ''u'', up_priv = no_priv,
     up_dbPrivs = [(''db1'', \<lparr>dp_host = ''%'', dp_user = ''u'', dp_db = ''db1'', dp_priv = no_priv\<lparr>pv_select := True\<rparr>\<rparr>)]\<rparr>)]"

definition demo_from :: "TableName list \<Rightarrow> Select" where
  "demo_from ts = \<lparr>sel_Comments = [], sel_Distinct = [], sel_SelectExprs = [],
     sel_From = map (\<lambda>t. AliasedTableExpr (TableRef t) []) ts, sel_Where = None, sel_GroupBy = [], sel_Having = None,
     sel_OrderBy = [], sel_Limit = None, sel_Lock = []\<rparr>"

definition demo_table :: "string \<Rightarrow> string \<Rightarrow> TableName" where
  "demo_table db t = \<lparr>tn_Name = t, tn_Qualifier = db\<rparr>"

lemma demo_table_qualifier [simp]: "tn_Qualifier (demo_table db t) = db"
  by (simp add: demo_table_def)


text \<open>
  After a qualified table the database of the session plays no part: the tables without a qualifier that follow are
  checked against the qualifier before them, whatever database they are in.
\<close>

theorem qualified_first_ignores_session:
  assumes "stmt_tables st = t # ts" "tn_Qualifier t \<noteq> []"
  shows "Privilege_Check p database user (Some st) = Privilege_Check p database' user (Some st)"
  using assms by (simp add: Privilege_Check_def or_default_def)

theorem qualified_first_ignores_session_witness:
  "Privilege_Check demo_priv ''db2'' ''u'' (Some (StSelect (demo_from [demo_table ''db1'' ''b'', demo_table [] ''a'']))) = Ok () \<and>
   \<not> CheckPrivilege demo_priv ''db2'' ''u'' (Some (StSelect (demo_from [demo_table ''db1'' ''b'', demo_table [] ''a''])))"
proof
  let ?st = "StSelect (demo_from [demo_table ''db1'' ''b'', demo_table [] ''a''])"
  have t: "stmt_tables ?st = [demo_table ''db1'' ''b'', demo_table [] ''a'']" by code_simp
  have "Privilege_Check demo_priv ''db1'' ''u'' (Some ?st) = Ok ()" by code_simp
  with qualified_first_ignores_session [OF t, of demo_priv "''db2''" "''u''" "''db1''"]
  show "Privilege_Check demo_priv ''db2'' ''u'' (Some ?st) = Ok ()" by simp
qed code_simp

end
