(* ===== verification/Autoinc.thy ===== *)
theory Autoinc
  imports Sql_Stmt "HOL-Library.Sublist"
begin

text \<open>
  The auto-increment plugin, \<open>plugins/autoincrement\<close>: \<open>GetAutoIncrement\<close> finds the column when a table is created, and
  \<open>Process\<close> appends the column and its values to an insert that does not name it. The counter is the \<open>uint64\<close> the code
  has, seeded from the clock, so it wraps around.
\<close>

section \<open>Operations\<close>

fun autoinc_column :: "ColumnDefinition list \<Rightarrow> AutoIncrement option res" where
  "autoinc_column [] = Ok None"
| "autoinc_column (c # cols) =
     (if cd_Autoincrement c then
        if \<not> equal_fold (cd_Type c) ''bigint''
        then Err (Errorf ''autoincrement.column.type[%v].must.be[%s]'' [cd_Type c, ''bigint''])
        else Ok (Some \<lparr>ai_Column = cd_Name c\<rparr>)
      else autoinc_column cols)"

definition GetAutoIncrement :: "DDL \<Rightarrow> AutoIncrement option res" where
  "GetAutoIncrement node =
     (if ddl_Action node = ''create table'' then
        (case ddl_TableSpec node of
           None \<Rightarrow> Panic ''nil pointer dereference''
         | Some spec \<Rightarrow> autoinc_column (ts_Columns spec))
      else Ok None)"

definition autoinc_val :: "64 word \<Rightarrow> Expr" where
  "autoinc_val seq = ValExpr \<lparr>sv_Type = IntVal, sv_Val = show_nat (unat seq)\<rparr>"

fun append_vals :: "64 word \<Rightarrow> Expr list list \<Rightarrow> Expr list list" where
  "append_vals seq [] = []"
| "append_vals seq (row # rows) = (row @ [autoinc_val (seq + 1)]) # append_vals (seq + 1) rows"

definition modifyForAutoinc :: "Insert \<Rightarrow> AutoIncrement \<Rightarrow> 64 word \<Rightarrow> Insert res" where
  "modifyForAutoinc ins autoinc seq =
     (let name = ai_Column autoinc in
      if list_ex (\<lambda>column. ColIdent_EqualString name column) (ins_Columns ins) then Ok ins
      else case ins_Rows ins of
             Values rows \<Rightarrow> Ok (ins\<lparr>ins_Columns := ins_Columns ins @ [name], ins_Rows := Values (append_vals seq rows)\<rparr>)
           | RowsOther _ _ \<Rightarrow> Panic ''interface conversion: sqlparser.InsertRows is not sqlparser.Values'')"

definition rows_count :: "Insert \<Rightarrow> nat" where
  "rows_count ins = (case ins_Rows ins of Values rows \<Rightarrow> length rows | RowsOther _ _ \<Rightarrow> 0)"

definition Process :: "Router \<Rightarrow> 64 word \<Rightarrow> string \<Rightarrow> Insert \<Rightarrow> 64 word \<times> Insert res" where
  "Process r autoinc_seq p_database ins =
     (let database = or_default (tn_Qualifier (ins_Table ins)) p_database; table = tn_Name (ins_Table ins) in
      case Router_TableConfig r database table of
        Err e \<Rightarrow> (autoinc_seq, Err e)
      | Panic x \<Rightarrow> (autoinc_seq, Panic x)
      | Ok tblInfo \<Rightarrow>
          (autoinc_seq + of_nat (rows_count ins),
           case tc_AutoIncrement tblInfo of
             None \<Rightarrow> Ok ins
           | Some ai \<Rightarrow> modifyForAutoinc ins ai autoinc_seq))"

section \<open>Values of many inserts\<close>

text \<open>The inserts of all sessions, in the order in which they take the counter, and the values each of them is given.\<close>

fun process_all :: "Router \<Rightarrow> 64 word \<Rightarrow> (string \<times> Insert) list \<Rightarrow> (Insert \<times> Insert res) list" where
  "process_all r seq [] = []"
| "process_all r seq ((database, ins) # rest) =
     (case Process r seq database ins of (seq', x) \<Rightarrow> (ins, x) # process_all r seq' rest)"

definition generated :: "Insert \<times> Insert res \<Rightarrow> Expr list" where
  "generated p =
     (case snd p of
        Ok ins' \<Rightarrow> (if ins_Columns ins' = ins_Columns (fst p) then []
                   else case ins_Rows ins' of Values rows \<Rightarrow> map last rows | RowsOther _ _ \<Rightarrow> [])
      | _ \<Rightarrow> [])"

lemma append_vals_nth:
  "append_vals seq rows = map2 (\<lambda>row i. row @ [autoinc_val (seq + of_nat i + 1)]) rows [0..<length rows]"
proof (induction rows arbitrary: seq)
  case (Cons row rows)
  have "[0..<length (row # rows)] = 0 # map Suc [0..<length rows]" by (simp add: upt_conv_Cons map_Suc_upt del: upt_Suc)
  then show ?case using Cons [of "seq + 1"] by (auto simp: zip_map2 ac_simps simp del: upt_Suc)
qed simp

definition seq_vals :: "64 word \<Rightarrow> nat \<Rightarrow> Expr list" where
  "seq_vals seq n = map (\<lambda>i. autoinc_val (seq + of_nat i + 1)) [0..<n]"

lemma seq_vals_add: "seq_vals seq (m + n) = seq_vals seq m @ seq_vals (seq + of_nat m) n"
  unfolding seq_vals_def by (rule nth_equalityI) (auto simp: nth_append ac_simps)

lemma map_last_append_vals: "map last (append_vals seq rows) = seq_vals seq (length rows)"
  by (rule nth_equalityI) (auto simp: append_vals_nth seq_vals_def)

text \<open>One insert is given the next values of the counter, or none of them.\<close>

lemma Process_generated:
  assumes "Process r seq database ins = (seq', x)"
  shows "(seq' = seq + of_nat (rows_count ins) \<and> generated (ins, x) \<in> {[], seq_vals seq (rows_count ins)}) \<or>
     (seq' = seq \<and> generated (ins, x) = [])"
proof (cases "Router_TableConfig r (or_default (tn_Qualifier (ins_Table ins)) database) (tn_Name (ins_Table ins))")
  case (Ok tblInfo)
  have m: "generated (ins, modifyForAutoinc ins ai seq) \<in> {[], seq_vals seq (rows_count ins)}" for ai
    by (auto simp: modifyForAutoinc_def generated_def rows_count_def Let_def map_last_append_vals split: InsertRows.split)
  have "seq' = seq + of_nat (rows_count ins)" "x = Ok ins \<or> (\<exists>ai. x = modifyForAutoinc ins ai seq)"
    using assms Ok by (auto simp: Process_def Let_def split: option.splits)
  with m show ?thesis by (auto simp: generated_def)
qed (use assms in \<open>auto simp: Process_def Let_def generated_def\<close>)

lemma process_all_subseq:
  "\<exists>n \<le> sum_list (map (\<lambda>c. rows_count (snd c)) calls).
     subseq (concat (map generated (process_all r seq calls))) (seq_vals seq n)"
proof (induction calls arbitrary: seq)
  case (Cons call calls)
  obtain database ins where c: "call = (database, ins)" by fastforce
  obtain seq' x where p: "Process r seq database ins = (seq', x)" by fastforce
  from Cons obtain n where n: "n \<le> sum_list (map (\<lambda>c. rows_count (snd c)) calls)"
    "subseq (concat (map generated (process_all r seq' calls))) (seq_vals seq' n)" by blast
  from Process_generated [OF p] show ?case
  proof
    assume s: "seq' = seq + of_nat (rows_count ins) \<and> generated (ins, x) \<in> {[], seq_vals seq (rows_count ins)}"
    then have "subseq (generated (ins, x)) (seq_vals seq (rows_count ins))" by auto
    with n(2) s have "subseq (concat (map generated (process_all r seq (call # calls)))) (seq_vals seq (rows_count ins + n))"
      unfolding seq_vals_add by (auto simp: c p intro: list_emb_append_mono)
    with n(1) show ?thesis by (intro exI [of _ "rows_count ins + n"]) (simp add: c)
  next
    assume "seq' = seq \<and> generated (ins, x) = []"
    with n show ?thesis by (intro exI [of _ n]) (simp add: c p)
  qed
qed (auto intro: exI [of _ 0])

lemma autoinc_val_inject: "autoinc_val a = autoinc_val b \<longleftrightarrow> a = b"
  by (auto simp: autoinc_val_def gostring_simps intro: unsigned_word_eqI)

lemma of_nat_word_inj:
  assumes "i < 2 ^ 64" "j < 2 ^ 64"
  shows "(of_nat i :: 64 word) = of_nat j \<longleftrightarrow> i = j"
proof -
  have "unat (of_nat k :: 64 word) = k" if "k < 2 ^ 64" for k
    using that by (simp add: unsigned_of_nat take_bit_nat_eq_self)
  with assms show ?thesis by metis
qed

lemma seq_vals_distinct: "n \<le> 2 ^ 64 \<Longrightarrow> distinct (seq_vals seq n)"
  by (auto simp: seq_vals_def distinct_map inj_on_def autoinc_val_inject of_nat_word_inj)

lemma subseq_distinct: "subseq xs ys \<Longrightarrow> distinct ys \<Longrightarrow> distinct xs"
proof (induction rule: list_emb.induct)
  case (list_emb_Cons2 x y xs ys)
  then show ?case using list_emb_set [of "(=)" xs ys y] by auto
qed auto

text \<open>
  C13. As long as at most \<open>2 ^ 64\<close> rows are inserted in all, no auto-increment value is given out twice, whichever
  tables the inserts go to and however they interleave.
\<close>

theorem autoinc_values_distinct:
  assumes "sum_list (map (\<lambda>c. rows_count (snd c)) calls) \<le> 2 ^ 64"
  shows "distinct (concat (map generated (process_all r seq calls)))"
proof -
  obtain n where "n \<le> sum_list (map (\<lambda>c. rows_count (snd c)) calls)"
    "subseq (concat (map generated (process_all r seq calls))) (seq_vals seq n)" using process_all_subseq by blast
  with assms seq_vals_distinct show ?thesis by (meson le_trans subseq_distinct)
qed

definition demo_autoinc_router :: Router where
  "demo_autoinc_router =
     \<lparr>r_conf = DefaultRouterConfig,
      r_Schemas = [(''db'', \<lparr>sc_DB = ''db'', sc_Tables =
        [(''t'', \<lparr>t_Name = ''t'', t_ShardKey = ''id'', t_Partition = None, t_TableConfig = 0\<rparr>)]\<rparr>)],
      r_heap = [\<lparr>tc_Name = ''t'', tc_Slots = 0, tc_Blocks = 0, tc_ShardType = ''GLOBAL'', tc_ShardKey = ''id'', tc_Partitions = [],
        tc_AutoIncrement = Some \<lparr>ai_Column = ''id''\<rparr>\<rparr>]\<rparr>"

definition demo_autoinc_insert :: Insert where
  "demo_autoinc_insert =
     \<lparr>ins_Action = ''insert'', ins_Comments = [], ins_Ignore = [], ins_Table = \<lparr>tn_Name = ''t'', tn_Qualifier = []\<rparr>,
      ins_Partitions = [], ins_Columns = [''a''], ins_Rows = Values [[NullVal], [NullVal]], ins_OnDup = []\<rparr>"

theorem autoinc_values_distinct_witness:
  "concat (map generated (process_all demo_autoinc_router (- 2) [(''db'', demo_autoinc_insert), (''db'', demo_autoinc_insert)])) =
     [autoinc_val (- 1), autoinc_val 0, autoinc_val 1, autoinc_val 2] \<and>
   distinct (concat (map generated (process_all demo_autoinc_router (- 2) [(''db'', demo_autoinc_insert), (''db'', demo_autoinc_insert)])))"
proof
  show "concat (map generated (process_all demo_autoinc_router (- 2) [(''db'', demo_autoinc_insert), (''db'', demo_autoinc_insert)])) =
     [autoinc_val (- 1), autoinc_val 0, autoinc_val 1, autoinc_val 2]"
    by (simp add: demo_autoinc_router_def demo_autoinc_insert_def Process_def Router_TableConfig_def getTable_def or_default_def
        modifyForAutoinc_def ColIdent_EqualString_def to_lower_def rows_count_def generated_def to_lower_char_def Let_def)
qed (rule autoinc_values_distinct, simp add: rows_count_def demo_autoinc_insert_def)

end
