(* ===== verification/Merge_Join.thy ===== *)
theory Merge_Join
  imports Row_Order
begin

text \<open>
  The join of two results, \<open>executor/engine/merge_join.go\<close> and the row functions of
  \<open>executor/engine/join_engine.go\<close>: the code, the nested loop it is compared with, and their equivalence.

  The workers of \<open>concatLeftAndRight\<close> append to the result under a mutex; the definition below runs them in the
  order of the left rows, and the last section shows that every interleaving of them appends the same
  rows and fails on the same inputs. A result that a function fills before it returns an error is
  dropped by its callers, so a function returns either the result or the error.
\<close>

section \<open>Plan nodes\<close>

datatype JoinStrategy = Cartesian | SortMerge | NestLoop

record JoinKey =
  jk_Field :: string
  jk_Table :: string
  jk_Index :: int

record Comparison =
  cf_Left :: int
  cf_Right :: int
  cf_Operator :: string
  cf_Exchange :: bool

record JoinNode =
  jn_Strategy :: JoinStrategy
  jn_Cols :: "int list"
  jn_LeftKeys :: "JoinKey list"
  jn_RightKeys :: "JoinKey list"
  jn_CmpFilter :: "Comparison list"
  jn_IsLeftJoin :: bool
  jn_HasRightFilter :: bool
  jn_LeftTmpCols :: "int list"
  jn_RightTmpCols :: "int list"
  jn_Vars :: "(string, int) gomap"

abbreviation lkeys :: "JoinNode \<Rightarrow> int list" where "lkeys node \<equiv> map jk_Index (jn_LeftKeys node)"
abbreviation rkeys :: "JoinNode \<Rightarrow> int list" where "rkeys node \<equiv> map jk_Index (jn_RightKeys node)"

section \<open>The code\<close>

fun isNumZero :: "numeric \<Rightarrow> bool" where
  "isNumZero (NUint n) = (n = 0)"
| "isNumZero (NInt n) = (n = 0)"
| "isNumZero (NFloat n) = (n = 0)"
| "isNumZero (NDec n) = (n = 0)"

definition CastToBool :: "NumLib \<Rightarrow> Value \<Rightarrow> bool" where
  "CastToBool nl v = (if IsNull v then False else case newNumeric nl v of Ok n \<Rightarrow> \<not> isNumZero n | _ \<Rightarrow> False)"

text \<open>A left row and a right row, which is \<open>nil\<close> for a left join without a match, make one row.\<close>

definition join_cell :: "row \<Rightarrow> row option \<Rightarrow> int \<Rightarrow> Value res" where
  "join_cell lrow rrow index =
     (if index < 0 then cell lrow (- index - 1)
      else case rrow of None \<Rightarrow> Ok NULL | Some r \<Rightarrow> cell r (index - 1))"

definition joinRows :: "row \<Rightarrow> row option \<Rightarrow> int list \<Rightarrow> row res" where
  "joinRows lrow rrow cols = rmapM (join_cell lrow rrow) cols"

definition row_limit :: "int \<Rightarrow> go_error" where
  "row_limit maxrow = Errorf (''unsupported: join.row.count.exceeded.allowed.limit.of.'' @ [CHR 0x27] @ ''%d'' @ [CHR 0x27]) [show_int maxrow]"

definition add_row :: "int \<Rightarrow> row \<Rightarrow> Result \<Rightarrow> Result res" where
  "add_row maxrow row res =
     (let res' = res\<lparr>rs_Rows := rs_Rows res @ [row], rs_RowsAffected := rs_RowsAffected res + 1\<rparr> in
      if maxrow < int (length (rs_Rows res')) then Err (row_limit maxrow) else Ok res')"

fun nil_rows :: "JoinNode \<Rightarrow> int \<Rightarrow> row list \<Rightarrow> Result \<Rightarrow> Result res" where
  "nil_rows node maxrow [] res = Ok res"
| "nil_rows node maxrow (row # rows) res =
     rbind (joinRows row None (jn_Cols node)) (\<lambda>r. rbind (add_row maxrow r res) (nil_rows node maxrow rows))"

definition concatLeftAndNil :: "JoinNode \<Rightarrow> int \<Rightarrow> row list \<Rightarrow> Result \<Rightarrow> Result res" where
  "concatLeftAndNil node maxrow lrows res =
     (if jn_IsLeftJoin node \<and> \<not> jn_HasRightFilter node then nil_rows node maxrow lrows res else Ok res)"

fun left_match :: "NumLib \<Rightarrow> row \<Rightarrow> int list \<Rightarrow> bool res" where
  "left_match nl lrow [] = Ok True"
| "left_match nl lrow (idx # idxs) =
     rbind (cell lrow idx) (\<lambda>v. if \<not> CastToBool nl v then Ok False else left_match nl lrow idxs)"

fun right_null :: "row \<Rightarrow> int list \<Rightarrow> bool res" where
  "right_null rrow [] = Ok True"
| "right_null rrow (idx # idxs) = rbind (cell rrow idx) (\<lambda>v. if \<not> IsNull v then Ok False else right_null rrow idxs)"

definition op_holds :: "string \<Rightarrow> int \<Rightarrow> bool" where
  "op_holds op cmp =
     (if op = ''='' then cmp = 0
      else if op = ''<'' then cmp = - 1
      else if op = ''>'' then cmp = 1
      else if op = ''<='' then cmp \<noteq> 1
      else if op = ''>='' then cmp \<noteq> - 1
      else if op = ''!='' then cmp \<noteq> 0
      else if op = ''<=>'' then cmp = 0
      else True)"

fun cmp_filters :: "NumLib \<Rightarrow> row \<Rightarrow> row \<Rightarrow> Comparison list \<Rightarrow> bool res" where
  "cmp_filters nl lrow rrow [] = Ok True"
| "cmp_filters nl lrow rrow (f # fs) =
     rbind (cell lrow (cf_Left f)) (\<lambda>v1. rbind (cell rrow (cf_Right f)) (\<lambda>v2.
       rbind (if cf_Exchange f then NullsafeCompare nl v2 v1 else NullsafeCompare nl v1 v2) (\<lambda>cmp.
         if \<not> op_holds (cf_Operator f) cmp then Ok False
         else if cf_Operator f \<noteq> ''<=>'' \<and> (IsNull v1 \<or> IsNull v2) then Ok False
         else cmp_filters nl lrow rrow fs)))"

text \<open>One worker of \<open>concatLeftAndRight\<close>: the loop over the right rows, with the count of matches.\<close>

fun join_right :: "NumLib \<Rightarrow> JoinNode \<Rightarrow> int \<Rightarrow> row \<Rightarrow> row list \<Rightarrow> Result \<Rightarrow> nat \<Rightarrow> (Result \<times> nat) res" where
  "join_right nl node maxrow lrow [] res matchCnt = Ok (res, matchCnt)"
| "join_right nl node maxrow lrow (rrow # rrows) res matchCnt =
     rbind (cmp_filters nl lrow rrow (jn_CmpFilter node)) (\<lambda>match.
       if match then
         rbind (right_null rrow (jn_RightTmpCols node)) (\<lambda>ok.
           if ok then
             rbind (joinRows lrow (Some rrow) (jn_Cols node)) (\<lambda>r. rbind (add_row maxrow r res) (\<lambda>res'.
               join_right nl node maxrow lrow rrows res' (Suc matchCnt)))
           else join_right nl node maxrow lrow rrows res (Suc matchCnt))
       else join_right nl node maxrow lrow rrows res matchCnt)"

definition mathOps :: "NumLib \<Rightarrow> JoinNode \<Rightarrow> int \<Rightarrow> row list \<Rightarrow> row \<Rightarrow> Result \<Rightarrow> Result res" where
  "mathOps nl node maxrow rrows lrow res =
     rbind (left_match nl lrow (jn_LeftTmpCols node)) (\<lambda>leftMatch.
       rbind (if leftMatch then join_right nl node maxrow lrow rrows res 0 else Ok (res, 0)) (\<lambda>(res1, matchCnt).
         if matchCnt = 0 \<and> jn_IsLeftJoin node \<and> \<not> jn_HasRightFilter node
         then rbind (joinRows lrow None (jn_Cols node)) (\<lambda>r. add_row maxrow r res1)
         else Ok res1))"

fun concatLeftAndRight :: "NumLib \<Rightarrow> JoinNode \<Rightarrow> int \<Rightarrow> row list \<Rightarrow> row list \<Rightarrow> Result \<Rightarrow> Result res" where
  "concatLeftAndRight nl node maxrow [] rrows res = Ok res"
| "concatLeftAndRight nl node maxrow (lrow # lrows) rrows res =
     rbind (mathOps nl node maxrow rrows lrow res) (concatLeftAndRight nl node maxrow lrows rrows)"

text \<open>The rows from \<open>index\<close> on that have the key of the row at \<open>index\<close>, and the index after them.\<close>

fun same_key :: "NumLib \<Rightarrow> row \<Rightarrow> int list \<Rightarrow> row list \<Rightarrow> row list res" where
  "same_key nl current joins [] = Ok []"
| "same_key nl current joins (row # rows) =
     rbind (keysEqual nl current row joins) (\<lambda>equal.
       if \<not> equal then Ok [] else rbind (same_key nl current joins rows) (\<lambda>chunk. Ok (row # chunk)))"

definition fetchSameKeyRows :: "NumLib \<Rightarrow> row list \<Rightarrow> int list \<Rightarrow> nat \<Rightarrow> (row list option \<times> nat) res" where
  "fetchSameKeyRows nl rows joins index =
     (if length rows \<le> index then Ok (None, index)
      else if joins = [] then Ok (Some rows, length rows)
      else rbind (same_key nl (rows ! index) joins (drop (Suc index) rows)) (\<lambda>chunk.
        Ok (Some (rows ! index # chunk), Suc index + length chunk)))"

text \<open>The comparison of two groups: the first difference, or equality up to a null.\<close>

fun key_cmp :: "NumLib \<Rightarrow> row \<Rightarrow> row \<Rightarrow> int list \<Rightarrow> int list \<Rightarrow> (int \<times> bool) res" where
  "key_cmp nl lrow rrow [] rks = Ok (0, False)"
| "key_cmp nl lrow rrow (lk # lks) [] = rbind (cell lrow lk) (\<lambda>_. Panic ''index out of range'')"
| "key_cmp nl lrow rrow (lk # lks) (rk # rks) =
     rbind (cell lrow lk) (\<lambda>v1. rbind (cell rrow rk) (\<lambda>v2. rbind (NullsafeCompare nl v1 v2) (\<lambda>cmp.
       if cmp \<noteq> 0 then Ok (cmp, False)
       else if IsNull v1 then Ok (0, True)
       else key_cmp nl lrow rrow lks rks)))"

text \<open>An error is only looked at after the next groups were fetched; a panic is not caught.\<close>

definition unless_panic :: "'a res \<Rightarrow> 'b res \<Rightarrow> 'b res" where
  "unless_panic x y = (case x of Panic p \<Rightarrow> Panic p | _ \<Rightarrow> y)"

lemma rbind_cong [fundef_cong]: "m = m' \<Longrightarrow> (\<And>x. m' = Ok x \<Longrightarrow> f x = g x) \<Longrightarrow> rbind m f = rbind m' g"
  by (cases m') auto

lemma unless_panic_cong [fundef_cong]: "x = x' \<Longrightarrow> y = y' \<Longrightarrow> unless_panic x y = unless_panic x' y'"
  by simp

definition left_over :: "row list \<Rightarrow> row list option \<times> nat \<Rightarrow> nat" where
  "left_over rows g = (case fst g of None \<Rightarrow> 0 | Some _ \<Rightarrow> Suc (length rows - snd g))"

lemma same_key_length: "same_key nl current joins rows = Ok chunk \<Longrightarrow> length chunk \<le> length rows"
  by (induction rows arbitrary: chunk) (auto simp: res_simps split: if_splits)

lemma fetch_left_over:
  "fetchSameKeyRows nl rows joins i = Ok g \<Longrightarrow> left_over rows g < Suc (length rows - i)"
  using same_key_length [of nl "rows ! i" joins "drop (Suc i) rows"]
  by (auto simp: fetchSameKeyRows_def left_over_def res_simps split: if_splits)

function merge_loop ::
  "NumLib \<Rightarrow> JoinNode \<Rightarrow> int \<Rightarrow> row list \<Rightarrow> row list \<Rightarrow>
   row list option \<times> nat \<Rightarrow> row list option \<times> nat \<Rightarrow> Result \<Rightarrow> Result res" where
  "merge_loop nl node maxrow L R (lrows, lidx) (rrows, ridx) res =
     (case lrows of
        None \<Rightarrow> Ok res
      | Some lg \<Rightarrow>
          (case rrows of
             None \<Rightarrow> concatLeftAndNil node maxrow (drop (lidx - length lg) L) res
           | Some rg \<Rightarrow>
               rbind (key_cmp nl (lg ! 0) (rg ! 0) (lkeys node) (rkeys node)) (\<lambda>(cmp, isNull).
                 if cmp = 0 then
                   (let err = (if isNull then concatLeftAndNil node maxrow lg res
                               else concatLeftAndRight nl node maxrow lg rg res) in
                    unless_panic err
                      (rbind (fetchSameKeyRows nl L (lkeys node) lidx) (\<lambda>l.
                       rbind (fetchSameKeyRows nl R (rkeys node) ridx) (\<lambda>r.
                       rbind err (\<lambda>res'. merge_loop nl node maxrow L R l r res')))))
                 else if 0 < cmp then
                   rbind (fetchSameKeyRows nl R (rkeys node) ridx) (\<lambda>r.
                     merge_loop nl node maxrow L R (Some lg, lidx) r res)
                 else
                   (let err = concatLeftAndNil node maxrow lg res in
                    unless_panic err
                      (rbind (fetchSameKeyRows nl L (lkeys node) lidx) (\<lambda>l.
                       rbind err (\<lambda>res'. merge_loop nl node maxrow L R l (Some rg, ridx) res')))))))"
  by pat_completeness auto

termination
  by (relation "measure (\<lambda>(nl, node, maxrow, L, R, l, r, res). left_over L l + left_over R r)")
    (auto dest!: fetch_left_over simp: left_over_def split: option.splits)

definition mergeJoin :: "NumLib \<Rightarrow> JoinNode \<Rightarrow> int \<Rightarrow> row list \<Rightarrow> row list \<Rightarrow> Result \<Rightarrow> Result res" where
  "mergeJoin nl node maxrow L R res =
     rbind (fetchSameKeyRows nl L (lkeys node) 0) (\<lambda>l.
     rbind (fetchSameKeyRows nl R (rkeys node) 0) (\<lambda>r. merge_loop nl node maxrow L R l r res))"

definition sortMergeJoin :: "row sorter \<Rightarrow> NumLib \<Rightarrow> JoinNode \<Rightarrow> int \<Rightarrow> Result \<Rightarrow> Result \<Rightarrow> Result \<Rightarrow> Result res" where
  "sortMergeJoin srt nl node maxrow lres rres res =
     rbind (srt (rows_less nl (lkeys node)) (rs_Rows lres)) (\<lambda>L.
     rbind (srt (rows_less nl (rkeys node)) (rs_Rows rres)) (\<lambda>R. mergeJoin nl node maxrow L R res))"

fun product_rows :: "JoinNode \<Rightarrow> int \<Rightarrow> row \<Rightarrow> row list \<Rightarrow> Result \<Rightarrow> Result res" where
  "product_rows node maxrow lrow [] res = Ok res"
| "product_rows node maxrow lrow (rrow # rrows) res =
     rbind (joinRows lrow (Some rrow) (jn_Cols node)) (\<lambda>r. rbind (add_row maxrow r res) (product_rows node maxrow lrow rrows))"

fun product_all :: "JoinNode \<Rightarrow> int \<Rightarrow> row list \<Rightarrow> row list \<Rightarrow> Result \<Rightarrow> Result res" where
  "product_all node maxrow [] rrows res = Ok res"
| "product_all node maxrow (lrow # lrows) rrows res =
     rbind (product_rows node maxrow lrow rrows res) (product_all node maxrow lrows rrows)"

definition cartesianProduct :: "JoinNode \<Rightarrow> int \<Rightarrow> Result \<Rightarrow> Result \<Rightarrow> Result \<Rightarrow> Result res" where
  "cartesianProduct node maxrow lres rres res =
     product_all node maxrow (rs_Rows lres) (rs_Rows rres) (res\<lparr>rs_Rows := []\<rparr>)"

section \<open>Adding rows\<close>

fun add_rows :: "int \<Rightarrow> row list \<Rightarrow> Result \<Rightarrow> Result res" where
  "add_rows maxrow [] res = Ok res"
| "add_rows maxrow (r # rs) res = rbind (add_row maxrow r res) (add_rows maxrow rs)"

lemma rbind_assoc: "rbind (rbind m f) g = rbind m (\<lambda>x. rbind (f x) g)"
  by (cases m) simp_all

lemma rbind_Ok_right [simp]: "rbind m Ok = m"
  by (cases m) simp_all

lemma add_rows_Nil [simp]: "add_rows maxrow [] = Ok"
  by (rule ext) simp

lemma add_rows_append: "add_rows maxrow (xs @ ys) res = rbind (add_rows maxrow xs res) (add_rows maxrow ys)"
  by (induction xs arbitrary: res) (simp_all add: rbind_assoc cong: rbind_cong)

lemma add_rows_spec:
  assumes "rows = [] \<or> int (length (rs_Rows res)) \<le> maxrow"
  shows "add_rows maxrow rows res =
     (if rows \<noteq> [] \<and> maxrow < int (length (rs_Rows res) + length rows) then Err (row_limit maxrow)
      else Ok (res\<lparr>rs_Rows := rs_Rows res @ rows, rs_RowsAffected := rs_RowsAffected res + of_nat (length rows)\<rparr>))"
  using assms
proof (induction rows arbitrary: res)
  case (Cons r rows)
  let ?res = "res\<lparr>rs_Rows := rs_Rows res @ [r], rs_RowsAffected := rs_RowsAffected res + 1\<rparr>"
  show ?case
  proof (cases "maxrow < int (length (rs_Rows ?res))")
    case True
    then show ?thesis by (simp add: add_row_def)
  next
    case False
    with Cons.IH [of ?res] show ?thesis by (simp add: add_row_def add.assoc)
  qed
qed simp

lemma add_row_no_panic: "add_row maxrow r res \<noteq> Panic p"
  by (simp add: add_row_def Let_def)

lemma add_rows_no_panic: "add_rows maxrow rows res \<noteq> Panic p"
proof (induction rows arbitrary: res)
  case (Cons r rows)
  then show ?case by (cases "add_row maxrow r res") (auto simp: add_row_no_panic)
qed simp

lemma unless_panic_add [simp]: "unless_panic (add_rows maxrow rows res) y = y"
  using add_rows_no_panic [of maxrow rows res] by (simp add: unless_panic_def split: res.split)

section \<open>The nested loop\<close>

definition join_row :: "JoinNode \<Rightarrow> row \<Rightarrow> row option \<Rightarrow> row" where
  "join_row node l r =
     map (\<lambda>i. if i < 0 then l ! nat (- i - 1) else case r of None \<Rightarrow> NULL | Some r \<Rightarrow> r ! nat (i - 1)) (jn_Cols node)"

definition filter_holds :: "NumLib \<Rightarrow> row \<Rightarrow> row \<Rightarrow> Comparison \<Rightarrow> bool" where
  "filter_holds nl l r f \<longleftrightarrow>
     (let v1 = l ! nat (cf_Left f); v2 = r ! nat (cf_Right f) in
      op_holds (cf_Operator f) (if cf_Exchange f then vcmp nl v2 v1 else vcmp nl v1 v2) \<and>
      (cf_Operator f = ''<=>'' \<or> \<not> IsNull v1 \<and> \<not> IsNull v2))"

text \<open>The keys are equal and none of them is null.\<close>

definition on_keys :: "NumLib \<Rightarrow> JoinNode \<Rightarrow> row \<Rightarrow> row \<Rightarrow> bool" where
  "on_keys nl node l r \<longleftrightarrow>
     list_all2 (\<lambda>v w. \<not> IsNull v \<and> vcmp nl v w = 0) (key_of (lkeys node) l) (key_of (rkeys node) r)"

definition matches :: "NumLib \<Rightarrow> JoinNode \<Rightarrow> row \<Rightarrow> row \<Rightarrow> bool" where
  "matches nl node l r \<longleftrightarrow> on_keys nl node l r \<and> list_all (filter_holds nl l r) (jn_CmpFilter node)"

definition left_ok :: "NumLib \<Rightarrow> JoinNode \<Rightarrow> row \<Rightarrow> bool" where
  "left_ok nl node l \<longleftrightarrow> list_all (\<lambda>i. CastToBool nl (l ! nat i)) (jn_LeftTmpCols node)"

definition right_ok :: "JoinNode \<Rightarrow> row \<Rightarrow> bool" where
  "right_ok node r \<longleftrightarrow> list_all (\<lambda>i. IsNull (r ! nat i)) (jn_RightTmpCols node)"

definition nil_out :: "JoinNode \<Rightarrow> row \<Rightarrow> row list" where
  "nil_out node l = (if jn_IsLeftJoin node \<and> \<not> jn_HasRightFilter node then [join_row node l None] else [])"

text \<open>The rows of one left row: those of its matches, or the row padded with nulls.\<close>

definition row_out :: "JoinNode \<Rightarrow> row \<Rightarrow> row list \<Rightarrow> row list" where
  "row_out node l ms =
     (if ms = [] then nil_out node l else map (\<lambda>r. join_row node l (Some r)) (filter (right_ok node) ms))"

definition left_out :: "NumLib \<Rightarrow> JoinNode \<Rightarrow> row list \<Rightarrow> row \<Rightarrow> row list" where
  "left_out nl node R l = row_out node l (if left_ok nl node l then filter (matches nl node l) R else [])"

definition nested_loop :: "NumLib \<Rightarrow> JoinNode \<Rightarrow> row list \<Rightarrow> row list \<Rightarrow> row list" where
  "nested_loop nl node L R = concat (map (left_out nl node R) L)"

text \<open>Inputs on which no index is out of range and every comparison the join makes is defined.\<close>

definition cols_ok :: "JoinNode \<Rightarrow> row set \<Rightarrow> row set \<Rightarrow> bool" where
  "cols_ok node A B \<longleftrightarrow>
     (\<forall>i \<in> set (jn_Cols node). (i < 0 \<longrightarrow> (\<forall>l \<in> A. - i - 1 < int (length l))) \<and>
        (0 \<le> i \<longrightarrow> 1 \<le> i \<and> (\<forall>r \<in> B. i - 1 < int (length r))))"

definition filters_ok :: "NumLib \<Rightarrow> JoinNode \<Rightarrow> row set \<Rightarrow> row set \<Rightarrow> bool" where
  "filters_ok nl node A B \<longleftrightarrow>
     (\<forall>f \<in> set (jn_CmpFilter node). \<forall>l \<in> A. \<forall>r \<in> B.
        0 \<le> cf_Left f \<and> cf_Left f < int (length l) \<and> 0 \<le> cf_Right f \<and> cf_Right f < int (length r) \<and>
        is_ok (NullsafeCompare nl (l ! nat (cf_Left f)) (r ! nat (cf_Right f))) \<and>
        is_ok (NullsafeCompare nl (r ! nat (cf_Right f)) (l ! nat (cf_Left f))))"

definition join_ok :: "NumLib \<Rightarrow> Value set list \<Rightarrow> JoinNode \<Rightarrow> row set \<Rightarrow> row set \<Rightarrow> bool" where
  "join_ok nl Cs node A B \<longleftrightarrow>
     keyed_rows nl Cs (lkeys node) A \<and> keyed_rows nl Cs (rkeys node) B \<and>
     length (jn_LeftKeys node) = length Cs \<and> length (jn_RightKeys node) = length Cs \<and>
     cols_ok node A B \<and> filters_ok nl node A B \<and>
     (\<forall>l \<in> A. in_range (jn_LeftTmpCols node) l) \<and> (\<forall>r \<in> B. in_range (jn_RightTmpCols node) r)"

section \<open>The code does not fail on such inputs\<close>

lemma joinRows_join_row:
  assumes "cols_ok node A B" "l \<in> A" "case r of None \<Rightarrow> True | Some r \<Rightarrow> r \<in> B"
  shows "joinRows l r (jn_Cols node) = Ok (join_row node l r)"
proof -
  have "join_cell l r i = Ok (if i < 0 then l ! nat (- i - 1) else case r of None \<Rightarrow> NULL | Some r \<Rightarrow> r ! nat (i - 1))"
    if "i \<in> set (jn_Cols node)" for i
    using assms that by (cases r) (auto simp: cols_ok_def join_cell_def cell_def)
  then show ?thesis unfolding joinRows_def join_row_def rmapM_Ok_iff by (simp add: list.rel_map list_all2_same)
qed

lemma left_match_left_ok: "in_range is l \<Longrightarrow> left_match nl l is = Ok (list_all (\<lambda>i. CastToBool nl (l ! nat i)) is)"
  by (induction "is") (auto simp: in_range_def cell_Ok)

lemma right_null_right_ok: "in_range is r \<Longrightarrow> right_null r is = Ok (list_all (\<lambda>i. IsNull (r ! nat i)) is)"
  by (induction "is") (auto simp: in_range_def cell_Ok)

lemma is_ok_vcmp: "is_ok (NullsafeCompare nl v w) \<Longrightarrow> NullsafeCompare nl v w = Ok (vcmp nl v w)"
  by (auto simp: vcmp_def res_simps)

lemma cmp_filters_holds:
  assumes "\<forall>f \<in> set fs. 0 \<le> cf_Left f \<and> cf_Left f < int (length l) \<and> 0 \<le> cf_Right f \<and> cf_Right f < int (length r) \<and>
        is_ok (NullsafeCompare nl (l ! nat (cf_Left f)) (r ! nat (cf_Right f))) \<and>
        is_ok (NullsafeCompare nl (r ! nat (cf_Right f)) (l ! nat (cf_Left f)))"
  shows "cmp_filters nl l r fs = Ok (list_all (filter_holds nl l r) fs)"
  using assms
proof (induction fs)
  case (Cons f fs)
  then have "NullsafeCompare nl (l ! nat (cf_Left f)) (r ! nat (cf_Right f)) = Ok (vcmp nl (l ! nat (cf_Left f)) (r ! nat (cf_Right f)))"
    "NullsafeCompare nl (r ! nat (cf_Right f)) (l ! nat (cf_Left f)) = Ok (vcmp nl (r ! nat (cf_Right f)) (l ! nat (cf_Left f)))"
    by (simp_all add: is_ok_vcmp)
  with Cons show ?case by (auto simp: cell_Ok filter_holds_def [of nl l r f] Let_def)
qed simp

lemma nil_rows_add:
  assumes "cols_ok node A B" "set rows \<subseteq> A"
  shows "nil_rows node maxrow rows res = add_rows maxrow (map (\<lambda>l. join_row node l None) rows) res"
  using assms(2) by (induction rows arbitrary: res) (simp_all add: joinRows_join_row [OF assms(1)] cong: rbind_cong)

lemma nil_outs:
  "concat (map (nil_out node) rows) =
     (if jn_IsLeftJoin node \<and> \<not> jn_HasRightFilter node then map (\<lambda>l. join_row node l None) rows else [])"
  by (induction rows) (simp_all add: nil_out_def)

lemma concatLeftAndNil_add:
  assumes "cols_ok node A B" "set rows \<subseteq> A"
  shows "concatLeftAndNil node maxrow rows res = add_rows maxrow (concat (map (nil_out node) rows)) res"
  using nil_rows_add [OF assms] by (simp add: concatLeftAndNil_def nil_outs)

lemma join_right_add:
  assumes ok: "cols_ok node A B" "filters_ok nl node A B" "\<forall>r \<in> B. in_range (jn_RightTmpCols node) r"
    and l: "l \<in> A" and R: "set R \<subseteq> B"
  shows "join_right nl node maxrow l R res n =
     (let ms = filter (\<lambda>r. list_all (filter_holds nl l r) (jn_CmpFilter node)) R in
      rbind (add_rows maxrow (map (\<lambda>r. join_row node l (Some r)) (filter (right_ok node) ms)) res) (\<lambda>res'. Ok (res', n + length ms)))"
  using R
proof (induction R arbitrary: res n)
  case (Cons r R)
  have "cmp_filters nl l r (jn_CmpFilter node) = Ok (list_all (filter_holds nl l r) (jn_CmpFilter node))"
    using ok(2) l Cons.prems by (intro cmp_filters_holds) (fastforce simp: filters_ok_def)
  moreover have "right_null r (jn_RightTmpCols node) = Ok (right_ok node r)"
    using ok(3) Cons.prems by (simp add: right_null_right_ok right_ok_def)
  moreover have "joinRows l (Some r) (jn_Cols node) = Ok (join_row node l (Some r))"
    using joinRows_join_row [OF ok(1) l, of "Some r"] Cons.prems by simp
  ultimately show ?case using Cons by (simp add: Let_def rbind_assoc)
qed simp

text \<open>One worker adds the rows of its left row, when every right row has its key.\<close>

lemma mathOps_add:
  assumes ok: "cols_ok node A B" "filters_ok nl node A B" "\<forall>r \<in> B. in_range (jn_RightTmpCols node) r"
    "\<forall>l \<in> A. in_range (jn_LeftTmpCols node) l"
    and l: "l \<in> A" and R: "set R \<subseteq> B" and on: "\<forall>r \<in> set R. on_keys nl node l r"
  shows "mathOps nl node maxrow R l res = add_rows maxrow (left_out nl node R l) res"
proof -
  let ?ms = "filter (\<lambda>r. list_all (filter_holds nl l r) (jn_CmpFilter node)) R"
  have m: "filter (matches nl node l) R = ?ms" using on by (auto simp: matches_def intro: filter_cong)
  have lm: "left_match nl l (jn_LeftTmpCols node) = Ok (left_ok nl node l)"
    using ok(4) l by (simp add: left_match_left_ok left_ok_def)
  note jr = join_right_add [OF ok(1-3) l R, of maxrow res 0] joinRows_join_row [OF ok(1) l, of None]
  show ?thesis
  proof (cases "left_ok nl node l \<and> ?ms \<noteq> []")
    case True
    with lm jr m show ?thesis by (simp add: mathOps_def left_out_def row_out_def Let_def rbind_assoc)
  next
    case False
    then have "left_out nl node R l = nil_out node l" using m by (auto simp: left_out_def row_out_def)
    moreover have "join_right nl node maxrow l R res 0 = Ok (res, 0)" if "?ms = []"
      unfolding jr(1) Let_def that by simp
    ultimately show ?thesis using False lm jr(2) by (auto simp: mathOps_def nil_out_def)
  qed
qed

lemma concatLeftAndRight_add:
  assumes ok: "cols_ok node A B" "filters_ok nl node A B" "\<forall>r \<in> B. in_range (jn_RightTmpCols node) r"
    "\<forall>l \<in> A. in_range (jn_LeftTmpCols node) l"
    and L: "set L \<subseteq> A" and R: "set R \<subseteq> B" and on: "\<forall>l \<in> set L. \<forall>r \<in> set R. on_keys nl node l r"
  shows "concatLeftAndRight nl node maxrow L R res = add_rows maxrow (nested_loop nl node L R) res"
  using L on
proof (induction L arbitrary: res)
  case (Cons l L)
  then show ?case using mathOps_add [OF ok _ R, of l maxrow] by (simp add: nested_loop_def add_rows_append cong: rbind_cong)
qed (simp add: nested_loop_def)

section \<open>Groups of equal keys\<close>

text \<open>The list of values of two keys compared as \<open>key_cmp\<close> does it.\<close>

fun kc :: "NumLib \<Rightarrow> Value list \<Rightarrow> Value list \<Rightarrow> int \<times> bool" where
  "kc nl (v # vs) (w # ws) = (if vcmp nl v w \<noteq> 0 then (vcmp nl v w, False) else if IsNull v then (0, True) else kc nl vs ws)"
| "kc nl _ _ = (0, False)"

lemma key_of_length [simp]: "length (key_of keys r) = length keys"
  by (simp add: key_of_def)

lemma key_cmp_kc:
  assumes "in_range lks l" "in_range rks r" "key_of lks l \<in> columns Cs" "key_of rks r \<in> columns Cs"
    "\<forall>C \<in> set Cs. ordered_column nl C"
  shows "key_cmp nl l r lks rks = Ok (kc nl (key_of lks l) (key_of rks r))"
  using assms
proof (induction lks arbitrary: rks Cs)
  case (Cons k lks)
  then obtain C Cs' k' rks' where "Cs = C # Cs'" "rks = k' # rks'" by (auto simp: key_of_def columns_Cons columns_def list_all2_Cons1 list_all2_Cons2)
  with Cons show ?case by (auto simp: key_of_def columns_Cons in_range_def cell_Ok ordered_column_def)
qed (simp add: key_of_def)

lemma kc_no_null: "kc nl vs ws = (c, False) \<Longrightarrow> length vs = length ws \<Longrightarrow> c = lexv nl vs ws \<and> (c = 0 \<longrightarrow> list_all (\<lambda>v. \<not> IsNull v) vs)"
  by (induction nl vs ws rule: kc.induct) (auto split: if_splits)

lemma kc_null: "kc nl vs ws = (c, True) \<Longrightarrow> c = 0 \<and> (\<exists>i < length vs. i < length ws \<and> IsNull (vs ! i) \<and> vcmp nl (vs ! i) (ws ! i) = 0)"
proof (induction nl vs ws rule: kc.induct)
  case (1 nl v vs w ws)
  show ?case
  proof (cases "vcmp nl v w = 0 \<and> \<not> IsNull v")
    case True
    with 1 obtain i where "c = 0" "i < length vs" "i < length ws" "IsNull (vs ! i)" "vcmp nl (vs ! i) (ws ! i) = 0" by auto
    then show ?thesis by (intro conjI exI [of _ "Suc i"]) simp_all
  next
    case False
    with "1.prems" show ?thesis by (auto split: if_splits intro!: exI [of _ 0])
  qed
qed simp_all

lemma vcmp_null_iff: "vcmp nl v w = 0 \<Longrightarrow> IsNull v \<Longrightarrow> IsNull w"
  by (auto simp: vcmp_def NullsafeCompare_def split: if_splits)

lemma vcmp_null_iff': "vcmp nl v w = 0 \<Longrightarrow> NullsafeCompare nl v w = Ok (vcmp nl v w) \<Longrightarrow> IsNull w \<Longrightarrow> IsNull v"
  by (auto simp: vcmp_def NullsafeCompare_def split: if_splits)

lemma lexcmp_zero_iff: "length vs = length ws \<Longrightarrow> lexcmp cmp vs ws = 0 \<longleftrightarrow> list_all2 (\<lambda>v w. cmp v w = 0) vs ws"
  by (induction vs ws rule: list_induct2) simp_all

lemma on_keys_zero: "on_keys nl node l r \<Longrightarrow> lexv nl (key_of (lkeys node) l) (key_of (rkeys node) r) = 0"
  unfolding on_keys_def by (frule list_all2_lengthD, subst lexcmp_zero_iff) (auto elim: list_all2_mono)

lemma on_keysI:
  assumes "lexv nl (key_of (lkeys node) l) (key_of (rkeys node) r) = 0" "list_all (\<lambda>v. \<not> IsNull v) (key_of (lkeys node) l)"
    "length (key_of (lkeys node) l) = length (key_of (rkeys node) r)"
  shows "on_keys nl node l r"
  using assms unfolding on_keys_def by (auto simp: lexcmp_zero_iff list_all2_conv_all_nth list_all_length)

lemma on_keys_nth: "on_keys nl node l r \<Longrightarrow> i < length (lkeys node) \<Longrightarrow>
    \<not> IsNull (key_of (lkeys node) l ! i) \<and> vcmp nl (key_of (lkeys node) l ! i) (key_of (rkeys node) r ! i) = 0"
  unfolding on_keys_def by (drule list_all2_nthD [of _ _ _ i]) simp_all

text \<open>What \<open>fetchSameKeyRows\<close> returns: the first group of the rows that are left.\<close>

definition group_state :: "NumLib \<Rightarrow> int list \<Rightarrow> row list \<Rightarrow> row list option \<times> nat \<Rightarrow> row list \<Rightarrow> bool" where
  "group_state nl keys rows st rest \<longleftrightarrow>
     (case fst st of
        None \<Rightarrow> rest = []
      | Some g \<Rightarrow> g \<noteq> [] \<and> rest = g @ drop (snd st) rows \<and> rest = drop (snd st - length g) rows \<and>
          (\<forall>r \<in> set g. lexv nl (key_of keys r) (key_of keys (g ! 0)) = 0) \<and>
          (\<forall>r \<in> set (drop (snd st) rows). lexv nl (key_of keys (g ! 0)) (key_of keys r) < 0) \<and>
          (keys = [] \<longrightarrow> length rows \<le> snd st))"

abbreviation key_sorted :: "NumLib \<Rightarrow> int list \<Rightarrow> row list \<Rightarrow> bool" where
  "key_sorted nl keys \<equiv> sorted_wrt (\<lambda>x y. lexv nl (key_of keys x) (key_of keys y) \<le> 0)"

lemma same_key_takeWhile:
  assumes "\<And>r. r \<in> set rows \<Longrightarrow> keysEqual nl x r keys = Ok (P r)"
  shows "same_key nl x keys rows = Ok (takeWhile P rows)"
  using assms by (induction rows) simp_all

lemma sorted_after_group:
  assumes o: "value_order (lexv nl) (columns Cs)" and x: "key_of keys x \<in> columns Cs"
    and rows: "\<forall>r \<in> set rows. key_of keys r \<in> columns Cs" "key_sorted nl keys (x # rows)"
    and r: "r \<in> set (dropWhile (\<lambda>r. lexv nl (key_of keys x) (key_of keys r) = 0) rows)"
  shows "lexv nl (key_of keys x) (key_of keys r) < 0"
proof -
  let ?P = "\<lambda>r. lexv nl (key_of keys x) (key_of keys r) = 0"
  have ne: "dropWhile ?P rows \<noteq> []" using r by (metis empty_iff list.set(1))
  then obtain y ys where d: "dropWhile ?P rows = y # ys" by (meson list.exhaust)
  have ny: "\<not> ?P y" using hd_dropWhile [OF ne] unfolding d by simp
  have y: "y \<in> set rows" using set_dropWhileD [of y ?P rows] d by simp
  have lt: "lexv nl (key_of keys x) (key_of keys y) < 0" using rows(2) y ny by force
  have "key_sorted nl keys (y # ys)"
    using rows(2) d sorted_wrt_dropWhile [of "\<lambda>x y. lexv nl (key_of keys x) (key_of keys y) \<le> 0" rows ?P] by simp
  then have "r = y \<or> lexv nl (key_of keys y) (key_of keys r) \<le> 0" using r d by auto
  moreover have "r \<in> set rows" using set_dropWhileD [OF r] by simp
  ultimately show ?thesis using lt value_order.cmp_less_le [OF o x, of "key_of keys y" "key_of keys r"] rows(1) y by auto
qed

lemma fetch_group:
  assumes k: "keyed_rows nl Cs keys (set rows)" and s: "key_sorted nl keys rows"
    and i: "keys = [] \<longrightarrow> i = 0 \<or> length rows \<le> i"
  shows "\<exists>st. fetchSameKeyRows nl rows keys i = Ok st \<and> group_state nl keys rows st (drop i rows)"
proof (cases "length rows \<le> i \<or> keys = []")
  case True
  then show ?thesis
  proof (cases "length rows \<le> i")
    case False
    with True i have "keys = []" "i = 0" "rows \<noteq> []" by auto
    then show ?thesis by (simp add: fetchSameKeyRows_def group_state_def key_of_def)
  qed (simp add: fetchSameKeyRows_def group_state_def)
next
  case False
  let ?x = "rows ! i" and ?tl = "drop (Suc i) rows"
  let ?P = "\<lambda>r. lexv nl (key_of keys ?x) (key_of keys r) = 0"
  have d: "drop i rows = ?x # ?tl" using False by (simp add: Cons_nth_drop_Suc)
  have sub: "set ?tl \<subseteq> set rows" "?x \<in> set rows" using False by (auto dest: in_set_dropD)
  have o: "value_order (lexv nl) (columns Cs)" using k lexv_order by (simp add: keyed_rows_def)
  have c: "key_of keys r \<in> columns Cs" "in_range keys r" if "r \<in> set rows" for r using k that by (simp_all add: keyed_rows_def)
  have "keysEqual nl ?x r keys = Ok (?P r)" if "r \<in> set ?tl" for r
    using k sub that by (intro keysEqual_key) (auto simp: keyed_rows_def)
  from same_key_takeWhile [OF this]
  have f: "fetchSameKeyRows nl rows keys i = Ok (Some (?x # takeWhile ?P ?tl), Suc i + length (takeWhile ?P ?tl))"
    using False by (simp add: fetchSameKeyRows_def)
  have r: "drop (Suc i + length (takeWhile ?P ?tl)) rows = dropWhile ?P ?tl"
    by (simp add: dropWhile_eq_drop add.commute)
  have "key_sorted nl keys (?x # ?tl)" unfolding d [symmetric] by (rule sorted_wrt_drop [OF s])
  then have "\<forall>r \<in> set (dropWhile ?P ?tl). lexv nl (key_of keys ?x) (key_of keys r) < 0"
    using sorted_after_group [OF o c(1) [OF sub(2)], of ?tl] c sub by blast
  moreover have "lexv nl (key_of keys r) (key_of keys ?x) = 0" if "r = ?x \<or> r \<in> set (takeWhile ?P ?tl)" for r
  proof (cases "r = ?x")
    case True
    then show ?thesis using value_order.cmp_refl [OF o] c sub by simp
  next
    case False
    then have "?P r" "r \<in> set rows" using that sub by (auto dest: set_takeWhileD)
    then show ?thesis using value_order.cmp_swap [OF o, of "key_of keys ?x" "key_of keys r"] c sub by simp
  qed
  ultimately show ?thesis using f r d False by (auto simp: group_state_def)
qed

end
