(* ===== verification/Hash_Table.thy ===== *)
theory Hash_Table
  imports Neo_Prelude "HOL-Library.Word"
begin

text \<open>
  The hash table of the package \<open>common\<close> under \<open>vendor/github.com/sealdb/mysqlstack\<close>, which keeps the rows of a
  union and the values of a distinct aggregate: a list of chains, and a map from the hash of a key to the
  index of its chain. Several values may be stored under one key.

  The locale \<open>multi_map\<close> is what its users rely on; the loop that keeps the first value of every key is
  proved there once.
\<close>

unbundle bit_operations_syntax

section \<open>The code\<close>

text \<open>\<open>fnv.New64a\<close>: the 64-bit FNV-1a hash.\<close>

definition hash64a :: "string \<Rightarrow> 64 word" where
  "hash64a data = foldl (\<lambda>h c. (h XOR of_char c) * 1099511628211) 14695981039346656037 data"

type_synonym 'a entry = "(string \<times> 'a list) list"

fun entry_put :: "'a entry \<Rightarrow> string \<Rightarrow> 'a \<Rightarrow> 'a entry" where
  "entry_put [] key val = [(key, [val])]"
| "entry_put ((k, vs) # e) key val = (if k = key then (k, vs @ [val]) # e else (k, vs) # entry_put e key val)"

fun entry_get :: "'a entry \<Rightarrow> string \<Rightarrow> 'a list option" where
  "entry_get [] key = None"
| "entry_get ((k, vs) # e) key = (if k = key then Some vs else entry_get e key)"

record 'a HashTable =
  ht_hashEntry :: "'a entry list"
  ht_hashMap :: "(64 word, nat) gomap"
  ht_size :: nat

definition NewHashTable :: "'a HashTable" where
  "NewHashTable = \<lparr>ht_hashEntry = [], ht_hashMap = [], ht_size = 0\<rparr>"

definition HashTable_Put :: "string \<Rightarrow> 'a \<Rightarrow> 'a HashTable \<Rightarrow> 'a HashTable" where
  "HashTable_Put key val h =
     (let bucket = hash64a key;
          h' = (case gm_get (ht_hashMap h) bucket of
                  None \<Rightarrow> h\<lparr>ht_hashMap := gm_put bucket (length (ht_hashEntry h)) (ht_hashMap h),
                            ht_hashEntry := ht_hashEntry h @ [[(key, [val])]]\<rparr>
                | Some index \<Rightarrow>
                    h\<lparr>ht_hashEntry := (ht_hashEntry h)[index := entry_put (ht_hashEntry h ! index) key val]\<rparr>)
      in h'\<lparr>ht_size := ht_size h' + 1\<rparr>)"

definition HashTable_Get :: "'a HashTable \<Rightarrow> string \<Rightarrow> 'a list option" where
  "HashTable_Get h key =
     (case gm_get (ht_hashMap h) (hash64a key) of None \<Rightarrow> None | Some index \<Rightarrow> entry_get (ht_hashEntry h ! index) key)"

text \<open>The iterator visits the chains in their order.\<close>

definition HashTable_items :: "'a HashTable \<Rightarrow> (string \<times> 'a list) list" where
  "HashTable_items h = concat (ht_hashEntry h)"

section \<open>The contract\<close>

locale multi_map =
  fixes inv :: "'h \<Rightarrow> bool" and emp :: 'h and put :: "string \<Rightarrow> 'a \<Rightarrow> 'h \<Rightarrow> 'h"
    and get :: "'h \<Rightarrow> string \<Rightarrow> 'a list option" and items :: "'h \<Rightarrow> (string \<times> 'a list) list" and sz :: "'h \<Rightarrow> nat"
  assumes inv_empty: "inv emp" and inv_put: "inv h \<Longrightarrow> inv (put k v h)"
    and get_empty: "get emp k = None"
    and get_put: "inv h \<Longrightarrow> get (put k v h) k' =
           (if k' = k then Some (case get h k of None \<Rightarrow> [v] | Some vs \<Rightarrow> vs @ [v]) else get h k')"
    and items_get: "inv h \<Longrightarrow> (k, vs) \<in> set (items h) \<longleftrightarrow> get h k = Some vs"
    and items_distinct: "inv h \<Longrightarrow> distinct (map fst (items h))"
    and size_empty: "sz emp = 0" and size_put: "inv h \<Longrightarrow> sz (put k v h) = Suc (sz h)"
begin

fun keep_first :: "('a \<Rightarrow> string) \<Rightarrow> 'a list \<Rightarrow> 'h \<Rightarrow> 'h" where
  "keep_first key [] h = h"
| "keep_first key (r # rs) h = keep_first key rs (if get h (key r) = None then put (key r) r h else h)"

lemma keep_first_inv: "inv h \<Longrightarrow> inv (keep_first key rs h)"
  by (induction rs arbitrary: h) (simp_all add: inv_put)

lemma keep_first_get:
  "inv h \<Longrightarrow> get (keep_first key rs h) k =
     (case get h k of Some vs \<Rightarrow> Some vs | None \<Rightarrow> map_option (\<lambda>r. [r]) (find (\<lambda>r. key r = k) rs))"
  by (induction rs arbitrary: h) (auto simp: inv_put get_put split: option.splits)

text \<open>The size counts one for every key.\<close>

lemma items_length: "inv h \<Longrightarrow> length (items h) = card {k. get h k \<noteq> None}"
proof -
  assume i: "inv h"
  have "fst ` set (items h) = {k. get h k \<noteq> None}" using items_get [OF i] by force
  then show ?thesis using distinct_card [OF items_distinct [OF i]] by simp
qed

lemma get_finite: "inv h \<Longrightarrow> finite {k. get h k \<noteq> None}"
proof -
  assume i: "inv h"
  have "{k. get h k \<noteq> None} = fst ` set (items h)" using items_get [OF i] by force
  then show ?thesis by simp
qed

lemma keep_first_size: "inv h \<Longrightarrow> sz h = length (items h) \<Longrightarrow> sz (keep_first key rs h) = length (items (keep_first key rs h))"
proof (induction rs arbitrary: h)
  case (Cons r rs)
  show ?case
  proof (cases "get h (key r) = None")
    case True
    have "{k. get (put (key r) r h) k \<noteq> None} = insert (key r) {k. get h k \<noteq> None}"
      using get_put [OF Cons.prems(1)] by auto
    then have "length (items (put (key r) r h)) = Suc (length (items h))"
      using True items_length [OF inv_put [OF Cons.prems(1)]] items_length [OF Cons.prems(1)] get_finite [OF Cons.prems(1)]
      by (simp add: card_insert_if)
    with True Cons.IH [OF inv_put [OF Cons.prems(1)]] Cons.prems show ?thesis by (simp add: size_put)
  qed (use Cons in auto)
qed simp

text \<open>Starting from the empty table: the first element of every key, each once.\<close>

lemma keep_first_items:
  "(k, vs) \<in> set (items (keep_first key rs emp)) \<longleftrightarrow> (\<exists>r. find (\<lambda>r. key r = k) rs = Some r \<and> vs = [r])"
  using items_get [OF keep_first_inv [OF inv_empty]] keep_first_get [OF inv_empty] by (auto simp: get_empty)

lemma keep_first_empty_size: "sz (keep_first key rs emp) = length (items (keep_first key rs emp))"
proof -
  have "p \<notin> set (items emp)" for p using items_get [OF inv_empty, of "fst p" "snd p"] get_empty by simp
  then have "items emp = []" by (meson last_in_set)
  then show ?thesis by (intro keep_first_size) (simp_all add: inv_empty size_empty)
qed

end

section \<open>The table fulfils it\<close>

definition ht_inv :: "'a HashTable \<Rightarrow> bool" where
  "ht_inv h \<longleftrightarrow>
     (\<forall>b i. gm_get (ht_hashMap h) b = Some i \<longrightarrow> i < length (ht_hashEntry h)) \<and>
     (\<forall>i < length (ht_hashEntry h). \<forall>kv \<in> set (ht_hashEntry h ! i). gm_get (ht_hashMap h) (hash64a (fst kv)) = Some i) \<and>
     (\<forall>e \<in> set (ht_hashEntry h). distinct (map fst e))"

lemma ht_inv_bound: "ht_inv h \<Longrightarrow> gm_get (ht_hashMap h) b = Some i \<Longrightarrow> i < length (ht_hashEntry h)"
  unfolding ht_inv_def by blast

lemma ht_inv_hash:
  "ht_inv h \<Longrightarrow> i < length (ht_hashEntry h) \<Longrightarrow> kv \<in> set (ht_hashEntry h ! i) \<Longrightarrow> gm_get (ht_hashMap h) (hash64a (fst kv)) = Some i"
  unfolding ht_inv_def by blast

lemma ht_inv_distinct: "ht_inv h \<Longrightarrow> i < length (ht_hashEntry h) \<Longrightarrow> distinct (map fst (ht_hashEntry h ! i))"
  unfolding ht_inv_def by simp

lemma entry_get_map_of: "entry_get e k = map_of e k"
  by (induction e) auto

lemma entry_put_map_of:
  "map_of (entry_put e k v) k' = (if k' = k then Some (case map_of e k of None \<Rightarrow> [v] | Some vs \<Rightarrow> vs @ [v]) else map_of e k')"
  by (induction e k v rule: entry_put.induct) auto

lemma entry_put_keys: "fst ` set (entry_put e k v) = insert k (fst ` set e)"
  by (induction e k v rule: entry_put.induct) auto

lemma entry_put_distinct: "distinct (map fst e) \<Longrightarrow> distinct (map fst (entry_put e k v))"
  by (induction e k v rule: entry_put.induct) (auto simp: entry_put_keys)

lemma HashTable_Put_inv:
  assumes "ht_inv h"
  shows "ht_inv (HashTable_Put k v h)"
proof (cases "gm_get (ht_hashMap h) (hash64a k)")
  case None
  have "hash64a (fst kv) \<noteq> hash64a k" if "i < length (ht_hashEntry h)" "kv \<in> set (ht_hashEntry h ! i)" for i kv
    using ht_inv_hash [OF assms that] None by auto
  with None assms show ?thesis
    by (auto simp: ht_inv_def HashTable_Put_def Let_def gomap_simps nth_append less_Suc_eq split: if_splits)
next
  case (Some j)
  then have j: "j < length (ht_hashEntry h)" by (rule ht_inv_bound [OF assms])
  have "gm_get (ht_hashMap h) (hash64a (fst kv)) = Some j" if "kv \<in> set (entry_put (ht_hashEntry h ! j) k v)" for kv
  proof -
    have "fst kv \<in> insert k (fst ` set (ht_hashEntry h ! j))" using that entry_put_keys [of "ht_hashEntry h ! j" k v] by blast
    then show ?thesis using Some ht_inv_hash [OF assms j] by auto
  qed
  moreover have "distinct (map fst (entry_put (ht_hashEntry h ! j) k v))"
    by (rule entry_put_distinct [OF ht_inv_distinct [OF assms j]])
  moreover have "set ((ht_hashEntry h)[j := x]) \<subseteq> insert x (set (ht_hashEntry h))" for x by (rule set_update_subset_insert)
  ultimately show ?thesis using Some assms
    by (auto simp: ht_inv_def HashTable_Put_def Let_def nth_list_update split: if_splits) blast
qed

lemma HashTable_Get_Put:
  assumes "ht_inv h"
  shows "HashTable_Get (HashTable_Put k v h) k' =
     (if k' = k then Some (case HashTable_Get h k of None \<Rightarrow> [v] | Some vs \<Rightarrow> vs @ [v]) else HashTable_Get h k')"
proof (cases "gm_get (ht_hashMap h) (hash64a k)")
  case None
  have "i < length (ht_hashEntry h)" if "gm_get (ht_hashMap h) (hash64a k') = Some i" for i
    by (rule ht_inv_bound [OF assms that])
  with None show ?thesis
    by (auto simp: HashTable_Get_def HashTable_Put_def Let_def gomap_simps entry_get_map_of nth_append split: option.splits)
next
  case (Some j)
  then have "j < length (ht_hashEntry h)" by (rule ht_inv_bound [OF assms])
  with Some show ?thesis
    by (auto simp: HashTable_Get_def HashTable_Put_def Let_def entry_get_map_of entry_put_map_of nth_upd split: option.splits)
qed

lemma HashTable_items_Get:
  assumes "ht_inv h"
  shows "(k, vs) \<in> set (HashTable_items h) \<longleftrightarrow> HashTable_Get h k = Some vs"
proof
  assume "(k, vs) \<in> set (HashTable_items h)"
  then obtain i where i: "i < length (ht_hashEntry h)" "(k, vs) \<in> set (ht_hashEntry h ! i)"
    unfolding HashTable_items_def set_concat by (metis UN_E in_set_conv_nth)
  then have "gm_get (ht_hashMap h) (hash64a k) = Some i" "distinct (map fst (ht_hashEntry h ! i))"
    using ht_inv_hash [OF assms i] ht_inv_distinct [OF assms i(1)] by simp_all
  with i show "HashTable_Get h k = Some vs" by (simp add: HashTable_Get_def entry_get_map_of)
next
  assume "HashTable_Get h k = Some vs"
  then obtain i where "gm_get (ht_hashMap h) (hash64a k) = Some i" "(k, vs) \<in> set (ht_hashEntry h ! i)"
    by (auto simp: HashTable_Get_def entry_get_map_of split: option.splits dest: map_of_SomeD)
  with ht_inv_bound [OF assms] nth_mem show "(k, vs) \<in> set (HashTable_items h)"
    unfolding HashTable_items_def by fastforce
qed

lemma distinct_concat_keys:
  assumes "\<forall>e \<in> set es. distinct (map fst e)"
    and "\<forall>i < length es. \<forall>kv \<in> set (es ! i). f (fst kv) = Some (i + n)"
  shows "distinct (map fst (concat es))"
  using assms
proof (induction es arbitrary: n)
  case (Cons e es)
  have ih: "\<forall>i < length es. \<forall>kv \<in> set (es ! i). f (fst kv) = Some (i + Suc n)" using Cons.prems(2) by fastforce
  have "f k = Some n" if "k \<in> fst ` set e" for k using Cons.prems(2) that by fastforce
  moreover have "\<exists>i. f k = Some (i + Suc n)" if k: "k \<in> fst ` set (concat es)" for k
  proof -
    obtain kv e' where "kv \<in> set e'" "e' \<in> set es" "k = fst kv" using k by auto
    then show ?thesis using ih by (metis in_set_conv_nth)
  qed
  ultimately have "fst ` set e \<inter> fst ` set (concat es) = {}" by fastforce
  moreover have "distinct (map fst (concat es))" by (rule Cons.IH [OF _ ih]) (use Cons.prems(1) in simp)
  ultimately show ?case using Cons.prems(1) by simp
qed simp

lemma NewHashTable_empty: "ht_inv NewHashTable" "HashTable_Get NewHashTable k = None" "ht_size NewHashTable = 0"
  by (simp_all add: ht_inv_def NewHashTable_def HashTable_Get_def)

lemma HashTable_Put_size: "ht_size (HashTable_Put k v h) = Suc (ht_size h)"
  by (simp add: HashTable_Put_def Let_def split: option.split)

lemma HashTable_items_distinct:
  assumes "ht_inv h"
  shows "distinct (map fst (HashTable_items h))"
  unfolding HashTable_items_def
  by (rule distinct_concat_keys [where n = 0 and f = "\<lambda>k. gm_get (ht_hashMap h) (hash64a k)"])
    (use assms in \<open>simp_all add: ht_inv_def\<close>)

interpretation hash_table: multi_map ht_inv NewHashTable HashTable_Put HashTable_Get HashTable_items ht_size
  by unfold_locales
    (fact NewHashTable_empty HashTable_Put_inv HashTable_Get_Put HashTable_items_Get HashTable_items_distinct | simp add: HashTable_Put_size)+

end
