(* ===== verification/Operators.thy ===== *)
theory Operators
  imports Row_Order Hash_Table Neo_Config
begin

text \<open>
  The operators that run on a result before it is returned, \<open>executor/engine/operator\<close>: aggregation, order-by
  and limit, with the child plans of \<open>planner/builder\<close> they read and the aggregation functions of \<open>sqltypes\<close>
  they call. The arithmetic of sums and averages is the argument \<open>Arith\<close>: what \<open>NullsafeSum\<close>,
  \<open>NullsafeAdd\<close>, \<open>NullsafeDiv\<close> and \<open>Cast\<close> make of two values, an error being \<open>None\<close>.
\<close>

section \<open>Child plans\<close>

datatype AggrType = AggrTypeNull | AggrTypeCount | AggrTypeSum | AggrTypeMin | AggrTypeMax | AggrTypeAvg | AggrTypeGroupBy

record Aggregator =
  ag_Field :: string
  ag_Index :: int
  ag_Type :: AggrType
  ag_Distinct :: bool

record AggregatePlan =
  ap_normalAggrs :: "Aggregator list"
  ap_groupAggrs :: "Aggregator list"
  ap_IsPushDown :: bool

definition AggregatePlan_Empty :: "AggregatePlan \<Rightarrow> bool" where
  "AggregatePlan_Empty p \<longleftrightarrow> ap_normalAggrs p = [] \<and> ap_groupAggrs p = []"

datatype Direction = ASC | DESC

record OrderBy =
  ob_Field :: string
  ob_Table :: string
  ob_Direction :: Direction

record OrderByPlan =
  op_OrderBys :: "OrderBy list"
  op_RemovedIdxs :: "int list"

text \<open>\<open>lp_rewritten\<close> is the row count of the limit clause that is sent to the backends.\<close>

record LimitPlan =
  lp_Offset :: int
  lp_Limit :: int
  lp_rewritten :: "string option"

datatype ChildPlan = ChildAggregate AggregatePlan | ChildOrderby OrderByPlan | ChildLimit LimitPlan

section \<open>Removing columns\<close>

definition remove_idxs :: "int list \<Rightarrow> 'a list \<Rightarrow> 'a list" where
  "remove_idxs idxs xs = map fst (filter (\<lambda>(_, i). int i \<notin> set idxs) (zip xs [0..<length xs]))"

definition RemoveColumns :: "int list \<Rightarrow> Result \<Rightarrow> Result" where
  "RemoveColumns idxs result =
     (if idxs = [] then result
      else result\<lparr>rs_Fields := map_option (remove_idxs idxs) (rs_Fields result),
                  rs_Rows := map (remove_idxs idxs) (rs_Rows result)\<rparr>)"

section \<open>Order by\<close>

fun find_field :: "OrderBy \<Rightarrow> nat \<Rightarrow> Field list \<Rightarrow> nat option" where
  "find_field orderby k [] = None"
| "find_field orderby k (f # flds) =
     (if f_Name f = ob_Field orderby \<and> (ob_Table orderby = [] \<or> ob_Table orderby = f_Table f) then Some k
      else find_field orderby (Suc k) flds)"

definition fields_of :: "Result \<Rightarrow> Field list" where
  "fields_of result = (case rs_Fields result of None \<Rightarrow> [] | Some flds \<Rightarrow> flds)"

definition no_field :: "OrderBy \<Rightarrow> go_error" where
  "no_field orderby = Errorf ''can.not.find.the.orderby.field[%s].direction.asc'' [ob_Field orderby]"

fun orderby_less :: "NumLib \<Rightarrow> Field list \<Rightarrow> OrderBy list \<Rightarrow> row \<Rightarrow> row \<Rightarrow> bool res" where
  "orderby_less nl flds [] r1 r2 = Ok True"
| "orderby_less nl flds (orderby # orderbys) r1 r2 =
     (case find_field orderby 0 flds of
        None \<Rightarrow> Err (no_field orderby)
      | Some idx \<Rightarrow>
          rbind (cell r1 (int idx)) (\<lambda>v1. rbind (cell r2 (int idx)) (\<lambda>v2. rbind (NullsafeCompare nl v1 v2) (\<lambda>cmp.
            if cmp = 0 then orderby_less nl flds orderbys r1 r2
            else Ok ((if ob_Direction orderby = DESC then - cmp else cmp) < 0)))))"

definition OrderBy_Execute :: "row sorter \<Rightarrow> NumLib \<Rightarrow> OrderByPlan \<Rightarrow> Result \<Rightarrow> Result res" where
  "OrderBy_Execute srt nl plan rs =
     rbind (srt (orderby_less nl (fields_of rs) (op_OrderBys plan)) (rs_Rows rs)) (\<lambda>rows.
       Ok (RemoveColumns (op_RemovedIdxs plan) (rs\<lparr>rs_Rows := rows\<rparr>)))"

section \<open>Limit\<close>

text \<open>\<open>LimitPlan.Build\<close>: both expressions have to be integer literals. Their sum wraps as a Go \<open>int\<close> does.\<close>

datatype limit_expr = LimitVal SQLVal | LimitOther

fun is_int_val :: "limit_expr option \<Rightarrow> bool" where
  "is_int_val None = True"
| "is_int_val (Some (LimitVal v)) = (sv_Type v = IntVal)"
| "is_int_val (Some LimitOther) = False"

fun limit_number :: "limit_expr option \<Rightarrow> int res" where
  "limit_number (Some (LimitVal v)) =
     (case atoi (sv_Val v) of Some i \<Rightarrow> Ok i | None \<Rightarrow> Err (Errorf ''strconv.ParseInt: parsing %q'' [sv_Val v]))"
| "limit_number _ = Ok 0"

definition NewLimitPlan :: LimitPlan where
  "NewLimitPlan = \<lparr>lp_Offset = 0, lp_Limit = 0, lp_rewritten = None\<rparr>"

definition LimitPlan_Build :: "(limit_expr option \<times> limit_expr option) option \<Rightarrow> LimitPlan res" where
  "LimitPlan_Build node =
     (case node of
        None \<Rightarrow> Ok NewLimitPlan
      | Some (offset, rowcount) \<Rightarrow>
          if \<not> (is_int_val offset \<and> is_int_val rowcount)
          then Err (Errorf ''unsupported: limit.offset.or.counts.must.be.IntVal'' [])
          else rbind (limit_number offset) (\<lambda>off. rbind (limit_number rowcount) (\<lambda>lim.
            Ok \<lparr>lp_Offset = off, lp_Limit = lim, lp_rewritten = Some (show_int (go_add off lim))\<rparr>)))"

definition Limit_Execute :: "LimitPlan \<Rightarrow> Result \<Rightarrow> Result res" where
  "Limit_Execute plan rs = Result_Limit (lp_Offset plan) (lp_Limit plan) rs"

section \<open>Aggregation functions\<close>

record Arith =
  ar_Sum :: "Value \<Rightarrow> Value \<Rightarrow> Typ \<Rightarrow> int \<Rightarrow> Value option"
  ar_Add :: "Value \<Rightarrow> Value \<Rightarrow> Typ \<Rightarrow> int \<Rightarrow> Value option"
  ar_Div :: "Value \<Rightarrow> Value \<Rightarrow> Typ \<Rightarrow> int \<Rightarrow> Value option"
  ar_Cast :: "Value \<Rightarrow> Typ \<Rightarrow> Value option"

record Aggregation =
  ga_distinct :: bool
  ga_index :: int
  ga_aggrTyp :: AggrType
  ga_fieldType :: Typ
  ga_isPushDown :: bool
  ga_prec :: int

record AggEvaluateContext =
  ec_count :: int
  ec_val :: Value
  ec_hasErr :: bool
  ec_buffer :: "unit HashTable"

definition NewAggregation :: "int \<Rightarrow> AggrType \<Rightarrow> bool \<Rightarrow> bool \<Rightarrow> Aggregation" where
  "NewAggregation index aggrTyp isDistinct isPushDown =
     \<lparr>ga_distinct = isDistinct, ga_index = index, ga_aggrTyp = aggrTyp, ga_fieldType = 0, ga_isPushDown = isPushDown, ga_prec = - 1\<rparr>"

definition InitEvalCtx :: "Aggregation \<Rightarrow> row option \<Rightarrow> AggEvaluateContext res" where
  "InitEvalCtx aggr x =
     rbind (case x of None \<Rightarrow> Ok NULL | Some r \<Rightarrow> cell r (ga_index aggr)) (\<lambda>v.
       let live = (\<not> ga_isPushDown aggr \<and> v_typ v \<noteq> Null) in
       Ok \<lparr>ec_count = (if live then 1 else 0), ec_val = v, ec_hasErr = False,
           ec_buffer = (if live \<and> ga_distinct aggr then HashTable_Put (v_val v) () NewHashTable else NewHashTable)\<rparr>)"

text \<open>The type, the length and the number of decimals that MySQL gives the column of an aggregate.\<close>

definition fix_avg :: "Field \<Rightarrow> Field" where
  "fix_avg f =
     (let len = f_ColumnLength f + 4; decimals = f_Decimals f + 4 in
      if IsIntegral (f_Type f) \<or> f_Type f = Decimal then
        f\<lparr>f_ColumnLength := len + (if IsUnsigned (f_Type f) then 1 else 0) + (if f_Decimals f = 0 then 1 else 0),
          f_Decimals := min 30 decimals, f_Type := Decimal\<rparr>
      else if IsFloat (f_Type f) then f\<lparr>f_ColumnLength := len, f_Decimals := min 31 decimals, f_Type := Float64\<rparr>
      else if IsTemporal (f_Type f) then f\<lparr>f_ColumnLength := len, f_Decimals := decimals, f_Type := Decimal\<rparr>
      else f\<lparr>f_ColumnLength := len, f_Decimals := 31, f_Type := Float64\<rparr>)"

definition fix_sum :: "Field \<Rightarrow> Field" where
  "fix_sum f =
     (if IsIntegral (f_Type f) \<or> f_Type f = Decimal then
        f\<lparr>f_ColumnLength := f_ColumnLength f + 22 + (if IsUnsigned (f_Type f) then 1 else 0), f_Type := Decimal\<rparr>
      else if IsFloat (f_Type f) then
        f\<lparr>f_ColumnLength := (if f_Decimals f < 31 then f_ColumnLength f + 15 + 2 else 23), f_Type := Float64\<rparr>
      else if IsTemporal (f_Type f) then f\<lparr>f_Type := Decimal\<rparr>
      else f\<lparr>f_Decimals := 31, f_ColumnLength := 23, f_Type := Float64\<rparr>)"

definition FixField :: "Aggregation \<Rightarrow> Field \<Rightarrow> Aggregation \<times> Field" where
  "FixField aggr field =
     (let f = (if \<not> ga_isPushDown aggr \<or> ga_aggrTyp aggr = AggrTypeAvg then
                 (case ga_aggrTyp aggr of
                    AggrTypeCount \<Rightarrow> field\<lparr>f_Decimals := 0, f_ColumnLength := 21, f_Type := Int64\<rparr>
                  | AggrTypeAvg \<Rightarrow> fix_avg field
                  | AggrTypeSum \<Rightarrow> fix_sum field
                  | _ \<Rightarrow> field)
               else field);
          prec = (if f_Type f = Decimal \<or> IsFloat (f_Type f) \<and> f_Decimals f < 31 then uint (f_Decimals f) else ga_prec aggr)
      in (aggr\<lparr>ga_prec := prec, ga_fieldType := f_Type f\<rparr>, f))"

definition set_val :: "AggEvaluateContext \<Rightarrow> Value option \<Rightarrow> AggEvaluateContext" where
  "set_val c v = (case v of Some v \<Rightarrow> c\<lparr>ec_val := v\<rparr> | None \<Rightarrow> c\<lparr>ec_val := NULL, ec_hasErr := True\<rparr>)"

definition Aggregation_Update :: "NumLib \<Rightarrow> Arith \<Rightarrow> Aggregation \<Rightarrow> row \<Rightarrow> AggEvaluateContext \<Rightarrow> AggEvaluateContext res" where
  "Aggregation_Update nl ar aggr x c =
     (if ec_hasErr c then Ok c
      else rbind (cell x (ga_index aggr)) (\<lambda>v.
        if v_typ v = Null then Ok c
        else if \<not> ga_isPushDown aggr \<and> ga_distinct aggr \<and> HashTable_Get (ec_buffer c) (v_val v) \<noteq> None then Ok c
        else
          let c1 = (if \<not> ga_isPushDown aggr \<and> ga_distinct aggr
                    then c\<lparr>ec_buffer := HashTable_Put (v_val v) () (ec_buffer c)\<rparr> else c);
              inc = c1\<lparr>ec_count := ec_count c1 + 1\<rparr>
          in case ga_aggrTyp aggr of
               AggrTypeMin \<Rightarrow> rbind (Value_Min nl (ec_val c1) v) (\<lambda>m. Ok (c1\<lparr>ec_val := m\<rparr>))
             | AggrTypeMax \<Rightarrow> rbind (Value_Max nl (ec_val c1) v) (\<lambda>m. Ok (c1\<lparr>ec_val := m\<rparr>))
             | AggrTypeSum \<Rightarrow> Ok (set_val inc (ar_Sum ar (ec_val c1) v (ga_fieldType aggr) (ga_prec aggr)))
             | AggrTypeCount \<Rightarrow>
                 if ga_isPushDown aggr then Ok (set_val c1 (ar_Add ar (ec_val c1) v (ga_fieldType aggr) (ga_prec aggr))) else Ok inc
             | AggrTypeAvg \<Rightarrow>
                 if ga_isPushDown aggr then Ok c1
                 else Ok (set_val inc (ar_Sum ar (ec_val c1) v (ga_fieldType aggr) (ga_prec aggr)))
             | _ \<Rightarrow> Ok c1))"

definition zero_of :: "Aggregation \<Rightarrow> Value" where
  "zero_of aggr = MakeTrusted (ga_fieldType aggr) ''0''"

definition GetResult :: "Arith \<Rightarrow> Aggregation \<Rightarrow> AggEvaluateContext \<Rightarrow> Value" where
  "GetResult ar aggr c =
     (if ec_hasErr c then zero_of aggr
      else case ga_aggrTyp aggr of
        AggrTypeAvg \<Rightarrow>
          if ga_isPushDown aggr then NULL
          else (case ar_Div ar (ec_val c) (NewInt64 (ec_count c)) (ga_fieldType aggr) (ga_prec aggr) of
                  Some v \<Rightarrow> v | None \<Rightarrow> zero_of aggr)
      | AggrTypeMax \<Rightarrow> ec_val c
      | AggrTypeMin \<Rightarrow> ec_val c
      | AggrTypeSum \<Rightarrow> (case ar_Cast ar (ec_val c) (ga_fieldType aggr) of Some v \<Rightarrow> v | None \<Rightarrow> zero_of aggr)
      | AggrTypeCount \<Rightarrow> if ga_isPushDown aggr then ec_val c else NewInt64 (ec_count c)
      | _ \<Rightarrow> NULL)"

definition NewAggEvalCtxs :: "Aggregation list \<Rightarrow> row option \<Rightarrow> AggEvaluateContext list res" where
  "NewAggEvalCtxs aggrs x = rmapM (\<lambda>aggr. InitEvalCtx aggr x) aggrs"

text \<open>An assignment \<open>row[i] = v\<close>.\<close>

definition set_cell :: "'a list \<Rightarrow> int \<Rightarrow> 'a \<Rightarrow> 'a list res" where
  "set_cell row i v = (if 0 \<le> i \<and> i < int (length row) then Ok (row[nat i := v]) else Panic ''index out of range'')"

text \<open>
  A pushed down average stands before its sum and its count, which are skipped. The lists of functions
  and of contexts have one length; the recursion follows both.
\<close>

fun GetResults :: "Arith \<Rightarrow> Aggregation list \<Rightarrow> AggEvaluateContext list \<Rightarrow> row \<Rightarrow> int list \<Rightarrow> (row \<times> int list) res" where
  "GetResults ar [] ctxs x deIdxs = Ok (x, deIdxs)"
| "GetResults ar (aggr # aggrs) [] x deIdxs = Panic ''index out of range''"
| "GetResults ar (aggr # aggrs) (c # ctxs) x deIdxs =
     (if ga_isPushDown aggr \<and> ga_aggrTyp aggr = AggrTypeAvg then
        (case ctxs of
           c1 # c2 # ctxs' \<Rightarrow>
             rbind (set_cell x (ga_index aggr)
                 (case ar_Div ar (ec_val c1) (ec_val c2) (ga_fieldType aggr) (ga_prec aggr) of Some v \<Rightarrow> v | None \<Rightarrow> zero_of aggr)) (\<lambda>x'.
               GetResults ar (drop 2 aggrs) ctxs' x' (deIdxs @ [ga_index aggr + 1]))
         | _ \<Rightarrow> Panic ''index out of range'')
      else rbind (set_cell x (ga_index aggr) (GetResult ar aggr c)) (\<lambda>x'. GetResults ar aggrs ctxs x' deIdxs))"

section \<open>The aggregate operator\<close>

text \<open>\<open>FixField\<close> changes the field in place, so the next function sees the change.\<close>

fun fix_fields :: "bool \<Rightarrow> Aggregator list \<Rightarrow> Field list \<Rightarrow> (Aggregation list \<times> Field list) res" where
  "fix_fields isPushDown [] flds = Ok ([], flds)"
| "fix_fields isPushDown (p # ps) flds =
     rbind (cell flds (ag_Index p)) (\<lambda>field.
       let (aggr, field') = FixField (NewAggregation (ag_Index p) (ag_Type p) (ag_Distinct p) isPushDown) field in
       rbind (fix_fields isPushDown ps (flds[nat (ag_Index p) := field'])) (\<lambda>(aggrs, flds').
         Ok (aggr # aggrs, flds')))"

fun update_all :: "NumLib \<Rightarrow> Arith \<Rightarrow> Aggregation list \<Rightarrow> row \<Rightarrow> AggEvaluateContext list \<Rightarrow> AggEvaluateContext list res" where
  "update_all nl ar (aggr # aggrs) x (c # ctxs) =
     rbind (Aggregation_Update nl ar aggr x c) (\<lambda>c'. rbind (update_all nl ar aggrs x ctxs) (\<lambda>ctxs'. Ok (c' # ctxs')))"
| "update_all nl ar _ x ctxs = Ok ctxs"

text \<open>The groups, the last one first.\<close>

fun group_rows ::
  "NumLib \<Rightarrow> Arith \<Rightarrow> Aggregation list \<Rightarrow> int list \<Rightarrow> row list \<Rightarrow> (row \<times> AggEvaluateContext list) list \<Rightarrow>
   (row \<times> AggEvaluateContext list) list res" where
  "group_rows nl ar aggrs keys [] groups = Ok groups"
| "group_rows nl ar aggrs keys (r # rows) [] =
     rbind (NewAggEvalCtxs aggrs (Some r)) (\<lambda>ctxs. group_rows nl ar aggrs keys rows [(r, ctxs)])"
| "group_rows nl ar aggrs keys (r # rows) ((g, ctxs) # groups) =
     rbind (keysEqual nl g r keys) (\<lambda>equal.
       if equal then rbind (update_all nl ar aggrs r ctxs) (\<lambda>ctxs'. group_rows nl ar aggrs keys rows ((g, ctxs') # groups))
       else rbind (NewAggEvalCtxs aggrs (Some r)) (\<lambda>ctxs'. group_rows nl ar aggrs keys rows ((r, ctxs') # (g, ctxs) # groups)))"

fun last_idxs :: "(row \<times> int list) list \<Rightarrow> int list" where
  "last_idxs [] = []"
| "last_idxs xs = snd (last xs)"

definition Aggregate_Execute :: "row sorter \<Rightarrow> NumLib \<Rightarrow> Arith \<Rightarrow> AggregatePlan \<Rightarrow> Result \<Rightarrow> Result res" where
  "Aggregate_Execute srt nl ar plan result =
     (if AggregatePlan_Empty plan then Ok result
      else
        let keys = map ag_Index (ap_groupAggrs plan) in
        rbind (if keys \<noteq> [] then srt (rows_less nl keys) (rs_Rows result) else Ok (rs_Rows result)) (\<lambda>rows.
        rbind (fix_fields (ap_IsPushDown plan) (ap_normalAggrs plan) (fields_of result)) (\<lambda>(aggrs, flds).
        rbind (group_rows nl ar aggrs keys rows []) (\<lambda>groups.
        rbind (rmapM (\<lambda>(g, ctxs). GetResults ar aggrs ctxs g []) (rev groups)) (\<lambda>outs.
        rbind (if groups = [] \<and> ap_normalAggrs plan \<noteq> []
               then rbind (NewAggEvalCtxs aggrs None) (\<lambda>ctxs.
                      rbind (GetResults ar aggrs ctxs (replicate (length flds) NULL) []) (\<lambda>out. Ok [out]))
               else Ok outs) (\<lambda>outs'.
          Ok (RemoveColumns (last_idxs outs')
               (result\<lparr>rs_Fields := map_option (\<lambda>_. flds) (rs_Fields result), rs_Rows := map fst outs'\<rparr>))))))))"

section \<open>All operators of a node\<close>

fun ExecSubPlan :: "row sorter \<Rightarrow> NumLib \<Rightarrow> Arith \<Rightarrow> ChildPlan list \<Rightarrow> Result \<Rightarrow> Result res" where
  "ExecSubPlan srt nl ar [] rs = Ok rs"
| "ExecSubPlan srt nl ar (subPlan # subPlans) rs =
     rbind (case subPlan of
              ChildAggregate p \<Rightarrow> Aggregate_Execute srt nl ar p rs
            | ChildOrderby p \<Rightarrow> OrderBy_Execute srt nl p rs
            | ChildLimit p \<Rightarrow> Limit_Execute p rs) (ExecSubPlan srt nl ar subPlans)"

end
