(* ===== verification/Engines.thy ===== *)
theory Engines
  imports Merge_Join Operators Txn
begin

text \<open>
  The engines that execute the plan of a \<open>select\<close> or a \<open>union\<close>, \<open>executor/engine\<close>: one for a node that is
  pushed down to the backends, one for a join and one for a union. They run inside a transaction, so every
  operation is a step of it. A query template (\<open>sqlparser.ParsedQuery\<close>) is what it is used for: a function from
  the bind variables to a query or an error. The two inputs of a join or of a union run one after the other; the
  outcome is that of \<open>errgroup\<close> when the left one fails first. An engine writes the queries it generates
  into its node before it sends them, and generates all of them anew on every call: the model keeps the node.
\<close>

section \<open>Plans\<close>

type_synonym bind_vars = "(string, Value) gomap"
type_synonym ParsedQuery = "bind_vars \<Rightarrow> string res"

record MergeNode =
  mn_Sel :: string
  mn_children :: "ChildPlan list"
  mn_Querys :: "QueryTuple list"
  mn_ParsedQuerys :: "ParsedQuery list"
  mn_FieldQuery :: ParsedQuery
  mn_ReqMode :: RequestMode

record UnionNode =
  un_Typ :: string
  un_children :: "ChildPlan list"

datatype PlanNode =
    PlanMerge MergeNode
  | PlanJoin JoinNode "ChildPlan list" PlanNode PlanNode
  | PlanUnion UnionNode PlanNode PlanNode

text \<open>What the engines take from elsewhere: \<open>sort.Slice\<close>, the arithmetic of values and \<open>MaxJoinRows\<close>.\<close>

record EngineLib =
  el_sort :: "row sorter"
  el_nl :: NumLib
  el_ar :: Arith
  el_maxrow :: int

definition el_sub :: "EngineLib \<Rightarrow> ChildPlan list \<Rightarrow> Result \<Rightarrow> Result res" where
  "el_sub el = ExecSubPlan (el_sort el) (el_nl el) (el_ar el)"

section \<open>Steps\<close>

definition step_bind :: "'a txn_step \<Rightarrow> ('a \<Rightarrow> Txn \<Rightarrow> World \<Rightarrow> 'b txn_step) \<Rightarrow> 'b txn_step" where
  "step_bind s k =
     (case s of (t, w, Ok x) \<Rightarrow> k x t w | (t, w, Err e) \<Rightarrow> (t, w, Err e) | (t, w, Panic p) \<Rightarrow> (t, w, Panic p))"

definition step_res :: "'a res \<Rightarrow> Txn \<Rightarrow> World \<Rightarrow> 'a txn_step" where
  "step_res r t w = (t, w, r)"

text \<open>The two goroutines of an \<open>errgroup\<close>: both run, a panic ends the program.\<close>

definition both ::
  "(Txn \<Rightarrow> World \<Rightarrow> 'a txn_step) \<Rightarrow> (Txn \<Rightarrow> World \<Rightarrow> 'b txn_step) \<Rightarrow> Txn \<Rightarrow> World \<Rightarrow> ('a \<times> 'b) txn_step" where
  "both f g txn w =
     (case f txn w of
        (t1, w1, Panic p) \<Rightarrow> (t1, w1, Panic p)
      | (t1, w1, Ok a) \<Rightarrow> step_bind (g t1 w1) (\<lambda>b. step_res (Ok (a, b)))
      | (t1, w1, Err e) \<Rightarrow>
          (case g t1 w1 of
             (t2, w2, Panic p) \<Rightarrow> (t2, w2, Panic p)
           | (t2, w2, _) \<Rightarrow> (t2, w2, Err e)))"

section \<open>The engine of a pushed-down node\<close>

definition merge_request :: "MergeNode \<Rightarrow> RequestContext" where
  "merge_request node =
     (let req = NewRequestContext\<lparr>rq_Mode := mn_ReqMode node, rq_TxnMode := TxnRead\<rparr> in
      if mn_ReqMode node = ReqNormal then req\<lparr>rq_Querys := mn_Querys node\<rparr> else req\<lparr>rq_RawQuery := mn_Sel node\<rparr>)"

definition read_request :: "QueryTuple list \<Rightarrow> RequestContext" where
  "read_request querys = NewRequestContext\<lparr>rq_Mode := ReqNormal, rq_TxnMode := TxnRead, rq_Querys := querys\<rparr>"

definition Merge_Execute :: "Backends \<Rightarrow> EngineLib \<Rightarrow> MergeNode \<Rightarrow> Txn \<Rightarrow> World \<Rightarrow> Result txn_step" where
  "Merge_Execute be el node txn w =
     step_bind (Txn_Execute be (merge_request node) txn w) (\<lambda>r. step_res (el_sub el (mn_children node) r))"

fun bind_querys :: "ParsedQuery list \<Rightarrow> QueryTuple list \<Rightarrow> bind_vars \<Rightarrow> QueryTuple list res" where
  "bind_querys [] querys bindVars = Ok querys"
| "bind_querys (p # ps) querys bindVars =
     rbind (p bindVars) (\<lambda>query.
       case querys of
         [] \<Rightarrow> Panic ''index out of range''
       | q # qs \<Rightarrow> rbind (bind_querys ps qs bindVars) (\<lambda>qs'. Ok (q\<lparr>qt_Query := query\<rparr> # qs')))"

definition Merge_execBindVars :: "Backends \<Rightarrow> EngineLib \<Rightarrow> MergeNode \<Rightarrow> bind_vars \<Rightarrow> Txn \<Rightarrow> World \<Rightarrow> Result txn_step" where
  "Merge_execBindVars be el node bindVars txn w =
     step_bind (step_res (bind_querys (mn_ParsedQuerys node) (mn_Querys node) bindVars) txn w) (\<lambda>querys txn w.
     step_bind (Txn_Execute be (read_request querys) txn w) (\<lambda>r. step_res (el_sub el (mn_children node) r)))"

definition Merge_getFields :: "Backends \<Rightarrow> MergeNode \<Rightarrow> bind_vars \<Rightarrow> Txn \<Rightarrow> World \<Rightarrow> Result txn_step" where
  "Merge_getFields be node bindVars txn w =
     (if mn_Querys node = [] then (txn, w, Panic ''index out of range'')
      else step_bind (step_res (mn_FieldQuery node bindVars) txn w) (\<lambda>query.
        Txn_Execute be (read_request [(last (mn_Querys node))\<lparr>qt_Query := query\<rparr>])))"

section \<open>Joining fields and variables\<close>

definition joinFields :: "Field list \<Rightarrow> Field list \<Rightarrow> int list \<Rightarrow> Field list res" where
  "joinFields lfields rfields cols =
     rmapM (\<lambda>index. if index < 0 then cell lfields (- index - 1) else cell rfields (index - 1)) cols"

definition combineVars :: "bind_vars \<Rightarrow> bind_vars \<Rightarrow> bind_vars" where
  "combineVars bv1 bv2 = foldl (\<lambda>out (k, v). gm_put k v out) (foldl (\<lambda>out (k, v). gm_put k v out) [] bv1) bv2"

definition set_fields :: "Field list res \<Rightarrow> Result \<Rightarrow> Result res" where
  "set_fields flds res = rbind flds (\<lambda>fs. Ok (res\<lparr>rs_Fields := Some fs\<rparr>))"

text \<open>The variables of the right side, from the row of the left one.\<close>

definition row_vars :: "JoinNode \<Rightarrow> row \<Rightarrow> bind_vars res" where
  "row_vars node lrow = rmapM (\<lambda>(k, col). rbind (cell lrow col) (\<lambda>v. Ok (k, v))) (jn_Vars node)"

definition null_vars :: "JoinNode \<Rightarrow> bind_vars" where
  "null_vars node = map (\<lambda>(k, _). (k, NULL)) (jn_Vars node)"

section \<open>The field information of a plan\<close>

primrec getFields :: "PlanNode \<Rightarrow> Backends \<Rightarrow> bind_vars \<Rightarrow> Txn \<Rightarrow> World \<Rightarrow> Result txn_step" where
  "getFields (PlanMerge node) be bindVars = Merge_getFields be node bindVars"
| "getFields (PlanJoin node children l r) be bindVars = (\<lambda>txn w.
     step_bind (getFields l be bindVars txn w) (\<lambda>lres txn w.
     step_bind (getFields r be bindVars txn w) (\<lambda>rres.
       step_res (set_fields (joinFields (fields_of lres) (fields_of rres) (jn_Cols node)) empty_Result))))"
| "getFields (PlanUnion node l r) be bindVars = step_res (Err (Errorf ''UnionEngine.getFields: unreachable'' []))"

section \<open>The nested loop\<close>

text \<open>The right rows of one left row; \<open>matchCnt\<close> counts them.\<close>

fun nest_right :: "JoinNode \<Rightarrow> int \<Rightarrow> row \<Rightarrow> row list \<Rightarrow> Result \<Rightarrow> nat \<Rightarrow> (Result \<times> nat) res" where
  "nest_right node maxrow lrow [] res matchCnt = Ok (res, matchCnt)"
| "nest_right node maxrow lrow (rrow # rrows) res matchCnt =
     rbind (right_null rrow (jn_RightTmpCols node)) (\<lambda>ok.
       if ok then
         rbind (joinRows lrow (Some rrow) (jn_Cols node)) (\<lambda>r. rbind (add_row maxrow r res) (\<lambda>res'.
           nest_right node maxrow lrow rrows res' (Suc matchCnt)))
       else nest_right node maxrow lrow rrows res (Suc matchCnt))"

definition nest_row :: "JoinNode \<Rightarrow> int \<Rightarrow> row \<Rightarrow> row list \<Rightarrow> Result \<Rightarrow> Result res" where
  "nest_row node maxrow lrow rrows res =
     rbind (nest_right node maxrow lrow rrows res 0) (\<lambda>(res', matchCnt).
       if matchCnt = 0 then concatLeftAndNil node maxrow [lrow] res' else Ok res')"

text \<open>The loop over the left rows. \<open>right\<close> executes the right side for given variables.\<close>

fun nest_loop ::
  "EngineLib \<Rightarrow> JoinNode \<Rightarrow> (bind_vars \<Rightarrow> bool \<Rightarrow> Txn \<Rightarrow> World \<Rightarrow> Result txn_step) \<Rightarrow> Field list \<Rightarrow> bind_vars \<Rightarrow>
   row list \<Rightarrow> bool \<Rightarrow> Result \<Rightarrow> Txn \<Rightarrow> World \<Rightarrow> (bool \<times> Result) txn_step" where
  "nest_loop el node right lfields bindVars [] wantfields res txn w = (txn, w, Ok (wantfields, res))"
| "nest_loop el node right lfields bindVars (lrow # lrows) wantfields res txn w =
     step_bind (step_res (left_match (el_nl el) lrow (jn_LeftTmpCols node)) txn w) (\<lambda>leftMatch txn w.
       if leftMatch then
         step_bind (step_res (row_vars node lrow) txn w) (\<lambda>joinVars txn w.
         step_bind (right (combineVars bindVars joinVars) wantfields txn w) (\<lambda>rres txn w.
         step_bind (step_res (if wantfields then set_fields (joinFields lfields (fields_of rres) (jn_Cols node)) res
                              else Ok res) txn w) (\<lambda>res1 txn w.
         step_bind (step_res (nest_row node (el_maxrow el) lrow (rs_Rows rres) res1) txn w) (\<lambda>res2.
           nest_loop el node right lfields bindVars lrows False res2))))
       else
         step_bind (step_res (concatLeftAndNil node (el_maxrow el) [lrow] res) txn w) (\<lambda>res1.
           nest_loop el node right lfields bindVars lrows wantfields res1))"

primrec execBindVars :: "PlanNode \<Rightarrow> Backends \<Rightarrow> EngineLib \<Rightarrow> bind_vars \<Rightarrow> bool \<Rightarrow> Txn \<Rightarrow> World \<Rightarrow> Result txn_step" where
  "execBindVars (PlanMerge node) be el bindVars wantfields = Merge_execBindVars be el node bindVars"
| "execBindVars (PlanJoin node children l r) be el bindVars wantfields = (\<lambda>txn w.
     step_bind (execBindVars l be el bindVars wantfields txn w) (\<lambda>lres txn w.
     step_bind (nest_loop el node (execBindVars r be el) (fields_of lres) bindVars (rs_Rows lres) wantfields
                  empty_Result txn w) (\<lambda>(want, res) txn w.
       if want then
         step_bind (getFields r be (combineVars bindVars (null_vars node)) txn w) (\<lambda>rres.
           step_res (set_fields (joinFields (fields_of lres) (fields_of rres) (jn_Cols node)) res))
       else (txn, w, Ok res))))"
| "execBindVars (PlanUnion node l r) be el bindVars wantfields =
     step_res (Err (Errorf ''UnionEngine.execBindVars: unreachable'' []))"

section \<open>Execution of a plan\<close>

text \<open>What a join makes of the two results when it is not a nested loop.\<close>

definition join_results :: "EngineLib \<Rightarrow> JoinNode \<Rightarrow> ChildPlan list \<Rightarrow> Result \<Rightarrow> Result \<Rightarrow> Result res" where
  "join_results el node children lres rres =
     rbind (set_fields (joinFields (fields_of lres) (fields_of rres) (jn_Cols node)) empty_Result) (\<lambda>res.
       if rs_Rows lres = [] then Ok res
       else
         rbind (if rs_Rows rres = [] then concatLeftAndNil node (el_maxrow el) (rs_Rows lres) res
                else case jn_Strategy node of
                       SortMerge \<Rightarrow> sortMergeJoin (el_sort el) (el_nl el) node (el_maxrow el) lres rres res
                     | Cartesian \<Rightarrow> cartesianProduct node (el_maxrow el) lres rres res
                     | NestLoop \<Rightarrow> Ok res) (el_sub el children))"

text \<open>The key of a row in the table of a distinct union: its raw values one after the other.\<close>

definition union_key :: "row \<Rightarrow> string" where
  "union_key row = concat (map v_val row)"

fun union_table :: "row list \<Rightarrow> row HashTable \<Rightarrow> row HashTable" where
  "union_table [] table = table"
| "union_table (r # rows) table =
     union_table rows (if HashTable_Get table (union_key r) = None then HashTable_Put (union_key r) r table else table)"

definition union_rows :: "UnionNode \<Rightarrow> Result \<Rightarrow> Result \<Rightarrow> Result" where
  "union_rows node all res =
     (if un_Typ node = ''union distinct'' \<or> un_Typ node = ''union''
      then let table = union_table (rs_Rows all) NewHashTable in
           res\<lparr>rs_Rows := map (hd \<circ> snd) (HashTable_items table), rs_RowsAffected := of_nat (ht_size table)\<rparr>
      else res\<lparr>rs_Rows := rs_Rows all, rs_RowsAffected := rs_RowsAffected all\<rparr>)"

definition union_results :: "EngineLib \<Rightarrow> UnionNode \<Rightarrow> Result \<Rightarrow> Result \<Rightarrow> Result res" where
  "union_results el node lres rres =
     (if fields_len (rs_Fields lres) \<noteq> fields_len (rs_Fields rres)
      then Err (Errorf ''unsupported: the.used.'select'.statements.have.a.different.number.of.columns'' [])
      else
        let res = empty_Result\<lparr>rs_Fields := rs_Fields lres\<rparr>; all = AppendResult lres rres in
        if rs_Rows all = [] then Ok res else el_sub el (un_children node) (union_rows node all res))"

primrec Engine_Execute :: "PlanNode \<Rightarrow> Backends \<Rightarrow> EngineLib \<Rightarrow> Txn \<Rightarrow> World \<Rightarrow> Result txn_step" where
  "Engine_Execute (PlanMerge node) be el = Merge_Execute be el node"
| "Engine_Execute (PlanJoin node children l r) be el = (\<lambda>txn w.
     if jn_Strategy node = NestLoop
     then step_bind (execBindVars (PlanJoin node children l r) be el [] True txn w) (\<lambda>res.
            step_res (el_sub el children res))
     else step_bind (both (Engine_Execute l be el) (Engine_Execute r be el) txn w) (\<lambda>(lres, rres).
            step_res (join_results el node children lres rres)))"
| "Engine_Execute (PlanUnion node l r) be el = (\<lambda>txn w.
     step_bind (both (Engine_Execute l be el) (Engine_Execute r be el) txn w) (\<lambda>(lres, rres).
       step_res (union_results el node lres rres)))"

section \<open>Executors of the statements\<close>

text \<open>
  The plans of statements that are sent as they are carry a mode, the queries and the raw query. Which
  transaction mode the executor chooses depends on the kind of the plan.
\<close>

record SendPlan =
  sp_ReqMode :: RequestMode
  sp_Querys :: "QueryTuple list"
  sp_RawQuery :: string

datatype Plan =
    InsertPlan SendPlan | DeletePlan SendPlan | UpdatePlan SendPlan | DDLPlan SendPlan | OthersPlan SendPlan
  | SelectPlan PlanNode | UnionPlan PlanNode

definition send_request :: "TxnMode \<Rightarrow> SendPlan \<Rightarrow> RequestContext" where
  "send_request mode plan =
     NewRequestContext\<lparr>rq_Mode := sp_ReqMode plan, rq_TxnMode := mode, rq_Querys := sp_Querys plan, rq_RawQuery := sp_RawQuery plan\<rparr>"

definition Insert_Execute :: "Backends \<Rightarrow> SendPlan \<Rightarrow> Txn \<Rightarrow> World \<Rightarrow> Result txn_step" where
  "Insert_Execute be plan = Txn_Execute be (send_request TxnWrite plan)"

definition Delete_Execute :: "Backends \<Rightarrow> SendPlan \<Rightarrow> Txn \<Rightarrow> World \<Rightarrow> Result txn_step" where
  "Delete_Execute be plan = Txn_Execute be (send_request TxnWrite plan)"

definition Update_Execute :: "Backends \<Rightarrow> SendPlan \<Rightarrow> Txn \<Rightarrow> World \<Rightarrow> Result txn_step" where
  "Update_Execute be plan = Txn_Execute be (send_request TxnWrite plan)"

definition DDL_Execute :: "Backends \<Rightarrow> SendPlan \<Rightarrow> Txn \<Rightarrow> World \<Rightarrow> Result txn_step" where
  "DDL_Execute be plan = Txn_Execute be (send_request TxnNone plan)"

definition Others_Execute :: "Backends \<Rightarrow> SendPlan \<Rightarrow> Txn \<Rightarrow> World \<Rightarrow> Result txn_step" where
  "Others_Execute be plan = Txn_Execute be (send_request TxnRead plan)"

definition Select_Execute :: "Backends \<Rightarrow> EngineLib \<Rightarrow> PlanNode \<Rightarrow> Txn \<Rightarrow> World \<Rightarrow> Result txn_step" where
  "Select_Execute be el node = Engine_Execute node be el"

definition Union_Execute :: "Backends \<Rightarrow> EngineLib \<Rightarrow> PlanNode \<Rightarrow> Txn \<Rightarrow> World \<Rightarrow> Result txn_step" where
  "Union_Execute be el node = Engine_Execute node be el"

definition Executor_Execute :: "Backends \<Rightarrow> EngineLib \<Rightarrow> Plan \<Rightarrow> Txn \<Rightarrow> World \<Rightarrow> Result txn_step" where
  "Executor_Execute be el plan =
     (case plan of
        InsertPlan p \<Rightarrow> Insert_Execute be p
      | DeletePlan p \<Rightarrow> Delete_Execute be p
      | UpdatePlan p \<Rightarrow> Update_Execute be p
      | DDLPlan p \<Rightarrow> DDL_Execute be p
      | OthersPlan p \<Rightarrow> Others_Execute be p
      | SelectPlan node \<Rightarrow> Select_Execute be el node
      | UnionPlan node \<Rightarrow> Union_Execute be el node)"

lemmas executor_defs = Insert_Execute_def Delete_Execute_def Update_Execute_def DDL_Execute_def Others_Execute_def
  Select_Execute_def Union_Execute_def Executor_Execute_def

text \<open>\<open>Tree.Execute\<close>: every plan runs, the result of the last one is returned.\<close>

fun Tree_Execute :: "Backends \<Rightarrow> EngineLib \<Rightarrow> Plan list \<Rightarrow> Result option \<Rightarrow> Txn \<Rightarrow> World \<Rightarrow> Result option txn_step" where
  "Tree_Execute be el [] res txn w = (txn, w, Ok res)"
| "Tree_Execute be el (p # ps) res txn w =
     step_bind (Executor_Execute be el p txn w) (\<lambda>r. Tree_Execute be el ps (Some r))"

end
