(* ===== verification/Planner.thy ===== *)
theory Planner
  imports Sql_Stmt Engines
begin

text \<open>
  The plans of statements that are rewritten and sent, package \<open>planner\<close>: \<open>insert_plan.go\<close>, \<open>delete_plan.go\<close>,
  \<open>update_plan.go\<close>, \<open>ddl_plan.go\<close>, \<open>others_plan.go\<close> and \<open>common.go\<close>. \<open>Build\<close> finds the segments of a statement and
  makes one query of each; it returns the queries or the error. A \<open>delete\<close> of one table has a table name as its only
  table expression.
\<close>

section \<open>Common checks and rewrites\<close>

definition is_Subquery :: "Expr \<Rightarrow> bool" where
  "is_Subquery e = (case e of Subquery _ _ \<Rightarrow> True | _ \<Rightarrow> False)"

definition hasSubquery :: "Expr list \<Rightarrow> bool" where
  "hasSubquery es = list_ex is_Subquery (walk_list es)"

fun isUpdateShardKey :: "UpdateExpr list \<Rightarrow> string \<Rightarrow> bool" where
  "isUpdateShardKey [] shardkey = False"
| "isUpdateShardKey ((c, _) # es) shardkey =
     (shardkey \<noteq> [] \<and> ColIdent_EqualString (cn_Name c) shardkey \<or> isUpdateShardKey es shardkey)"

definition bad_field :: "string \<Rightarrow> string \<Rightarrow> 'a res" where
  "bad_field field suffix = Err (SQLError (ER_OTHER 1054) (''Unknown column '' @ field @ '' in '' @ suffix))"

fun checkFieldImpl :: "string \<Rightarrow> string \<Rightarrow> ColName list \<Rightarrow> string \<Rightarrow> unit res" where
  "checkFieldImpl database table [] suffix = Ok ()"
| "checkFieldImpl database table (c # cs) suffix =
     (let colDB = tn_Qualifier (cn_Qualifier c); colTbl = tn_Name (cn_Qualifier c); colName = cn_Name c in
      if colDB \<noteq> [] \<and> colTbl \<noteq> [] \<and> (colDB \<noteq> database \<or> colTbl \<noteq> table)
      then bad_field (colDB @ ''.'' @ colTbl @ ''.'' @ colName) suffix
      else if colDB = [] \<and> colTbl \<noteq> [] \<and> colTbl \<noteq> table
      then bad_field (colTbl @ ''.'' @ colName) suffix
      else checkFieldImpl database table cs suffix)"

definition where_cols :: "Expr option \<Rightarrow> ColName list" where
  "where_cols w = (case w of None \<Rightarrow> [] | Some e \<Rightarrow> walk_cols e)"

definition order_cols :: "Order list \<Rightarrow> ColName list" where
  "order_cols os = concat (map (walk_cols \<circ> fst) os)"

definition checkField :: "string \<Rightarrow> string \<Rightarrow> Delete \<Rightarrow> unit res" where
  "checkField database table node =
     rbind (checkFieldImpl database table (where_cols (del_Where node)) ''where clause'') (\<lambda>_.
       checkFieldImpl database table (order_cols (del_OrderBy node)) ''order clause'')"

text \<open>The rewrite visits every column below a node and sets its qualifier.\<close>

fun map_cols :: "(ColName \<Rightarrow> ColName) \<Rightarrow> Expr \<Rightarrow> Expr"
  and map_cols_list :: "(ColName \<Rightarrow> ColName) \<Rightarrow> Expr list \<Rightarrow> Expr list"
  and map_cols_sels :: "(ColName \<Rightarrow> ColName) \<Rightarrow> SelectExpr list \<Rightarrow> SelectExpr list" where
  "map_cols f (AndExpr l r) = AndExpr (map_cols f l) (map_cols f r)"
| "map_cols f (OrExpr l r) = OrExpr (map_cols f l) (map_cols f r)"
| "map_cols f (NotExpr e) = NotExpr (map_cols f e)"
| "map_cols f (ParenExpr e) = ParenExpr (map_cols f e)"
| "map_cols f (ComparisonExpr p l r None) = ComparisonExpr p (map_cols f l) (map_cols f r) None"
| "map_cols f (ComparisonExpr p l r (Some esc)) = ComparisonExpr p (map_cols f l) (map_cols f r) (Some (map_cols f esc))"
| "map_cols f (IsExpr p e) = IsExpr p (map_cols f e)"
| "map_cols f (ColExpr c) = ColExpr (f c)"
| "map_cols f (ValExpr v) = ValExpr v"
| "map_cols f NullVal = NullVal"
| "map_cols f (ValTuple es) = ValTuple (map_cols_list f es)"
| "map_cols f (Subquery ts es) = Subquery ts (map_cols_list f es)"
| "map_cols f (FuncExpr n d ss) = FuncExpr n d (map_cols_sels f ss)"
| "map_cols f (GroupConcatExpr ss) = GroupConcatExpr (map_cols_sels f ss)"
| "map_cols f (OtherExpr t es) = OtherExpr t (map_cols_list f es)"
| "map_cols_list f [] = []"
| "map_cols_list f (e # es) = map_cols f e # map_cols_list f es"
| "map_cols_sels f [] = []"
| "map_cols_sels f (StarExpr t # ss) = StarExpr t # map_cols_sels f ss"
| "map_cols_sels f (AliasedExpr e a # ss) = AliasedExpr (map_cols f e) a # map_cols_sels f ss"
| "map_cols_sels f (Nextval e # ss) = Nextval (map_cols f e) # map_cols_sels f ss"

definition rewriteFieldImpl :: "string \<Rightarrow> string \<Rightarrow> Expr \<Rightarrow> Expr" where
  "rewriteFieldImpl database partTable =
     map_cols (\<lambda>c. c\<lparr>cn_Qualifier := \<lparr>tn_Name = partTable, tn_Qualifier = database\<rparr>\<rparr>)"

definition rewriteField :: "string \<Rightarrow> string \<Rightarrow> Delete \<Rightarrow> Delete" where
  "rewriteField database partTable node =
     node\<lparr>del_Where := map_option (rewriteFieldImpl database partTable) (del_Where node),
          del_OrderBy := map (\<lambda>(e, dir). (rewriteFieldImpl database partTable e, dir)) (del_OrderBy node)\<rparr>"

text \<open>The range of a segment as printed in a query tuple; the nil range panics.\<close>

definition seg_range :: "Segment \<Rightarrow> string res" where
  "seg_range s = (case seg_Range s of None \<Rightarrow> Panic ''nil pointer dereference'' | Some kr \<Rightarrow> Ok (KeyRange_String kr))"

text \<open>The loop that makes a query tuple of every segment.\<close>

definition seg_tuple :: "(Segment \<Rightarrow> string res) \<Rightarrow> Segment \<Rightarrow> QueryTuple res" where
  "seg_tuple query s =
     rbind (query s) (\<lambda>q. rbind (seg_range s) (\<lambda>rangi. Ok \<lparr>qt_Query = q, qt_Backend = seg_Backend s, qt_Range = rangi\<rparr>))"

definition seg_tuples :: "(Segment \<Rightarrow> string) \<Rightarrow> Segment list \<Rightarrow> QueryTuple list res" where
  "seg_tuples query = rmapM (seg_tuple (Ok \<circ> query))"

section \<open>Insert\<close>

fun col_index :: "string list \<Rightarrow> string \<Rightarrow> nat \<Rightarrow> nat option" where
  "col_index [] shardKey i = None"
| "col_index (c # cs) shardKey i = (if ColIdent_EqualString c shardKey then Some i else col_index cs shardKey (Suc i))"

record rowsTuple =
  rt_backend :: string
  rt_rangi :: string
  rt_rows :: "Expr list list"

definition place_row :: "Segment \<Rightarrow> string \<Rightarrow> Expr list \<Rightarrow> (string, rowsTuple) gomap \<Rightarrow> (string, rowsTuple) gomap" where
  "place_row s rangi row m =
     (let t = (case gm_get m (seg_Table s) of
                 None \<Rightarrow> \<lparr>rt_backend = seg_Backend s, rt_rangi = rangi, rt_rows = []\<rparr>
               | Some t \<Rightarrow> t)
      in gm_put (seg_Table s) (t\<lparr>rt_rows := rt_rows t @ [row]\<rparr>) m)"

fun place_rows ::
  "(string \<Rightarrow> 64 word option) \<Rightarrow> Router \<Rightarrow> string \<Rightarrow> string \<Rightarrow> string \<Rightarrow> nat \<Rightarrow> Expr list list \<Rightarrow>
   (string, rowsTuple) gomap \<Rightarrow> (string, rowsTuple) gomap res" where
  "place_rows pf r db t shardKey idx [] m = Ok m"
| "place_rows pf r db t shardKey idx (row # rows) m =
     (if length row \<le> idx
      then Err (Errorf ''unsupported: shardkey[%v].out.of.index:[%v]'' [shardKey, show_nat idx])
      else case row ! idx of
             ValExpr v \<Rightarrow>
               rbind (Router_Lookup pf r db t (Some v) (Some v)) (\<lambda>segments.
                 case segments of
                   [] \<Rightarrow> Panic ''index out of range''
                 | s # _ \<Rightarrow> rbind (seg_range s) (\<lambda>rangi.
                     place_rows pf r db t shardKey idx rows (place_row s rangi row m)))
           | e \<Rightarrow> Err (Errorf ''unsupported: shardkey[%v].type.canot.be[%T]'' [shardKey, type_name e]))"

definition rows_query :: "SqlLib \<Rightarrow> Insert \<Rightarrow> string \<times> rowsTuple \<Rightarrow> QueryTuple" where
  "rows_query sl node = (\<lambda>(partTable, v).
     \<lparr>qt_Query = sl_Insert sl (node\<lparr>ins_Table := (ins_Table node)\<lparr>tn_Name := partTable\<rparr>, ins_Rows := Values (rt_rows v)\<rparr>),
      qt_Backend = rt_backend v, qt_Range = rt_rangi v\<rparr>)"

definition Insert_Build ::
  "SqlLib \<Rightarrow> (string \<Rightarrow> 64 word option) \<Rightarrow> Router \<Rightarrow> string \<Rightarrow> Insert \<Rightarrow> QueryTuple list res" where
  "Insert_Build sl pf r p_database p_node =
     (case ins_Rows p_node of
        RowsOther ty _ \<Rightarrow> Err (Errorf ''unsupported: rows.can.not.be.subquery[%T]'' [ty])
      | Values rows \<Rightarrow>
          if ins_Partitions p_node \<noteq> []
          then Err (Errorf ''unsupported: neodb.now.not.support.insert.with.partition.'' [])
          else
            let database = or_default (tn_Qualifier (ins_Table p_node)) p_database;
                table = tn_Name (ins_Table p_node);
                node = p_node\<lparr>ins_Table := (ins_Table p_node)\<lparr>tn_Qualifier := database\<rparr>\<rparr>
            in rbind (PartitionType r database table) (\<lambda>methodType.
                 if methodType \<in> {''GLOBAL'', ''SINGLE''}
                 then rbind (Router_Lookup pf r database table None None) (seg_tuples (\<lambda>_. sl_Insert sl node))
                 else if methodType \<in> {''HASH'', ''LIST''}
                 then rbind (ShardKey r database table) (\<lambda>shardKey.
                        if isUpdateShardKey (ins_OnDup node) shardKey
                        then Err (Errorf ''unsupported: cannot.update.shard.key'' [])
                        else case col_index (ins_Columns node) shardKey 0 of
                               None \<Rightarrow> Err (Errorf ''unsupported: shardkey.column[%v].missing'' [shardKey])
                             | Some idx \<Rightarrow>
                                 rbind (place_rows pf r database table shardKey idx rows []) (\<lambda>rTuples.
                                   Ok (map (\<lambda>partTable. rows_query sl node (partTable, the (gm_get rTuples partTable)))
                                         (sort (map fst rTuples)))))
                 else Err (Errorf ''unsupported: neodb.not.support.method.type[%s].'' [methodType])))"

section \<open>Delete and update\<close>

definition Delete_analyze :: "Delete \<Rightarrow> unit res" where
  "Delete_analyze node =
     (if \<not> del_IsSingleTable node then Err (Errorf ''unsupported: currently.not.support.multitables.in.delete'' [])
      else if del_Partitions node \<noteq> None then Err (Errorf ''unsupported: currently.not.support.partitions.in.delete'' [])
      else if hasSubquery (del_Limit node @ map fst (del_OrderBy node) @ opt_list (del_Where node))
      then Err (Errorf ''unsupported: subqueries.in.delete'' [])
      else Ok ())"

definition Delete_Build ::
  "SqlLib \<Rightarrow> (string \<Rightarrow> 64 word option) \<Rightarrow> Router \<Rightarrow> string \<Rightarrow> Delete \<Rightarrow> QueryTuple list res" where
  "Delete_Build sl pf r p_database node =
     rbind (Delete_analyze node) (\<lambda>_.
       let table = tn_Name (del_Table node); database = or_default (tn_Qualifier (del_Table node)) p_database
       in rbind (checkField database table node) (\<lambda>_.
            rbind (case del_Where node of
                     None \<Rightarrow> Router_Lookup pf r database table None None
                   | Some e \<Rightarrow> rbind (ShardKey r database table) (\<lambda>shardkey.
                       LookupFromWhere pf database table shardkey (Some e) r))
              (seg_tuples (\<lambda>s. sl_Delete sl
                 ((rewriteField database (seg_Table s) node)\<lparr>del_Table := \<lparr>tn_Name = seg_Table s, tn_Qualifier = database\<rparr>\<rparr>)))))"

definition Update_analyze :: "Update \<Rightarrow> unit res" where
  "Update_analyze node =
     (if hasSubquery (upd_Limit node @ map fst (upd_OrderBy node) @ map snd (upd_Exprs node) @ opt_list (upd_Where node))
      then Err (Errorf ''unsupported: subqueries.in.update'' [])
      else if upd_Where node = None then Err (Errorf ''unsupported: missing.where.clause.in.DML'' [])
      else Ok ())"

definition Update_Build ::
  "SqlLib \<Rightarrow> (string \<Rightarrow> 64 word option) \<Rightarrow> Router \<Rightarrow> string \<Rightarrow> Update \<Rightarrow> QueryTuple list res" where
  "Update_Build sl pf r p_database node =
     rbind (Update_analyze node) (\<lambda>_.
       let table = tn_Name (upd_Table node); database = or_default (tn_Qualifier (upd_Table node)) p_database
       in rbind (ShardKey r database table) (\<lambda>shardkey.
            if isUpdateShardKey (upd_Exprs node) shardkey
            then Err (Errorf ''unsupported: cannot.update.shard.key'' [])
            else rbind (LookupFromWhere pf database table shardkey (upd_Where node) r)
                   (seg_tuples (\<lambda>s. sl_Update sl database (seg_Table s) node))))"

section \<open>Data definition\<close>

definition unique_error :: "string \<Rightarrow> 'a res" where
  "unique_error shardKey =
     Err (Errorf ''The unique/primary constraint should be only defined on the sharding key column[%s]'' [shardKey])"

definition checkUnsupportedOperations :: "Router \<Rightarrow> DDL \<Rightarrow> string \<Rightarrow> string \<Rightarrow> unit res" where
  "checkUnsupportedOperations r node database table =
     rbind (ShardKey r database table) (\<lambda>shardKey.
       if shardKey = [] then Ok ()
       else if ddl_Action node = ''alter table drop column''
       then if equal_fold shardKey (ddl_DropColumnName node)
            then Err (Errorf ''unsupported: cannot.drop.the.column.on.shard.key'' []) else Ok ()
       else if ddl_Action node = ''alter table modify column''
       then (case ddl_ModifyColumnDef node of
               None \<Rightarrow> Panic ''nil pointer dereference''
             | Some def \<Rightarrow>
                 if ColIdent_EqualString (cd_Name def) shardKey
                 then Err (Errorf ''unsupported: cannot.modify.the.column.on.shard.key'' [])
                 else if cd_Primary def \<or> cd_Unique def then unique_error shardKey
                 else Ok ())
       else if ddl_Action node = ''alter table add column''
       then (case ddl_TableSpec node of
               None \<Rightarrow> Panic ''nil pointer dereference''
             | Some spec \<Rightarrow>
                 if list_ex (\<lambda>c. cd_Primary c \<or> cd_Unique c) (ts_Columns spec) then unique_error shardKey
                 else if list_ex (\<lambda>i. ix_Unique i \<or> ix_Primary i) (ts_Indexes spec) then unique_error shardKey
                 else Ok ())
       else Ok ())"

definition commonImpl ::
  "SqlLib \<Rightarrow> (string \<Rightarrow> 64 word option) \<Rightarrow> Router \<Rightarrow> string \<Rightarrow> DDL \<Rightarrow> QueryTuple list res" where
  "commonImpl sl pf r p_database node =
     (let oldTable = tn_Name (ddl_Table node); database = or_default (tn_Qualifier (ddl_Table node)) p_database
      in rbind (checkUnsupportedOperations r node database oldTable) (\<lambda>_.
           rbind (Router_Lookup pf r database oldTable None None)
             (seg_tuples (\<lambda>s. let t = \<lparr>tn_Name = seg_Table s, tn_Qualifier = database\<rparr>
                               in sl_DDL sl (node\<lparr>ddl_Table := t, ddl_NewName := t\<rparr>)))))"

definition dropTblImpl ::
  "SqlLib \<Rightarrow> (string \<Rightarrow> 64 word option) \<Rightarrow> Router \<Rightarrow> string \<Rightarrow> DDL \<Rightarrow> QueryTuple list res" where
  "dropTblImpl sl pf r p_database node =
     (let oldTable = tn_Name (ddl_Table node); database = or_default (tn_Qualifier (ddl_Table node)) p_database
      in rbind (Router_Lookup pf r database oldTable None None)
           (seg_tuples (\<lambda>s. sl_DDL sl (node\<lparr>ddl_Tables := [\<lparr>tn_Name = seg_Table s, tn_Qualifier = database\<rparr>]\<rparr>))))"

text \<open>The name a partition gets: the text after the last underscore is kept.\<close>

definition newToTable :: "string \<Rightarrow> string \<Rightarrow> string \<Rightarrow> string" where
  "newToTable shardKey oldToTable segTable =
     (if shardKey \<noteq> [] then oldToTable @ ''_'' @ last (split_on CHR ''_'' segTable) else oldToTable)"

definition renameImpl ::
  "SqlLib \<Rightarrow> (string \<Rightarrow> 64 word option) \<Rightarrow> Router \<Rightarrow> string \<Rightarrow> DDL \<Rightarrow> QueryTuple list res" where
  "renameImpl sl pf r p_database node =
     (let fromDatabase = or_default (tn_Qualifier (ddl_Table node)) p_database;
          toDatabase = tn_Qualifier (ddl_NewName node);
          oldFromTable = tn_Name (ddl_Table node); oldToTable = tn_Name (ddl_NewName node)
      in if toDatabase \<noteq> [] \<and> toDatabase \<noteq> fromDatabase
         then Err (Errorf ''unsupported: Database is not equal[%s:%s]'' [fromDatabase, toDatabase])
         else rbind (Router_Lookup pf r fromDatabase oldFromTable None None)
                (rmapM (seg_tuple (\<lambda>s.
                   rbind (ShardKey r fromDatabase oldFromTable) (\<lambda>shardKey.
                     Ok (sl_DDL sl (node\<lparr>
                       ddl_Table := \<lparr>tn_Name = seg_Table s, tn_Qualifier = fromDatabase\<rparr>,
                       ddl_NewName := \<lparr>tn_Name = newToTable shardKey oldToTable (seg_Table s), tn_Qualifier = fromDatabase\<rparr>\<rparr>)))))))"

definition DDL_Build ::
  "SqlLib \<Rightarrow> (string \<Rightarrow> 64 word option) \<Rightarrow> Router \<Rightarrow> string \<Rightarrow> DDL \<Rightarrow> QueryTuple list res" where
  "DDL_Build sl pf r p_database node =
     (if ddl_Action node = ''drop table'' then dropTblImpl sl pf r p_database node
      else if ddl_Action node = ''rename table'' then renameImpl sl pf r p_database node
      else commonImpl sl pf r p_database node)"

section \<open>Checksum, optimize and check table\<close>

definition part_tuples :: "SqlLib \<Rightarrow> Others \<Rightarrow> PartitionConfig list \<Rightarrow> QueryTuple list" where
  "part_tuples sl node parts =
     map (\<lambda>part. \<lparr>qt_Query = sl_Others sl (node\<lparr>ot_Tables := (ot_Tables node)[0 := (ot_Tables node ! 0)\<lparr>tn_Name := pc_Table part\<rparr>]\<rparr>),
                  qt_Backend = pc_Backend part, qt_Range = pc_Segment part\<rparr>) parts"

definition Others_Build :: "SqlLib \<Rightarrow> Router \<Rightarrow> string \<Rightarrow> Others \<Rightarrow> QueryTuple list res" where
  "Others_Build sl r p_database p_node =
     (case ot_Tables p_node of
        [] \<Rightarrow> Panic ''index out of range''
      | tbl # rest \<Rightarrow>
          let database = or_default (tn_Qualifier tbl) p_database; table = tn_Name tbl;
              node = p_node\<lparr>ot_Tables := tbl\<lparr>tn_Qualifier := database\<rparr> # rest\<rparr>
          in rbind (Router_TableConfig r database table) (\<lambda>route.
               if ot_Kind p_node = Checksum
               then rbind (PartitionType r database table) (\<lambda>methodType.
                      if methodType \<in> {''GLOBAL'', ''SINGLE''}
                      then (case tc_Partitions route of
                              [] \<Rightarrow> Panic ''index out of range''
                            | part # _ \<Rightarrow> Ok [\<lparr>qt_Query = sl_Others sl node, qt_Backend = pc_Backend part, qt_Range = pc_Segment part\<rparr>])
                      else if methodType \<in> {''HASH'', ''LIST''} then Ok (part_tuples sl node (tc_Partitions route))
                      else Err (Errorf ''unsupported: neodb.not.support.method.type[%s].'' [methodType]))
               else Ok (part_tuples sl node (tc_Partitions route))))"

end
