(* ===== verification/Spanner.thy ===== *)
theory Spanner
  imports Sessions Privileges Autoinc Planner Frm
begin

text \<open>
  The proxy executes statements: \<open>optimizer/simple_optimizer.go\<close>, \<open>proxy/execute.go\<close>, \<open>proxy/multistmt_txn.go\<close> and
  the handlers of statements in \<open>proxy\<close>. A handler is one step on the state of the proxy, which is the record \<open>Spanner\<close>; what
  it defers runs at its end, also after a panic. A pointer to a result may be nil, so it is an option. A session that is not
  in the table is a nil pointer. The driver's session is an argument of every handler.
\<close>

section \<open>Plans of statements\<close>

text \<open>
  What the planner takes from elsewhere: the printer of syntax trees and the reading of floats are vendored; \<open>pl_node\<close> is
  \<open>builder.BuildNode\<close>, which plans a \<open>select\<close> or a \<open>union\<close>.
\<close>

record PlanLib =
  pl_sql :: SqlLib
  pl_float :: "string \<Rightarrow> 64 word option"
  pl_node :: "Router \<Rightarrow> string \<Rightarrow> SelectStatement \<Rightarrow> PlanNode res"

fun from_subquery :: "TableExpr \<Rightarrow> bool" where
  "from_subquery (AliasedTableExpr (TableRef t) a) = False"
| "from_subquery (AliasedTableExpr (SubqueryTable ts) a) = True"
| "from_subquery (JoinTableExpr l j r cond) \<longleftrightarrow> from_subquery l \<or> hasSubquery (opt_list cond) \<or> from_subquery r"
| "from_subquery (ParenTableExpr ts) = list_ex from_subquery ts"

definition select_hasSubquery :: "Select \<Rightarrow> bool" where
  "select_hasSubquery s \<longleftrightarrow> list_ex from_subquery (sel_From s) \<or> hasSubquery (select_exprs s)"

definition Select_Build :: "PlanLib \<Rightarrow> Router \<Rightarrow> string \<Rightarrow> Select \<Rightarrow> PlanNode res" where
  "Select_Build pl r database node =
     (if select_hasSubquery node then Err (Errorf ''unsupported: subqueries.in.select'' [])
      else pl_node pl r database (SelStmt node))"

definition Union_Build :: "PlanLib \<Rightarrow> Router \<Rightarrow> string \<Rightarrow> SelectStatement \<Rightarrow> PlanNode res" where
  "Union_Build pl r database node = pl_node pl r database node"

definition send_plan :: "string \<Rightarrow> QueryTuple list \<Rightarrow> SendPlan" where
  "send_plan query querys = \<lparr>sp_ReqMode = ReqNormal, sp_Querys = querys, sp_RawQuery = query\<rparr>"

definition BuildPlanTree :: "PlanLib \<Rightarrow> Router \<Rightarrow> string \<Rightarrow> string \<Rightarrow> Statement \<Rightarrow> Plan list res" where
  "BuildPlanTree pl r database query node =
     (let sl = pl_sql pl; pf = pl_float pl; send = (\<lambda>plan querys. Ok [plan (send_plan query querys)]) in
      case node of
        StDDL n \<Rightarrow> rbind (DDL_Build sl pf r database n) (send DDLPlan)
      | StInsert n \<Rightarrow> rbind (Insert_Build sl pf r database n) (send InsertPlan)
      | StDelete n \<Rightarrow> rbind (Delete_Build sl pf r database n) (send DeletePlan)
      | StUpdate n \<Rightarrow> rbind (Update_Build sl pf r database n) (send UpdatePlan)
      | StSelect n \<Rightarrow> rbind (Select_Build pl r database n) (\<lambda>node. Ok [SelectPlan node])
      | StUnion n \<Rightarrow> rbind (Union_Build pl r database n) (\<lambda>node. Ok [UnionPlan node])
      | StOthers n \<Rightarrow> rbind (Others_Build sl r database n) (send OthersPlan)
      | _ \<Rightarrow> Err (Errorf ''optimizer.unsupported.query.type[%+v]'' []))"

section \<open>State\<close>

record ProxyConfig =
  cf_TwopcEnable :: bool
  cf_QueryTimeout :: int
  cf_DDLTimeout :: int
  cf_MaxResultSize :: int
  cf_MaxJoinRows :: int
  cf_LoadBalance :: int
  cf_AutocommitFalseIsTxn :: bool
  cf_LowerCaseTableNames :: int
  cf_MaxConnections :: int

record Spanner =
  sn_sys :: Sys
  sn_router :: Router
  sn_disk :: Disk
  sn_scatter :: Scatter
  sn_sessions :: Sessions
  sn_priv :: Privilege
  sn_seq :: "64 word"
  sn_readonly :: bool

text \<open>What is fixed while the proxy runs: the servers, the engines' library, the planner's and the configuration.\<close>

record ProxyEnv =
  pe_be :: Backends
  pe_el :: EngineLib
  pe_pl :: PlanLib
  pe_conf :: ProxyConfig

type_synonym 'a handler = "Spanner \<Rightarrow> Spanner \<times> 'a res"

abbreviation sn_world :: "Spanner \<Rightarrow> World" where
  "sn_world sn \<equiv> sy_world (sn_sys sn)"

definition isTwoPC :: "ProxyEnv \<Rightarrow> bool" where
  "isTwoPC pe = cf_TwopcEnable (pe_conf pe)"

definition IsDML :: "Statement \<Rightarrow> bool" where
  "IsDML node = (case node of StSelect _ \<Rightarrow> True | StUnion _ \<Rightarrow> True | StInsert _ \<Rightarrow> True | StDelete _ \<Rightarrow> True | StUpdate _ \<Rightarrow> True | _ \<Rightarrow> False)"

definition IsDMLWrite :: "Statement \<Rightarrow> bool" where
  "IsDMLWrite node = (case node of StInsert _ \<Rightarrow> True | StDelete _ \<Rightarrow> True | StUpdate _ \<Rightarrow> True | _ \<Rightarrow> False)"

definition IsDDL :: "Statement \<Rightarrow> bool" where
  "IsDDL node = (case node of StDDL _ \<Rightarrow> True | _ \<Rightarrow> False)"

section \<open>Execution in a transaction of its own\<close>

definition remove_spaces :: "string \<Rightarrow> string" where
  "remove_spaces s = filter (\<lambda>c. c \<noteq> CHR 0x20) s"

definition isExecOnRep :: "int \<Rightarrow> Statement \<Rightarrow> bool" where
  "isExecOnRep loadBalance node =
     (case node of
        StSelect n \<Rightarrow>
          (case sel_Comments n of
             [] \<Rightarrow> loadBalance \<noteq> 0
           | c # _ \<Rightarrow> let comment = remove_spaces c in
               if comment = ''/*+loadbalance=0*/'' then False
               else if comment = ''/*+loadbalance=1*/'' then True
               else loadBalance \<noteq> 0)
      | _ \<Rightarrow> False)"

text \<open>The setters of the limits; \<open>MaxJoinRows\<close> is read by the engines only.\<close>

definition set_limits :: "ProxyConfig \<Rightarrow> int \<Rightarrow> bool \<Rightarrow> Txn \<Rightarrow> Txn" where
  "set_limits conf timeout rep txn =
     txn\<lparr>tx_timeout := timeout, tx_maxResult := cf_MaxResultSize conf, tx_isExecOnRep := rep\<rparr>"

definition join_lib :: "ProxyEnv \<Rightarrow> EngineLib" where
  "join_lib pe = (pe_el pe)\<lparr>el_maxrow := cf_MaxJoinRows (pe_conf pe)\<rparr>"

text \<open>The deferred calls: first the binding ends, then the transaction.\<close>

definition end_statement :: "ProxyEnv \<Rightarrow> DSession \<Rightarrow> Txn \<Rightarrow> Spanner \<Rightarrow> Spanner" where
  "end_statement pe s txn sn =
     sn\<lparr>sn_sessions := TxnUnBinding s (sn_sessions sn), sn_sys := snd (Txn_Finish (pe_be pe) txn (sn_sys sn))\<rparr>"

text \<open>A new transaction that is bound to the session while \<open>body\<close> runs in it.\<close>

definition bound_txn ::
  "ProxyEnv \<Rightarrow> DSession \<Rightarrow> string \<Rightarrow> Statement \<Rightarrow> int \<Rightarrow> (Txn \<Rightarrow> Spanner \<Rightarrow> Txn \<times> Spanner \<times> 'a res) \<Rightarrow> 'a handler" where
  "bound_txn pe s query node timeout body sn =
     (case CreateTransaction (sy_mgr (sn_sys sn)) (sn_scatter sn) of
        (m, Err e) \<Rightarrow> (sn\<lparr>sn_sys := (sn_sys sn)\<lparr>sy_mgr := m\<rparr>\<rparr>, Err e)
      | (m, Panic p) \<Rightarrow> (sn\<lparr>sn_sys := (sn_sys sn)\<lparr>sy_mgr := m\<rparr>\<rparr>, Panic p)
      | (m, Ok txn0) \<Rightarrow>
          let txn = set_limits (pe_conf pe) timeout (isExecOnRep (cf_LoadBalance (pe_conf pe)) node) txn0;
              sn0 = sn\<lparr>sn_sys := (sn_sys sn)\<lparr>sy_mgr := m\<rparr>, sn_sessions := TxnBinding s txn node query (sn_sessions sn)\<rparr>
          in case body txn sn0 of (txn1, sn1, x) \<Rightarrow> (end_statement pe s txn1 sn1, x))"

text \<open>Planning and executing a statement in a transaction.\<close>

definition run_plans ::
  "ProxyEnv \<Rightarrow> string \<Rightarrow> string \<Rightarrow> Statement \<Rightarrow> Txn \<Rightarrow> Spanner \<Rightarrow> Txn \<times> Spanner \<times> Result option res" where
  "run_plans pe database query node txn sn =
     (case BuildPlanTree (pe_pl pe) (sn_router sn) database query node of
        Err e \<Rightarrow> (txn, sn, Err e)
      | Panic p \<Rightarrow> (txn, sn, Panic p)
      | Ok plans \<Rightarrow>
          (case Tree_Execute (pe_be pe) (join_lib pe) plans None txn (sn_world sn) of
             (txn1, w, x) \<Rightarrow> (txn1, sn\<lparr>sn_sys := (sn_sys sn)\<lparr>sy_world := w\<rparr>\<rparr>, x)))"

definition executeWithTimeout ::
  "ProxyEnv \<Rightarrow> DSession \<Rightarrow> string \<Rightarrow> string \<Rightarrow> Statement \<Rightarrow> int \<Rightarrow> Result option handler" where
  "executeWithTimeout pe s database query node timeout = bound_txn pe s query node timeout (run_plans pe database query node)"

definition ExecuteNormal :: "ProxyEnv \<Rightarrow> DSession \<Rightarrow> string \<Rightarrow> string \<Rightarrow> Statement \<Rightarrow> Result option handler" where
  "ExecuteNormal pe s database query node = executeWithTimeout pe s database query node (cf_QueryTimeout (pe_conf pe))"

definition nil_session :: "'a res" where
  "nil_session = Panic ''nil pointer dereference''"

definition ExecuteDDL :: "ProxyEnv \<Rightarrow> DSession \<Rightarrow> string \<Rightarrow> string \<Rightarrow> Statement \<Rightarrow> Result option handler" where
  "ExecuteDDL pe s database query node sn =
     (let go = executeWithTimeout pe s database query node (cf_DDLTimeout (pe_conf pe)) sn in
      if \<not> isTwoPC pe then go
      else case getTxnSession (sn_sessions sn) s of
             None \<Rightarrow> (sn, nil_session)
           | Some x \<Rightarrow>
               if ss_transaction x \<noteq> None then (sn, Err (Errorf ''in.multiStmtTrans.unsupported.DDL:%v.'' [query]))
               else go)"

section \<open>Two-phase commit of one statement\<close>

definition twopc_body ::
  "ProxyEnv \<Rightarrow> string \<Rightarrow> string \<Rightarrow> Statement \<Rightarrow> Txn \<Rightarrow> Spanner \<Rightarrow> Txn \<times> Spanner \<times> Result option res" where
  "twopc_body pe database query node txn sn =
     (case BuildPlanTree (pe_pl pe) (sn_router sn) database query node of
        Err e \<Rightarrow> (Txn_Begin txn, sn, Err e)
      | Panic p \<Rightarrow> (Txn_Begin txn, sn, Panic p)
      | Ok plans \<Rightarrow>
          (case Tree_Execute (pe_be pe) (join_lib pe) plans None (Txn_Begin txn) (sn_world sn) of
             (txn1, w, Panic p) \<Rightarrow> (txn1, sn\<lparr>sn_sys := (sn_sys sn)\<lparr>sy_world := w\<rparr>\<rparr>, Panic p)
           | (txn1, w, Err e) \<Rightarrow>
               (case Txn_RollbackPhaseOne (pe_be pe) txn1 ((sn_sys sn)\<lparr>sy_world := w\<rparr>) of
                  (txn2, sys2, Panic p) \<Rightarrow> (txn2, sn\<lparr>sn_sys := sys2\<rparr>, Panic p)
                | (txn2, sys2, _) \<Rightarrow> (txn2, sn\<lparr>sn_sys := sys2\<rparr>, Err e))
           | (txn1, w, Ok qr) \<Rightarrow>
               (case Txn_Commit (pe_be pe) txn1 ((sn_sys sn)\<lparr>sy_world := w\<rparr>) of
                  (txn2, sys2, x) \<Rightarrow> (txn2, sn\<lparr>sn_sys := sys2\<rparr>, rbind x (\<lambda>_. Ok qr)))))"

definition ExecuteSingleStmtTxnTwoPC :: "ProxyEnv \<Rightarrow> DSession \<Rightarrow> string \<Rightarrow> string \<Rightarrow> Statement \<Rightarrow> Result option handler" where
  "ExecuteSingleStmtTxnTwoPC pe s database query node =
     bound_txn pe s query node (cf_QueryTimeout (pe_conf pe)) (twopc_body pe database query node)"

section \<open>Transactions of many statements\<close>

text \<open>The transaction of a session after a step on it.\<close>

definition store_txn :: "DSession \<Rightarrow> Txn \<Rightarrow> Sessions \<Rightarrow> Sessions" where
  "store_txn s txn = upd_session (ds_ID s) (\<lambda>x. x\<lparr>ss_transaction := Some txn\<rparr>)"

definition ExecuteMultiStmtsInTxn :: "ProxyEnv \<Rightarrow> DSession \<Rightarrow> string \<Rightarrow> string \<Rightarrow> Statement \<Rightarrow> Result option handler" where
  "ExecuteMultiStmtsInTxn pe s database query node sn =
     (let sn0 = sn\<lparr>sn_sessions := MultiStmtTxnBinding s None node query (sn_sessions sn)\<rparr> in
      case getTxnSession (sn_sessions sn) s of
        None \<Rightarrow> (sn0, rbind (BuildPlanTree (pe_pl pe) (sn_router sn) database query node) (\<lambda>_. nil_session))
      | Some x \<Rightarrow>
          (case ss_transaction x of
             None \<Rightarrow> (sn0, rbind (BuildPlanTree (pe_pl pe) (sn_router sn) database query node) (\<lambda>_. nil_session))
           | Some txn \<Rightarrow>
               (case run_plans pe database query node txn sn0 of
                  (txn1, sn1, res) \<Rightarrow>
                    let ss = store_txn s txn1 (sn_sessions sn1) in
                    (sn1\<lparr>sn_sessions := (if is_ok res then MultiStmtTxnUnBinding s False ss else ss)\<rparr>, res))))"

definition ExecuteBegin :: "ProxyEnv \<Rightarrow> DSession \<Rightarrow> string \<Rightarrow> Statement \<Rightarrow> Result option handler" where
  "ExecuteBegin pe s query node sn =
     (if \<not> isTwoPC pe then (sn, Err (Errorf ''spanner.query.execute.multistmt.txn.error[twopc-disable]'' []))
      else case getTxnSession (sn_sessions sn) s of
             None \<Rightarrow> (sn, nil_session)
           | Some x \<Rightarrow>
               if ss_transaction x \<noteq> None then (sn, Err (Errorf ''ExecuteMultiStatBegin.nestedTxn.unsupported'' []))
               else
                 (case CreateTransaction (sy_mgr (sn_sys sn)) (sn_scatter sn) of
                    (m, Err e) \<Rightarrow> (sn\<lparr>sn_sys := (sn_sys sn)\<lparr>sy_mgr := m\<rparr>\<rparr>, Err e)
                  | (m, Panic p) \<Rightarrow> (sn\<lparr>sn_sys := (sn_sys sn)\<lparr>sy_mgr := m\<rparr>\<rparr>, Panic p)
                  | (m, Ok txn0) \<Rightarrow>
                      let txn = (set_limits (pe_conf pe) (cf_QueryTimeout (pe_conf pe)) False txn0)\<lparr>tx_isMultiStmtTxn := True\<rparr>;
                          ss = MultiStmtTxnBinding s (Some txn) node query (sn_sessions sn)
                      in case Txn_BeginScatter (pe_be pe) txn (sn_world sn) of
                           (txn1, w, Ok _) \<Rightarrow>
                             (sn\<lparr>sn_sys := (sn_sys sn)\<lparr>sy_mgr := m, sy_world := w\<rparr>, sn_sessions := store_txn s txn1 ss\<rparr>, Ok (Some empty_Result))
                         | (txn1, w, Err e) \<Rightarrow>
                             (sn\<lparr>sn_sys := snd (Txn_Finish (pe_be pe) txn1 ((sn_sys sn)\<lparr>sy_mgr := m, sy_world := w\<rparr>)),
                                 sn_sessions := MultiStmtTxnUnBinding s True ss\<rparr>, Err e)
                         | (txn1, w, Panic p) \<Rightarrow>
                             (sn\<lparr>sn_sys := (sn_sys sn)\<lparr>sy_mgr := m, sy_world := w\<rparr>, sn_sessions := store_txn s txn1 ss\<rparr>, Panic p)))"

text \<open>\<open>commit\<close> and \<open>rollback\<close> differ in the call on the transaction and in the messages.\<close>

definition end_multi ::
  "ProxyEnv \<Rightarrow> (Txn \<Rightarrow> Sys \<Rightarrow> Txn \<times> Sys \<times> unit res) \<Rightarrow> string \<Rightarrow> string \<Rightarrow> DSession \<Rightarrow> string \<Rightarrow> Statement \<Rightarrow> Result option handler" where
  "end_multi pe finish disabled missing s query node sn =
     (if \<not> isTwoPC pe then (sn, Err (Errorf disabled []))
      else case getTxnSession (sn_sessions sn) s of
             None \<Rightarrow> (sn, nil_session)
           | Some x \<Rightarrow>
               (case ss_transaction x of
                  None \<Rightarrow> (sn, Err (Errorf missing []))
                | Some txn \<Rightarrow>
                    let ss = MultiStmtTxnBinding s None node query (sn_sessions sn) in
                    (case finish txn (sn_sys sn) of
                       (txn1, sys1, Ok _) \<Rightarrow>
                         (sn\<lparr>sn_sys := snd (Txn_Finish (pe_be pe) txn1 sys1), sn_sessions := MultiStmtTxnUnBinding s True ss\<rparr>,
                          Ok (Some empty_Result))
                     | (txn1, sys1, Err e) \<Rightarrow> (sn\<lparr>sn_sys := sys1, sn_sessions := store_txn s txn1 ss\<rparr>, Err e)
                     | (txn1, sys1, Panic p) \<Rightarrow> (sn\<lparr>sn_sys := sys1, sn_sessions := store_txn s txn1 ss\<rparr>, Panic p))))"

definition ExecuteRollback :: "ProxyEnv \<Rightarrow> DSession \<Rightarrow> string \<Rightarrow> Statement \<Rightarrow> Result option handler" where
  "ExecuteRollback pe =
     end_multi pe (Txn_RollbackScatter (pe_be pe)) ''spanner.execute.multistmt.txn.rollback.error[twopc-disable]''
       ''unsupported: rollback.without.txn.begin''"

definition ExecuteCommit :: "ProxyEnv \<Rightarrow> DSession \<Rightarrow> string \<Rightarrow> Statement \<Rightarrow> Result option handler" where
  "ExecuteCommit pe =
     end_multi pe (Txn_CommitScatter (pe_be pe)) ''spanner.execute.multistmt.txn.commit.error:[twopc-disable]''
       ''unsupported: commit.without.txn.begin''"

definition handleMultiStmtTxn :: "ProxyEnv \<Rightarrow> DSession \<Rightarrow> string \<Rightarrow> string \<Rightarrow> Result option handler" where
  "handleMultiStmtTxn pe s query action sn =
     (let node = StTransaction action in
      if action = ''start transaction'' \<or> action = ''begin'' then ExecuteBegin pe s action node sn
      else if action = ''rollback'' then ExecuteRollback pe s action node sn
      else if action = ''commit'' then ExecuteCommit pe s action node sn
      else (sn, Ok None))"

section \<open>Statements without a plan\<close>

definition own_query :: "ProxyEnv \<Rightarrow> (Txn \<Rightarrow> World \<Rightarrow> Result txn_step) \<Rightarrow> Result handler" where
  "own_query pe f sn = (case own_txn (pe_be pe) (sn_scatter sn) (sn_sys sn) f of (sys, x) \<Rightarrow> (sn\<lparr>sn_sys := sys\<rparr>, x))"

definition ExecuteSingle :: "ProxyEnv \<Rightarrow> string \<Rightarrow> Result handler" where
  "ExecuteSingle pe query = own_query pe (Txn_ExecuteSingle (pe_be pe) query)"

definition ExecuteScatter :: "ProxyEnv \<Rightarrow> string \<Rightarrow> Result handler" where
  "ExecuteScatter pe query = own_query pe (Txn_ExecuteScatter (pe_be pe) query)"

definition ExecuteOnThisBackend :: "ProxyEnv \<Rightarrow> string \<Rightarrow> string \<Rightarrow> Result handler" where
  "ExecuteOnThisBackend pe backend query = own_query pe (Txn_ExecuteOnThisBackend (pe_be pe) backend query)"

section \<open>DML\<close>

definition ExecuteDML :: "ProxyEnv \<Rightarrow> DSession \<Rightarrow> string \<Rightarrow> string \<Rightarrow> Statement \<Rightarrow> Result option handler" where
  "ExecuteDML pe s database query node sn =
     (case Privilege_Check (sn_priv sn) (ds_Schema s) (ds_User s) (Some node) of
        Err e \<Rightarrow> (sn, Err e)
      | Panic p \<Rightarrow> (sn, Panic p)
      | Ok _ \<Rightarrow>
          if isTwoPC pe \<and> IsDML node then
            (case getTxnSession (sn_sessions sn) s of
               None \<Rightarrow> (sn, nil_session)
             | Some x \<Rightarrow>
                 if ss_transaction x = None then ExecuteSingleStmtTxnTwoPC pe s database query node sn
                 else ExecuteMultiStmtsInTxn pe s database query node sn)
          else ExecuteNormal pe s database query node sn)"

definition handleDelete :: "ProxyEnv \<Rightarrow> DSession \<Rightarrow> string \<Rightarrow> Delete \<Rightarrow> Result option handler" where
  "handleDelete pe s query node = ExecuteDML pe s (ds_Schema s) query (StDelete node)"

definition handleUpdate :: "ProxyEnv \<Rightarrow> DSession \<Rightarrow> string \<Rightarrow> Update \<Rightarrow> Result option handler" where
  "handleUpdate pe s query node = ExecuteDML pe s (ds_Schema s) query (StUpdate node)"

definition handleSelect :: "ProxyEnv \<Rightarrow> DSession \<Rightarrow> string \<Rightarrow> Statement \<Rightarrow> Result option handler" where
  "handleSelect pe s query node = ExecuteDML pe s (ds_Schema s) query node"

text \<open>The columns of an insert that names none, from \<open>desc\<close> on the first partition.\<close>

definition fill_columns :: "ProxyEnv \<Rightarrow> string \<Rightarrow> string \<Rightarrow> Insert \<Rightarrow> Insert handler" where
  "fill_columns pe database table node sn =
     (if ins_Columns node \<noteq> [] then (sn, Ok node)
      else case Router_TableConfig (sn_router sn) database table of
             Err e \<Rightarrow> (sn, Err e)
           | Panic p \<Rightarrow> (sn, Panic p)
           | Ok cfg \<Rightarrow>
               (case tc_Partitions cfg of
                  [] \<Rightarrow> (sn, Panic ''index out of range'')
                | part # _ \<Rightarrow>
                    (case ExecuteOnThisBackend pe (pc_Backend part) (''desc '' @ database @ ''.'' @ pc_Table part) sn of
                       (sn1, x) \<Rightarrow> (sn1, rbind x (\<lambda>qr. rbind (rmapM (\<lambda>row. raw_at row 0) (rs_Rows qr)) (\<lambda>cols.
                          Ok (node\<lparr>ins_Columns := cols\<rparr>)))))))"

definition handleInsert :: "ProxyEnv \<Rightarrow> DSession \<Rightarrow> string \<Rightarrow> Insert \<Rightarrow> Result option handler" where
  "handleInsert pe s query node sn =
     (let database = or_default (tn_Qualifier (ins_Table node)) (ds_Schema s); table = tn_Name (ins_Table node) in
      case PartitionType (sn_router sn) database table of
        Err e \<Rightarrow> (sn, Err e)
      | Panic p \<Rightarrow> (sn, Panic p)
      | Ok methodType \<Rightarrow>
          if methodType = ''HASH'' \<or> methodType = ''LIST'' then
            (case fill_columns pe database table node sn of
               (sn1, Err e) \<Rightarrow> (sn1, Err e)
             | (sn1, Panic p) \<Rightarrow> (sn1, Panic p)
             | (sn1, Ok node1) \<Rightarrow>
                 (case Process (sn_router sn1) (sn_seq sn1) database node1 of
                    (seq, Err e) \<Rightarrow> (sn1\<lparr>sn_seq := seq\<rparr>, Err e)
                  | (seq, Panic p) \<Rightarrow> (sn1\<lparr>sn_seq := seq\<rparr>, Panic p)
                  | (seq, Ok node2) \<Rightarrow> ExecuteDML pe s database query (StInsert node2) (sn1\<lparr>sn_seq := seq\<rparr>)))
          else ExecuteDML pe s database query (StInsert node) sn)"

section \<open>Sessions\<close>

definition handleUseDB :: "ProxyEnv \<Rightarrow> DSession \<Rightarrow> string \<Rightarrow> string \<Rightarrow> Spanner \<Rightarrow> DSession \<times> Spanner \<times> Result option res" where
  "handleUseDB pe s query db sn =
     (case DatabaseACL db of
        Err e \<Rightarrow> (s, sn, Err e)
      | Panic p \<Rightarrow> (s, sn, Panic p)
      | Ok _ \<Rightarrow>
          (case ExecuteSingle pe query sn of
             (sn1, Err e) \<Rightarrow> (s, sn1, Err e)
           | (sn1, Panic p) \<Rightarrow> (s, sn1, Panic p)
           | (sn1, Ok _) \<Rightarrow>
               (s\<lparr>ds_Schema := db\<rparr>,
                sn1\<lparr>sn_sessions := upd_session (ds_ID s) (\<lambda>x. x\<lparr>ss_session := (ss_session x)\<lparr>ds_Schema := db\<rparr>\<rparr>) (sn_sessions sn1)\<rparr>,
                Ok (Some empty_Result))))"

definition ComInitDB :: "ProxyEnv \<Rightarrow> DSession \<Rightarrow> string \<Rightarrow> Spanner \<Rightarrow> DSession \<times> Spanner \<times> unit res" where
  "ComInitDB pe s database0 sn =
     (case DatabaseACL database0 of
        Err e \<Rightarrow> (s, sn, Err e)
      | Panic p \<Rightarrow> (s, sn, Panic p)
      | Ok _ \<Rightarrow>
          let database = (if cf_LowerCaseTableNames (pe_conf pe) = 0 then database0 else to_lower database0); user = ds_User s in
          if \<not> CheckUserPrivilegeIsSet (sn_priv sn) user \<and> \<not> IsSuperPriv (sn_priv sn) user \<and>
             \<not> CheckDBinUserPrivilege (sn_priv sn) user database
          then (s, sn, Err (SQLError (ER_OTHER 1044) (denied_text user database)))
          else (case ExecuteSingle pe (''use '' @ database) sn of
                  (sn1, Err e) \<Rightarrow> (s, sn1, Err e)
                | (sn1, Panic p) \<Rightarrow> (s, sn1, Panic p)
                | (sn1, Ok _) \<Rightarrow>
                    (s\<lparr>ds_Schema := database\<rparr>,
                     sn1\<lparr>sn_sessions := upd_session (ds_ID s) (\<lambda>x. x\<lparr>ss_session := (ss_session x)\<lparr>ds_Schema := database\<rparr>\<rparr>) (sn_sessions sn1)\<rparr>,
                     Ok ())))"

definition kill_session :: "ProxyEnv \<Rightarrow> 32 word \<Rightarrow> Spanner \<Rightarrow> Spanner" where
  "kill_session pe i sn =
     (case Sessions_Kill (pe_be pe) i (sn_sessions sn) (sn_sys sn) of (ss, sys) \<Rightarrow> sn\<lparr>sn_sys := sys, sn_sessions := ss\<rparr>)"

definition handleKill :: "ProxyEnv \<Rightarrow> DSession \<Rightarrow> 64 word \<Rightarrow> Result option handler" where
  "handleKill pe s queryID sn =
     (let i = (ucast queryID :: 32 word); kill = (kill_session pe i sn, Ok (Some empty_Result)) in
      if IsSuperPriv (sn_priv sn) (ds_User s) then kill
      else case getSession (sn_sessions sn) i of
             None \<Rightarrow> (sn, nil_session)
           | Some x \<Rightarrow>
               if ds_User (ss_session x) \<noteq> ds_User s
               then (sn, Err (SQLError (ER_OTHER 1095) (''You are not owner of thread '' @ show_nat (unat i))))
               else kill)"

definition NewSession :: "DSession \<Rightarrow> Spanner \<Rightarrow> Spanner" where
  "NewSession s sn = sn\<lparr>sn_sessions := Sessions_Add s (sn_sessions sn)\<rparr>"

definition SessionClosed :: "ProxyEnv \<Rightarrow> DSession \<Rightarrow> Spanner \<Rightarrow> Spanner" where
  "SessionClosed pe s sn =
     (case Sessions_Remove (pe_be pe) s (sn_sessions sn) (sn_sys sn) of (ss, sys) \<Rightarrow> sn\<lparr>sn_sys := sys, sn_sessions := ss\<rparr>)"

definition SetReadOnly :: "bool \<Rightarrow> Spanner \<Rightarrow> Spanner" where
  "SetReadOnly val sn = sn\<lparr>sn_readonly := val\<rparr>"

end
