(* ===== verification/Spanner_Ddl.thy ===== *)
theory Spanner_Ddl
  imports Spanner
begin

text \<open>
  The handler of DDL statements, \<open>proxy/ddl.go\<close>, and of the statements that run table by table, \<open>proxy/checksumtable.go\<close>,
  \<open>proxy/table_maintenance.go\<close> and \<open>proxy/set.go\<close>. The outcomes of the disk operations of a handler are the function
  \<open>envs\<close> of their position; \<open>rng\<close> is the order in which a map is visited.
\<close>

section \<open>Checks of a new table\<close>

definition nil_spec :: "'a res" where
  "nil_spec = Panic ''nil pointer dereference''"

definition checkEngine :: "DDL \<Rightarrow> DDL res" where
  "checkEngine ddl =
     (case ddl_TableSpec ddl of
        None \<Rightarrow> nil_spec
      | Some spec \<Rightarrow>
          if ts_Engine spec = [] then Ok (ddl\<lparr>ddl_TableSpec := Some (spec\<lparr>ts_Engine := ''InnoDB''\<rparr>)\<rparr>)
          else if to_lower (ts_Engine spec) = ''innodb'' \<or> to_lower (ts_Engine spec) = ''tokudb'' then Ok ddl
          else Err (SQLError (ER_OTHER 1286) (ts_Engine spec)))"

definition key_error :: "string \<Rightarrow> 'a res" where
  "key_error shardKey =
     Err (Errorf ''The unique/primary constraint should be only defined on the sharding key column[%s]'' [shardKey])"

definition checkShardKey :: "TableSpec \<Rightarrow> string \<Rightarrow> unit res" where
  "checkShardKey spec shardKey =
     (if \<not> list_ex (\<lambda>c. ColIdent_EqualString (cd_Name c) shardKey) (ts_Columns spec)
      then Err (Errorf ''Sharding Key column '%s' doesn't exist in table'' [shardKey])
      else if list_ex (\<lambda>c. \<not> ColIdent_EqualString (cd_Name c) shardKey \<and> (cd_Primary c \<or> cd_Unique c)) (ts_Columns spec)
      then key_error shardKey
      else if list_ex (\<lambda>ix. (ix_Unique ix \<or> ix_Primary ix) \<and>
                        \<not> list_ex (\<lambda>c. ColIdent_EqualString c shardKey) (ix_Columns ix)) (ts_Indexes spec)
      then key_error shardKey
      else Ok ())"

text \<open>The key of a table created without a partition clause: the first unique column, or the first column of a unique index.\<close>

definition default_key :: "TableSpec \<Rightarrow> string res" where
  "default_key spec =
     (case find (\<lambda>c. cd_Primary c \<or> cd_Unique c) (ts_Columns spec) of
        Some c \<Rightarrow> Ok (to_lower (cd_Name c))
      | None \<Rightarrow>
          (case find (\<lambda>ix. ix_Unique ix \<or> ix_Primary ix) (ts_Indexes spec) of
             Some ix \<Rightarrow> (case ix_Columns ix of [] \<Rightarrow> Panic ''index out of range'' | c # _ \<Rightarrow> Ok (to_lower c))
           | None \<Rightarrow> Err (Errorf ''The unique/primary constraint shoule be defined or add 'PARTITION BY HASH' to mandatory indication'' [])))"

definition tryGetShardKey :: "DDL \<Rightarrow> string res" where
  "tryGetShardKey ddl =
     (let table = tn_Name (ddl_Table ddl);
          checked = (\<lambda>shardKey. case ddl_TableSpec ddl of
             None \<Rightarrow> nil_spec | Some spec \<Rightarrow> rbind (checkShardKey spec shardKey) (\<lambda>_. Ok shardKey))
      in if table = ''dual'' then Err (Errorf ''spanner.ddl.check.create.table[%s].error:not support'' [table])
         else case ddl_PartitionOption ddl of
                None \<Rightarrow> checked []
              | Some (PartOptHash name _) \<Rightarrow> checked (to_lower name)
              | Some (PartOptList name _) \<Rightarrow> checked (to_lower name)
              | Some PartOptNormal \<Rightarrow>
                  (case ddl_TableSpec ddl of None \<Rightarrow> nil_spec | Some spec \<Rightarrow> rbind (default_key spec) checked)
              | Some PartOptGlobal \<Rightarrow> Ok []
              | Some (PartOptSingle _) \<Rightarrow> Ok [])"

definition checkTableExists :: "string \<Rightarrow> string \<Rightarrow> Router \<Rightarrow> bool" where
  "checkTableExists database table r =
     (case gm_get (Router_Tables r) database of None \<Rightarrow> False | Some tables \<Rightarrow> table \<in> set tables)"

section \<open>DDL\<close>

definition route :: "(Router \<Rightarrow> Disk \<Rightarrow> unit step) \<Rightarrow> unit handler" where
  "route f sn = (case f (sn_router sn) (sn_disk sn) of ((r, d), x) \<Rightarrow> (sn\<lparr>sn_router := r, sn_disk := d\<rparr>, x))"

definition some_result :: "Result res \<Rightarrow> Result option res" where
  "some_result x = rbind x (\<lambda>r. Ok (Some r))"

definition hbind :: "Spanner \<times> 'a res \<Rightarrow> ('a \<Rightarrow> 'b handler) \<Rightarrow> Spanner \<times> 'b res" where
  "hbind h k = (case h of (sn, Ok x) \<Rightarrow> k x sn | (sn, Err e) \<Rightarrow> (sn, Err e) | (sn, Panic p) \<Rightarrow> (sn, Panic p))"

definition hres :: "'a res \<Rightarrow> 'a handler" where
  "hres x sn = (sn, x)"

fun check_databases :: "ProxyEnv \<Rightarrow> DSession \<Rightarrow> DDL \<Rightarrow> Privilege \<Rightarrow> string list \<Rightarrow> unit res" where
  "check_databases pe s node priv [] = Ok ()"
| "check_databases pe s node priv (db # dbs) =
     rbind (DatabaseACL db) (\<lambda>_. rbind (Privilege_Check priv db (ds_User s) (Some (StDDL node))) (\<lambda>_.
       check_databases pe s node priv dbs))"

definition ddl_database :: "DSession \<Rightarrow> DDL \<Rightarrow> string" where
  "ddl_database s ddl =
     (let database = (if ddl_Database ddl \<noteq> [] then ddl_Database ddl else ds_Schema s) in
      if ddl_Action ddl \<noteq> ''drop table'' \<and> tn_Qualifier (ddl_Table ddl) \<noteq> [] then tn_Qualifier (ddl_Table ddl) else database)"

text \<open>The databases that are checked before a DDL statement; for \<open>drop table\<close> the code takes the qualifier of \<open>ddl.Table\<close>.\<close>

definition ddl_databases :: "DSession \<Rightarrow> DDL \<Rightarrow> string list" where
  "ddl_databases s ddl =
     (if ddl_Action ddl = ''drop table''
      then map (\<lambda>_. tn_Qualifier (ddl_Table ddl)) (filter (\<lambda>t. tn_Qualifier t \<noteq> []) (ddl_Tables ddl)) else []) @ [ddl_database s ddl]"

definition create_route ::
  "((string, string) gomap \<Rightarrow> (string, string) gomap) \<Rightarrow> Env \<Rightarrow> DDL \<Rightarrow> string \<Rightarrow> string \<Rightarrow> AutoIncrement option \<Rightarrow> unit handler" where
  "create_route rng env ddl database shardKey autoinc sn =
     (let table = tn_Name (ddl_Table ddl); backends = Scatter_Backends (sn_scatter sn); extra = Some autoinc in
      case ddl_PartitionOption ddl of
        None \<Rightarrow> (sn, Ok ())
      | Some (PartOptHash _ num) \<Rightarrow> route (\<lambda>r d. CreateHashTable env r d database table shardKey ''hash'' backends num extra) sn
      | Some PartOptNormal \<Rightarrow> route (\<lambda>r d. CreateHashTable env r d database table shardKey ''hash'' backends None extra) sn
      | Some (PartOptList _ defs) \<Rightarrow> route (\<lambda>r d. CreateListTable rng env r d database table shardKey ''list'' defs extra) sn
      | Some PartOptGlobal \<Rightarrow> route (\<lambda>r d. CreateNonPartTable env r d database table ''global'' backends extra) sn
      | Some (PartOptSingle name) \<Rightarrow>
          if name \<noteq> [] then
            if \<not> CheckBackend (sn_scatter sn) name
            then (sn, Err (Errorf ''create table distributed by backend '%s' doesn't exist'' [name]))
            else route (\<lambda>r d. CreateNonPartTable env r d database table ''single'' [name] extra) sn
          else route (\<lambda>r d. CreateNonPartTable env r d database table ''single'' backends extra) sn)"

definition create_table ::
  "ProxyEnv \<Rightarrow> ((string, string) gomap \<Rightarrow> (string, string) gomap) \<Rightarrow> (nat \<Rightarrow> Env) \<Rightarrow> DSession \<Rightarrow> string \<Rightarrow> DDL \<Rightarrow> Result option handler" where
  "create_table pe rng envs s database node sn =
     (let table = tn_Name (ddl_Table node) in
      hbind (hres (CheckDatabase (sn_router sn) database) sn) (\<lambda>_ sn.
      if ddl_IfNotExists node \<and> checkTableExists database table (sn_router sn) then (sn, Ok (Some empty_Result))
      else
        hbind (hres (checkEngine node) sn) (\<lambda>ddl sn.
        hbind (hres (tryGetShardKey ddl) sn) (\<lambda>shardKey sn.
        hbind (hres (GetAutoIncrement ddl) sn) (\<lambda>autoinc sn.
        hbind (create_route rng (envs 0) ddl database shardKey autoinc sn) (\<lambda>_ sn.
          (case ExecuteDDL pe s database (sl_DDL (pl_sql (pe_pl pe)) ddl) (StDDL ddl) sn of
             (sn1, Err e) \<Rightarrow>
               (case route (\<lambda>r d. DropTable (envs 1) r d database table) sn1 of
                  (sn2, Panic p) \<Rightarrow> (sn2, Panic p)
                | (sn2, _) \<Rightarrow> (sn2, Err e))
           | (sn1, x) \<Rightarrow> (sn1, x))))))))"

text \<open>\<open>drop table\<close>, one table at a time. The statement of a table whose execution fails still drops it from the router.\<close>

fun drop_tables ::
  "ProxyEnv \<Rightarrow> (nat \<Rightarrow> Env) \<Rightarrow> nat \<Rightarrow> DSession \<Rightarrow> string \<Rightarrow> DDL \<Rightarrow> TableName list \<Rightarrow> Result option handler" where
  "drop_tables pe envs k s database node [] sn = (sn, Ok (Some empty_Result))"
| "drop_tables pe envs k s database node (t # ts) sn =
     (let node' = node\<lparr>ddl_Table := t\<rparr>; table = tn_Name t; db = or_default (tn_Qualifier t) database;
          query = (if tn_Qualifier t = [] then ''drop table '' @ table else ''drop table '' @ db @ ''.'' @ table)
      in case CheckDatabase (sn_router sn) db of
           Err e \<Rightarrow> (sn, Err e)
         | Panic p \<Rightarrow> (sn, Panic p)
         | Ok _ \<Rightarrow>
             if ddl_IfExists node \<and> \<not> checkTableExists db table (sn_router sn) then (sn, Ok (Some empty_Result))
             else
               (case ExecuteDDL pe s db query (StDDL node') sn of
                  (sn1, Panic p) \<Rightarrow> (sn1, Panic p)
                | (sn1, x) \<Rightarrow>
                    (case route (\<lambda>r d. DropTable (envs k) r d db table) sn1 of
                       (sn2, Panic p) \<Rightarrow> (sn2, Panic p)
                     | (sn2, _) \<Rightarrow>
                         (case x of
                            Ok _ \<Rightarrow> drop_tables pe envs (Suc k) s database node' ts sn2
                          | _ \<Rightarrow> (sn2, x)))))"

definition alter_table :: "ProxyEnv \<Rightarrow> DSession \<Rightarrow> string \<Rightarrow> string \<Rightarrow> DDL \<Rightarrow> Result option handler" where
  "alter_table pe s database query node sn =
     hbind (hres (CheckDatabase (sn_router sn) database) sn) (\<lambda>_ sn.
       if \<not> checkTableExists database (tn_Name (ddl_Table node)) (sn_router sn)
       then (sn, Err (SQLError ER_NO_SUCH_TABLE (tn_Name (ddl_Table node))))
       else ExecuteDDL pe s database query (StDDL node) sn)"

definition alter_database :: "ProxyEnv \<Rightarrow> string \<Rightarrow> string \<Rightarrow> DDL \<Rightarrow> Result option handler" where
  "alter_database pe database query ddl sn =
     (let named = ddl_Database ddl \<noteq> [];
          query' = (if named then query else sl_DDL (pl_sql (pe_pl pe)) (ddl\<lparr>ddl_Database := database\<rparr>))
      in hbind (hres (CheckDatabase (sn_router sn) (if named then ddl_Database ddl else database)) sn) (\<lambda>_ sn.
           case ExecuteScatter pe query' sn of (sn1, x) \<Rightarrow> (sn1, some_result x)))"

definition rename_table :: "ProxyEnv \<Rightarrow> (nat \<Rightarrow> Env) \<Rightarrow> DSession \<Rightarrow> string \<Rightarrow> string \<Rightarrow> DDL \<Rightarrow> Result option handler" where
  "rename_table pe envs s database query ddl sn =
     (let fromTable = tn_Name (ddl_Table ddl); toTable = tn_Name (ddl_NewName ddl) in
      hbind (hres (CheckDatabase (sn_router sn) database) sn) (\<lambda>_ sn.
        if \<not> checkTableExists database fromTable (sn_router sn) then (sn, Err (SQLError ER_NO_SUCH_TABLE fromTable))
        else if checkTableExists database toTable (sn_router sn) then (sn, Err (SQLError (ER_OTHER 1050) toTable))
        else
          hbind (ExecuteDDL pe s database query (StDDL ddl) sn) (\<lambda>r sn.
          hbind (route (\<lambda>rt d. RenameTable (envs 0) (envs 1) rt d database fromTable toTable) sn) (\<lambda>_. hres (Ok r)))))"

definition handleDDL ::
  "ProxyEnv \<Rightarrow> ((string, string) gomap \<Rightarrow> (string, string) gomap) \<Rightarrow> (nat \<Rightarrow> Env) \<Rightarrow> DSession \<Rightarrow> string \<Rightarrow> DDL \<Rightarrow> Result option handler" where
  "handleDDL pe rng envs s query ddl sn =
     (let database = ddl_database s ddl; action = ddl_Action ddl in
      hbind (hres (check_databases pe s ddl (sn_priv sn) (ddl_databases s ddl)) sn) (\<lambda>_ sn.
        if action = ''create database'' then
          if CheckDatabase (sn_router sn) database = Ok () \<and> ddl_IfNotExists ddl then (sn, Ok (Some empty_Result))
          else hbind (route (\<lambda>r d. CreateDatabase (envs 0) r d database) sn) (\<lambda>_ sn.
                 case ExecuteScatter pe query sn of (sn1, x) \<Rightarrow> (sn1, some_result x))
        else if action = ''drop database'' then
          if CheckDatabase (sn_router sn) database \<noteq> Ok () \<and> ddl_IfExists ddl then (sn, Ok (Some empty_Result))
          else hbind (ExecuteScatter pe query sn) (\<lambda>qr sn.
               hbind (route (\<lambda>r d. DropDatabase (envs 0) r d database) sn) (\<lambda>_. hres (Ok (Some qr))))
        else if action = ''create table'' then create_table pe rng envs s database ddl sn
        else if action = ''drop table'' then drop_tables pe envs 0 s database ddl (ddl_Tables ddl) sn
        else if action \<in> {''create index'', ''drop index'', ''alter table'', ''alter table charset'', ''alter table add column'',
            ''alter table drop column'', ''alter table modify column'', ''truncate table''}
        then alter_table pe s database query ddl sn
        else if action = ''alter database'' then alter_database pe database query ddl sn
        else if action = ''rename table'' then rename_table pe envs s database query ddl sn
        else (sn, Err (SQLError (ER_OTHER 1105) (''unsupported.query:'' @ query)))))"

section \<open>Statements that run table by table\<close>

definition table_text :: "string \<Rightarrow> TableName \<Rightarrow> string" where
  "table_text database tbl = or_default (tn_Qualifier tbl) database @ ''.'' @ tn_Name tbl"

definition checksum_row :: "string \<Rightarrow> string \<Rightarrow> row" where
  "checksum_row table val = [MakeTrusted VarChar table, MakeTrusted Int64 val]"

definition as_int64 :: "Value \<Rightarrow> int res" where
  "as_int64 v =
     (if IsSigned (v_typ v) then (case parse_int64 (v_val v) of Some i \<Rightarrow> Ok i | None \<Rightarrow> Panic ''strconv.ParseInt'')
      else Panic ''interface conversion: not int64'')"

fun sum_crc :: "row list \<Rightarrow> 32 word \<Rightarrow> 32 word res" where
  "sum_crc [] crc = Ok crc"
| "sum_crc (row # rows) crc = rbind (cell row 1) (\<lambda>v. rbind (as_int64 v) (\<lambda>i. sum_crc rows (crc + word_of_int i)))"

text \<open>Whether the text of an error says that a table does not exist is up to the error's formatting.\<close>

fun checksum_tables ::
  "ProxyEnv \<Rightarrow> (go_error \<Rightarrow> bool) \<Rightarrow> DSession \<Rightarrow> Others \<Rightarrow> TableName list \<Rightarrow> row list \<Rightarrow> row list handler" where
  "checksum_tables pe missing s node [] rows sn = (sn, Ok rows)"
| "checksum_tables pe missing s node (tbl # tbls) rows sn =
     (let newNode = node\<lparr>ot_Tables := [tbl]\<rparr>; table = table_text (ds_Schema s) tbl;
          next = (\<lambda>val sn. checksum_tables pe missing s node tbls (rows @ [checksum_row table val]) sn)
      in if ot_Quick node then next ''NULL'' sn
         else case ExecuteNormal pe s (ds_Schema s) (sl_Others (pl_sql (pe_pl pe)) newNode) (StOthers newNode) sn of
                (sn1, Panic p) \<Rightarrow> (sn1, Panic p)
              | (sn1, Err e) \<Rightarrow> if missing e then next ''NULL'' sn1 else (sn1, Err e)
              | (sn1, Ok None) \<Rightarrow> (sn1, nil_session)
              | (sn1, Ok (Some qr)) \<Rightarrow>
                  (case sum_crc (rs_Rows qr) 0 of
                     Ok crc \<Rightarrow> next (show_nat (unat crc)) sn1
                   | Err e \<Rightarrow> (sn1, Err e)
                   | Panic p \<Rightarrow> (sn1, Panic p)))"

definition checksum_fields :: "Field list" where
  "checksum_fields = [\<lparr>f_Name = ''Table'', f_Type = VarChar, f_Table = [], f_ColumnLength = 0, f_Decimals = 0\<rparr>,
     \<lparr>f_Name = ''Checksum'', f_Type = Int64, f_Table = [], f_ColumnLength = 0, f_Decimals = 0\<rparr>]"

definition handleChecksumTable :: "ProxyEnv \<Rightarrow> (go_error \<Rightarrow> bool) \<Rightarrow> DSession \<Rightarrow> Others \<Rightarrow> Result option handler" where
  "handleChecksumTable pe missing s node sn =
     hbind (checksum_tables pe missing s node (ot_Tables node) [] sn) (\<lambda>rows.
       hres (Ok (Some (empty_Result\<lparr>rs_Fields := Some checksum_fields, rs_Rows := rows, rs_RowsAffected := of_nat (length rows)\<rparr>))))"

fun each_table :: "ProxyEnv \<Rightarrow> DSession \<Rightarrow> Others \<Rightarrow> TableName list \<Rightarrow> Result \<Rightarrow> Result handler" where
  "each_table pe s node [] newqr sn = (sn, Ok newqr)"
| "each_table pe s node (tbl # tbls) newqr sn =
     (let newNode = node\<lparr>ot_Tables := [tbl]\<rparr> in
      case ExecuteNormal pe s (ds_Schema s) (sl_Others (pl_sql (pe_pl pe)) newNode) (StOthers newNode) sn of
        (sn1, Panic p) \<Rightarrow> (sn1, Panic p)
      | (sn1, Err e) \<Rightarrow> (sn1, Err e)
      | (sn1, Ok None) \<Rightarrow> (sn1, nil_session)
      | (sn1, Ok (Some qr)) \<Rightarrow> each_table pe s node tbls (AppendResult newqr qr) sn1)"

definition cell_less :: "NumLib \<Rightarrow> int \<Rightarrow> row \<Rightarrow> row \<Rightarrow> bool res" where
  "cell_less nl i a b =
     rbind (cell a i) (\<lambda>x. rbind (cell b i) (\<lambda>y. rbind (NullsafeCompare nl x y) (\<lambda>val. Ok (val = - 1))))"

definition sort_tables :: "ProxyEnv \<Rightarrow> Result \<Rightarrow> Result res" where
  "sort_tables pe qr =
     rbind (el_sort (pe_el pe) (cell_less (el_nl (pe_el pe)) 0) (rs_Rows qr)) (\<lambda>rows. Ok (qr\<lparr>rs_Rows := rows\<rparr>))"

text \<open>The status row of a table is shown before its note: columns 2 and 3 of a pair of rows are swapped.\<close>

fun status_first :: "NumLib \<Rightarrow> row list \<Rightarrow> row list res" where
  "status_first nl [] = Ok []"
| "status_first nl [a] = Panic ''index out of range''"
| "status_first nl (a # b # rows) =
     rbind (cell_less nl 2 a b) (\<lambda>swap.
     rbind (if \<not> swap then Ok (a, b)
            else if length a \<le> 3 \<or> length b \<le> 3 then Panic ''index out of range''
            else Ok (a[2 := b ! 2, 3 := b ! 3], b[2 := a ! 2, 3 := a ! 3])) (\<lambda>(a', b').
     rbind (status_first nl rows) (\<lambda>rest. Ok (a' # b' # rest))))"

definition handleOptimizeTable :: "ProxyEnv \<Rightarrow> DSession \<Rightarrow> Others \<Rightarrow> Result option handler" where
  "handleOptimizeTable pe s node sn =
     hbind (each_table pe s node (ot_Tables node) empty_Result sn) (\<lambda>newqr.
       hres (rbind (sort_tables pe newqr) (\<lambda>qr. rbind (status_first (el_nl (pe_el pe)) (rs_Rows qr)) (\<lambda>rows.
         Ok (Some (qr\<lparr>rs_Rows := rows\<rparr>))))))"

definition handleCheckTable :: "ProxyEnv \<Rightarrow> DSession \<Rightarrow> Others \<Rightarrow> Result option handler" where
  "handleCheckTable pe s node sn =
     hbind (each_table pe s node (ot_Tables node) empty_Result sn) (\<lambda>newqr. hres (some_result (sort_tables pe newqr)))"

section \<open>Set\<close>

datatype SetVal = OptSQL SQLVal | OptBool bool | OptOther | TxnVal

definition trim_prefix :: "string \<Rightarrow> string \<Rightarrow> string" where
  "trim_prefix p s = (if is_prefix p s then drop (length p) s else s)"

definition streaming_val :: "SetVal \<Rightarrow> bool option res" where
  "streaming_val v =
     (case v of
        OptSQL val \<Rightarrow>
          if sv_Type val = StrVal then
            Ok (if to_lower (sv_Val val) = ''on'' then Some True else if to_lower (sv_Val val) = ''off'' then Some False else None)
          else Err (Errorf ''Invalid value type: %v'' [sv_Val val])
      | OptBool b \<Rightarrow> Ok (Some b)
      | OptOther \<Rightarrow> Ok None
      | TxnVal \<Rightarrow> Panic ''interface conversion: sqlparser.SetVal is not *sqlparser.OptVal'')"

definition autocommit_val :: "SetVal \<Rightarrow> bool res" where
  "autocommit_val v =
     (case v of
        OptSQL val \<Rightarrow>
          if sv_Type val = IntVal then
            (case sv_Val val of [] \<Rightarrow> Panic ''index out of range'' | c # _ \<Rightarrow> Ok (c \<noteq> CHR ''0''))
          else if sv_Type val = StrVal then Ok (to_lower (sv_Val val) \<noteq> ''off'')
          else Ok True
      | OptBool b \<Rightarrow> Ok b
      | OptOther \<Rightarrow> Ok True
      | TxnVal \<Rightarrow> Panic ''interface conversion: sqlparser.SetVal is not *sqlparser.OptVal'')"

fun handleSet :: "ProxyEnv \<Rightarrow> DSession \<Rightarrow> (string \<times> SetVal) list \<Rightarrow> Result option handler" where
  "handleSet pe s [] sn = (sn, Ok (Some empty_Result))"
| "handleSet pe s ((typ, v) # exprs) sn =
     (let name = trim_prefix ''@@session.'' (to_lower typ) in
      if name = ''neodb_streaming_fetch'' then
        (case streaming_val v of
           Err e \<Rightarrow> (sn, Err e)
         | Panic p \<Rightarrow> (sn, Panic p)
         | Ok None \<Rightarrow> handleSet pe s exprs sn
         | Ok (Some b) \<Rightarrow>
             (case getTxnSession (sn_sessions sn) s of
                None \<Rightarrow> (sn, nil_session)
              | Some _ \<Rightarrow> handleSet pe s exprs (sn\<lparr>sn_sessions := upd_session (ds_ID s) (setStreamingFetchVar b) (sn_sessions sn)\<rparr>)))
      else if name = ''autocommit'' then
        (case autocommit_val v of
           Err e \<Rightarrow> (sn, Err e)
         | Panic p \<Rightarrow> (sn, Panic p)
         | Ok autocommit \<Rightarrow>
             if \<not> autocommit \<and> cf_AutocommitFalseIsTxn (pe_conf pe) then handleMultiStmtTxn pe s ''begin'' ''begin'' sn
             else handleSet pe s exprs sn)
      else handleSet pe s exprs sn)"

end
