(* ===== verification/Xa_Check.thy ===== *)
theory Xa_Check
  imports Scatter
begin

text \<open>
  The worker that finishes the transactions of the log, the rest of \<open>backend/xacheck.go\<close>. Every tick it
  goes through the log: it asks every backend which transactions it has prepared, and sends the second
  phase to those that know the identifier. A log entry is a Go pointer whose counter \<open>Times\<close> is decremented
  in place; the model writes the entry back into the map.
\<close>

section \<open>The code\<close>

definition recover_query :: string where "recover_query = ''xa recover''"

definition retry_query :: "XaCommitErr \<Rightarrow> string" where
  "retry_query retry = ''xa '' @ xe_State retry @ '' '' @ [CHR 0x27] @ xe_Xaid retry @ [CHR 0x27] @ '' ''"

text \<open>The rows of \<open>XA RECOVER\<close> whose data column is the identifier, up to case; a row without that column panics.\<close>

fun recover_rows :: "string \<Rightarrow> Value list list \<Rightarrow> nat res" where
  "recover_rows xid [] = Ok 0"
| "recover_rows xid (row # rows) =
     (if length row \<le> 3 then Panic ''index out of range''
      else rbind (recover_rows xid rows) (\<lambda>n. Ok (if equal_fold (v_val (row ! 3)) xid then Suc n else n)))"

definition recover_hits :: "string \<Rightarrow> Result \<Rightarrow> nat res" where
  "recover_hits xid r =
     (if rs_RowsAffected r > 0 \<and> fields_len (rs_Fields r) = 4 then recover_rows xid (rs_Rows r) else Ok 0)"

text \<open>First stage: any error ends it. A backend is listed once per matching row.\<close>

fun recover_all :: "Backends \<Rightarrow> string \<Rightarrow> string list \<Rightarrow> Txn \<Rightarrow> World \<Rightarrow> string list txn_step" where
  "recover_all be xid [] txn w = (txn, w, Ok [])"
| "recover_all be xid (b # bs) txn w =
     (case Txn_ExecuteOnThisBackend be b recover_query txn w of
        (txn1, w1, Err e) \<Rightarrow> (txn1, w1, Err e)
      | (txn1, w1, Panic p) \<Rightarrow> (txn1, w1, Panic p)
      | (txn1, w1, Ok r) \<Rightarrow>
          (case recover_hits xid r of
             Ok n \<Rightarrow> (case recover_all be xid bs txn1 w1 of (txn2, w2, x) \<Rightarrow> (txn2, w2, rbind x (\<lambda>need. Ok (replicate n b @ need))))
           | Err e \<Rightarrow> (txn1, w1, Err e)
           | Panic p \<Rightarrow> (txn1, w1, Panic p)))"

text \<open>Second stage: an error is only counted.\<close>

fun retry_all :: "Backends \<Rightarrow> string \<Rightarrow> string list \<Rightarrow> Txn \<Rightarrow> World \<Rightarrow> nat txn_step" where
  "retry_all be query [] txn w = (txn, w, Ok 0)"
| "retry_all be query (b # bs) txn w =
     (case Txn_ExecuteOnThisBackend be b query txn w of
        (txn1, w1, Panic p) \<Rightarrow> (txn1, w1, Panic p)
      | (txn1, w1, x) \<Rightarrow>
          (case retry_all be query bs txn1 w1 of (txn2, w2, y) \<Rightarrow> (txn2, w2, rbind y (\<lambda>n. Ok (if is_ok x then Suc n else n)))))"

definition put_retry :: "XaCommitErr \<Rightarrow> XaCheck \<Rightarrow> XaCheck" where
  "put_retry e xc = xc\<lparr>xc_retrys := gm_put (xe_Xaid e) e (xc_retrys xc)\<rparr>"

text \<open>The entry after both stages: done, given up and written to the time-out file, or one try less.\<close>

definition after_stages :: "bool \<Rightarrow> XaCommitErr \<Rightarrow> string list \<Rightarrow> nat \<Rightarrow> XaCheck \<Rightarrow> XaCheck \<times> bool res" where
  "after_stages write_ok retry need cnt xc =
     (if 0 < cnt \<and> cnt = length need then (xc, Ok True)
      else if xe_Times retry \<le> 0 then
        if write_ok then (xc\<lparr>xc_timesout := xc_timesout xc @ [retry]\<rparr>, Ok True)
        else (xc, Panic ''xacheck.flush.config.to.file.error'')
      else (put_retry (retry\<lparr>xe_Times := xe_Times retry - 1\<rparr>) xc, Ok False))"

definition commitRetryBackends ::
  "Backends \<Rightarrow> Scatter \<Rightarrow> XaCommitErr \<Rightarrow> Sys \<Rightarrow> XaCheck \<Rightarrow> Sys \<times> XaCheck \<times> bool res" where
  "commitRetryBackends be s retry sys xc =
     (let backends = AllBackends s in
      if backends = [] then (sys, xc, Err (Errorf ''xacheck.backend.empty'' []))
      else
        case CreateTransaction (sy_mgr sys) s of
          (m, Err e) \<Rightarrow> (sys\<lparr>sy_mgr := m\<rparr>, xc, Err e)
        | (m, Panic p) \<Rightarrow> (sys\<lparr>sy_mgr := m\<rparr>, xc, Panic p)
        | (m, Ok txn) \<Rightarrow>
            (case recover_all be (xe_Xaid retry) backends txn (sy_world sys) of
               (txn1, w1, Err e) \<Rightarrow> (snd (Txn_Finish be txn1 (sys\<lparr>sy_mgr := m, sy_world := w1\<rparr>)), xc, Err e)
             | (txn1, w1, Panic p) \<Rightarrow> (snd (Txn_Finish be txn1 (sys\<lparr>sy_mgr := m, sy_world := w1\<rparr>)), xc, Panic p)
             | (txn1, w1, Ok need) \<Rightarrow>
                 (case retry_all be (retry_query retry) need txn1 w1 of
                    (txn2, w2, Ok cnt) \<Rightarrow>
                      (case after_stages (be_write be (w_trace w2)) retry need cnt xc of
                         (xc', x) \<Rightarrow> (snd (Txn_Finish be txn2 (sys\<lparr>sy_mgr := m, sy_world := w2\<rparr>)), xc', x))
                  | (txn2, w2, Err e) \<Rightarrow> (snd (Txn_Finish be txn2 (sys\<lparr>sy_mgr := m, sy_world := w2\<rparr>)), xc, Err e)
                  | (txn2, w2, Panic p) \<Rightarrow> (snd (Txn_Finish be txn2 (sys\<lparr>sy_mgr := m, sy_world := w2\<rparr>)), xc, Panic p))))"

text \<open>One tick: the entries in the order the map is visited.\<close>

fun retry_entries :: "Backends \<Rightarrow> Scatter \<Rightarrow> XaCommitErr list \<Rightarrow> Sys \<Rightarrow> XaCheck \<Rightarrow> Sys \<times> XaCheck \<times> unit res" where
  "retry_entries be s [] sys xc = (sys, xc, Ok ())"
| "retry_entries be s (retry # retrys) sys xc =
     (case commitRetryBackends be s retry sys xc of
        (sys1, xc1, Err e) \<Rightarrow> (sys1, xc1, Err e)
      | (sys1, xc1, Panic p) \<Rightarrow> (sys1, xc1, Panic p)
      | (sys1, xc1, Ok False) \<Rightarrow> retry_entries be s retrys sys1 xc1
      | (sys1, xc1, Ok True) \<Rightarrow>
          (case flushXaCommitErrLog (be_write be (w_trace (sy_world sys1)))
                  (xc1\<lparr>xc_retrys := gm_del (xe_Xaid retry) (xc_retrys xc1)\<rparr>) of
             (xc2, Ok _) \<Rightarrow> retry_entries be s retrys sys1 xc2
           | (xc2, Err e) \<Rightarrow> (sys1, xc2, Err e)
           | (xc2, Panic p) \<Rightarrow> (sys1, xc2, Panic p)))"

definition xaCommitsRetryMain :: "Backends \<Rightarrow> Scatter \<Rightarrow> Sys \<Rightarrow> XaCheck \<Rightarrow> Sys \<times> XaCheck \<times> unit res" where
  "xaCommitsRetryMain be s sys xc = retry_entries be s (map snd (xc_retrys xc)) sys xc"

definition xaCommitsRetry :: "Backends \<Rightarrow> Scatter \<Rightarrow> Sys \<Rightarrow> Sys \<times> unit res" where
  "xaCommitsRetry be s sys =
     (case sy_xaCheck sys of
        None \<Rightarrow> (sys, nil_pool)
      | Some xc \<Rightarrow> (case xaCommitsRetryMain be s sys xc of (sys1, xc1, x) \<Rightarrow> (sys1\<lparr>sy_xaCheck := Some xc1\<rparr>, x)))"

text \<open>\<open>xaCommitCheck\<close>: a number of ticks; what a tick returns is ignored, a panic ends the process.\<close>

fun xaCommitCheck :: "nat \<Rightarrow> Backends \<Rightarrow> Scatter \<Rightarrow> Sys \<Rightarrow> Sys \<times> unit res" where
  "xaCommitCheck 0 be s sys = (sys, Ok ())"
| "xaCommitCheck (Suc n) be s sys =
     (case xaCommitsRetry be s sys of
        (sys1, Panic p) \<Rightarrow> (sys1, Panic p)
      | (sys1, _) \<Rightarrow> xaCommitCheck n be s sys1)"

text \<open>\<open>Init\<close>: the directory and the entries of the file.\<close>

definition XaCheck_Init :: "bool \<Rightarrow> bool \<Rightarrow> XaCheck \<Rightarrow> XaCheck \<times> unit res" where
  "XaCheck_Init mkdir_ok read_ok xc =
     (if \<not> mkdir_ok then (xc, io_err ''mkdir'' ''xacheck'') else LoadXaCommitErrLogs read_ok xc)"

definition GetRetrysLen :: "XaCheck \<Rightarrow> nat" where
  "GetRetrysLen xc = length (xc_retrys xc)"

section \<open>What one execution leaves behind\<close>

lemma normalConnection_addr:
  assumes ok: "txn_ok S txn w" and t: "normalConnection be txn w b = (txn', w', Ok c)"
  shows "back_addr txn w b = Some (c_address (w_conns w' ! c)) \<and> c < length (w_conns w') \<and> quiet w w' \<and>
     txn_ok S txn' w' \<and> world_ext w w' \<and> txn_frame txn txn' \<and> c \<in> set (txn_conns txn')"
proof -
  note g = normalConnection_spec [OF ok t]
  from t obtain pz p where pz: "gm_get (tx_backends txn) b = Some pz" "pz_normal pz = Some p" "Pool_Get be w p = (w', Ok c)"
    by (auto simp: normalConnection_def nil_pool_def split: option.splits prod.splits res.splits)
  have p: "p < length (w_pools w)" and inv: "pool_inv w" using ok pz by (auto simp: txn_ok_def pools_known_def)
  note s = Pool_Get_spec [OF inv p pz(3)]
  have c: "c < length (w_conns w')" "c_pool (w_conns w' ! c) = p" "pool_inv w'" "world_ext w w'" "quiet w w'" using s by auto
  then have "c_address (w_conns w' ! c) = p_address (w_pools w ! p)"
    by (simp add: pool_inv_def conns_wf_def world_ext_def)
  with c pz g show ?thesis by (simp add: back_addr_def normal_pool_def got_def)
qed

lemma conn_Kill_trace:
  assumes inv: "pool_inv w" and c: "c < length (w_conns w)"
  shows "\<exists>es. w_trace (fst (conn_Kill be w c)) = w_trace w @ es"
proof -
  let ?p = "c_pool (w_conns w ! c)"
  have p: "?p < length (w_pools w)" using inv c by (simp add: pool_inv_def conns_wf_def)
  obtain w1 x where g: "Pool_Get be w ?p = (w1, x)" by fastforce
  note s1 = Pool_Get_spec [OF inv p g]
  then obtain es1 where es1: "w_trace w1 = w_trace w @ es1" by (auto simp: quiet_def)
  show ?thesis
  proof (cases x)
    case (Ok k)
    obtain w2 y where e: "conn_Execute be w1 k (''KILL '' @ show_nat (c_id (w_conns w1 ! c))) = (w2, y)" by fastforce
    have inv1: "pool_inv w1" using s1 by simp
    note s2 = conn_Execute_spec [OF inv1 e]
    have "k \<in> out w1" using Pool_Get_out [OF inv p] g Ok by auto
    then have "k \<in> out w2" using s2 by auto
    with s2 have "quiet w2 (conn_Recycle be w2 k)" using conn_Recycle_spec by blast
    then obtain es3 where "w_trace (conn_Recycle be w2 k) = w_trace w2 @ es3" by (auto simp: quiet_def)
    with s2 es1 g Ok e show ?thesis by (auto simp: conn_Kill_def)
  qed (use g es1 in \<open>auto simp: conn_Kill_def\<close>)
qed

lemma conn_ExecuteWithLimits_trace:
  assumes inv: "pool_inv w" and c: "c < length (w_conns w)"
    and e: "conn_ExecuteWithLimits be w c q t m = (w', x)"
  shows "\<exists>es. w_trace w' = w_trace w @ es \<and> EvExec (c_address (w_conns w ! c)) c q (is_ok x) \<in> set es"
proof -
  define xo where "xo = be_exec be (w_trace w) (c_address (w_conns w ! c)) c q"
  let ?u = "upd_conn c (\<lambda>x. x\<lparr>c_killed := True\<rparr>) w"
  obtain v where run: "conn_run be v c q t m xo = (w', x)" and v: "v = w \<or> v = fst (conn_Kill be ?u c)"
    using e unfolding conn_ExecuteWithLimits_def xo_def [symmetric] Let_def by (auto split: exec_out.splits if_splits)
  have u: "pool_inv ?u" "c < length (w_conns ?u)" "w_trace ?u = w_trace w" "world_ext w ?u"
    using conn_only_inv [OF conn_only_upd inv, of "\<lambda>x. x\<lparr>c_killed := True\<rparr>" c] c by (simp_all add: world_simps)
  from v have v': "(\<exists>es. w_trace v = w_trace w @ es) \<and> world_ext w v"
  proof
    assume "v = fst (conn_Kill be ?u c)"
    with conn_Kill_trace [OF u(1,2), of be] conn_Kill_spec [OF u(1,2), of be] u(3) world_ext_trans [OF u(4)] show ?thesis by auto
  qed auto
  then obtain es where es: "w_trace v = w_trace w @ es" by blast
  have "c_address (w_conns v ! c) = c_address (w_conns w ! c)" using v' c by (simp add: world_ext_def)
  with conn_run_spec [OF run] es show ?thesis by auto
qed

text \<open>A statement on one backend outside a distributed transaction, when it succeeds, was accepted there.\<close>

definition plain_txn :: "Txn \<Rightarrow> bool" where
  "plain_txn txn \<longleftrightarrow> \<not> tx_twopc txn \<and> \<not> tx_isExecOnRep txn"

lemma ExecuteOnThisBackend_run:
  assumes "plain_txn txn"
  shows "Txn_ExecuteOnThisBackend be b q txn w =
     (case normalConnection be (txn\<lparr>tx_state := txnStateExecutingNormal\<rparr>) w b of
        (txn1, w1, Err e) \<Rightarrow> (incErrors txn1, w1, Err e)
      | (txn1, w1, Panic p) \<Rightarrow> (txn1, w1, Panic p)
      | (txn1, w1, Ok c) \<Rightarrow>
          (case conn_ExecuteWithLimits be w1 c q (tx_timeout txn1) (tx_maxResult txn1) of
             (w2, Ok r) \<Rightarrow> (txn1, w2, Ok (AppendResult empty_Result r))
           | (w2, Err e) \<Rightarrow> (incErrors txn1, w2, Err e)
           | (w2, Panic p) \<Rightarrow> (txn1, w2, Panic p)))"
  using assms
  by (auto simp: Txn_ExecuteOnThisBackend_def Txn_Execute_def txn_execute_def exec_shards_def NewRequestContext_def query_map_def
      gm_put_def one_shard_def fetchOneConnection_def plain_txn_def Let_def split: prod.splits res.splits)

lemma ExecuteOnThisBackend_accepted:
  assumes ok: "txn_ok S txn w" and plain: "plain_txn txn"
    and e: "Txn_ExecuteOnThisBackend be b q txn w = (txn', w', x)"
  shows "txn_ok S txn' w' \<and> plain_txn txn' \<and> world_ext w w' \<and> tx_backends txn' = tx_backends txn \<and>
     (\<exists>es. w_trace w' = w_trace w @ es \<and> (\<forall>r. x = Ok r \<longrightarrow> accepted txn w b q es))"
proof -
  let ?t = "txn\<lparr>tx_state := txnStateExecutingNormal\<rparr>"
  have ok': "txn_ok S ?t w" using ok txn_ok_cong [of ?t txn] by simp
  obtain t1 w1 y where n: "normalConnection be ?t w b = (t1, w1, y)" by (metis prod_cases3)
  note g = normalConnection_spec [OF ok' n]
  have shape: "tx_twopc t1 = tx_twopc txn \<and> tx_isExecOnRep t1 = tx_isExecOnRep txn \<and> tx_backends t1 = tx_backends txn"
    using n by (auto simp: normalConnection_def split: option.splits prod.splits res.splits)
  have inc: "txn_ok S (incErrors t) v = txn_ok S t v" "plain_txn (incErrors t) = plain_txn t" "tx_backends (incErrors t) = tx_backends t" for t v
    using txn_ok_cong [of "incErrors t" t] by (simp_all add: incErrors_def plain_txn_def)
  have inv: "pool_inv w" and known: "pools_known ?t w" using ok' by (simp_all add: txn_ok_def)
  have "w1 = w \<or> (\<exists>pz p z. gm_get (tx_backends ?t) b = Some pz \<and> pz_normal pz = Some p \<and> Pool_Get be w p = (w1, z))"
    using n by (auto simp: normalConnection_def split: option.splits prod.splits res.splits)
  then have q: "\<exists>es. w_trace w1 = w_trace w @ es"
  proof
    assume "\<exists>pz p z. gm_get (tx_backends ?t) b = Some pz \<and> pz_normal pz = Some p \<and> Pool_Get be w p = (w1, z)"
    then obtain pz p z where p: "gm_get (tx_backends ?t) b = Some pz" "pz_normal pz = Some p" "Pool_Get be w p = (w1, z)" by blast
    then have "p < length (w_pools w)" using known unfolding pools_known_def by blast
    from Pool_Get_spec [OF inv this p(3)] show ?thesis by (auto simp: quiet_def)
  qed simp
  show ?thesis
  proof (cases y)
    case (Ok c)
    note a = normalConnection_addr [OF ok' n [unfolded Ok]]
    obtain w2 z where l: "conn_ExecuteWithLimits be w1 c q (tx_timeout t1) (tx_maxResult t1) = (w2, z)" by fastforce
    have inv1: "pool_inv w1" using a by (auto simp: txn_ok_def)
    note s = conn_ExecuteWithLimits_spec [OF inv1 _ l]
    have ok2: "txn_ok S t1 w2" by (rule txn_ok_world [of S t1 w1]) (use a s in \<open>auto simp: txn_ok_def\<close>)
    obtain es1 where es1: "w_trace w1 = w_trace w @ es1" using a by (auto simp: quiet_def)
    obtain es2 where es2: "w_trace w2 = w_trace w1 @ es2" "EvExec (c_address (w_conns w1 ! c)) c q (is_ok z) \<in> set es2"
      using conn_ExecuteWithLimits_trace [OF inv1 _ l] a by blast
    have addr: "back_addr txn w b = Some (c_address (w_conns w1 ! c))"
      using a by (simp add: back_addr_def normal_pool_def)
    have eq: "w' = w2" "txn' = t1 \<or> txn' = incErrors t1" "(\<exists>r. x = Ok r) = is_ok z"
      using e n Ok l by (auto simp: ExecuteOnThisBackend_run [OF plain] split: res.splits)
    have "txn_ok S txn' w' \<and> plain_txn txn' \<and> tx_backends txn' = tx_backends txn"
      using eq(1,2) ok2 shape plain inc by (auto simp: plain_txn_def)
    moreover have "world_ext w w'" using a s eq(1) by (blast intro: world_ext_trans)
    moreover have "accepted txn w b q (es1 @ es2)" if "x = Ok r" for r
    proof -
      have "is_ok z" using eq(3) that by blast
      with es2(2) addr show ?thesis by (auto simp: accepted_def)
    qed
    moreover have "w_trace w' = w_trace w @ (es1 @ es2)" using es1 es2(1) eq(1) by simp
    ultimately show ?thesis by blast
  qed (use e n g shape plain inc q in \<open>auto simp: ExecuteOnThisBackend_run [OF plain] got_def plain_txn_def\<close>)
qed

text \<open>The two stages keep the transaction well-formed, and a count that is full means that every statement was accepted.\<close>

definition stage :: "nat set \<Rightarrow> Txn \<Rightarrow> World \<Rightarrow> Txn \<Rightarrow> World \<Rightarrow> event list \<Rightarrow> bool" where
  "stage S txn w txn' w' es \<longleftrightarrow>
     txn_ok S txn' w' \<and> plain_txn txn' \<and> world_ext w w' \<and> tx_backends txn' = tx_backends txn \<and> w_trace w' = w_trace w @ es"

lemma stage_refl: "txn_ok S txn w \<Longrightarrow> plain_txn txn \<Longrightarrow> stage S txn w txn w []"
  by (simp add: stage_def)

lemma stage_trans: "stage S t w t1 w1 es \<Longrightarrow> stage S t1 w1 t2 w2 es' \<Longrightarrow> stage S t w t2 w2 (es @ es')"
  by (auto simp: stage_def intro: world_ext_trans)

lemma stage_accepted: "stage S t w t1 w1 es \<Longrightarrow> accepted t1 w1 b q es' = accepted t w b q es'"
  by (simp add: stage_def accepted_def back_addr_def normal_pool_def world_ext_def)

lemma one_stage:
  assumes "txn_ok S txn w" "plain_txn txn" "Txn_ExecuteOnThisBackend be b q txn w = (txn', w', x)"
  shows "\<exists>es. stage S txn w txn' w' es \<and> (is_ok x \<longrightarrow> accepted txn w b q es)"
  using ExecuteOnThisBackend_accepted [OF assms] by (auto simp: stage_def is_ok_iff)

lemma recover_all_stage:
  "txn_ok S txn w \<Longrightarrow> plain_txn txn \<Longrightarrow> recover_all be xid bs txn w = (txn', w', x) \<Longrightarrow> \<exists>es. stage S txn w txn' w' es"
proof (induction bs arbitrary: txn w txn' w' x)
  case Nil
  then show ?case using stage_refl by auto
next
  case (Cons b bs)
  obtain t1 w1 y where e: "Txn_ExecuteOnThisBackend be b recover_query txn w = (t1, w1, y)" by (metis prod_cases3)
  from one_stage [OF Cons.prems(1,2) e] obtain es where st: "stage S txn w t1 w1 es" by blast
  obtain t2 w2 z where r: "recover_all be xid bs t1 w1 = (t2, w2, z)" by (metis prod_cases3)
  have "txn_ok S t1 w1" "plain_txn t1" using st by (simp_all add: stage_def)
  from Cons.IH [OF this r] obtain es' where "stage S t1 w1 t2 w2 es'" by blast
  note both = stage_trans [OF st this]
  have "(txn', w') = (t1, w1) \<or> (txn', w') = (t2, w2)"
    using Cons.prems(3) e r by (auto split: res.splits)
  with st both show ?case by blast
qed

lemma retry_all_stage:
  "txn_ok S txn w \<Longrightarrow> plain_txn txn \<Longrightarrow> retry_all be q bs txn w = (txn', w', x) \<Longrightarrow>
     \<exists>es. stage S txn w txn' w' es \<and> (\<forall>n. x = Ok n \<longrightarrow> n \<le> length bs \<and> (n = length bs \<longrightarrow> (\<forall>b \<in> set bs. accepted txn w b q es)))"
proof (induction bs arbitrary: txn w txn' w' x)
  case Nil
  then show ?case using stage_refl by auto
next
  case (Cons b bs)
  obtain t1 w1 y where e: "Txn_ExecuteOnThisBackend be b q txn w = (t1, w1, y)" by (metis prod_cases3)
  from one_stage [OF Cons.prems(1,2) e] obtain es where st: "stage S txn w t1 w1 es" and acc: "is_ok y \<longrightarrow> accepted txn w b q es" by blast
  show ?case
  proof (cases "\<exists>p. y = Panic p")
    case True
    with Cons.prems(3) e st show ?thesis by auto
  next
    case False
    obtain t2 w2 z where r: "retry_all be q bs t1 w1 = (t2, w2, z)" by (metis prod_cases3)
    have "txn_ok S t1 w1" "plain_txn t1" using st by (simp_all add: stage_def)
    from Cons.IH [OF this r] obtain es' where st': "stage S t1 w1 t2 w2 es'"
      and n: "\<forall>n. z = Ok n \<longrightarrow> n \<le> length bs \<and> (n = length bs \<longrightarrow> (\<forall>b \<in> set bs. accepted t1 w1 b q es'))" by blast
    have eq: "txn' = t2" "w' = w2" "x = rbind z (\<lambda>n. Ok (if is_ok y then Suc n else n))"
      using Cons.prems(3) e r False by (auto split: res.splits)
    have "stage S txn w txn' w' (es @ es')" using stage_trans [OF st st'] eq by simp
    moreover have "n' \<le> length (b # bs) \<and> (n' = length (b # bs) \<longrightarrow> (\<forall>b \<in> set (b # bs). accepted txn w b q (es @ es')))" if "x = Ok n'" for n'
    proof -
      from that eq(3) obtain k where k: "z = Ok k" "n' = (if is_ok y then Suc k else k)" by (auto simp: res_simps)
      show ?thesis
        using k n acc stage_accepted [OF st] accepted_mono [of txn w _ q es "es @ es'"] accepted_mono [of txn w _ q es' "es @ es'"]
        by (auto split: if_splits)
    qed
    ultimately show ?thesis by blast
  qed
qed

section \<open>Outcome of one retry\<close>

text \<open>The pools also promise that the history only grows.\<close>

definition later :: "World \<Rightarrow> World \<Rightarrow> bool" where
  "later w w' \<longleftrightarrow> (\<exists>es. w_trace w' = w_trace w @ es)"

lemma quiet_later: "quiet w w' \<Longrightarrow> later w w'"
  by (auto simp: quiet_def later_def)

interpretation history: conn_source pool_inv out later "\<lambda>w p. p < length (w_pools w)"
  "Pool_Get be" "conn_Recycle be" "\<lambda>w c. conn_Close c w" "\<lambda>w c. fst (conn_Kill be w c)" for be
proof unfold_locales
  fix w w' :: World and p :: nat and x :: "nat res"
  assume a: "pool_inv w" "p < length (w_pools w)" "Pool_Get be w p = (w', x)"
  from Pool_Get_spec [OF this] have "quiet w w'" by simp
  with pools.get_inv [OF a] quiet_later show "pool_inv w' \<and> out w \<subseteq> out w' \<and> later w w'" by blast
next
  fix w :: World and c :: nat
  assume "pool_inv w" "c \<in> out w"
  from conn_Recycle_spec [OF this, of be] quiet_later
  show "pool_inv (conn_Recycle be w c) \<and> out w - {c} \<subseteq> out (conn_Recycle be w c) \<and> later w (conn_Recycle be w c)" by blast
next
  fix w :: World and c :: nat
  assume "pool_inv w"
  then show "pool_inv (conn_Close c w) \<and> out w \<subseteq> out (conn_Close c w) \<and> later w (conn_Close c w)"
    using conn_Close_spec quiet_later [OF quiet_Close] by blast
next
  fix w :: World and c :: nat
  assume a: "pool_inv w" "c \<in> out w"
  then have "c < length (w_conns w)" by (simp add: out_def)
  with conn_Kill_trace [OF a(1)] pools.kill_inv [OF a, of be]
  show "pool_inv (fst (conn_Kill be w c)) \<and> out w \<subseteq> out (fst (conn_Kill be w c)) \<and> later w (fst (conn_Kill be w c))"
    by (simp add: later_def)
qed (use pools.get_new in \<open>auto simp: later_def\<close>)

lemma Txn_Finish_later:
  assumes "txn_ok S txn (sy_world sys)"
  shows "later (sy_world sys) (sy_world (snd (Txn_Finish be txn sys)))"
  using assms history.release_all [of "sy_world sys" "txn_conns txn" "0 < tx_errors txn" be]
  by (auto simp: Txn_Finish_def txn_ok_def later_def split: if_splits)

lemma scatter_inv_world:
  assumes "scatter_inv w s" "pool_inv w'" "world_ext w w'"
  shows "scatter_inv w' s"
  using assms poolz_known_ext [of "st_backends s" w w'] by (simp add: scatter_inv_def)

lemma finish_scatter:
  assumes inv: "scatter_inv w s" and st: "stage S txn w txn' w' es" and sys: "sy_world sys = w'"
  shows "scatter_inv (sy_world (snd (Txn_Finish be txn' sys))) s \<and>
     (\<exists>es'. w_trace (sy_world (snd (Txn_Finish be txn' sys))) = w_trace w @ es @ es')"
proof -
  have ok: "txn_ok S txn' (sy_world sys)" and ext: "world_ext w w'" "w_trace w' = w_trace w @ es"
    using st sys by (simp_all add: stage_def)
  from Txn_Finish_release [OF ok prod.collapse [symmetric], of be]
  have r: "pool_inv (sy_world (snd (Txn_Finish be txn' sys)))" "world_ext w (sy_world (snd (Txn_Finish be txn' sys)))"
    using ext(1) sys by (auto simp: releases_def intro: world_ext_trans)
  from Txn_Finish_later [OF ok, of be] ext(2) sys show ?thesis
    using scatter_inv_world [OF inv r] by (auto simp: later_def)
qed

lemma CreateTransaction_plain:
  assumes inv: "scatter_inv w s" and c: "CreateTransaction m s = (m', Ok txn)"
  shows "txn_ok {} txn w \<and> plain_txn txn"
proof -
  have wf: "gm_wf (st_backends s)" using inv by (simp add: scatter_inv_def)
  from c obtain i where t: "txn = NewTxn i (PoolzClone s)"
    by (auto simp: CreateTransaction_def CreateTxn_def mgr_GetID_def Let_def split: if_splits)
  have "poolz_known (PoolzClone s) w" using inv by (simp add: scatter_inv_def poolz_known_iff PoolzClone_get [OF wf])
  then show ?thesis using inv
    by (simp add: t scatter_inv_def txn_ok_def NewTxn_def txn_conns_def poolz_known_def pools_known_def plain_txn_def)
qed

definition retried :: "Backends \<Rightarrow> Scatter \<Rightarrow> XaCommitErr \<Rightarrow> Sys \<Rightarrow> Sys \<Rightarrow> bool" where
  "retried be s retry sys sys' \<longleftrightarrow>
     (\<exists>m txn txn1 w1 need es. CreateTransaction (sy_mgr sys) s = (m, Ok txn) \<and>
        recover_all be (xe_Xaid retry) (AllBackends s) txn (sy_world sys) = (txn1, w1, Ok need) \<and> need \<noteq> [] \<and>
        w_trace (sy_world sys') = w_trace (sy_world sys) @ es \<and>
        (\<forall>b \<in> set need. accepted txn (sy_world sys) b (retry_query retry) es))"

lemma commitRetry_cases:
  assumes inv: "scatter_inv (sy_world sys) s" and c: "commitRetryBackends be s retry sys xc = (sys', xc', x)"
  shows "scatter_inv (sy_world sys') s \<and> later (sy_world sys) (sy_world sys') \<and>
     (case x of
        Ok True \<Rightarrow> retried be s retry sys sys' \<and> xc' = xc \<or>
          xe_Times retry \<le> 0 \<and> xc' = xc\<lparr>xc_timesout := xc_timesout xc @ [retry]\<rparr>
      | Ok False \<Rightarrow> 0 < xe_Times retry \<and> xc' = put_retry (retry\<lparr>xe_Times := xe_Times retry - 1\<rparr>) xc
      | _ \<Rightarrow> xc' = xc)"
proof (cases "AllBackends s = [] \<or> \<not> (\<exists>m txn. CreateTransaction (sy_mgr sys) s = (m, Ok txn))")
  case True
  then have "sy_world sys' = sy_world sys" "xc' = xc" "\<And>b. x \<noteq> Ok b"
    using c by (auto simp: commitRetryBackends_def Let_def split: if_splits prod.splits res.splits)
  with inv show ?thesis by (auto simp: later_def split: res.splits)
next
  case False
  then obtain m txn where ct: "CreateTransaction (sy_mgr sys) s = (m, Ok txn)" and ne: "AllBackends s \<noteq> []" by blast
  have t: "txn_ok {} txn (sy_world sys)" "plain_txn txn" using CreateTransaction_plain [OF inv ct] by simp_all
  obtain t1 w1 y where r: "recover_all be (xe_Xaid retry) (AllBackends s) txn (sy_world sys) = (t1, w1, y)" by (metis prod_cases3)
  from recover_all_stage [OF t r] obtain es1 where st1: "stage {} txn (sy_world sys) t1 w1 es1" by blast
  show ?thesis
  proof (cases y)
    case (Ok need)
    have t1: "txn_ok {} t1 w1" "plain_txn t1" using st1 by (simp_all add: stage_def)
    obtain t2 w2 z where q: "retry_all be (retry_query retry) need t1 w1 = (t2, w2, z)" by (metis prod_cases3)
    from retry_all_stage [OF t1 q] obtain es2 where st2: "stage {} t1 w1 t2 w2 es2"
      and n: "\<forall>n. z = Ok n \<longrightarrow> n \<le> length need \<and> (n = length need \<longrightarrow> (\<forall>b \<in> set need. accepted t1 w1 b (retry_query retry) es2))" by blast
    note st = stage_trans [OF st1 st2]
    let ?sys = "sys\<lparr>sy_mgr := m, sy_world := w2\<rparr>"
    from finish_scatter [OF inv st, of ?sys be] obtain es3
      where f: "scatter_inv (sy_world (snd (Txn_Finish be t2 ?sys))) s"
        "w_trace (sy_world (snd (Txn_Finish be t2 ?sys))) = w_trace (sy_world sys) @ (es1 @ es2) @ es3" by auto
    have sys': "sys' = snd (Txn_Finish be t2 ?sys)"
      using c ct ne r Ok q by (auto simp: commitRetryBackends_def Let_def split: res.splits prod.splits)
    show ?thesis
    proof (cases z)
      case cnt: (Ok n')
      have a: "after_stages (be_write be (w_trace w2)) retry need n' xc = (xc', x)"
        using c ct ne r Ok q cnt by (auto simp: commitRetryBackends_def Let_def split: prod.splits)
      have "retried be s retry sys sys'" if "0 < n'" "n' = length need"
      proof -
        have "accepted txn (sy_world sys) b (retry_query retry) ((es1 @ es2) @ es3)" if "b \<in> set need" for b
          using n cnt \<open>n' = length need\<close> that stage_accepted [OF st1] by (auto intro: accepted_mono)
        with ct r Ok that f(2) show ?thesis unfolding retried_def sys' by fastforce
      qed
      with a f sys' show ?thesis by (auto simp: later_def after_stages_def split: if_splits res.splits bool.splits)
    qed (use c ct ne r Ok q f sys' in \<open>auto simp: later_def commitRetryBackends_def Let_def\<close>)
  next
    case (Err e)
    with c ct ne r finish_scatter [OF inv st1, of "sys\<lparr>sy_mgr := m, sy_world := w1\<rparr>" be] show ?thesis
      by (auto simp: later_def commitRetryBackends_def Let_def)
  next
    case (Panic p)
    with c ct ne r finish_scatter [OF inv st1, of "sys\<lparr>sy_mgr := m, sy_world := w1\<rparr>" be] show ?thesis
      by (auto simp: later_def commitRetryBackends_def Let_def)
  qed
qed

section \<open>Ticks\<close>

lemma later_trans: "later w w' \<Longrightarrow> later w' w'' \<Longrightarrow> later w w''"
  by (auto simp: later_def)

lemma later_refl [simp]: "later w w"
  by (simp add: later_def)

text \<open>An entry left the log for a reason: its second phase was accepted, or it was given up.\<close>

definition settled_entry :: "Backends \<Rightarrow> Scatter \<Rightarrow> Sys \<Rightarrow> Sys \<Rightarrow> XaCheck \<Rightarrow> XaCommitErr \<Rightarrow> bool" where
  "settled_entry be s sys sys' xc' e \<longleftrightarrow>
     (\<exists>sys1 sys2. later (sy_world sys) (sy_world sys1) \<and> retried be s e sys1 sys2 \<and> later (sy_world sys2) (sy_world sys')) \<or>
     xe_Times e \<le> 0 \<and> e \<in> set (xc_timesout xc')"

text \<open>What a tick does to one entry: kept as it is, kept with one try less, or settled and dropped.\<close>

definition entry_after :: "Backends \<Rightarrow> Scatter \<Rightarrow> Sys \<Rightarrow> Sys \<Rightarrow> XaCheck \<Rightarrow> XaCommitErr \<Rightarrow> bool" where
  "entry_after be s sys sys' xc' e \<longleftrightarrow>
     (case gm_get (xc_retrys xc') (xe_Xaid e) of
        None \<Rightarrow> settled_entry be s sys sys' xc' e
      | Some e' \<Rightarrow> e' = e \<or> 0 < xe_Times e \<and> e' = e\<lparr>xe_Times := xe_Times e - 1\<rparr>)"

lemma settled_entry_mono:
  assumes "settled_entry be s sys1 sys2 xc1 e" "later (sy_world sys) (sy_world sys1)" "later (sy_world sys2) (sy_world sys')"
    "set (xc_timesout xc1) \<subseteq> set (xc_timesout xc')"
  shows "settled_entry be s sys sys' xc' e"
  using assms unfolding settled_entry_def by (blast intro: later_trans)

lemma xc_inv_put: "xc_inv xc \<Longrightarrow> xc_inv (put_retry e xc)"
  by (auto simp: xc_inv_def put_retry_def gm_put_set)

lemma xc_inv_del: "xc_inv xc \<Longrightarrow> xc_inv (xc\<lparr>xc_retrys := gm_del k (xc_retrys xc)\<rparr>)"
  by (auto simp: xc_inv_def gm_del_set)

lemma xc_inv_timesout [simp]: "xc_inv (xc\<lparr>xc_timesout := ts\<rparr>) = xc_inv xc"
  by (simp add: xc_inv_def)

lemma xc_inv_file [simp]: "xc_inv (xc\<lparr>xc_file := f\<rparr>) = xc_inv xc"
  by (simp add: xc_inv_def)

text \<open>One entry of a tick, the removal and the flush included.\<close>

definition retry_one :: "Backends \<Rightarrow> Scatter \<Rightarrow> XaCommitErr \<Rightarrow> Sys \<Rightarrow> XaCheck \<Rightarrow> Sys \<times> XaCheck \<times> unit res" where
  "retry_one be s retry sys xc =
     (case commitRetryBackends be s retry sys xc of
        (sys1, xc1, Err e) \<Rightarrow> (sys1, xc1, Err e)
      | (sys1, xc1, Panic p) \<Rightarrow> (sys1, xc1, Panic p)
      | (sys1, xc1, Ok False) \<Rightarrow> (sys1, xc1, Ok ())
      | (sys1, xc1, Ok True) \<Rightarrow>
          (case flushXaCommitErrLog (be_write be (w_trace (sy_world sys1)))
                  (xc1\<lparr>xc_retrys := gm_del (xe_Xaid retry) (xc_retrys xc1)\<rparr>) of (xc2, x) \<Rightarrow> (sys1, xc2, x)))"

lemma retry_entries_Cons:
  "retry_entries be s (retry # retrys) sys xc =
     (case retry_one be s retry sys xc of
        (sys1, xc1, Ok _) \<Rightarrow> retry_entries be s retrys sys1 xc1
      | (sys1, xc1, Err e) \<Rightarrow> (sys1, xc1, Err e)
      | (sys1, xc1, Panic p) \<Rightarrow> (sys1, xc1, Panic p))"
  by (simp add: retry_one_def split: prod.splits res.splits bool.splits)

lemma retry_one_spec:
  assumes inv: "scatter_inv (sy_world sys) s" "xc_inv xc" and e: "gm_get (xc_retrys xc) (xe_Xaid e) = Some e"
    and r: "retry_one be s e sys xc = (sys', xc', x)"
  shows "scatter_inv (sy_world sys') s \<and> xc_inv xc' \<and> later (sy_world sys) (sy_world sys') \<and>
     set (xc_timesout xc) \<subseteq> set (xc_timesout xc') \<and> entry_after be s sys sys' xc' e \<and>
     (\<forall>k. k \<noteq> xe_Xaid e \<longrightarrow> gm_get (xc_retrys xc') k = gm_get (xc_retrys xc) k) \<and>
     (x = Ok () \<longrightarrow> gm_get (xc_retrys xc') (xe_Xaid e) \<noteq> Some e)"
proof -
  obtain sys1 xc1 y where c: "commitRetryBackends be s e sys xc = (sys1, xc1, y)" by (metis prod_cases3)
  note o = commitRetry_cases [OF inv(1) c]
  show ?thesis
  proof (cases "y = Ok True")
    case True
    let ?xc = "xc1\<lparr>xc_retrys := gm_del (xe_Xaid e) (xc_retrys xc1)\<rparr>"
    from r c True have r': "sys' = sys1" "xc' = ?xc \<or> (\<exists>f. xc' = ?xc\<lparr>xc_file := f\<rparr>)"
      by (auto simp: retry_one_def flushXaCommitErrLog_def split: if_splits)
    from o True have "retried be s e sys sys1 \<and> xc1 = xc \<or> xe_Times e \<le> 0 \<and> xc1 = xc\<lparr>xc_timesout := xc_timesout xc @ [e]\<rparr>"
      by simp
    then have xc1: "xc_inv xc1" "xc_retrys xc1 = xc_retrys xc" "set (xc_timesout xc) \<subseteq> set (xc_timesout xc1)"
      and se: "settled_entry be s sys sys1 xc1 e"
      using inv(2) unfolding settled_entry_def by (auto intro: later_refl)
    from r' have x': "xc_inv xc'" "xc_retrys xc' = gm_del (xe_Xaid e) (xc_retrys xc)" "xc_timesout xc' = xc_timesout xc1"
      using xc_inv_del [OF xc1(1)] xc1(2) by auto
    with se have "entry_after be s sys sys1 xc' e"
      by (simp add: entry_after_def settled_entry_def gomap_simps)
    with x' xc1 r'(1) o show ?thesis by (simp add: gomap_simps)
  next
    case False
    with r c have r': "sys' = sys1" "xc' = xc1" "x = Ok () \<Longrightarrow> y = Ok False"
      by (auto simp: retry_one_def split: res.splits bool.splits)
    from o False consider "xc1 = xc" "y \<noteq> Ok False"
      | "y = Ok False" "0 < xe_Times e" "xc1 = put_retry (e\<lparr>xe_Times := xe_Times e - 1\<rparr>) xc"
      by (auto split: res.splits bool.splits)
    then show ?thesis
    proof cases
      case 1
      with o inv(2) e r' show ?thesis by (auto simp: entry_after_def)
    next
      case 2
      have ne: "e\<lparr>xe_Times := xe_Times e - 1\<rparr> \<noteq> e"
      proof
        assume "e\<lparr>xe_Times := xe_Times e - 1\<rparr> = e"
        from arg_cong [OF this, of xe_Times] show False by simp
      qed
      have g: "gm_get (xc_retrys xc1) k = (if k = xe_Xaid e then Some (e\<lparr>xe_Times := xe_Times e - 1\<rparr>) else gm_get (xc_retrys xc) k)"
        "xc_timesout xc1 = xc_timesout xc" for k
        using 2(3) by (simp_all add: put_retry_def gomap_simps)
      have "entry_after be s sys sys1 xc1 e" using g 2(2) by (simp add: entry_after_def)
      with o r'(1,2) g ne xc_inv_put [OF inv(2)] 2(3) show ?thesis by simp
    qed
  qed
qed

lemma entry_after_mono:
  assumes "entry_after be s sys1 sys2 xc1 e" "later (sy_world sys) (sy_world sys1)" "later (sy_world sys2) (sy_world sys')"
    "set (xc_timesout xc1) \<subseteq> set (xc_timesout xc')" "gm_get (xc_retrys xc') (xe_Xaid e) = gm_get (xc_retrys xc1) (xe_Xaid e)"
  shows "entry_after be s sys sys' xc' e"
  using assms settled_entry_mono [of be s sys1 sys2 xc1 e sys sys' xc']
  by (auto simp: entry_after_def split: option.splits)

lemma retry_entries_spec:
  assumes "scatter_inv (sy_world sys) s" "xc_inv xc" "distinct (map xe_Xaid es)"
    and "\<forall>e \<in> set es. gm_get (xc_retrys xc) (xe_Xaid e) = Some e"
    and "retry_entries be s es sys xc = (sys', xc', x)"
  shows "scatter_inv (sy_world sys') s \<and> xc_inv xc' \<and> later (sy_world sys) (sy_world sys') \<and>
     set (xc_timesout xc) \<subseteq> set (xc_timesout xc') \<and> (\<forall>e \<in> set es. entry_after be s sys sys' xc' e) \<and>
     (\<forall>k. k \<notin> xe_Xaid ` set es \<longrightarrow> gm_get (xc_retrys xc') k = gm_get (xc_retrys xc) k) \<and>
     (x = Ok () \<longrightarrow> (\<forall>e \<in> set es. gm_get (xc_retrys xc') (xe_Xaid e) \<noteq> Some e))"
  using assms
proof (induction es arbitrary: sys xc)
  case Nil
  then show ?case by simp
next
  case (Cons e es)
  obtain sys1 xc1 y where r: "retry_one be s e sys xc = (sys1, xc1, y)" by (metis prod_cases3)
  have e: "gm_get (xc_retrys xc) (xe_Xaid e) = Some e" using Cons.prems(4) by simp
  note o = retry_one_spec [OF Cons.prems(1,2) e r]
  have keep: "gm_get (xc_retrys xc1) (xe_Xaid d) = Some d" "xe_Xaid d \<noteq> xe_Xaid e" if "d \<in> set es" for d
    using o that Cons.prems(3,4) by (auto simp: image_iff)
  show ?case
  proof (cases "y = Ok ()")
    case True
    with Cons.prems(5) r have rest: "retry_entries be s es sys1 xc1 = (sys', xc', x)"
      by (simp add: retry_entries_Cons del: retry_entries.simps)
    have "distinct (map xe_Xaid es)" "xe_Xaid e \<notin> xe_Xaid ` set es" using Cons.prems(3) by auto
    with Cons.IH [OF _ _ _ _ rest] o keep
    have i: "scatter_inv (sy_world sys') s" "xc_inv xc'" "later (sy_world sys1) (sy_world sys')"
      "set (xc_timesout xc1) \<subseteq> set (xc_timesout xc')" "\<forall>d \<in> set es. entry_after be s sys1 sys' xc' d"
      "\<forall>k. k \<notin> xe_Xaid ` set es \<longrightarrow> gm_get (xc_retrys xc') k = gm_get (xc_retrys xc1) k"
      "x = Ok () \<longrightarrow> (\<forall>d \<in> set es. gm_get (xc_retrys xc') (xe_Xaid d) \<noteq> Some d)"
      "gm_get (xc_retrys xc') (xe_Xaid e) = gm_get (xc_retrys xc1) (xe_Xaid e)" by auto
    have "entry_after be s sys sys' xc' d" if "d \<in> set es" for d
      by (rule entry_after_mono [of be s sys1 sys' xc']) (use i o that in auto)
    moreover have "entry_after be s sys sys' xc' e"
      by (rule entry_after_mono [of be s sys sys1 xc1]) (use i o in auto)
    ultimately show ?thesis using i o True by (auto intro: later_trans)
  next
    case False
    with Cons.prems(5) r have "sys' = sys1" "xc' = xc1" "x \<noteq> Ok ()"
      by (auto simp: retry_entries_Cons simp del: retry_entries.simps split: res.splits)
    with o keep show ?thesis by (auto simp: entry_after_def)
  qed
qed

lemma xc_inv_entries:
  assumes "xc_inv xc"
  shows "distinct (map xe_Xaid (map snd (xc_retrys xc)))"
    and "\<forall>e \<in> set (map snd (xc_retrys xc)). gm_get (xc_retrys xc) (xe_Xaid e) = Some e"
    and "gm_get (xc_retrys xc) k = Some e \<Longrightarrow> e \<in> set (map snd (xc_retrys xc)) \<and> xe_Xaid e = k"
proof -
  have m: "map xe_Xaid (map snd (xc_retrys xc)) = map fst (xc_retrys xc)" using assms by (auto simp: xc_inv_def)
  show "distinct (map xe_Xaid (map snd (xc_retrys xc)))" unfolding m using assms by (simp add: xc_inv_def gm_wf_def)
  show "\<forall>e \<in> set (map snd (xc_retrys xc)). gm_get (xc_retrys xc) (xe_Xaid e) = Some e"
    using assms by (auto simp: xc_inv_def gm_wf_get_iff)
  show "gm_get (xc_retrys xc) k = Some e \<Longrightarrow> e \<in> set (map snd (xc_retrys xc)) \<and> xe_Xaid e = k"
    using assms by (force simp: xc_inv_def gm_wf_get_iff)
qed

lemma xaCommitsRetry_spec:
  assumes inv: "scatter_inv (sy_world sys) s" and xc: "sy_xaCheck sys = Some xc" "xc_inv xc"
    and r: "xaCommitsRetry be s sys = (sys', x)"
  shows "\<exists>xc'. sy_xaCheck sys' = Some xc' \<and> xc_inv xc' \<and> scatter_inv (sy_world sys') s \<and>
     (\<forall>k e. gm_get (xc_retrys xc) k = Some e \<longrightarrow> entry_after be s sys sys' xc' e \<and>
        (x = Ok () \<longrightarrow> gm_get (xc_retrys xc') k \<noteq> Some e)) \<and>
     (\<forall>k. gm_get (xc_retrys xc) k = None \<longrightarrow> gm_get (xc_retrys xc') k = None)"
proof -
  obtain sys1 xc' where m: "retry_entries be s (map snd (xc_retrys xc)) sys xc = (sys1, xc', x)"
    and sys': "sys' = sys1\<lparr>sy_xaCheck := Some xc'\<rparr>"
    using r xc(1) by (auto simp: xaCommitsRetry_def xaCommitsRetryMain_def split: prod.splits)
  note o = retry_entries_spec [OF inv xc(2) xc_inv_entries(1,2) [OF xc(2)] m]
  have "entry_after be s sys sys' xc' e = entry_after be s sys sys1 xc' e" for e
    by (simp add: entry_after_def settled_entry_def sys' split: option.split)
  moreover have "gm_get (xc_retrys xc') k = None" if "gm_get (xc_retrys xc) k = None" for k
  proof -
    have "k \<notin> xe_Xaid ` set (map snd (xc_retrys xc))" using that xc_inv_entries(2) [OF xc(2)] by force
    with o that show ?thesis by metis
  qed
  moreover have "entry_after be s sys sys1 xc' e \<and> (x = Ok () \<longrightarrow> gm_get (xc_retrys xc') k \<noteq> Some e)"
    if "gm_get (xc_retrys xc) k = Some e" for k e
    using o xc_inv_entries(3) [OF xc(2) that] by blast
  ultimately show ?thesis using o sys' by simp
qed

text \<open>The ticks that ran to the end, of the first \<open>n\<close>.\<close>

fun full_ticks :: "nat \<Rightarrow> Backends \<Rightarrow> Scatter \<Rightarrow> Sys \<Rightarrow> nat" where
  "full_ticks 0 be s sys = 0"
| "full_ticks (Suc n) be s sys =
     (case xaCommitsRetry be s sys of
        (sys1, Panic p) \<Rightarrow> 0
      | (sys1, Err e) \<Rightarrow> full_ticks n be s sys1
      | (sys1, Ok _) \<Rightarrow> Suc (full_ticks n be s sys1))"

text \<open>An entry that is still there after some ticks has lost one try in each of the full ones.\<close>

definition worn :: "nat \<Rightarrow> XaCommitErr option \<Rightarrow> XaCommitErr option \<Rightarrow> bool" where
  "worn n old new \<longleftrightarrow> (\<forall>e'. new = Some e' \<longrightarrow>
     (\<exists>e. old = Some e \<and> xe_Times e' + int n \<le> xe_Times e \<and> (0 < n \<or> 0 \<le> xe_Times e \<longrightarrow> 0 \<le> xe_Times e')))"

lemma worn_trans: "worn m a b \<Longrightarrow> worn n b c \<Longrightarrow> worn (m + n) a c"
  unfolding worn_def by fastforce

lemma worn_refl [simp]: "worn 0 a a"
  by (simp add: worn_def)

lemma entry_after_worn:
  assumes "entry_after be s sys sys' xc' e" "x = Ok () \<longrightarrow> gm_get (xc_retrys xc') (xe_Xaid e) \<noteq> Some e"
  shows "worn (if x = Ok () then 1 else 0) (Some e) (gm_get (xc_retrys xc') (xe_Xaid e))"
  using assms by (auto simp: entry_after_def worn_def split: option.splits)

lemma xaCommitCheck_worn:
  assumes "scatter_inv (sy_world sys) s" "sy_xaCheck sys = Some xc" "xc_inv xc" "xaCommitCheck n be s sys = (sys', x)"
  shows "\<exists>xc'. sy_xaCheck sys' = Some xc' \<and>
     (\<forall>k. worn (full_ticks n be s sys) (gm_get (xc_retrys xc) k) (gm_get (xc_retrys xc') k))"
  using assms
proof (induction n arbitrary: sys xc)
  case (Suc n)
  obtain sys1 y where t: "xaCommitsRetry be s sys = (sys1, y)" by fastforce
  from xaCommitsRetry_spec [OF Suc.prems(1-3) t] obtain xc1 where xc1: "sy_xaCheck sys1 = Some xc1" "xc_inv xc1"
    "scatter_inv (sy_world sys1) s" and e: "\<And>k e. gm_get (xc_retrys xc) k = Some e \<Longrightarrow>
      entry_after be s sys sys1 xc1 e \<and> (y = Ok () \<longrightarrow> gm_get (xc_retrys xc1) k \<noteq> Some e)"
    and none: "\<And>k. gm_get (xc_retrys xc) k = None \<Longrightarrow> gm_get (xc_retrys xc1) k = None" by blast
  have w: "worn (if y = Ok () then 1 else 0) (gm_get (xc_retrys xc) k) (gm_get (xc_retrys xc1) k)" for k
  proof (cases "gm_get (xc_retrys xc) k")
    case None
    with none show ?thesis by (simp add: worn_def)
  next
    case (Some d)
    then have "xe_Xaid d = k" using xc_inv_entries(3) [OF Suc.prems(3)] by blast
    with entry_after_worn [of be s sys sys1 xc1 d y] e [OF Some] Some show ?thesis by simp
  qed
  show ?case
  proof (cases "\<exists>p. y = Panic p")
    case True
    with t Suc.prems(4) w xc1(1) show ?thesis by auto
  next
    case False
    with t Suc.prems(4) have "xaCommitCheck n be s sys1 = (sys', x)" by (auto split: res.splits)
    from Suc.IH [OF xc1(3,1,2) this] obtain xc' where "sy_xaCheck sys' = Some xc'"
      and r: "\<And>k. worn (full_ticks n be s sys1) (gm_get (xc_retrys xc1) k) (gm_get (xc_retrys xc') k)" by blast
    moreover have "full_ticks (Suc n) be s sys = (if y = Ok () then 1 else 0) + full_ticks n be s sys1"
      using t False by (auto split: res.splits)
    ultimately show ?thesis using worn_trans [OF w r] by auto
  qed
qed simp

section \<open>Properties\<close>

text \<open>
  C15. A tick of the worker, whatever it returns: an entry of the log is either still there, with the
  same count of tries or one less, or it was dropped for a reason. Either every backend that lists
  the transaction in \<open>XA RECOVER\<close> accepted the second phase during the tick (and at least one lists it), or
  its tries were used up and it stands in the file of entries given up. No entry appears.
\<close>

theorem retry_tick_outcome:
  assumes "scatter_inv (sy_world sys) s" "sy_xaCheck sys = Some xc" "xc_inv xc"
    and "xaCommitsRetry be s sys = (sys', x)"
  shows "\<exists>xc'. sy_xaCheck sys' = Some xc' \<and> xc_inv xc' \<and> scatter_inv (sy_world sys') s \<and>
     (\<forall>k e. gm_get (xc_retrys xc) k = Some e \<longrightarrow>
        (case gm_get (xc_retrys xc') k of
           None \<Rightarrow> settled_entry be s sys sys' xc' e
         | Some e' \<Rightarrow> e' = e \<or> 0 < xe_Times e \<and> e' = e\<lparr>xe_Times := xe_Times e - 1\<rparr>)) \<and>
     (\<forall>k. gm_get (xc_retrys xc) k = None \<longrightarrow> gm_get (xc_retrys xc') k = None)"
proof -
  from xaCommitsRetry_spec [OF assms] obtain xc' where s: "sy_xaCheck sys' = Some xc'" "xc_inv xc'"
    "scatter_inv (sy_world sys') s" "\<And>k e. gm_get (xc_retrys xc) k = Some e \<Longrightarrow> entry_after be s sys sys' xc' e"
    "\<And>k. gm_get (xc_retrys xc) k = None \<Longrightarrow> gm_get (xc_retrys xc') k = None" by blast
  show ?thesis
    by (rule exI [of _ xc']) (use s xc_inv_entries(3) [OF assms(3)] in \<open>auto simp: entry_after_def\<close>)
qed

text \<open>
  C16. The worker empties the log: an entry with \<open>Times\<close> tries left is gone after more than \<open>Times\<close> ticks
  that ran to the end, however many ticks between them ended in an error.
\<close>

theorem retry_log_drains:
  assumes "scatter_inv (sy_world sys) s" "sy_xaCheck sys = Some xc" "xc_inv xc"
    and "xaCommitCheck n be s sys = (sys', x)"
    and "gm_get (xc_retrys xc) k = Some e" "xe_Times e < int (full_ticks n be s sys)" "0 < full_ticks n be s sys"
  shows "\<exists>xc'. sy_xaCheck sys' = Some xc' \<and> gm_get (xc_retrys xc') k = None"
proof -
  from xaCommitCheck_worn [OF assms(1-4)] obtain xc' where "sy_xaCheck sys' = Some xc'"
    "worn (full_ticks n be s sys) (Some e) (gm_get (xc_retrys xc') k)" using assms(5) by metis
  with assms(6,7) show ?thesis by (cases "gm_get (xc_retrys xc') k") (auto simp: worn_def)
qed

section \<open>Witnesses\<close>

text \<open>Two servers, the second of which holds a prepared transaction \<open>x1\<close>; and one log entry for it.\<close>

definition recovering_be :: Backends where
  "recovering_be = demo_be\<lparr>be_exec := \<lambda>_ a _ q.
     if a = ''h2:3306'' \<and> q = recover_query
     then XOk \<lparr>rs_Fields = Some (replicate 4 \<lparr>f_Name = [], f_Type = VarChar, f_Table = [], f_ColumnLength = 0, f_Decimals = 0\<rparr>),
            rs_RowsAffected = 1, rs_InsertID = 0, rs_Rows = [[NULL, NULL, NULL, NewVarChar ''x1'']]\<rparr> 0
     else XOk empty_Result 0\<rparr>"

definition demo_entry :: XaCommitErr where
  "demo_entry = \<lparr>xe_Time = ''20200101'', xe_Xaid = ''x1'', xe_State = ''commit'', xe_Times = 1\<rparr>"

definition demo_log :: XaCheck where
  "demo_log = \<lparr>xc_times = 10, xc_retrys = [(''x1'', demo_entry)], xc_file = Some [demo_entry], xc_timesout = []\<rparr>"

definition demo_cluster :: Sys where
  "demo_cluster = \<lparr>sy_world = fst demo_scatter, sy_mgr = \<lparr>m_txnid = 1, m_txnNums = 1\<rparr>, sy_xaCheck = Some demo_log\<rparr>"

lemma demo_cluster_inv:
  "scatter_inv (sy_world demo_cluster) (snd demo_scatter)" "sy_xaCheck demo_cluster = Some demo_log" "xc_inv demo_log"
  using scatter_reach_inv [OF demo_scatter_reach]
  by (simp_all add: demo_cluster_def xc_inv_def demo_log_def demo_entry_def gm_wf_def)

theorem retry_tick_outcome_witness:
  "\<exists>xc'. sy_xaCheck (fst (xaCommitsRetry recovering_be (snd demo_scatter) demo_cluster)) = Some xc' \<and>
     gm_get (xc_retrys xc') ''x1'' = None \<and> xc_timesout xc' = [] \<and>
     settled_entry recovering_be (snd demo_scatter) demo_cluster
       (fst (xaCommitsRetry recovering_be (snd demo_scatter) demo_cluster)) xc' demo_entry"
proof -
  obtain sys' x where r: "xaCommitsRetry recovering_be (snd demo_scatter) demo_cluster = (sys', x)" by fastforce
  have "map_option (\<lambda>xc. (xc_retrys xc, xc_timesout xc))
      (sy_xaCheck (fst (xaCommitsRetry recovering_be (snd demo_scatter) demo_cluster))) = Some ([], [])" by code_simp
  moreover have "gm_get (xc_retrys demo_log) ''x1'' = Some demo_entry" by (simp add: demo_log_def)
  ultimately show ?thesis
    using retry_tick_outcome [OF demo_cluster_inv r] r by (fastforce split: option.splits)
qed

theorem retry_log_drains_witness:
  "\<exists>xc'. sy_xaCheck (fst (xaCommitCheck 2 demo_be (snd demo_scatter) demo_cluster)) = Some xc' \<and>
     gm_get (xc_retrys xc') ''x1'' = None"
proof -
  have t: "full_ticks 2 demo_be (snd demo_scatter) demo_cluster = 2" by code_simp
  show ?thesis
    by (rule retry_log_drains [OF demo_cluster_inv prod.collapse [symmetric], of _ demo_entry])
      (simp_all add: t, simp_all add: demo_log_def demo_entry_def)
qed

end
