(* ===== verification/Join_Props.thy ===== *)
theory Join_Props
  imports Merge_Join
begin

text \<open>
  Correctness of the sort-merge join: on inputs whose key columns are ordered it appends, up to order,
  exactly the rows of the nested loop over both inputs, and it fails exactly when there are more of
  them than the limit. The last section is about the workers of \<open>concatLeftAndRight\<close>.
\<close>

section \<open>The nested loop on parts of the inputs\<close>

lemma left_out_cong:
  assumes "filter (matches nl node l) R = filter (matches nl node l) R'"
  shows "left_out nl node R l = left_out nl node R' l"
  using assms by (simp add: left_out_def)

lemma nested_loop_append: "nested_loop nl node (L @ L') R = nested_loop nl node L R @ nested_loop nl node L' R"
  by (simp add: nested_loop_def)

lemma nested_loop_skip:
  assumes "\<And>l r. l \<in> set L \<Longrightarrow> r \<in> set R \<Longrightarrow> \<not> on_keys nl node l r"
  shows "nested_loop nl node L (R @ R') = nested_loop nl node L R'"
    and "nested_loop nl node L (R' @ R) = nested_loop nl node L R'"
proof -
  have "filter (matches nl node l) R = []" if "l \<in> set L" for l
    using assms that by (auto simp: filter_empty_conv matches_def)
  then show "nested_loop nl node L (R @ R') = nested_loop nl node L R'"
    and "nested_loop nl node L (R' @ R) = nested_loop nl node L R'"
    unfolding nested_loop_def by (auto intro!: arg_cong [of _ _ concat] left_out_cong)
qed

lemma nested_loop_none:
  assumes "\<And>l r. l \<in> set L \<Longrightarrow> r \<in> set R \<Longrightarrow> \<not> on_keys nl node l r"
  shows "nested_loop nl node L R = concat (map (nil_out node) L)"
proof -
  have "left_out nl node [] = nil_out node" by (rule ext) (simp add: left_out_def row_out_def)
  with nested_loop_skip(1) [of L R nl node "[]", OF assms] show ?thesis by (simp add: nested_loop_def)
qed

section \<open>The merge\<close>

text \<open>The order of the keys of both inputs.\<close>

definition merge_input :: "NumLib \<Rightarrow> Value set list \<Rightarrow> JoinNode \<Rightarrow> row list \<Rightarrow> row list \<Rightarrow> bool" where
  "merge_input nl Cs node L R \<longleftrightarrow>
     join_ok nl Cs node (set L) (set R) \<and> key_sorted nl (lkeys node) L \<and> key_sorted nl (rkeys node) R"

abbreviation lk :: "JoinNode \<Rightarrow> row \<Rightarrow> Value list" where "lk node \<equiv> key_of (lkeys node)"
abbreviation rk :: "JoinNode \<Rightarrow> row \<Rightarrow> Value list" where "rk node \<equiv> key_of (rkeys node)"

lemma order: "merge_input nl Cs node L R \<Longrightarrow> value_order (lexv nl) (columns Cs)"
  using lexv_order by (simp add: merge_input_def join_ok_def keyed_rows_def)

lemma lcol: "merge_input nl Cs node L R \<Longrightarrow> l \<in> set L \<Longrightarrow> lk node l \<in> columns Cs"
  by (simp add: merge_input_def join_ok_def keyed_rows_def)

lemma rcol: "merge_input nl Cs node L R \<Longrightarrow> r \<in> set R \<Longrightarrow> rk node r \<in> columns Cs"
  by (simp add: merge_input_def join_ok_def keyed_rows_def)

lemma key_lengths: "merge_input nl Cs node L R \<Longrightarrow> length (lk node l) = length (rk node r)"
  by (simp add: merge_input_def join_ok_def)

lemma parts_ok:
  assumes "merge_input nl Cs node L R"
  shows "cols_ok node (set L) (set R)" "filters_ok nl node (set L) (set R)"
  "\<forall>r \<in> set R. in_range (jn_RightTmpCols node) r" "\<forall>l \<in> set L. in_range (jn_LeftTmpCols node) l"
  using assms by (simp_all add: merge_input_def join_ok_def)

lemma group_cmp:
  assumes mi: "merge_input nl Cs node L R" and "l \<in> set L" "r \<in> set R"
  shows "key_cmp nl l r (lkeys node) (rkeys node) = Ok (kc nl (lk node l) (rk node r))"
  using assms by (intro key_cmp_kc [of _ _ _ _ Cs]) (auto simp: merge_input_def join_ok_def keyed_rows_def)

text \<open>A group of the left input and a group of the right one.\<close>

definition at_group :: "NumLib \<Rightarrow> JoinNode \<Rightarrow> row list \<Rightarrow> row list \<Rightarrow> row list \<Rightarrow> row list \<Rightarrow> row list \<Rightarrow> row list \<Rightarrow> bool" where
  "at_group nl node L R lg ls rg rs \<longleftrightarrow>
     lg \<noteq> [] \<and> rg \<noteq> [] \<and> set lg \<subseteq> set L \<and> set ls \<subseteq> set L \<and> set rg \<subseteq> set R \<and> set rs \<subseteq> set R \<and>
     (\<forall>l \<in> set lg. lexv nl (lk node l) (lk node (lg ! 0)) = 0) \<and> (\<forall>l \<in> set ls. lexv nl (lk node (lg ! 0)) (lk node l) < 0) \<and>
     (\<forall>r \<in> set rg. lexv nl (rk node r) (rk node (rg ! 0)) = 0) \<and> (\<forall>r \<in> set rs. lexv nl (rk node (rg ! 0)) (rk node r) < 0)"

lemma at_group_heads: "at_group nl node L R lg ls rg rs \<Longrightarrow> lg ! 0 \<in> set L \<and> rg ! 0 \<in> set R"
  by (auto simp: at_group_def)

lemma cmp_left:
  assumes mi: "merge_input nl Cs node L R" and "l \<in> set L" "l' \<in> set L" "r \<in> set R" "lexv nl (lk node l) (lk node l') = 0"
  shows "lexv nl (lk node l) (rk node r) < 0 \<longleftrightarrow> lexv nl (lk node l') (rk node r) < 0"
    and "lexv nl (lk node l) (rk node r) = 0 \<longleftrightarrow> lexv nl (lk node l') (rk node r) = 0"
    and "0 < lexv nl (lk node l) (rk node r) \<longleftrightarrow> 0 < lexv nl (lk node l') (rk node r)"
proof -
  note c = lcol [OF mi assms(2)] lcol [OF mi assms(3)] rcol [OF mi assms(4)]
  have s: "lexv nl (lk node l') (lk node l) = 0" using value_order.cmp_swap [OF order [OF mi] c(1,2)] assms(5) by simp
  show lt: "lexv nl (lk node l) (rk node r) < 0 \<longleftrightarrow> lexv nl (lk node l') (rk node r) < 0"
    using value_order.cmp_le_less [OF order [OF mi] c(1,2,3)] value_order.cmp_le_less [OF order [OF mi] c(2,1,3)] assms(5) s by auto
  have "lexv nl (lk node l) (rk node r) \<le> 0 \<longleftrightarrow> lexv nl (lk node l') (rk node r) \<le> 0"
    by (rule value_order.cmp_eq_left [OF order [OF mi] c assms(5)])
  with lt show "lexv nl (lk node l) (rk node r) = 0 \<longleftrightarrow> lexv nl (lk node l') (rk node r) = 0"
    and "0 < lexv nl (lk node l) (rk node r) \<longleftrightarrow> 0 < lexv nl (lk node l') (rk node r)" by linarith+
qed

lemma left_before:
  assumes mi: "merge_input nl Cs node L R" and g: "at_group nl node L R lg ls rg rs" and c: "lexv nl (lk node (lg ! 0)) (rk node (rg ! 0)) < 0"
    and lr: "l \<in> set lg" "r \<in> set (rg @ rs)"
  shows "\<not> on_keys nl node l r"
proof -
  have m: "l \<in> set L" "r \<in> set R" "lg ! 0 \<in> set L" "rg ! 0 \<in> set R" using g lr at_group_heads [OF g] by (auto simp: at_group_def)
  have "lexv nl (rk node (rg ! 0)) (rk node r) \<le> 0"
  proof (cases "r \<in> set rg")
    case True
    then have "lexv nl (rk node r) (rk node (rg ! 0)) = 0" using g by (simp add: at_group_def)
    then show ?thesis using value_order.cmp_swap [OF order [OF mi] rcol [OF mi m(2)] rcol [OF mi m(4)]] by simp
  next
    case False
    then show ?thesis using g lr(2) by (auto simp: at_group_def)
  qed
  then have "lexv nl (lk node (lg ! 0)) (rk node r) < 0"
    using value_order.cmp_less_le [OF order [OF mi] lcol [OF mi m(3)] rcol [OF mi m(4)] rcol [OF mi m(2)] c] by simp
  then have "lexv nl (lk node l) (rk node r) < 0" using cmp_left(1) [OF mi m(1,3,2)] g lr(1) by (simp add: at_group_def)
  then show ?thesis using on_keys_zero by force
qed

lemma right_before:
  assumes mi: "merge_input nl Cs node L R" and g: "at_group nl node L R lg ls rg rs" and c: "0 \<le> lexv nl (lk node (lg ! 0)) (rk node (rg ! 0))"
    and lr: "l \<in> set ls \<or> l \<in> set lg \<and> 0 < lexv nl (lk node (lg ! 0)) (rk node (rg ! 0))" "r \<in> set rg"
  shows "\<not> on_keys nl node l r"
proof -
  let ?x = "lexv nl"
  have m: "l \<in> set L" "r \<in> set R" "lg ! 0 \<in> set L" "rg ! 0 \<in> set R" using g lr at_group_heads [OF g] by (auto simp: at_group_def)
  have c': "?x (rk node (rg ! 0)) (lk node (lg ! 0)) \<le> 0" using c value_order.cmp_swap [OF order [OF mi] lcol [OF mi m(3)] rcol [OF mi m(4)]] by simp
  have r: "?x (rk node r) (rk node (rg ! 0)) \<le> 0" using g lr(2) by (simp add: at_group_def)
  have r': "?x (rk node r) (lk node (lg ! 0)) \<le> 0" by (rule value_order.cmp_trans [OF order [OF mi] rcol [OF mi m(2)] rcol [OF mi m(4)] lcol [OF mi m(3)] r c'])
  have "?x (rk node r) (lk node l) < 0"
  proof (cases "l \<in> set ls")
    case True
    then have "?x (lk node (lg ! 0)) (lk node l) < 0" using g by (simp add: at_group_def)
    then show ?thesis using value_order.cmp_le_less [OF order [OF mi] rcol [OF mi m(2)] lcol [OF mi m(3)] lcol [OF mi m(1)] r'] by simp
  next
    case False
    with lr have l: "l \<in> set lg" "?x (rk node (rg ! 0)) (lk node (lg ! 0)) < 0"
      using value_order.cmp_swap [OF order [OF mi] lcol [OF mi m(3)] rcol [OF mi m(4)]] by auto
    have "?x (lk node (lg ! 0)) (lk node l) = 0"
      using g l(1) value_order.cmp_swap [OF order [OF mi] lcol [OF mi m(1)] lcol [OF mi m(3)]] by (simp add: at_group_def)
    moreover have "?x (rk node r) (lk node (lg ! 0)) < 0"
      by (rule value_order.cmp_le_less [OF order [OF mi] rcol [OF mi m(2)] rcol [OF mi m(4)] lcol [OF mi m(3)] r l(2)])
    ultimately show ?thesis using value_order.cmp_less_le [OF order [OF mi] rcol [OF mi m(2)] lcol [OF mi m(3)] lcol [OF mi m(1)]] by simp
  qed
  then show ?thesis using on_keys_zero [of nl node l r] value_order.cmp_swap [OF order [OF mi] lcol [OF mi m(1)] rcol [OF mi m(2)]] by fastforce
qed

lemma key_null:
  assumes mi: "merge_input nl Cs node L R" and "x \<in> columns Cs" "y \<in> columns Cs" "lexv nl x y = 0" "i < length x"
  shows "IsNull (x ! i) \<longleftrightarrow> IsNull (y ! i)"
proof -
  have len: "length x = length Cs" "length y = length Cs" using assms(2,3) by (simp_all add: columns_def list_all2_lengthD)
  then have z: "vcmp nl (x ! i) (y ! i) = 0" using assms(4,5) by (simp add: lexcmp_zero_iff list_all2_conv_all_nth)
  have "x ! i \<in> Cs ! i" "y ! i \<in> Cs ! i" using assms(2,3,5) len by (simp_all add: columns_def list_all2_conv_all_nth)
  moreover have "ordered_column nl (Cs ! i)" using mi assms(5) len by (simp add: merge_input_def join_ok_def keyed_rows_def)
  ultimately have "NullsafeCompare nl (x ! i) (y ! i) = Ok (vcmp nl (x ! i) (y ! i))" by (simp add: ordered_column_def)
  with z vcmp_null_iff vcmp_null_iff' show ?thesis by blast
qed

lemma null_groups:
  assumes mi: "merge_input nl Cs node L R" and g: "at_group nl node L R lg ls rg rs" and c: "kc nl (lk node (lg ! 0)) (rk node (rg ! 0)) = (c, True)"
  shows "c = 0" "l \<in> set lg \<Longrightarrow> \<not> on_keys nl node l r" "l \<in> set L \<Longrightarrow> r \<in> set rg \<Longrightarrow> \<not> on_keys nl node l r"
proof -
  obtain i where i: "c = 0" "i < length (lk node (lg ! 0))" "i < length (rk node (rg ! 0))" "IsNull (lk node (lg ! 0) ! i)"
    "vcmp nl (lk node (lg ! 0) ! i) (rk node (rg ! 0) ! i) = 0" using kc_null [OF c] by blast
  show "c = 0" by (rule i(1))
  have h: "lg ! 0 \<in> set L" "rg ! 0 \<in> set R" using at_group_heads [OF g] by simp_all
  show "\<not> on_keys nl node l r" if "l \<in> set lg"
  proof -
    have "l \<in> set L" "lexv nl (lk node l) (lk node (lg ! 0)) = 0" using g that by (auto simp: at_group_def)
    then have "IsNull (lk node l ! i)" using key_null [OF mi lcol [OF mi] lcol [OF mi], of l "lg ! 0" i] h i by simp
    then show ?thesis using on_keys_nth [of nl node l r i] i(2) by auto
  qed
  show "\<not> on_keys nl node l r" if "l \<in> set L" "r \<in> set rg"
  proof
    assume k: "on_keys nl node l r"
    have rR: "r \<in> set R" "lexv nl (rk node r) (rk node (rg ! 0)) = 0" using g that by (auto simp: at_group_def)
    have "IsNull (rk node (rg ! 0) ! i)" using vcmp_null_iff [OF i(5) i(4)] .
    then have "IsNull (rk node r ! i)" using key_null [OF mi rcol [OF mi] rcol [OF mi], of r "rg ! 0" i] rR h i by simp
    then have "IsNull (lk node l ! i)"
      using key_null [OF mi lcol [OF mi] rcol [OF mi], of l r i] that rR(1) on_keys_zero [OF k] i(2) by simp
    then show False using on_keys_nth [OF k, of i] i(2) by simp
  qed
qed

lemma equal_groups:
  assumes mi: "merge_input nl Cs node L R" and g: "at_group nl node L R lg ls rg rs" and c: "kc nl (lk node (lg ! 0)) (rk node (rg ! 0)) = (0, False)"
    and lr: "l \<in> set lg" "r \<in> set rg"
  shows "on_keys nl node l r"
proof -
  have m: "l \<in> set L" "r \<in> set R" "lg ! 0 \<in> set L" "rg ! 0 \<in> set R" using g lr at_group_heads [OF g] by (auto simp: at_group_def)
  have z: "lexv nl (lk node (lg ! 0)) (rk node (rg ! 0)) = 0" "list_all (\<lambda>v. \<not> IsNull v) (lk node (lg ! 0))"
    using kc_no_null [OF c key_lengths [OF mi]] by simp_all
  have e: "lexv nl (lk node l) (lk node (lg ! 0)) = 0" "lexv nl (rk node r) (rk node (rg ! 0)) = 0" using g lr by (simp_all add: at_group_def)
  have "lexv nl (lk node l) (rk node (rg ! 0)) = 0" using cmp_left(2) [OF mi m(1,3,4) e(1)] z(1) by simp
  moreover have "lexv nl (rk node (rg ! 0)) (rk node r) = 0" using value_order.cmp_swap [OF order [OF mi] rcol [OF mi m(2)] rcol [OF mi m(4)]] e(2) by simp
  ultimately have "lexv nl (lk node l) (rk node r) = 0"
    using value_order.cmp_eq_trans [OF order [OF mi] lcol [OF mi m(1)] rcol [OF mi m(4)] rcol [OF mi m(2)]] by simp
  moreover have "list_all (\<lambda>v. \<not> IsNull v) (lk node l)"
    using key_null [OF mi lcol [OF mi m(1)] lcol [OF mi m(3)] e(1)] z(2) by (simp add: list_all_length)
  ultimately show ?thesis using on_keysI [OF _ _ key_lengths [OF mi]] by blast
qed

text \<open>One round of the loop, from two groups.\<close>

lemma groups_at:
  assumes "group_state nl (lkeys node) L (Some lg, i) lrest" "set lrest \<subseteq> set L"
    "group_state nl (rkeys node) R (Some rg, j) rrest" "set rrest \<subseteq> set R"
  shows "at_group nl node L R lg (drop i L) rg (drop j R)"
  using assms by (auto simp: group_state_def at_group_def)

lemma next_group:
  assumes mi: "merge_input nl Cs node L R"
  shows "group_state nl (lkeys node) L (Some lg, i) lrest \<Longrightarrow>
      \<exists>st. fetchSameKeyRows nl L (lkeys node) i = Ok st \<and> group_state nl (lkeys node) L st (drop i L)"
    and "group_state nl (rkeys node) R (Some rg, j) rrest \<Longrightarrow>
      \<exists>st. fetchSameKeyRows nl R (rkeys node) j = Ok st \<and> group_state nl (rkeys node) R st (drop j R)"
proof -
  have k: "keyed_rows nl Cs (lkeys node) (set L)" "keyed_rows nl Cs (rkeys node) (set R)"
    "key_sorted nl (lkeys node) L" "key_sorted nl (rkeys node) R" using mi by (simp_all add: merge_input_def join_ok_def)
  show "\<exists>st. fetchSameKeyRows nl L (lkeys node) i = Ok st \<and> group_state nl (lkeys node) L st (drop i L)"
    if "group_state nl (lkeys node) L (Some lg, i) lrest"
    by (rule fetch_group [OF k(1,3)]) (use that in \<open>simp add: group_state_def\<close>)
  show "\<exists>st. fetchSameKeyRows nl R (rkeys node) j = Ok st \<and> group_state nl (rkeys node) R st (drop j R)"
    if "group_state nl (rkeys node) R (Some rg, j) rrest"
    by (rule fetch_group [OF k(2,4)]) (use that in \<open>simp add: group_state_def\<close>)
qed

text \<open>What one round does to the rows that are still to be joined.\<close>

lemma round_null:
  assumes mi: "merge_input nl Cs node L R" and g: "at_group nl node L R lg ls rg rs"
    and c: "kc nl (lk node (lg ! 0)) (rk node (rg ! 0)) = (c, True)"
  shows "nested_loop nl node (lg @ ls) (rg @ rs) = concat (map (nil_out node) lg) @ nested_loop nl node ls rs"
proof -
  note no = null_groups [OF mi g c]
  have "nested_loop nl node lg (rg @ rs) = concat (map (nil_out node) lg)"
    by (rule nested_loop_none) (use no(2) in blast)
  moreover have "nested_loop nl node ls (rg @ rs) = nested_loop nl node ls rs"
    by (rule nested_loop_skip(1)) (use no(3) g in \<open>auto simp: at_group_def\<close>)
  ultimately show ?thesis by (simp add: nested_loop_append)
qed

lemma round_equal:
  assumes mi: "merge_input nl Cs node L R" and g: "at_group nl node L R lg ls rg rs"
    and c: "kc nl (lk node (lg ! 0)) (rk node (rg ! 0)) = (0, False)"
  shows "nested_loop nl node (lg @ ls) (rg @ rs) = nested_loop nl node lg rg @ nested_loop nl node ls rs"
proof -
  have z: "0 \<le> lexv nl (lk node (lg ! 0)) (rk node (rg ! 0))" using kc_no_null [OF c key_lengths [OF mi]] by simp
  have "nested_loop nl node lg (rg @ rs) = nested_loop nl node lg rg"
  proof (rule nested_loop_skip(2))
    fix x y assume xy: "x \<in> set lg" "y \<in> set rs"
    have h: "x \<in> set L" "y \<in> set R" "rg ! 0 \<in> set R" "rg ! 0 \<in> set rg" using xy g by (auto simp: at_group_def)
    have "lexv nl (rk node (rg ! 0)) (rk node y) < 0" using g xy(2) by (simp add: at_group_def)
    moreover have "lexv nl (lk node x) (rk node (rg ! 0)) = 0" by (rule on_keys_zero [OF equal_groups [OF mi g c xy(1) h(4)]])
    ultimately have "lexv nl (lk node x) (rk node y) < 0"
      using value_order.cmp_le_less [OF order [OF mi] lcol [OF mi h(1)] rcol [OF mi h(3)] rcol [OF mi h(2)]] by simp
    then show "\<not> on_keys nl node x y" using on_keys_zero by force
  qed
  moreover have "nested_loop nl node ls (rg @ rs) = nested_loop nl node ls rs"
    by (rule nested_loop_skip(1)) (use right_before [OF mi g z] in blast)
  ultimately show ?thesis by (simp add: nested_loop_append)
qed

lemma round_right:
  assumes mi: "merge_input nl Cs node L R" and g: "at_group nl node L R lg ls rg rs"
    and c: "0 < lexv nl (lk node (lg ! 0)) (rk node (rg ! 0))"
  shows "nested_loop nl node (lg @ ls) (rg @ rs) = nested_loop nl node (lg @ ls) rs"
  by (rule nested_loop_skip(1)) (use right_before [OF mi g] c in auto)

lemma round_left:
  assumes mi: "merge_input nl Cs node L R" and g: "at_group nl node L R lg ls rg rs"
    and c: "lexv nl (lk node (lg ! 0)) (rk node (rg ! 0)) < 0"
  shows "nested_loop nl node (lg @ ls) (rg @ rs) = concat (map (nil_out node) lg) @ nested_loop nl node ls (rg @ rs)"
  using nested_loop_none [of lg "rg @ rs" nl node, OF left_before [OF mi g c]] by (simp add: nested_loop_append)

lemma merge_loop_nested:
  assumes mi: "merge_input nl Cs node L R"
    and "group_state nl (lkeys node) L l lrest" "set lrest \<subseteq> set L"
    and "group_state nl (rkeys node) R r rrest" "set rrest \<subseteq> set R"
  shows "merge_loop nl node maxrow L R l r res = add_rows maxrow (nested_loop nl node lrest rrest) res"
  using assms(2-)
proof (induction "length lrest + length rrest" arbitrary: l r lrest rrest res rule: less_induct)
  case less
  note nil = concatLeftAndNil_add [OF parts_ok(1) [OF mi]]
  obtain lo i where l: "l = (lo, i)" by fastforce
  obtain ro j where r: "r = (ro, j)" by fastforce
  consider "lo = None" | lg where "lo = Some lg" "ro = None" | lg rg where "lo = Some lg" "ro = Some rg"
    by (cases lo; cases ro) auto
  then show ?case
  proof cases
    case 1
    then show ?thesis using less.prems l r by (simp add: group_state_def nested_loop_def)
  next
    case (2 lg)
    then have "drop (i - length lg) L = lrest" "rrest = []" using less.prems l r by (auto simp: group_state_def)
    then show ?thesis using 2 l r less.prems(2) nil [of lrest maxrow res] nested_loop_none [of lrest "[]" nl node] by simp
  next
    case (3 lg rg)
    have lst: "group_state nl (lkeys node) L (Some lg, i) lrest" and rst: "group_state nl (rkeys node) R (Some rg, j) rrest"
      using less.prems(1,3) l r 3 by simp_all
    have g: "at_group nl node L R lg (drop i L) rg (drop j R)" by (rule groups_at [OF lst less.prems(2) rst less.prems(4)])
    have rest: "lrest = lg @ drop i L" "lg \<noteq> []" "rrest = rg @ drop j R" "rg \<noteq> []"
      using lst rst by (auto simp: group_state_def)
    have sub: "set lg \<subseteq> set L" "set rg \<subseteq> set R" "set (drop i L) \<subseteq> set L" "set (drop j R) \<subseteq> set R"
      using g by (simp_all add: at_group_def)
    obtain l' where l': "fetchSameKeyRows nl L (lkeys node) i = Ok l'" "group_state nl (lkeys node) L l' (drop i L)"
      using next_group(1) [OF mi lst] by blast
    obtain r' where r': "fetchSameKeyRows nl R (rkeys node) j = Ok r'" "group_state nl (rkeys node) R r' (drop j R)"
      using next_group(2) [OF mi rst] by blast
    obtain c n where c: "kc nl (lk node (lg ! 0)) (rk node (rg ! 0)) = (c, n)" by fastforce
    have kcmp: "key_cmp nl (lg ! 0) (rg ! 0) (lkeys node) (rkeys node) = Ok (c, n)"
      using group_cmp [OF mi, of "lg ! 0" "rg ! 0"] at_group_heads [OF g] c by simp
    have both: "merge_loop nl node maxrow L R l' r' res' = add_rows maxrow (nested_loop nl node (drop i L) (drop j R)) res'" for res'
      by (rule less.hyps [OF _ l'(2) sub(3) r'(2) sub(4)]) (use rest in simp)
    have lexc: "\<not> n \<Longrightarrow> c = lexv nl (lk node (lg ! 0)) (rk node (rg ! 0))"
      using kc_no_null [OF _ key_lengths [OF mi]] c by simp
    note step = l r 3 kcmp l'(1) r'(1)
    consider (null) n | (eq) "\<not> n" "c = 0" | (gt) "\<not> n" "0 < c" | (lt) "\<not> n" "c < 0" by linarith
    then show ?thesis
    proof cases
      case null
      with c have cn: "kc nl (lk node (lg ! 0)) (rk node (rg ! 0)) = (c, True)" by simp
      show ?thesis using step null null_groups(1) [OF mi g cn] nil [OF sub(1)] both round_null [OF mi g cn] rest
        by (simp add: add_rows_append Let_def cong: rbind_cong)
    next
      case eq
      with c have ce: "kc nl (lk node (lg ! 0)) (rk node (rg ! 0)) = (0, False)" by simp
      then have on: "\<forall>l \<in> set lg. \<forall>r \<in> set rg. on_keys nl node l r" using equal_groups [OF mi g] by simp
      show ?thesis
        using step eq concatLeftAndRight_add [OF parts_ok [OF mi] sub(1,2) on] both round_equal [OF mi g ce] rest
        by (simp add: add_rows_append Let_def cong: rbind_cong)
    next
      case gt
      have "merge_loop nl node maxrow L R (Some lg, i) r' res = add_rows maxrow (nested_loop nl node lrest (drop j R)) res"
        by (rule less.hyps [OF _ lst less.prems(2) r'(2) sub(4)]) (use rest in simp)
      then show ?thesis using step gt round_right [OF mi g] lexc rest by simp
    next
      case lt
      have "merge_loop nl node maxrow L R l' (Some rg, j) res' = add_rows maxrow (nested_loop nl node (drop i L) rrest) res'" for res'
        by (rule less.hyps [OF _ l'(2) sub(3) rst less.prems(4)]) (use rest in simp)
      then show ?thesis using step lt nil [OF sub(1)] round_left [OF mi g] lexc rest
        by (simp add: add_rows_append Let_def cong: rbind_cong)
    qed
  qed
qed

lemma mergeJoin_nested:
  assumes mi: "merge_input nl Cs node L R"
  shows "mergeJoin nl node maxrow L R res = add_rows maxrow (nested_loop nl node L R) res"
proof -
  have "keyed_rows nl Cs (lkeys node) (set L)" "keyed_rows nl Cs (rkeys node) (set R)"
    "key_sorted nl (lkeys node) L" "key_sorted nl (rkeys node) R" using mi by (simp_all add: merge_input_def join_ok_def)
  with fetch_group [of nl Cs "lkeys node" L 0] fetch_group [of nl Cs "rkeys node" R 0]
  obtain l r where "fetchSameKeyRows nl L (lkeys node) 0 = Ok l" "group_state nl (lkeys node) L l L"
    "fetchSameKeyRows nl R (rkeys node) 0 = Ok r" "group_state nl (rkeys node) R r R" by auto
  with merge_loop_nested [OF mi] show ?thesis by (simp add: mergeJoin_def)
qed

section \<open>Order of the inputs\<close>

lemma left_out_mset:
  assumes "mset R = mset R'"
  shows "mset (left_out nl node R l) = mset (left_out nl node R' l)"
proof -
  have f: "mset (filter P R) = mset (filter P R')" for P :: "row \<Rightarrow> bool" using assms by simp
  then have "filter P R = [] \<longleftrightarrow> filter P R' = []" for P :: "row \<Rightarrow> bool" by (metis mset_zero_iff)
  with f show ?thesis by (simp add: left_out_def row_out_def filter_filter_mset)
qed

lemma nested_loop_mset:
  assumes "mset L = mset L'" "mset R = mset R'"
  shows "mset (nested_loop nl node L R) = mset (nested_loop nl node L' R')"
proof -
  have "mset (nested_loop nl node L R) = (\<Sum>l \<in># mset L. mset (left_out nl node R l))" for L R
    by (induction L) (simp_all add: nested_loop_def)
  with assms left_out_mset [OF assms(2)] show ?thesis by simp
qed

lemma join_ok_sorted:
  assumes s: "row_sorter srt" and k: "keyed_rows nl Cs keys (set rows)"
  shows "\<exists>rows'. srt (rows_less nl keys) rows = Ok rows' \<and> mset rows' = mset rows \<and> key_sorted nl keys rows'"
proof -
  obtain rows' where r: "srt (rows_less nl keys) rows = Ok rows'" "mset rows' = mset rows"
    "sorted_wrt (\<lambda>x y. rows_less nl keys x y = Ok True) rows'"
    using row_sorter.sort_ok [OF s rows_less_weak_order [OF k]] by blast
  have "set rows' = set rows" using mset_eq_setD [OF r(2)] .
  then have "rows_less nl keys x y = Ok (lexv nl (key_of keys x) (key_of keys y) \<le> 0)" if "x \<in> set rows'" "y \<in> set rows'" for x y
    using k that by (intro rows_less_key) (auto simp: keyed_rows_def)
  with r show ?thesis by (auto elim!: sorted_wrt_mono_rel [rotated])
qed

section \<open>Workers\<close>

text \<open>
  The workers of \<open>concatLeftAndRight\<close>, one per left row, with the rows each has still to append, the shared
  rows and the flag of the shared error. A worker that holds the mutex appends a row and checks the limit,
  or does nothing when another one failed.
\<close>

inductive worker_step :: "int \<Rightarrow> row list list \<times> row list \<times> bool \<Rightarrow> row list list \<times> row list \<times> bool \<Rightarrow> bool"
  for maxrow :: int where
  put: "i < length outs \<Longrightarrow> outs ! i = r # out \<Longrightarrow>
    worker_step maxrow (outs, rows, False) (outs[i := out], rows @ [r], maxrow < int (length rows + 1))"
| skip: "i < length outs \<Longrightarrow> outs ! i = r # out \<Longrightarrow>
    worker_step maxrow (outs, rows, True) (outs[i := out], rows, True)"

inductive_cases worker_stepE: "worker_step maxrow (outs, rows, failed) st"

lemma worker_putI:
  assumes "i < length outs" "outs ! i = r # out" "outs' = outs[i := out]" "rows' = rows @ [r]"
    "failed \<longleftrightarrow> maxrow < int (length rows + 1)"
  shows "worker_step maxrow (outs, rows, False) (outs', rows', failed)"
  unfolding assms(3-) by (rule worker_step.put [OF assms(1,2)])

lemma mset_concat_update:
  assumes "i < length outs" "outs ! i = r # out"
  shows "mset (concat outs) = add_mset r (mset (concat (outs[i := out])))"
  using assms
proof (induction outs arbitrary: i)
  case (Cons o' outs)
  then show ?case by (cases i) auto
qed simp

text \<open>The rows to come are determined until the limit is passed.\<close>

definition worker_inv :: "int \<Rightarrow> row multiset \<Rightarrow> row list list \<times> row list \<times> bool \<Rightarrow> bool" where
  "worker_inv maxrow M st \<longleftrightarrow>
     (case st of (outs, rows, failed) \<Rightarrow>
        if failed then maxrow < int (size M) else mset rows + mset (concat outs) = M \<and> int (length rows) \<le> maxrow)"

lemma worker_step_inv:
  assumes "worker_step maxrow st st'" "worker_inv maxrow M st"
  shows "worker_inv maxrow M st'"
  using assms
proof (induction rule: worker_step.induct)
  case (put i outs r out rows)
  then have M: "mset (rows @ [r]) + mset (concat (outs[i := out])) = M"
    using mset_concat_update [OF put(1,2)] by (simp add: worker_inv_def)
  then have "size (mset (rows @ [r])) \<le> size M" by (metis size_mset_mono mset_subset_eq_add_left)
  with M show ?case by (simp add: worker_inv_def)
qed (simp add: worker_inv_def)

lemma workers_inv:
  assumes "(worker_step maxrow)\<^sup>*\<^sup>* st st'" "worker_inv maxrow M st"
  shows "worker_inv maxrow M st'"
  using assms by (induction rule: rtranclp_induct) (auto intro: worker_step_inv)

section \<open>Properties\<close>

text \<open>
  C17. The sort-merge join is the nested loop. Let the key columns of both inputs be ordered, let no column
  index be out of range and every comparison of the filters be defined. Then the join returns, up to
  order, exactly the rows of the nested loop over both inputs, rows for unmatched left rows included,
  or it fails with the row limit, exactly when the nested loop has more rows than that.
\<close>

theorem sortMergeJoin_nested_loop:
  assumes "row_sorter srt" "join_ok nl Cs node (set (rs_Rows lres)) (set (rs_Rows rres))" "rs_Rows res = []" "0 \<le> maxrow"
  shows "if maxrow < int (length (nested_loop nl node (rs_Rows lres) (rs_Rows rres)))
     then sortMergeJoin srt nl node maxrow lres rres res = Err (row_limit maxrow)
     else \<exists>res'. sortMergeJoin srt nl node maxrow lres rres res = Ok res' \<and>
            mset (rs_Rows res') = mset (nested_loop nl node (rs_Rows lres) (rs_Rows rres)) \<and>
            rs_RowsAffected res' = rs_RowsAffected res + of_nat (length (rs_Rows res'))"
proof -
  have k: "keyed_rows nl Cs (lkeys node) (set (rs_Rows lres))" "keyed_rows nl Cs (rkeys node) (set (rs_Rows rres))"
    using assms(2) by (simp_all add: join_ok_def)
  obtain L where L: "srt (rows_less nl (lkeys node)) (rs_Rows lres) = Ok L" "mset L = mset (rs_Rows lres)" "key_sorted nl (lkeys node) L"
    using join_ok_sorted [OF assms(1) k(1)] by blast
  obtain R where R: "srt (rows_less nl (rkeys node)) (rs_Rows rres) = Ok R" "mset R = mset (rs_Rows rres)" "key_sorted nl (rkeys node) R"
    using join_ok_sorted [OF assms(1) k(2)] by blast
  have mi: "merge_input nl Cs node L R"
    using assms(2) L(3) R(3) mset_eq_setD [OF L(2)] mset_eq_setD [OF R(2)] by (simp add: merge_input_def)
  have m: "mset (nested_loop nl node L R) = mset (nested_loop nl node (rs_Rows lres) (rs_Rows rres))"
    by (rule nested_loop_mset [OF L(2) R(2)])
  have "sortMergeJoin srt nl node maxrow lres rres res = add_rows maxrow (nested_loop nl node L R) res"
    using L(1) R(1) mergeJoin_nested [OF mi] by (simp add: sortMergeJoin_def)
  with m mset_eq_length [OF m] add_rows_spec [of "nested_loop nl node L R" res maxrow] assms(3,4) show ?thesis by auto
qed

text \<open>
  C35. The workers that join a group of left rows with a group of right rows may run in any order: every
  interleaving that runs to its end appends the same rows as running them one after the other, up to
  order, and it fails exactly when that fails.
\<close>

theorem join_workers_any_order:
  assumes "join_ok nl Cs node (set L) (set R)"
    and "\<forall>l \<in> set L. \<forall>r \<in> set R. on_keys nl node l r" "int (length (rs_Rows res)) \<le> maxrow"
    and "(worker_step maxrow)\<^sup>*\<^sup>* (map (left_out nl node R) L, rs_Rows res, False) (outs, rows, failed)" "concat outs = []"
  shows "case concatLeftAndRight nl node maxrow L R res of
       Ok res' \<Rightarrow> \<not> failed \<and> mset rows = mset (rs_Rows res')
     | Err e \<Rightarrow> failed \<and> e = row_limit maxrow
     | Panic p \<Rightarrow> False"
proof -
  let ?N = "nested_loop nl node L R" and ?M = "mset (rs_Rows res) + mset (nested_loop nl node L R)"
  have c: "concatLeftAndRight nl node maxrow L R res = add_rows maxrow ?N res"
    by (rule concatLeftAndRight_add [of node "set L" "set R"]) (use assms(1,2) in \<open>simp_all add: join_ok_def\<close>)
  have "worker_inv maxrow ?M (map (left_out nl node R) L, rs_Rows res, False)"
    using assms(3) by (simp add: worker_inv_def nested_loop_def)
  from workers_inv [OF assms(4) this]
  have i: "if failed then maxrow < int (size ?M) else mset rows = ?M \<and> int (length rows) \<le> maxrow"
    unfolding worker_inv_def assms(5) prod.case by (cases failed) simp_all
  have "length rows = size ?M" if "\<not> failed" using i that by (metis size_mset)
  with i c add_rows_spec [of ?N res maxrow] assms(3) show ?thesis by (auto split: if_splits)
qed

lemma worker_step_count: "worker_step maxrow st st' \<Longrightarrow> Suc (length (concat (fst st'))) = length (concat (fst st))"
proof (induction rule: worker_step.induct)
  case (put i outs r out rows)
  then show ?case using arg_cong [OF mset_concat_update [OF put(1,2)], of size] by simp
next
  case (skip i outs r out rows)
  then show ?case using arg_cong [OF mset_concat_update [OF skip(1,2)], of size] by simp
qed

lemma worker_step_possible: "concat (fst st) \<noteq> [] \<Longrightarrow> \<exists>st'. worker_step maxrow st st'"
proof -
  obtain outs rows failed where st: "st = (outs, rows, failed)" by (metis prod.exhaust)
  assume "concat (fst st) \<noteq> []"
  then obtain i r out' where "i < length outs" "outs ! i = r # out'"
    unfolding st by (auto simp: in_set_conv_nth neq_Nil_conv)
  then show ?thesis unfolding st
    by (cases failed) (auto intro: worker_step.intros)
qed


section \<open>Witnesses\<close>

text \<open>A left join on one text column, with a duplicate key, a null key and a left row without a match.\<close>

definition demo_node :: JoinNode where
  "demo_node = \<lparr>jn_Strategy = SortMerge, jn_Cols = [- 1, - 2, 2],
     jn_LeftKeys = [\<lparr>jk_Field = ''a'', jk_Table = ''t1'', jk_Index = 0\<rparr>],
     jn_RightKeys = [\<lparr>jk_Field = ''a'', jk_Table = ''t2'', jk_Index = 0\<rparr>],
     jn_CmpFilter = [\<lparr>cf_Left = 1, cf_Right = 1, cf_Operator = ''<='', cf_Exchange = False\<rparr>],
     jn_IsLeftJoin = True, jn_HasRightFilter = False, jn_LeftTmpCols = [], jn_RightTmpCols = [], jn_Vars = []\<rparr>"

definition demo_nl :: NumLib where
  "demo_nl = \<lparr>nl_float = \<lambda>_. None, nl_dec = \<lambda>_. None, nl_time = \<lambda>_. None, nl_round = id\<rparr>"

definition demo_left :: Result where
  "demo_left = empty_Result\<lparr>rs_Rows := [[NewVarChar ''k'', NewVarChar ''b''], [NULL, NewVarChar ''b''],
     [NewVarChar ''a'', NewVarChar ''b''], [NewVarChar ''k'', NewVarChar ''c'']]\<rparr>"

definition demo_right :: Result where
  "demo_right = empty_Result\<lparr>rs_Rows := [[NewVarChar ''z'', NewVarChar ''x''], [NewVarChar ''k'', NewVarChar ''x''],
     [NULL, NewVarChar ''x''], [NewVarChar ''k'', NewVarChar ''b'']]\<rparr>"

lemma text_compare_ok: "v \<in> text_column \<Longrightarrow> w \<in> text_column \<Longrightarrow> is_ok (NullsafeCompare nl v w)"
  using text_column_ordered [of nl] by (simp add: ordered_column_def)

lemma demo_text: "NewVarChar s \<in> text_column" "NULL \<in> text_column"
  by (simp_all add: text_column_def NewVarChar_def MakeTrusted_def)

lemma demo_join_ok: "join_ok demo_nl [text_column] demo_node (set (rs_Rows demo_left)) (set (rs_Rows demo_right))"
  by (simp add: join_ok_def keyed_rows_def text_column_ordered demo_node_def demo_left_def demo_right_def in_range_def key_of_def
      columns_Cons demo_text cols_ok_def filters_ok_def text_compare_ok)

theorem sortMergeJoin_nested_loop_witness:
  "\<exists>res'. sortMergeJoin insertionSort demo_nl demo_node 10 demo_left demo_right empty_Result = Ok res' \<and>
     mset (rs_Rows res') = mset [[NewVarChar ''k'', NewVarChar ''b'', NewVarChar ''x''], [NewVarChar ''k'', NewVarChar ''b'', NewVarChar ''b''],
       [NULL, NewVarChar ''b'', NULL], [NewVarChar ''a'', NewVarChar ''b'', NULL], [NewVarChar ''k'', NewVarChar ''c'', NewVarChar ''x'']]"
proof -
  have n: "nested_loop demo_nl demo_node (rs_Rows demo_left) (rs_Rows demo_right) =
      [[NewVarChar ''k'', NewVarChar ''b'', NewVarChar ''x''], [NewVarChar ''k'', NewVarChar ''b'', NewVarChar ''b''],
       [NULL, NewVarChar ''b'', NULL], [NewVarChar ''a'', NewVarChar ''b'', NULL], [NewVarChar ''k'', NewVarChar ''c'', NewVarChar ''x'']]"
    by code_simp
  have "rs_Rows empty_Result = []" by (simp add: empty_Result_def)
  with sortMergeJoin_nested_loop [OF insertion.row_sorter_axioms demo_join_ok, of empty_Result 10] n show ?thesis by auto
qed

definition demo_group :: "row list \<times> row list" where
  "demo_group = ([[NewVarChar ''k'', NewVarChar ''b''], [NewVarChar ''k'', NewVarChar ''c'']],
     [[NewVarChar ''k'', NewVarChar ''x''], [NewVarChar ''k'', NewVarChar ''y'']])"

text \<open>The two workers take turns.\<close>

theorem join_workers_any_order_witness:
  "\<exists>rows. (worker_step 10)\<^sup>*\<^sup>* (map (left_out demo_nl demo_node (snd demo_group)) (fst demo_group), [], False) ([[], []], rows, False) \<and>
     rows \<noteq> concat (map (left_out demo_nl demo_node (snd demo_group)) (fst demo_group)) \<and>
     (\<exists>res'. concatLeftAndRight demo_nl demo_node 10 (fst demo_group) (snd demo_group) empty_Result = Ok res' \<and>
        mset rows = mset (rs_Rows res'))"
proof -
  let ?out = "left_out demo_nl demo_node (snd demo_group)"
  let ?a = "\<lambda>c d. [NewVarChar ''k'', NewVarChar c, NewVarChar d]"
  have o: "map ?out (fst demo_group) = [[?a ''b'' ''x'', ?a ''b'' ''y''], [?a ''c'' ''x'', ?a ''c'' ''y'']]" by code_simp
  have on: "list_all (\<lambda>l. list_all (on_keys demo_nl demo_node l) (snd demo_group)) (fst demo_group)" by code_simp
  have ok: "join_ok demo_nl [text_column] demo_node (set (fst demo_group)) (set (snd demo_group))"
    by (simp add: join_ok_def keyed_rows_def text_column_ordered demo_node_def demo_group_def in_range_def key_of_def
        columns_Cons demo_text cols_ok_def filters_ok_def text_compare_ok)
  have s1: "worker_step 10 ([[?a ''b'' ''x'', ?a ''b'' ''y''], [?a ''c'' ''x'', ?a ''c'' ''y'']], [], False)
      ([[?a ''b'' ''x'', ?a ''b'' ''y''], [?a ''c'' ''y'']], [?a ''c'' ''x''], False)"
    by (rule worker_putI [of 1]) simp_all
  have s2: "worker_step 10 ([[?a ''b'' ''x'', ?a ''b'' ''y''], [?a ''c'' ''y'']], [?a ''c'' ''x''], False)
      ([[?a ''b'' ''y''], [?a ''c'' ''y'']], [?a ''c'' ''x'', ?a ''b'' ''x''], False)"
    by (rule worker_putI [of 0]) simp_all
  have s3: "worker_step 10 ([[?a ''b'' ''y''], [?a ''c'' ''y'']], [?a ''c'' ''x'', ?a ''b'' ''x''], False)
      ([[], [?a ''c'' ''y'']], [?a ''c'' ''x'', ?a ''b'' ''x'', ?a ''b'' ''y''], False)"
    by (rule worker_putI [of 0]) simp_all
  have s4: "worker_step 10 ([[], [?a ''c'' ''y'']], [?a ''c'' ''x'', ?a ''b'' ''x'', ?a ''b'' ''y''], False)
      ([[], []], [?a ''c'' ''x'', ?a ''b'' ''x'', ?a ''b'' ''y'', ?a ''c'' ''y''], False)"
    by (rule worker_putI [of 1]) simp_all
  have run: "(worker_step 10)\<^sup>*\<^sup>* (map ?out (fst demo_group), [], False)
      ([[], []], [?a ''c'' ''x'', ?a ''b'' ''x'', ?a ''b'' ''y'', ?a ''c'' ''y''], False)"
    unfolding o by (meson s1 s2 s3 s4 converse_rtranclp_into_rtranclp rtranclp.rtrancl_refl)
  have e: "rs_Rows empty_Result = []" by (simp add: empty_Result_def)
  have "case concatLeftAndRight demo_nl demo_node 10 (fst demo_group) (snd demo_group) empty_Result of
       Ok res' \<Rightarrow> \<not> False \<and> mset [?a ''c'' ''x'', ?a ''b'' ''x'', ?a ''b'' ''y'', ?a ''c'' ''y''] = mset (rs_Rows res')
     | Err e \<Rightarrow> False \<and> e = row_limit 10 | Panic p \<Rightarrow> False"
    by (rule join_workers_any_order [OF ok, where outs = "[[], []]"]) (use on run e in \<open>simp_all add: list_all_iff\<close>)
  with run o show ?thesis
    by (intro exI [of _ "[?a ''c'' ''x'', ?a ''b'' ''x'', ?a ''b'' ''y'', ?a ''c'' ''y'']"])
      (auto simp: NewVarChar_def MakeTrusted_def split: res.splits)
qed


end
