(* ===== verification/Operator_Props.thy ===== *)
theory Operator_Props
  imports Operators Join_Props
begin

text \<open>
  Correctness of the operators: what limit returns, that order-by sorts, that sending a smaller limit to the
  backends does not change what the client gets, and that grouping makes one row of every group.
\<close>

section \<open>Limit\<close>

lemma go_add_small: "0 \<le> a + b \<Longrightarrow> a + b < 2 ^ 63 \<Longrightarrow> go_add a b = a + b"
  by (simp add: go_add_def Let_def mod_pos_pos_trivial)

lemma go_add_overflow:
  assumes "a < 2 ^ 63" "b < 2 ^ 63" "2 ^ 63 \<le> a + b"
  shows "go_add a b = a + b - 2 ^ 64"
proof -
  have "(a + b) mod 2 ^ 64 = a + b" using assms by (intro mod_pos_pos_trivial) simp_all
  with assms show ?thesis by (simp add: go_add_def Let_def)
qed

lemma Limit_Execute_Ok:
  assumes "0 \<le> lp_Offset p" "0 \<le> lp_Limit p" "lp_Offset p + lp_Limit p < 2 ^ 63"
  shows "Limit_Execute p rs = Ok (rs\<lparr>rs_Rows := take (nat (lp_Limit p)) (drop (nat (lp_Offset p)) (rs_Rows rs))\<rparr>)"
proof -
  let ?n = "int (length (rs_Rows rs))" and ?o = "lp_Offset p" and ?l = "lp_Limit p"
  have g: "go_add ?o ?l = ?o + ?l" using assms by (intro go_add_small) simp_all
  have "take (nat (min (?o + ?l) ?n - min ?o ?n)) (drop (nat (min ?o ?n)) (rs_Rows rs)) = take (nat ?l) (drop (nat ?o) (rs_Rows rs))"
  proof (cases "?o \<le> ?n")
    case True
    then show ?thesis
    proof (cases "?o + ?l \<le> ?n")
      case False
      with True have "length (drop (nat ?o) (rs_Rows rs)) \<le> nat ?l" "nat (?n - ?o) = length (drop (nat ?o) (rs_Rows rs))"
        using assms by (simp_all add: nat_le_iff nat_diff_distrib)
      with True False show ?thesis by (simp add: min_def)
    qed simp
  qed (use assms in \<open>simp add: min_def\<close>)
  then show ?thesis using assms g by (simp add: Limit_Execute_def Result_Limit_def Let_def)
qed

lemma Limit_Execute_overflow:
  assumes "0 \<le> lp_Offset p" "lp_Offset p < 2 ^ 63" "lp_Limit p < 2 ^ 63" "2 ^ 63 \<le> lp_Offset p + lp_Limit p"
  shows "Limit_Execute p rs = Panic ''slice bounds out of range''"
proof -
  have "go_add (lp_Offset p) (lp_Limit p) < 0" using go_add_overflow [OF assms(2,3,4)] assms(2,3) by simp
  then show ?thesis using assms(1) by (simp add: Limit_Execute_def Result_Limit_def Let_def)
qed

section \<open>Order by\<close>

definition dcmp :: "NumLib \<Rightarrow> Value \<times> Direction \<Rightarrow> Value \<times> Direction \<Rightarrow> int" where
  "dcmp nl x y = (if snd x = DESC then - vcmp nl (fst x) (fst y) else vcmp nl (fst x) (fst y))"

lemma dcmp_order:
  assumes "value_order (vcmp nl) C"
  shows "value_order (dcmp nl) (C \<times> {d})"
proof -
  note r = value_order.cmp_refl [OF assms] value_order.cmp_swap [OF assms] value_order.cmp_trans [OF assms]
  show ?thesis
  proof unfold_locales
    fix x y z
    assume "x \<in> C \<times> {d}"
    then obtain a where x: "x = (a, d)" "a \<in> C" by auto
    show "dcmp nl x x = 0" using x r(1) by (simp add: dcmp_def)
    assume "y \<in> C \<times> {d}"
    then obtain b where y: "y = (b, d)" "b \<in> C" by auto
    show "dcmp nl y x = - dcmp nl x y" using x y r(2) [of a b] by (simp add: dcmp_def)
    assume "z \<in> C \<times> {d}" and le: "dcmp nl x y \<le> 0" "dcmp nl y z \<le> 0"
    then obtain c where z: "z = (c, d)" "c \<in> C" by auto
    have s: "vcmp nl b a = - vcmp nl a b" "vcmp nl c b = - vcmp nl b c" "vcmp nl c a = - vcmp nl a c"
      using r(2) [of a b] r(2) [of b c] r(2) [of a c] x y z by simp_all
    show "dcmp nl x z \<le> 0"
      using le s r(3) [of a b c] r(3) [of c b a] x y z by (simp add: dcmp_def split: if_splits)
  qed
qed

definition order_key :: "Field list \<Rightarrow> OrderBy list \<Rightarrow> row \<Rightarrow> (Value \<times> Direction) list" where
  "order_key flds obs r = map (\<lambda>ob. (r ! the (find_field ob 0 flds), ob_Direction ob)) obs"

text \<open>A row comes before another one, or they are equal in every column of the clause.\<close>

definition precedes :: "NumLib \<Rightarrow> Field list \<Rightarrow> OrderBy list \<Rightarrow> row \<Rightarrow> row \<Rightarrow> bool" where
  "precedes nl flds obs r1 r2 \<longleftrightarrow> lexcmp (dcmp nl) (order_key flds obs r1) (order_key flds obs r2) \<le> 0"

definition same_order :: "NumLib \<Rightarrow> Field list \<Rightarrow> OrderBy list \<Rightarrow> row \<Rightarrow> row \<Rightarrow> bool" where
  "same_order nl flds obs r1 r2 \<longleftrightarrow> lexcmp (dcmp nl) (order_key flds obs r1) (order_key flds obs r2) = 0"

lemma order_funs:
  "precedes nl flds obs = (\<lambda>x y. lexcmp (dcmp nl) (order_key flds obs x) (order_key flds obs y) \<le> 0)"
  "same_order nl flds obs = (\<lambda>x y. lexcmp (dcmp nl) (order_key flds obs x) (order_key flds obs y) = 0)"
  by (intro ext, simp add: precedes_def same_order_def)+

text \<open>Every column of the clause is found, and its values are ordered.\<close>

definition orderable :: "NumLib \<Rightarrow> Value set list \<Rightarrow> Field list \<Rightarrow> OrderBy list \<Rightarrow> row set \<Rightarrow> bool" where
  "orderable nl Cs flds obs A \<longleftrightarrow>
     list_all2 (\<lambda>ob C. ordered_column nl C \<and>
        (\<exists>i. find_field ob 0 flds = Some i \<and> (\<forall>r \<in> A. i < length r \<and> r ! i \<in> C))) obs Cs"

definition order_cols :: "Value set list \<Rightarrow> OrderBy list \<Rightarrow> (Value \<times> Direction) list set" where
  "order_cols Cs obs = columns (map2 (\<lambda>C ob. C \<times> {ob_Direction ob}) Cs obs)"

lemma orderable_order:
  assumes "orderable nl Cs flds obs A"
  shows "value_order (lexcmp (dcmp nl)) (order_cols Cs obs)"
  unfolding order_cols_def
proof (rule lexcmp_order)
  show "\<forall>C \<in> set (map2 (\<lambda>C ob. C \<times> {ob_Direction ob}) Cs obs). value_order (dcmp nl) C"
    using assms unfolding orderable_def
    by (induction obs Cs rule: list_all2_induct) (auto simp: ordered_column_def intro: dcmp_order)
qed

lemma orderable_key:
  assumes "orderable nl Cs flds obs A" "r \<in> A"
  shows "order_key flds obs r \<in> order_cols Cs obs"
  using assms unfolding orderable_def order_cols_def order_key_def
  by (induction obs Cs rule: list_all2_induct) (auto simp: columns_Cons)

lemma orderby_less_key:
  assumes "orderable nl Cs flds obs A" "r1 \<in> A" "r2 \<in> A"
  shows "orderby_less nl flds obs r1 r2 = Ok (precedes nl flds obs r1 r2)"
  using assms unfolding orderable_def precedes_def order_key_def
proof (induction obs Cs rule: list_all2_induct)
  case (Cons ob obs C Cs)
  then obtain i where i: "find_field ob 0 flds = Some i" "i < length r1" "i < length r2" "r1 ! i \<in> C" "r2 ! i \<in> C" by auto
  with Cons have "NullsafeCompare nl (r1 ! i) (r2 ! i) = Ok (vcmp nl (r1 ! i) (r2 ! i))" by (simp add: ordered_column_def)
  with i Cons show ?case by (auto simp: cell_Ok dcmp_def)
qed simp

lemma orderby_weak_order:
  assumes "orderable nl Cs flds obs A"
  shows "weak_order (orderby_less nl flds obs) A"
  by (rule weak_order_by [OF orderable_order [OF assms], of A "order_key flds obs"])
    (use orderable_key [OF assms] orderby_less_key [OF assms] in \<open>auto simp: precedes_def\<close>)

lemma orderby_sorts:
  assumes "row_sorter srt" "orderable nl Cs flds obs (set rows)"
  shows "\<exists>rows'. srt (orderby_less nl flds obs) rows = Ok rows' \<and> mset rows' = mset rows \<and> sorted_wrt (precedes nl flds obs) rows'"
proof -
  obtain rows' where r: "srt (orderby_less nl flds obs) rows = Ok rows'" "mset rows' = mset rows"
    "sorted_wrt (\<lambda>x y. orderby_less nl flds obs x y = Ok True) rows'"
    using row_sorter.sort_ok [OF assms(1) orderby_weak_order [OF assms(2)]] by blast
  have "set rows' = set rows" by (rule mset_eq_setD [OF r(2)])
  with r orderby_less_key [OF assms(2)] show ?thesis by (auto elim!: sorted_wrt_mono_rel [rotated])
qed

lemma newNumeric_no_err: "newNumeric nl v \<noteq> Err e"
  unfolding newNumeric_def Let_def num_error_def by (simp split: option.split)

lemma NullsafeCompare_no_err: "NullsafeCompare nl v w \<noteq> Err e"
  unfolding NullsafeCompare_def by (simp add: rbind_Err_iff newNumeric_no_err)

lemma cell_no_err: "cell r i \<noteq> Err e"
  by (simp add: cell_def)

lemma orderby_less_err: "orderby_less nl flds obs x y = Err e \<Longrightarrow> \<exists>ob \<in> set obs. find_field ob 0 flds = None \<and> e = no_field ob"
proof (induction obs)
  case (Cons ob obs)
  show ?case
  proof (cases "find_field ob 0 flds")
    case (Some i)
    with Cons.prems have "orderby_less nl flds obs x y = Err e"
      by (auto simp: rbind_Err_iff cell_no_err NullsafeCompare_no_err split: if_splits)
    with Cons.IH show ?thesis by auto
  qed (use Cons.prems in simp)
qed simp

section \<open>Limit sent to the backends\<close>

lemma value_order_pullback:
  assumes "value_order cmp K" "\<And>x. x \<in> A \<Longrightarrow> f x \<in> K"
  shows "value_order (\<lambda>x y. cmp (f x) (f y)) A"
proof -
  note r = value_order.cmp_refl [OF assms(1)] value_order.cmp_swap [OF assms(1)] value_order.cmp_trans [OF assms(1)]
  show ?thesis
  proof unfold_locales
    fix x y z
    assume x: "x \<in> A"
    show "cmp (f x) (f x) = 0" by (rule r(1) [OF assms(2) [OF x]])
    assume y: "y \<in> A"
    show "cmp (f y) (f x) = - cmp (f x) (f y)" by (rule r(2) [OF assms(2) [OF x] assms(2) [OF y]])
    assume z: "z \<in> A" and le: "cmp (f x) (f y) \<le> 0" "cmp (f y) (f z) \<le> 0"
    show "cmp (f x) (f z) \<le> 0" by (rule r(3) [OF assms(2) [OF x] assms(2) [OF y] assms(2) [OF z] le])
  qed
qed

lemma orderby_limit_rows:
  assumes "row_sorter srt" "orderable nl Cs (fields_of rs) (op_OrderBys ob) (set rows)" "op_RemovedIdxs ob = []"
    and "0 \<le> lp_Offset lp" "0 \<le> lp_Limit lp" "lp_Offset lp + lp_Limit lp < 2 ^ 63"
  shows "\<exists>xs. ExecSubPlan srt nl ar [ChildOrderby ob, ChildLimit lp] (rs\<lparr>rs_Rows := rows\<rparr>) =
       Ok (rs\<lparr>rs_Rows := take (nat (lp_Limit lp)) (drop (nat (lp_Offset lp)) xs)\<rparr>) \<and>
     mset xs = mset rows \<and> sorted_wrt (precedes nl (fields_of rs) (op_OrderBys ob)) xs"
proof -
  have "fields_of (rs\<lparr>rs_Rows := rows\<rparr>) = fields_of rs" by (simp add: fields_of_def)
  with orderby_sorts [OF assms(1,2)] assms(3) Limit_Execute_Ok [OF assms(4-6)] show ?thesis
    by (auto simp: OrderBy_Execute_def RemoveColumns_def)
qed

section \<open>Counting by groups\<close>

definition one_group :: "NumLib \<Rightarrow> int list \<Rightarrow> row \<Rightarrow> row \<Rightarrow> bool" where
  "one_group nl keys r1 r2 \<longleftrightarrow> lexv nl (key_of keys r1) (key_of keys r2) = 0"

definition count_of :: "NumLib \<Rightarrow> int list \<Rightarrow> nat \<Rightarrow> row list \<Rightarrow> row \<Rightarrow> int" where
  "count_of nl keys ci rows g = int (length (filter (\<lambda>q. one_group nl keys q g \<and> \<not> IsNull (q ! ci)) rows))"

text \<open>The groups after some of the sorted rows: strictly descending keys, and the counts so far.\<close>

definition counted :: "NumLib \<Rightarrow> int list \<Rightarrow> nat \<Rightarrow> row list \<Rightarrow> row \<times> AggEvaluateContext list \<Rightarrow> bool" where
  "counted nl keys ci rows gc \<longleftrightarrow>
     fst gc \<in> set rows \<and> (\<exists>c. snd gc = [c] \<and> \<not> ec_hasErr c \<and> ec_count c = count_of nl keys ci rows (fst gc))"

definition groups_inv :: "NumLib \<Rightarrow> int list \<Rightarrow> nat \<Rightarrow> row list \<Rightarrow> (row \<times> AggEvaluateContext list) list \<Rightarrow> bool" where
  "groups_inv nl keys ci rows groups \<longleftrightarrow>
     list_all (counted nl keys ci rows) groups \<and>
     (\<forall>q \<in> set rows. \<exists>g \<in> set (map fst groups). one_group nl keys q g) \<and>
     sorted_wrt (\<lambda>g g'. lexv nl (key_of keys g') (key_of keys g) < 0) (map fst groups)"

definition count_aggr :: "Aggregation \<Rightarrow> nat \<Rightarrow> bool" where
  "count_aggr a ci \<longleftrightarrow> ga_index a = int ci \<and> ga_aggrTyp a = AggrTypeCount \<and> \<not> ga_isPushDown a \<and> \<not> ga_distinct a"

lemma count_fix:
  assumes "ag_Type a = AggrTypeCount" "\<not> ag_Distinct a" "ag_Index a = int ci" "ci < length flds"
  shows "\<exists>a0 flds'. fix_fields False [a] flds = Ok ([a0], flds') \<and> count_aggr a0 ci"
  using assms by (simp add: cell_Ok case_prod_beta Let_def count_aggr_def FixField_def NewAggregation_def)

lemma count_init:
  assumes "count_aggr a ci" "ci < length r"
  shows "\<exists>c. NewAggEvalCtxs [a] (Some r) = Ok [c] \<and> \<not> ec_hasErr c \<and> ec_count c = (if IsNull (r ! ci) then 0 else 1)"
  using assms by (simp add: count_aggr_def NewAggEvalCtxs_def InitEvalCtx_def cell_Ok IsNull_def Let_def)

lemma count_update:
  assumes "count_aggr a ci" "ci < length r" "\<not> ec_hasErr c"
  shows "\<exists>c'. update_all nl ar [a] r [c] = Ok [c'] \<and> \<not> ec_hasErr c' \<and> ec_count c' = ec_count c + (if IsNull (r ! ci) then 0 else 1)"
  using assms by (simp add: count_aggr_def Aggregation_Update_def cell_Ok IsNull_def Let_def)

lemma count_of_mset: "mset rows = mset rows' \<Longrightarrow> count_of nl keys ci rows g = count_of nl keys ci rows' g"
proof -
  assume "mset rows = mset rows'"
  then have "mset (filter P rows) = mset (filter P rows')" for P by simp
  from mset_eq_length [OF this] show ?thesis by (simp add: count_of_def)
qed

lemma count_result:
  assumes "count_aggr a ci" "\<not> ec_hasErr c" "ci < length g"
  shows "GetResults ar [a] [c] g [] = Ok (g[ci := NewInt64 (ec_count c)], [])"
  using assms by (simp add: count_aggr_def set_cell_def GetResult_def)

lemma last_idxs_last: "xs \<noteq> [] \<Longrightarrow> last_idxs xs = snd (last xs)"
  by (cases xs) simp_all

lemma last_idxs_none: "xs \<noteq> [] \<Longrightarrow> last_idxs (map (\<lambda>x. (f x, [])) (rev xs)) = []"
  by (simp add: last_idxs_last last_map)

lemma count_of_snoc:
  "count_of nl keys ci (rows @ [r]) g =
     count_of nl keys ci rows g + (if one_group nl keys r g \<and> \<not> IsNull (r ! ci) then 1 else 0)"
  by (simp add: count_of_def)

lemma counted_other:
  "counted nl keys ci rows gc \<Longrightarrow> \<not> one_group nl keys r (fst gc) \<Longrightarrow> counted nl keys ci (rows @ [r]) gc"
  by (auto simp: counted_def count_of_snoc)

lemma group_step:
  assumes k: "keyed_rows nl Cs keys (set (rows @ [r]))" and s: "key_sorted nl keys (rows @ [r])"
    and a: "count_aggr a ci" "ci < length r" and inv: "groups_inv nl keys ci rows groups"
  shows "\<exists>groups'. group_rows nl ar [a] keys (r # rest) groups = group_rows nl ar [a] keys rest groups' \<and>
     groups_inv nl keys ci (rows @ [r]) groups'"
proof -
  let ?x = "lexv nl" and ?k = "key_of keys"
  have o: "value_order ?x (columns Cs)" using k lexv_order by (simp add: keyed_rows_def)
  have col: "?k q \<in> columns Cs" if "q \<in> set (rows @ [r])" for q using k that by (auto simp: keyed_rows_def)
  have le: "?x (?k q) (?k r) \<le> 0" if "q \<in> set rows" for q using s that by (simp add: sorted_wrt_append)
  have refl: "one_group nl keys r r" using value_order.cmp_refl [OF o col [of r]] by (simp add: one_group_def)
  have sym: "one_group nl keys r q \<longleftrightarrow> ?x (?k q) (?k r) = 0" if "q \<in> set rows" for q
    using value_order.cmp_swap [OF o col [of q] col [of r]] that by (auto simp: one_group_def)
  show ?thesis
  proof (cases groups)
    case Nil
    then have "rows = []" using inv by (cases rows) (auto simp: groups_inv_def)
    moreover obtain c where "NewAggEvalCtxs [a] (Some r) = Ok [c]" "\<not> ec_hasErr c" "ec_count c = (if IsNull (r ! ci) then 0 else 1)"
      using count_init [OF a] by blast
    ultimately show ?thesis using Nil refl
      by (intro exI [of _ "[(r, [c])]"]) (simp add: groups_inv_def counted_def count_of_def)
  next
    case (Cons gc gs)
    obtain g c where gc: "gc = (g, [c])" "g \<in> set rows" "\<not> ec_hasErr c" "ec_count c = count_of nl keys ci rows g"
      using inv Cons by (cases gc) (auto simp: groups_inv_def counted_def)
    have keq: "keysEqual nl g r keys = Ok (?x (?k g) (?k r) = 0)"
      using k gc(2) by (intro keysEqual_key) (auto simp: keyed_rows_def)
    have gs: "list_all (counted nl keys ci rows) gs" using inv Cons by (simp add: groups_inv_def)
    have older: "?x (?k g') (?k g) < 0" "g' \<in> set rows" if "g' \<in> set (map fst gs)" for g'
      using inv Cons gc(1) that by (auto simp: groups_inv_def counted_def list_all_iff)
    have before: "?x (?k g') (?k r) < 0" if "g' \<in> set (map fst gs)" for g'
      using value_order.cmp_less_le [OF o col col col older(1) [OF that] le [OF gc(2)]] older(2) [OF that] gc(2) by simp
    have gs': "list_all (counted nl keys ci (rows @ [r])) gs"
      unfolding list_all_iff
    proof
      fix x
      assume x: "x \<in> set gs"
      then have m: "fst x \<in> set (map fst gs)" by simp
      then have "\<not> one_group nl keys r (fst x)" using sym [OF older(2) [OF m]] before [OF m] by simp
      with gs x show "counted nl keys ci (rows @ [r]) x" by (simp add: list_all_iff counted_other)
    qed
    show ?thesis
    proof (cases "?x (?k g) (?k r) = 0")
      case True
      then have rg: "one_group nl keys r g" using sym [OF gc(2)] by simp
      obtain c' where c': "update_all nl ar [a] r [c] = Ok [c']" "\<not> ec_hasErr c'"
        "ec_count c' = ec_count c + (if IsNull (r ! ci) then 0 else 1)" using count_update [OF a gc(3)] by blast
      have "group_rows nl ar [a] keys (r # rest) groups = group_rows nl ar [a] keys rest ((g, [c']) # gs)"
        using Cons gc(1) keq True c'(1) by simp
      moreover have "counted nl keys ci (rows @ [r]) (g, [c'])" using gc c' rg by (simp add: counted_def count_of_snoc)
      then have "groups_inv nl keys ci (rows @ [r]) ((g, [c']) # gs)"
        using inv Cons gc(1) gs' rg by (auto simp: groups_inv_def)
      ultimately show ?thesis by blast
    next
      case False
      then have lt: "?x (?k g) (?k r) < 0" using le [OF gc(2)] by simp
      have new: "?x (?k q) (?k r) < 0" if q: "q \<in> set rows" for q
      proof -
        obtain g' where g': "g' \<in> set (map fst groups)" "one_group nl keys q g'" using inv q unfolding groups_inv_def by blast
        then have "g' = g \<or> g' \<in> set (map fst gs)" using Cons gc(1) by auto
        then have "?x (?k g') (?k r) < 0" "g' \<in> set rows" using lt before older(2) gc(2) by blast+
        then show ?thesis using value_order.cmp_le_less [OF o col [of q] col [of g'] col [of r]] g'(2) q by (simp add: one_group_def)
      qed
      obtain c' where c': "NewAggEvalCtxs [a] (Some r) = Ok [c']" "\<not> ec_hasErr c'" "ec_count c' = (if IsNull (r ! ci) then 0 else 1)"
        using count_init [OF a] by blast
      have "group_rows nl ar [a] keys (r # rest) groups = group_rows nl ar [a] keys rest ((r, [c']) # groups)"
        using Cons gc(1) keq False c'(1) by simp
      moreover have "count_of nl keys ci rows r = 0"
        using new by (fastforce simp: count_of_def one_group_def filter_empty_conv)
      then have "counted nl keys ci (rows @ [r]) (r, [c'])" using c' refl by (simp add: counted_def count_of_snoc)
      moreover have "counted nl keys ci (rows @ [r]) gc"
        using counted_other [of nl keys ci rows gc r] inv Cons gc sym [OF gc(2)] False by (simp add: groups_inv_def)
      ultimately have "groups_inv nl keys ci (rows @ [r]) ((r, [c']) # groups)"
        using inv gs' Cons gc(1,2) refl lt before by (auto simp: groups_inv_def)
      then show ?thesis using \<open>group_rows nl ar [a] keys (r # rest) groups = _\<close> by blast
    qed
  qed
qed

lemma group_rows_count:
  assumes "keyed_rows nl Cs keys (set (pre @ rows))" "key_sorted nl keys (pre @ rows)" "count_aggr a ci"
    "\<forall>r \<in> set rows. ci < length r" "groups_inv nl keys ci pre groups"
  shows "\<exists>groups'. group_rows nl ar [a] keys rows groups = Ok groups' \<and> groups_inv nl keys ci (pre @ rows) groups'"
  using assms
proof (induction rows arbitrary: pre groups)
  case (Cons r rows)
  have sub: "keyed_rows nl Cs keys (set (pre @ [r]))" by (rule keyed_rows_mono [OF Cons.prems(1)]) auto
  have "key_sorted nl keys (pre @ [r])" using Cons.prems(2) by (simp add: sorted_wrt_append)
  from group_step [OF sub this Cons.prems(3) _ Cons.prems(5), of ar rows] Cons.prems(4) obtain groups1
    where g: "group_rows nl ar [a] keys (r # rows) groups = group_rows nl ar [a] keys rows groups1"
      "groups_inv nl keys ci (pre @ [r]) groups1" by auto
  from Cons.IH [of "pre @ [r]" groups1] Cons.prems g show ?case by simp
qed simp

section \<open>Properties\<close>

text \<open>
  C38. Limit returns the rows from the offset on, as many as the limit says or as there are. An offset and a
  limit whose sum does not fit a signed 64-bit integer make it panic, whatever the rows.
\<close>

theorem limit_rows:
  assumes "0 \<le> lp_Offset p" "lp_Offset p < 2 ^ 63" "0 \<le> lp_Limit p" "lp_Limit p < 2 ^ 63"
  shows "Limit_Execute p rs =
     (if lp_Offset p + lp_Limit p < 2 ^ 63
      then Ok (rs\<lparr>rs_Rows := take (nat (lp_Limit p)) (drop (nat (lp_Offset p)) (rs_Rows rs))\<rparr>)
      else Panic ''slice bounds out of range'')"
  using Limit_Execute_Ok Limit_Execute_overflow assms by simp

text \<open>
  C34. Order-by returns the same rows in the order of the clause, descending columns included, and an error
  only when a column of the clause is not in the result.
\<close>

theorem orderby_outcome:
  assumes "row_sorter srt"
  shows "(orderable nl Cs (fields_of rs) (op_OrderBys plan) (set (rs_Rows rs)) \<longrightarrow>
       (\<exists>rows. OrderBy_Execute srt nl plan rs = Ok (RemoveColumns (op_RemovedIdxs plan) (rs\<lparr>rs_Rows := rows\<rparr>)) \<and>
          mset rows = mset (rs_Rows rs) \<and> sorted_wrt (precedes nl (fields_of rs) (op_OrderBys plan)) rows)) \<and>
     (\<forall>e. OrderBy_Execute srt nl plan rs = Err e \<longrightarrow>
       (\<exists>ob \<in> set (op_OrderBys plan). find_field ob 0 (fields_of rs) = None \<and> e = no_field ob))"
proof (intro conjI impI allI)
  assume "orderable nl Cs (fields_of rs) (op_OrderBys plan) (set (rs_Rows rs))"
  from orderby_sorts [OF assms this] show "\<exists>rows. OrderBy_Execute srt nl plan rs =
      Ok (RemoveColumns (op_RemovedIdxs plan) (rs\<lparr>rs_Rows := rows\<rparr>)) \<and>
      mset rows = mset (rs_Rows rs) \<and> sorted_wrt (precedes nl (fields_of rs) (op_OrderBys plan)) rows"
    by (auto simp: OrderBy_Execute_def)
next
  fix e
  assume "OrderBy_Execute srt nl plan rs = Err e"
  then have "srt (orderby_less nl (fields_of rs) (op_OrderBys plan)) (rs_Rows rs) = Err e"
    by (auto simp: OrderBy_Execute_def rbind_Err_iff)
  from row_sorter.sort_err [OF assms this] orderby_less_err
  show "\<exists>ob \<in> set (op_OrderBys plan). find_field ob 0 (fields_of rs) = None \<and> e = no_field ob" by blast
qed

text \<open>
  C21. Sending the backends the limit \<open>offset + limit\<close> is safe: let every backend return its rows sorted and cut
  to that many. Sorting the parts together and applying offset and limit then returns as many rows as
  without the cut, in each position a row with the same values in the columns of the clause.
\<close>

theorem limit_pushdown:
  assumes "row_sorter srt" "LimitPlan_Build (Some (offset, rowcount)) = Ok lp"
    and "0 \<le> lp_Offset lp" "0 \<le> lp_Limit lp" "lp_Offset lp + lp_Limit lp < 2 ^ 63"
    and "orderable nl Cs (fields_of rs) (op_OrderBys ob) (set (concat parts))" "op_RemovedIdxs ob = []"
    and "\<forall>p \<in> set parts. sorted_wrt (precedes nl (fields_of rs) (op_OrderBys ob)) p"
    and "lp_rewritten lp = Some (show_nat n)"
  shows "\<exists>full cut. ExecSubPlan srt nl ar [ChildOrderby ob, ChildLimit lp] (rs\<lparr>rs_Rows := concat parts\<rparr>) = Ok full \<and>
     ExecSubPlan srt nl ar [ChildOrderby ob, ChildLimit lp] (rs\<lparr>rs_Rows := concat (map (take n) parts)\<rparr>) = Ok cut \<and>
     list_all2 (same_order nl (fields_of rs) (op_OrderBys ob)) (rs_Rows full) (rs_Rows cut)"
proof -
  let ?f = "fields_of rs" and ?obs = "op_OrderBys ob" and ?o = "nat (lp_Offset lp)" and ?l = "nat (lp_Limit lp)"
  have "show_int (lp_Offset lp + lp_Limit lp) = show_nat n"
    using assms(2-5,9) go_add_small [of "lp_Offset lp" "lp_Limit lp"]
    by (auto simp: LimitPlan_Build_def res_simps split: if_splits)
  then have n: "n = ?o + ?l" using assms(3,4) by (simp add: show_int_def gostring_simps nat_add_distrib)
  have ord': "orderable nl Cs ?f ?obs (set (concat (map (take n) parts)))"
    using assms(6) unfolding orderable_def by (rule list_all2_mono) (fastforce dest: in_set_takeD)
  obtain xs where xs: "ExecSubPlan srt nl ar [ChildOrderby ob, ChildLimit lp] (rs\<lparr>rs_Rows := concat parts\<rparr>) =
      Ok (rs\<lparr>rs_Rows := take ?l (drop ?o xs)\<rparr>)" "mset xs = mset (concat parts)" "sorted_wrt (precedes nl ?f ?obs) xs"
    using orderby_limit_rows [OF assms(1,6,7,3,4,5)] by blast
  obtain ys where ys: "ExecSubPlan srt nl ar [ChildOrderby ob, ChildLimit lp] (rs\<lparr>rs_Rows := concat (map (take n) parts)\<rparr>) =
      Ok (rs\<lparr>rs_Rows := take ?l (drop ?o ys)\<rparr>)" "mset ys = mset (concat (map (take n) parts))" "sorted_wrt (precedes nl ?f ?obs) ys"
    using orderby_limit_rows [OF assms(1) ord' assms(7,3,4,5)] by blast
  have vo: "value_order (\<lambda>x y. lexcmp (dcmp nl) (order_key ?f ?obs x) (order_key ?f ?obs y)) (set (concat parts))"
    by (rule value_order_pullback [OF orderable_order [OF assms(6)] orderable_key [OF assms(6)]])
  have "list_all2 (same_order nl ?f ?obs) (take n xs) (take n ys)"
    unfolding order_funs
    by (rule value_order.take_of_parts [OF vo _ _ xs(2) _ ys(2)]) (use assms(8) xs(3) ys(3) in \<open>auto simp: order_funs\<close>)
  then have "list_all2 (same_order nl ?f ?obs) (drop ?o (take n xs)) (drop ?o (take n ys))" by (rule list_all2_dropI)
  then have "list_all2 (same_order nl ?f ?obs) (take ?l (drop ?o xs)) (take ?l (drop ?o ys))" unfolding n by (simp add: drop_take)
  with xs(1) ys(1) show ?thesis by simp
qed


text \<open>
  Counting by groups in an empty result returns one row, with nulls as keys and the count 0, where
  there are no groups.
\<close>

theorem count_group_by_no_rows:
  assumes "row_sorter srt" "rs_Rows rs = []" "ap_normalAggrs plan = [a]" "ag_Type a = AggrTypeCount" "\<not> ag_Distinct a"
    "\<not> ap_IsPushDown plan" "ag_Index a = int ci" "ci < length (fields_of rs)"
  shows "\<exists>rs'. Aggregate_Execute srt nl ar plan rs = Ok rs' \<and>
     rs_Rows rs' = [(replicate (length (fields_of rs)) NULL)[ci := NewInt64 0]]"
proof -
  obtain a0 flds where fx: "fix_fields False [a] (fields_of rs) = Ok ([a0], flds)" "count_aggr a0 ci"
    using count_fix [OF assms(4,5,7,8)] by blast
  have len: "length flds = length (fields_of rs)" using fx(1) by (auto simp: res_simps Let_def case_prod_beta)
  have "\<exists>ys. srt lt [] = Ok ys \<and> mset ys = mset ([] :: row list)" for lt
    using row_sorter.sort_ok [OF assms(1), of lt "[]"] by (auto simp: weak_order_def)
  then have s: "srt lt [] = Ok []" for lt by auto
  have "NewAggEvalCtxs [a0] None = Ok [\<lparr>ec_count = 0, ec_val = NULL, ec_hasErr = False, ec_buffer = NewHashTable\<rparr>]"
    by (simp add: NewAggEvalCtxs_def InitEvalCtx_def NULL_def Let_def)
  with count_result [OF fx(2), of "\<lparr>ec_count = 0, ec_val = NULL, ec_hasErr = False, ec_buffer = NewHashTable\<rparr>" "replicate (length flds) NULL" ar]
  show ?thesis using assms fx(1) s len by (simp add: Aggregate_Execute_def AggregatePlan_Empty_def RemoveColumns_def Let_def)
qed

section \<open>Witnesses\<close>

definition demo_fields :: "Field list" where
  "demo_fields = map (\<lambda>n. \<lparr>f_Name = n, f_Type = VarChar, f_Table = ''t'', f_ColumnLength = 0, f_Decimals = 0\<rparr>) [''a'', ''b'']"

definition demo_rows :: "row list" where
  "demo_rows = [[NewVarChar ''x'', NewVarChar ''1''], [NewVarChar ''y'', NULL], [NewVarChar ''x'', NewVarChar ''2''], [NULL, NewVarChar ''3'']]"

definition demo_result :: Result where
  "demo_result = empty_Result\<lparr>rs_Fields := Some demo_fields, rs_Rows := demo_rows\<rparr>"

definition demo_limit :: LimitPlan where
  "demo_limit = \<lparr>lp_Offset = 1, lp_Limit = 2, lp_rewritten = Some ''3''\<rparr>"

definition demo_orderby :: OrderByPlan where
  "demo_orderby = \<lparr>op_OrderBys = [\<lparr>ob_Field = ''a'', ob_Table = [], ob_Direction = DESC\<rparr>,
     \<lparr>ob_Field = ''b'', ob_Table = ''t'', ob_Direction = ASC\<rparr>], op_RemovedIdxs = []\<rparr>"

definition demo_count :: AggregatePlan where
  "demo_count = \<lparr>ap_normalAggrs = [\<lparr>ag_Field = ''count(b)'', ag_Index = 1, ag_Type = AggrTypeCount, ag_Distinct = False\<rparr>],
     ap_groupAggrs = [\<lparr>ag_Field = ''a'', ag_Index = 0, ag_Type = AggrTypeGroupBy, ag_Distinct = False\<rparr>], ap_IsPushDown = False\<rparr>"

definition demo_arith :: Arith where
  "demo_arith = \<lparr>ar_Sum = \<lambda>v _ _ _. Some v, ar_Add = \<lambda>v _ _ _. Some v, ar_Div = \<lambda>v _ _ _. Some v, ar_Cast = \<lambda>v _. Some v\<rparr>"

theorem limit_rows_witness:
  "Limit_Execute demo_limit demo_result = Ok (demo_result\<lparr>rs_Rows := [demo_rows ! 1, demo_rows ! 2]\<rparr>) \<and>
   Limit_Execute (demo_limit\<lparr>lp_Limit := 2 ^ 63 - 1\<rparr>) demo_result = Panic ''slice bounds out of range''"
  using limit_rows [of demo_limit demo_result] limit_rows [of "demo_limit\<lparr>lp_Limit := 2 ^ 63 - 1\<rparr>" demo_result]
  by (simp add: demo_limit_def demo_result_def demo_rows_def)

lemma demo_orderable:
  "orderable nl [text_column, text_column] (fields_of demo_result) (op_OrderBys demo_orderby) (set demo_rows)"
  by (simp add: orderable_def demo_orderby_def demo_result_def fields_of_def demo_fields_def demo_rows_def demo_text text_column_ordered)

theorem orderby_outcome_witness:
  "\<exists>rows. OrderBy_Execute insertionSort demo_nl demo_orderby demo_result = Ok (demo_result\<lparr>rs_Rows := rows\<rparr>) \<and>
     mset rows = mset demo_rows \<and>
     sorted_wrt (precedes demo_nl (fields_of demo_result) (op_OrderBys demo_orderby)) rows"
proof -
  have r: "op_RemovedIdxs demo_orderby = []" "rs_Rows demo_result = demo_rows"
    by (simp_all add: demo_orderby_def demo_result_def)
  show ?thesis
    using orderby_outcome [OF insertion.row_sorter_axioms, of demo_nl "[text_column, text_column]" demo_result demo_orderby]
      demo_orderable [of demo_nl] unfolding r RemoveColumns_def by simp
qed

definition demo_parts :: "row list list" where
  "demo_parts = [[demo_rows ! 1, demo_rows ! 3], [demo_rows ! 0, demo_rows ! 2]]"

theorem limit_pushdown_witness:
  "\<exists>full cut. ExecSubPlan insertionSort demo_nl demo_arith [ChildOrderby demo_orderby, ChildLimit demo_limit]
       (demo_result\<lparr>rs_Rows := concat demo_parts\<rparr>) = Ok full \<and>
     ExecSubPlan insertionSort demo_nl demo_arith [ChildOrderby demo_orderby, ChildLimit demo_limit]
       (demo_result\<lparr>rs_Rows := concat (map (take 3) demo_parts)\<rparr>) = Ok cut \<and>
     list_all2 (same_order demo_nl (fields_of demo_result) (op_OrderBys demo_orderby)) (rs_Rows full) (rs_Rows cut)"
proof (rule limit_pushdown [OF insertion.row_sorter_axioms])
  show "LimitPlan_Build (Some (Some (LimitVal \<lparr>sv_Type = IntVal, sv_Val = ''1''\<rparr>), Some (LimitVal \<lparr>sv_Type = IntVal, sv_Val = ''2''\<rparr>))) = Ok demo_limit"
    by (simp add: LimitPlan_Build_def demo_limit_def atoi_def split_sign_def go_add_def digit_of_def) code_simp
  have "set (concat demo_parts) = set demo_rows" by (auto simp: demo_parts_def demo_rows_def)
  then show "orderable demo_nl [text_column, text_column] (fields_of demo_result) (op_OrderBys demo_orderby) (set (concat demo_parts))"
    using demo_orderable by simp
  show "op_RemovedIdxs demo_orderby = []" by (simp add: demo_orderby_def)
  have "list_all (sorted_wrt (precedes demo_nl (fields_of demo_result) (op_OrderBys demo_orderby))) demo_parts" by code_simp
  then show "\<forall>p \<in> set demo_parts. sorted_wrt (precedes demo_nl (fields_of demo_result) (op_OrderBys demo_orderby)) p"
    by (simp add: list_all_iff)
  show "lp_rewritten demo_limit = Some (show_nat 3)" by code_simp
qed (simp_all add: demo_limit_def)

lemma demo_keyed: "keyed_rows demo_nl [text_column] (map ag_Index (ap_groupAggrs demo_count)) (set (rs_Rows demo_result))"
  by (simp add: keyed_rows_def text_column_ordered demo_count_def demo_result_def demo_rows_def in_range_def key_of_def columns_Cons demo_text)


theorem count_group_by_no_rows_witness:
  "\<exists>rs'. Aggregate_Execute insertionSort demo_nl demo_arith demo_count (demo_result\<lparr>rs_Rows := []\<rparr>) = Ok rs' \<and>
     rs_Rows rs' = [[NULL, NewInt64 0]]"
proof -
  have "length (fields_of (demo_result\<lparr>rs_Rows := []\<rparr>)) = 2" by (simp add: demo_result_def fields_of_def demo_fields_def)
  then show ?thesis
    using count_group_by_no_rows [OF insertion.row_sorter_axioms, of "demo_result\<lparr>rs_Rows := []\<rparr>" demo_count "hd (ap_normalAggrs demo_count)" 1]
    by (auto simp: demo_count_def numeral_2_eq_2)
qed

end
