(* ===== verification/Engine_Props.thy ===== *)
theory Engine_Props
  imports Engines Operator_Props Txn_Props
begin

text \<open>
  What the execution of a plan does: it keeps the invariant of the transaction it runs in, a reading plan opens no
  XA branch, the result has as many columns in every row as it has fields, a distinct union keeps the first row of
  every key, and the nested-loop strategy of a join returns what the nested loop over the right rows does.
\<close>

section \<open>Relations that every request keeps\<close>

text \<open>
  A relation between the states before and after a step that is reflexive and transitive and that every request
  the plan may send keeps. The engines keep it, because requests are all they do to the transaction.
\<close>

definition keeps :: "(Txn \<Rightarrow> World \<Rightarrow> Txn \<Rightarrow> World \<Rightarrow> bool) \<Rightarrow> (Txn \<Rightarrow> World \<Rightarrow> 'a txn_step) \<Rightarrow> bool" where
  "keeps rel f \<longleftrightarrow> (\<forall>t w t' w' x. f t w = (t', w', x) \<longrightarrow> rel t w t' w')"

locale txn_relation =
  fixes be :: Backends and rel :: "Txn \<Rightarrow> World \<Rightarrow> Txn \<Rightarrow> World \<Rightarrow> bool" and modes :: "TxnMode set"
  assumes rel_refl: "rel t w t w"
    and rel_trans: "rel t w t1 w1 \<Longrightarrow> rel t1 w1 t2 w2 \<Longrightarrow> rel t w t2 w2"
    and rel_exec: "rq_TxnMode req \<in> modes \<Longrightarrow> Txn_Execute be req t w = (t', w', x) \<Longrightarrow> rel t w t' w'"
    and rel_read: "TxnRead \<in> modes"
begin

lemma keeps_exec: "rq_TxnMode req \<in> modes \<Longrightarrow> keeps rel (Txn_Execute be req)"
  unfolding keeps_def using rel_exec by blast

lemma keeps_res: "keeps rel (step_res r)"
  by (simp add: keeps_def step_res_def rel_refl)

lemma keeps_pair: "keeps rel (\<lambda>t w. (t, w, r))"
  by (simp add: keeps_def rel_refl)

lemma keeps_bind:
  assumes "keeps rel f" "\<And>x. keeps rel (k x)"
  shows "keeps rel (\<lambda>t w. step_bind (f t w) k)"
  unfolding keeps_def
proof (intro allI impI)
  fix t w t' w' x
  assume b: "step_bind (f t w) k = (t', w', x)"
  obtain t1 w1 y where f: "f t w = (t1, w1, y)" by (metis prod_cases3)
  with assms(1) have r: "rel t w t1 w1" by (simp add: keeps_def)
  show "rel t w t' w'"
  proof (cases y)
    case (Ok v)
    with b f assms(2) [of v] have "rel t1 w1 t' w'" by (simp add: step_bind_def keeps_def)
    with r show ?thesis by (rule rel_trans)
  qed (use b f r in \<open>auto simp: step_bind_def\<close>)
qed

lemma keeps_both:
  assumes "keeps rel f" "keeps rel g"
  shows "keeps rel (both f g)"
  unfolding keeps_def
proof (intro allI impI)
  fix t w t' w' x
  assume b: "both f g t w = (t', w', x)"
  obtain t1 w1 y where f: "f t w = (t1, w1, y)" by (metis prod_cases3)
  obtain t2 w2 z where g: "g t1 w1 = (t2, w2, z)" by (metis prod_cases3)
  have "rel t w t1 w1" "rel t1 w1 t2 w2" using assms f g by (simp_all add: keeps_def)
  moreover have "(t', w') = (t1, w1) \<or> (t', w') = (t2, w2)"
    using b f g by (cases y; cases z) (auto simp: both_def step_bind_def step_res_def)
  ultimately show "rel t w t' w'" by (auto intro: rel_trans)
qed

lemma keeps_if_app: "keeps rel f \<Longrightarrow> keeps rel g \<Longrightarrow> keeps rel (\<lambda>t w. if b then f t w else g t w)"
  by (cases b) simp_all

lemma keeps_prod: "(\<And>a b. keeps rel (f a b)) \<Longrightarrow> keeps rel (case x of (a, b) \<Rightarrow> f a b)"
  by (cases x) simp

lemma read_modes [simp]: "rq_TxnMode (read_request qs) = TxnRead" "rq_TxnMode (merge_request node) = TxnRead"
  by (simp_all add: read_request_def merge_request_def Let_def)

lemma keeps_Merge: "keeps rel (Merge_Execute be el node)"
  "keeps rel (Merge_execBindVars be el node vars)" "keeps rel (Merge_getFields be node vars)"
  unfolding Merge_Execute_def Merge_execBindVars_def Merge_getFields_def
  by (intro keeps_bind keeps_res keeps_exec keeps_if_app keeps_pair | simp add: rel_read)+

lemma keeps_getFields: "keeps rel (getFields p be vars)"
proof (induction p arbitrary: vars)
  case (PlanJoin node cs l r)
  then show ?case by (simp only: getFields.simps) (intro keeps_bind keeps_res; simp)
qed (simp_all add: keeps_Merge keeps_res)

lemma keeps_nest_loop:
  assumes "\<And>vars want. keeps rel (right vars want)"
  shows "keeps rel (nest_loop el node right lfs vars rows want res)"
proof (induction rows arbitrary: want res)
  case Nil
  then show ?case by (simp add: keeps_def rel_refl)
next
  case (Cons row rows)
  have "keeps rel (\<lambda>t w. nest_loop el node right lfs vars (row # rows) want res t w)"
    unfolding nest_loop.simps by (intro keeps_bind keeps_res keeps_if_app assms Cons.IH)
  then show ?case .
qed

lemma keeps_execBindVars: "keeps rel (execBindVars p be el vars want)"
proof (induction p arbitrary: vars want)
  case (PlanJoin node cs l r)
  show ?case
    by (simp only: execBindVars.simps)
      (intro keeps_bind keeps_nest_loop PlanJoin.IH keeps_prod keeps_if_app keeps_getFields keeps_res keeps_pair)
qed (simp_all add: keeps_Merge keeps_res)

lemma keeps_Engine: "keeps rel (Engine_Execute p be el)"
proof (induction p)
  case (PlanJoin node cs l r)
  then show ?case
    by (simp only: Engine_Execute.simps)
      (intro keeps_if_app keeps_bind keeps_both keeps_prod keeps_res keeps_execBindVars)
next
  case (PlanUnion node l r)
  then show ?case
    by (simp only: Engine_Execute.simps) (intro keeps_bind keeps_both keeps_prod keeps_res)
qed (simp add: keeps_Merge)

lemma keeps_plan: "modes = UNIV \<Longrightarrow> keeps rel (Executor_Execute be el p)"
  by (cases p) (simp_all add: executor_defs keeps_exec keeps_Engine)

lemma keeps_plans:
  assumes "modes = UNIV"
  shows "keeps rel (Tree_Execute be el ps res)"
proof (induction ps arbitrary: res)
  case Nil
  then show ?case by (simp add: keeps_def rel_refl)
next
  case (Cons p ps)
  have "keeps rel (\<lambda>t w. Tree_Execute be el (p # ps) res t w)"
    unfolding Tree_Execute.simps by (intro keeps_bind keeps_plan assms Cons.IH)
  then show ?case .
qed

end

text \<open>Every request keeps the invariant of the transaction.\<close>

definition ok_step :: "Txn \<Rightarrow> World \<Rightarrow> Txn \<Rightarrow> World \<Rightarrow> bool" where
  "ok_step t w t' w' \<longleftrightarrow>
     (\<forall>S. txn_ok S t w \<longrightarrow> txn_ok S t' w' \<and> world_ext w w' \<and> tx_backends t' = tx_backends t)"

interpretation any_request: txn_relation be ok_step UNIV for be
proof
  show "ok_step t w t' w'" if "Txn_Execute be req t w = (t', w', x)" for req t w t' w' and x :: "Result res"
    using Txn_Execute_ok [OF _ that] by (auto simp: ok_step_def)
qed (auto simp: ok_step_def intro: world_ext_trans)

text \<open>A request that does not write keeps the identifier of the XA transaction as well.\<close>

lemma Txn_Execute_read:
  assumes ok: "txn_ok S t w" and m: "rq_TxnMode req \<noteq> TxnWrite" and e: "Txn_Execute be req t w = (t', w', x)"
  shows "tx_xid t' = tx_xid t"
proof -
  define t0 where "t0 = (if tx_twopc t then t\<lparr>tx_req := Some req\<rparr> else t)"
  have ok0: "txn_ok S t0 w" using ok txn_ok_cong [of t0 t] by (simp add: t0_def)
  obtain t1 w1 y where r: "txn_execute be req t0 w = (t1, w1, y)" by (metis prod_cases3)
  have "t' = t1 \<or> t' = incErrors t1"
    using e m r by (cases y) (auto simp: Txn_Execute_def Let_def t0_def split: if_splits)
  with txn_execute_spec [OF ok0 r] show ?thesis by (auto simp: txn_frame_def incErrors_def t0_def split: if_splits)
qed

definition read_step :: "Txn \<Rightarrow> World \<Rightarrow> Txn \<Rightarrow> World \<Rightarrow> bool" where
  "read_step t w t' w' \<longleftrightarrow> (\<forall>S. txn_ok S t w \<longrightarrow> txn_ok S t' w' \<and> tx_xid t' = tx_xid t)"

interpretation reading: txn_relation be read_step "{TxnNone, TxnRead}" for be
proof
  show "read_step t w t' w'"
    if "rq_TxnMode req \<in> {TxnNone, TxnRead}" "Txn_Execute be req t w = (t', w', x)" for req t w t' w' and x :: "Result res"
    using Txn_Execute_ok [OF _ that(2)] Txn_Execute_read [OF _ _ that(2)] that(1) by (auto simp: read_step_def)
qed (auto simp: read_step_def)

section \<open>The results of steps\<close>

definition yields :: "('a \<Rightarrow> bool) \<Rightarrow> (Txn \<Rightarrow> World \<Rightarrow> 'a txn_step) \<Rightarrow> bool" where
  "yields P f \<longleftrightarrow> (\<forall>t w t' w' x. f t w = (t', w', Ok x) \<longrightarrow> P x)"

lemma yields_bind:
  assumes "yields Q f" "\<And>x. Q x \<Longrightarrow> yields P (k x)"
  shows "yields P (\<lambda>t w. step_bind (f t w) k)"
  using assms unfolding yields_def step_bind_def by (auto split: prod.splits res.splits; blast)

lemma yields_any [simp]: "yields (\<lambda>_. True) f"
  by (simp add: yields_def)

lemma yields_res: "(\<And>x. r = Ok x \<Longrightarrow> P x) \<Longrightarrow> yields P (step_res r)"
  by (auto simp: yields_def step_res_def)

lemma yields_both:
  assumes "yields P f" "yields Q g"
  shows "yields (\<lambda>(x, y). P x \<and> Q y) (both f g)"
  using assms unfolding yields_def both_def step_bind_def step_res_def by (auto split: prod.splits res.splits; blast)

lemma yields_if_app: "(b \<Longrightarrow> yields P f) \<Longrightarrow> (\<not> b \<Longrightarrow> yields P g) \<Longrightarrow> yields P (\<lambda>t w. if b then f t w else g t w)"
  by (cases b) simp_all

section \<open>The shape of results\<close>

text \<open>Every row has as many values as there are fields.\<close>

definition shaped :: "Result \<Rightarrow> bool" where
  "shaped r \<longleftrightarrow> (\<forall>row \<in> set (rs_Rows r). length row = fields_len (rs_Fields r))"

text \<open>The answers to the queries of one node: \<open>n\<close> columns, or nothing so far.\<close>

definition width :: "nat \<Rightarrow> Result \<Rightarrow> bool" where
  "width n r \<longleftrightarrow> (\<forall>row \<in> set (rs_Rows r). length row = n) \<and>
     (rs_Fields r = None \<and> rs_Rows r = [] \<or> fields_len (rs_Fields r) = n)"

lemma width_shaped: "width n r \<Longrightarrow> shaped r"
  by (auto simp: width_def shaped_def)

lemma width_empty: "width n empty_Result"
  by (simp add: width_def empty_Result_def)

lemma width_append:
  assumes "width n r" "fields_len (rs_Fields s) = n" "\<forall>row \<in> set (rs_Rows s). length row = n"
  shows "width n (AppendResult r s)"
  using assms by (auto simp: width_def AppendResult_def fields_len_def split: option.splits)

text \<open>The servers answer a query \<open>q\<close> with \<open>cols q\<close> columns.\<close>

definition typed_servers :: "Backends \<Rightarrow> (string \<Rightarrow> nat) \<Rightarrow> bool" where
  "typed_servers be cols \<longleftrightarrow> (\<forall>h a c q r n. be_exec be h a c q = XOk r n \<longrightarrow>
     fields_len (rs_Fields r) = cols q \<and> (\<forall>row \<in> set (rs_Rows r). length row = cols q))"

lemma conn_ExecuteWithLimits_typed:
  assumes "typed_servers be cols" "conn_ExecuteWithLimits be w c q t m = (w', Ok r)"
  shows "fields_len (rs_Fields r) = cols q \<and> (\<forall>row \<in> set (rs_Rows r). length row = cols q)"
proof -
  obtain n where "be_exec be (w_trace w) (c_address (w_conns w ! c)) c q = XOk r n"
    using assms(2) by (auto simp: conn_ExecuteWithLimits_def conn_run_def Let_def split: exec_out.splits if_splits)
  with assms(1) show ?thesis unfolding typed_servers_def by blast
qed

lemma run_queries_width:
  "typed_servers be cols \<Longrightarrow> \<forall>q \<in> set qs. cols q = n \<Longrightarrow> width n qr \<Longrightarrow>
   run_queries be txn c qs w qr = (w', qr', x) \<Longrightarrow> width n qr'"
proof (induction qs arbitrary: w qr)
  case (Cons q qs)
  obtain w1 y where e: "conn_ExecuteWithLimits be w c q (tx_timeout txn) (tx_maxResult txn) = (w1, y)" by fastforce
  show ?case
  proof (cases y)
    case (Ok r)
    then have "width n (AppendResult qr r)"
      using conn_ExecuteWithLimits_typed [OF Cons.prems(1), of w c q] e Cons.prems(2,3) by (auto intro: width_append)
    with Cons.IH [OF Cons.prems(1) _ this] Cons.prems e Ok show ?thesis by simp
  qed (use Cons.prems e in auto)
qed simp

lemma run_shards_width:
  "typed_servers be cols \<Longrightarrow> \<forall>(b, qs) \<in> set shards. \<forall>q \<in> set qs. cols q = n \<Longrightarrow> width n qr \<Longrightarrow>
   run_shards be shards txn w qr = (txn', w', qr', x) \<Longrightarrow> width n qr'"
proof (induction shards arbitrary: txn w qr txn' w' qr' x)
  case (Cons bq shards)
  obtain b qs where bq: "bq = (b, qs)" by fastforce
  obtain txn1 w1 qr1 y where o: "one_shard be b qs txn w qr = (txn1, w1, qr1, y)" by (metis prod_cases4)
  have q1: "width n qr1"
    using o Cons.prems(1-3) bq run_queries_width [of be cols qs n qr]
    by (auto simp: one_shard_def split: prod.splits res.splits)
  obtain txn2 w2 qr2 z where r: "run_shards be shards txn1 w1 qr1 = (txn2, w2, qr2, z)" by (metis prod_cases4)
  have "width n qr2" by (rule Cons.IH [OF Cons.prems(1) _ q1 r]) (use Cons.prems(2) in auto)
  moreover have "qr' = qr1 \<or> qr' = qr2" using Cons.prems(4) bq o r by (cases y; cases z) auto
  ultimately show ?case using q1 by auto
qed simp

definition request_queries :: "RequestContext \<Rightarrow> string set" where
  "request_queries req = (if rq_Mode req = ReqNormal then qt_Query ` set (rq_Querys req) else {rq_RawQuery req})"

lemma exec_shards_queries: "(b, qs) \<in> set (exec_shards txn req) \<Longrightarrow> set qs \<subseteq> request_queries req"
proof (cases "rq_Mode req")
  case ReqNormal
  assume "(b, qs) \<in> set (exec_shards txn req)"
  with ReqNormal have "gm_get (query_map (rq_Querys req)) b = Some qs"
    using query_map_step [of "[]" "\<lambda>_. []" "rq_Querys req"] gm_wf_get_iff
    by (fastforce simp: exec_shards_def query_map_def)
  then have "qs = map qt_Query (filter (\<lambda>q. qt_Backend q = b) (rq_Querys req))"
    using query_map_step [of "[]" "\<lambda>_. []" "rq_Querys req"] by (simp add: query_map_def Let_def split: if_splits)
  with ReqNormal show ?thesis by (auto simp: request_queries_def)
qed (auto simp: exec_shards_def request_queries_def)

lemma Txn_Execute_yields:
  assumes "\<And>t w t' w' r. txn_execute be req t w = (t', w', Ok r) \<Longrightarrow> P r"
  shows "yields P (Txn_Execute be req)"
  using assms unfolding yields_def Txn_Execute_def Let_def by (auto split: prod.splits res.splits if_splits)

lemma Txn_Execute_width:
  assumes ty: "typed_servers be cols" and q: "\<forall>q \<in> request_queries req. cols q = n"
  shows "yields (width n) (Txn_Execute be req)"
proof -
  have "width n r" if e: "txn_execute be req t w = (t', w', Ok r)" for t w t' w' r
  proof -
    let ?t = "t\<lparr>tx_state := if tx_twopc t then txnStateExecutingTwoPC else txnStateExecutingNormal\<rparr>"
    obtain u where "run_shards be (exec_shards t req) ?t w empty_Result = (t', w', r, u)"
      using e by (auto simp: txn_execute_def res_simps split: prod.splits)
    moreover have "\<forall>(b, qs) \<in> set (exec_shards t req). \<forall>q \<in> set qs. cols q = n" using exec_shards_queries q by fast
    ultimately show ?thesis using run_shards_width [OF ty _ width_empty] by blast
  qed
  then show ?thesis by (rule Txn_Execute_yields)
qed

subsection \<open>Operators\<close>

lemma remove_idxs_Nil [simp]: "remove_idxs idxs [] = []"
  by (simp add: remove_idxs_def)

lemma remove_idxs_length: "length xs = length ys \<Longrightarrow> length (remove_idxs idxs xs) = length (remove_idxs idxs ys)"
  by (induction xs ys rule: rev_induct2) (simp_all add: remove_idxs_def)

lemma RemoveColumns_shaped: "shaped r \<Longrightarrow> shaped (RemoveColumns idxs r)"
  by (auto simp: shaped_def RemoveColumns_def fields_len_def split: option.splits intro: remove_idxs_length)

lemma set_cell_length: "set_cell xs i v = Ok ys \<Longrightarrow> length ys = length xs"
  by (auto simp: set_cell_def split: if_splits)

lemma GetResults_length: "GetResults ar aggrs ctxs x d = Ok (y, d') \<Longrightarrow> length y = length x"
  by (induction ar aggrs ctxs x d arbitrary: y d' rule: GetResults.induct)
    (auto simp: res_simps dest!: set_cell_length split: if_splits list.splits)

lemma fix_fields_length: "fix_fields pd ps flds = Ok (aggrs, flds') \<Longrightarrow> length flds' = length flds"
  by (induction ps arbitrary: flds aggrs flds') (auto simp: res_simps Let_def case_prod_beta)

lemma group_rows_rows:
  "group_rows nl ar aggrs keys rows groups = Ok groups' \<Longrightarrow> fst ` set groups' \<subseteq> fst ` set groups \<union> set rows"
proof (induction rows arbitrary: groups)
  case (Cons r rows)
  have "\<exists>g'. group_rows nl ar aggrs keys rows g' = Ok groups' \<and> fst ` set g' \<subseteq> fst ` set groups \<union> {r}"
  proof (cases groups)
    case Nil
    with Cons.prems show ?thesis by (auto simp: res_simps)
  next
    case (Cons gc gs)
    obtain g ctxs where gc: "gc = (g, ctxs)" by fastforce
    obtain c where "group_rows nl ar aggrs keys rows ((g, c) # gs) = Ok groups' \<or>
        group_rows nl ar aggrs keys rows ((r, c) # (g, ctxs) # gs) = Ok groups'"
      using Cons.prems unfolding Cons gc by (auto simp: res_simps split: if_splits)
    then show ?thesis unfolding Cons gc by (elim disjE) (rule exI, rule conjI, assumption, auto)+
  qed
  then obtain g' where g': "group_rows nl ar aggrs keys rows g' = Ok groups'" "fst ` set g' \<subseteq> fst ` set groups \<union> {r}"
    by blast
  from Cons.IH [OF g'(1)] g'(2) show ?case by auto
qed simp

text \<open>Sorting keeps the rows, grouping keeps one row of every group.\<close>

lemma Aggregate_shaped:
  assumes srt: "row_sorter srt" and sh: "shaped r" and e: "Aggregate_Execute srt nl ar plan r = Ok r'"
  shows "shaped r'"
proof (cases "AggregatePlan_Empty plan")
  case True
  with e sh show ?thesis by (simp add: Aggregate_Execute_def)
next
  case False
  let ?keys = "map ag_Index (ap_groupAggrs plan)" and ?n = "fields_len (rs_Fields r)"
  from e False obtain rows aggrs flds groups outs outs' where
    rows: "(if ?keys \<noteq> [] then srt (rows_less nl ?keys) (rs_Rows r) else Ok (rs_Rows r)) = Ok rows"
    and fx: "fix_fields (ap_IsPushDown plan) (ap_normalAggrs plan) (fields_of r) = Ok (aggrs, flds)"
    and gr: "group_rows nl ar aggrs ?keys rows [] = Ok groups"
    and outs: "rmapM (\<lambda>(g, ctxs). GetResults ar aggrs ctxs g []) (rev groups) = Ok outs"
    and outs': "(if groups = [] \<and> ap_normalAggrs plan \<noteq> []
               then rbind (NewAggEvalCtxs aggrs None) (\<lambda>ctxs.
                      rbind (GetResults ar aggrs ctxs (replicate (length flds) NULL) []) (\<lambda>out. Ok [out]))
               else Ok outs) = Ok outs'"
    and r': "r' = RemoveColumns (last_idxs outs')
               (r\<lparr>rs_Fields := map_option (\<lambda>_. flds) (rs_Fields r), rs_Rows := map fst outs'\<rparr>)"
    unfolding Aggregate_Execute_def Let_def by (auto simp only: rbind_Ok_iff if_False case_prod_beta prod.sel fst_conv snd_conv split: prod.splits)
  have len: "length flds = ?n"
    using fix_fields_length [OF fx] by (simp add: fields_of_def fields_len_def split: option.splits)
  have "set rows = set (rs_Rows r)" using rows row_sorter.sort_set [OF srt] by (auto split: if_splits)
  then have g: "\<forall>g \<in> fst ` set groups. length g = ?n" using group_rows_rows [OF gr] sh by (auto simp: shaped_def)
  have "\<forall>out \<in> set outs. length (fst out) = ?n"
  proof
    fix out assume "out \<in> set outs"
    then obtain i where i: "i < length outs" "out = outs ! i" by (metis in_set_conv_nth)
    have l2: "list_all2 (\<lambda>g out. GetResults ar aggrs (snd g) (fst g) [] = Ok out) (rev groups) outs"
      using outs unfolding rmapM_Ok_iff by (simp add: case_prod_beta)
    have m: "rev groups ! i \<in> set groups"
      using i(1) list_all2_lengthD [OF l2] nth_mem [of i "rev groups"] by simp
    have "GetResults ar aggrs (snd (rev groups ! i)) (fst (rev groups ! i)) [] = Ok (fst out, snd out)"
      using list_all2_nthD2 [OF l2 i(1)] i(2) by simp
    from GetResults_length [OF this] g m show "length (fst out) = ?n" by simp
  qed
  moreover have "length (fst out) = ?n" if "GetResults ar aggrs ctxs (replicate (length flds) NULL) [] = Ok out" for ctxs out
    using GetResults_length [of ar aggrs ctxs _ "[]" "fst out" "snd out"] that len by simp
  ultimately have "\<forall>out \<in> set outs'. length (fst out) = ?n" using outs' by (auto simp: rbind_Ok_iff split: if_splits)
  then have "shaped (r\<lparr>rs_Fields := map_option (\<lambda>_. flds) (rs_Fields r), rs_Rows := map fst outs'\<rparr>)"
    using len by (auto simp: shaped_def fields_len_def split: option.splits)
  then show ?thesis unfolding r' by (rule RemoveColumns_shaped)
qed

lemma OrderBy_shaped:
  assumes "row_sorter srt" "shaped r" "OrderBy_Execute srt nl plan r = Ok r'"
  shows "shaped r'"
proof -
  from assms(3) obtain rows where rows: "srt (orderby_less nl (fields_of r) (op_OrderBys plan)) (rs_Rows r) = Ok rows"
    "r' = RemoveColumns (op_RemovedIdxs plan) (r\<lparr>rs_Rows := rows\<rparr>)"
    by (auto simp: OrderBy_Execute_def res_simps)
  have "shaped (r\<lparr>rs_Rows := rows\<rparr>)" using row_sorter.sort_set [OF assms(1) rows(1)] assms(2) by (simp add: shaped_def)
  then show ?thesis unfolding rows(2) by (rule RemoveColumns_shaped)
qed

lemma Limit_shaped: "shaped r \<Longrightarrow> Limit_Execute plan r = Ok r' \<Longrightarrow> shaped r'"
  by (auto simp: Limit_Execute_def Result_Limit_def shaped_def Let_def split: if_splits dest!: in_set_takeD in_set_dropD)

lemma ExecSubPlan_shaped: "row_sorter srt \<Longrightarrow> shaped r \<Longrightarrow> ExecSubPlan srt nl ar ps r = Ok r' \<Longrightarrow> shaped r'"
proof (induction ps arbitrary: r)
  case (Cons p ps)
  obtain r1 where r1: "(case p of ChildAggregate p \<Rightarrow> Aggregate_Execute srt nl ar p r | ChildOrderby p \<Rightarrow> OrderBy_Execute srt nl p r
       | ChildLimit p \<Rightarrow> Limit_Execute p r) = Ok r1" "ExecSubPlan srt nl ar ps r1 = Ok r'"
    using Cons.prems(3) by (auto simp: rbind_Ok_iff)
  then have "shaped r1"
    using Aggregate_shaped [OF Cons.prems(1,2)] OrderBy_shaped [OF Cons.prems(1,2)] Limit_shaped [OF Cons.prems(2)]
    by (cases p) simp_all
  from Cons.IH [OF Cons.prems(1) this r1(2)] show ?case .
qed simp

subsection \<open>Joins\<close>

text \<open>\<open>res'\<close> is \<open>res\<close> with joined rows added.\<close>

definition joined :: "JoinNode \<Rightarrow> Result \<Rightarrow> Result \<Rightarrow> bool" where
  "joined node res res' \<longleftrightarrow> rs_Fields res' = rs_Fields res \<and>
     (\<forall>row \<in> set (rs_Rows res'). row \<in> set (rs_Rows res) \<or> length row = length (jn_Cols node))"

lemma joined_refl [simp]: "joined node res res"
  by (simp add: joined_def)

lemma joined_trans: "joined node a b \<Longrightarrow> joined node b c \<Longrightarrow> joined node a c"
  by (auto simp: joined_def)

lemma joined_add: "joinRows l r (jn_Cols node) = Ok row \<Longrightarrow> add_row maxrow row res = Ok res' \<Longrightarrow> joined node res res'"
  by (auto simp: joined_def add_row_def joinRows_def rmapM_Ok_iff Let_def dest: list_all2_lengthD split: if_splits)

lemma joined_nil_rows: "nil_rows node maxrow rows res = Ok res' \<Longrightarrow> joined node res res'"
  by (induction rows arbitrary: res) (auto simp: res_simps intro: joined_trans joined_add)

lemma joined_nil: "concatLeftAndNil node maxrow rows res = Ok res' \<Longrightarrow> joined node res res'"
  by (auto simp: concatLeftAndNil_def intro: joined_nil_rows split: if_splits)

lemma joined_right: "join_right nl node maxrow l rows res n = Ok (res', m) \<Longrightarrow> joined node res res'"
proof (induction rows arbitrary: res n)
  case (Cons r rows)
  then obtain res1 k where "join_right nl node maxrow l rows res1 k = Ok (res', m)" "joined node res res1"
    by (auto simp: res_simps split: if_splits intro: joined_add)
  with Cons.IH show ?case by (blast intro: joined_trans)
qed simp

lemma joined_mathOps: "mathOps nl node maxrow rows l res = Ok res' \<Longrightarrow> joined node res res'"
  by (auto simp: mathOps_def res_simps split: if_splits intro: joined_trans joined_add joined_right)

lemma joined_concat: "concatLeftAndRight nl node maxrow L R res = Ok res' \<Longrightarrow> joined node res res'"
  by (induction L arbitrary: res) (auto simp: res_simps intro: joined_trans joined_mathOps)

lemma unless_panic_Ok: "unless_panic x y = Ok z \<Longrightarrow> y = Ok z"
  by (cases x) (simp_all add: unless_panic_def)

lemma joined_merge_loop: "merge_loop nl node maxrow L R l r res = Ok res' \<Longrightarrow> joined node res res'"
proof (induction nl node maxrow L R l r res rule: merge_loop.induct)
  case (1 nl node maxrow L R lrows lidx rrows ridx res)
  show ?case
  proof (cases "lrows = None \<or> rrows = None")
    case True
    with "1.prems" show ?thesis by (auto intro: joined_nil split: option.splits)
  next
    case False
    then obtain lg rg where g: "lrows = Some lg" "rrows = Some rg" by auto
    from "1.prems" g obtain cmp isNull where
      k: "key_cmp nl (lg ! 0) (rg ! 0) (lkeys node) (rkeys node) = Ok (cmp, isNull)" by (auto simp: rbind_Ok_iff)
    note IH = "1.IH" [OF g k refl]
    consider "cmp = 0" | "0 < cmp" | "cmp < 0" by linarith
    then show ?thesis
    proof cases
      case 1
      define err where "err = (if isNull then concatLeftAndNil node maxrow lg res else concatLeftAndRight nl node maxrow lg rg res)"
      from "1.prems" g k 1 obtain l r res1 where
        n: "fetchSameKeyRows nl L (lkeys node) lidx = Ok l" "fetchSameKeyRows nl R (rkeys node) ridx = Ok r" "err = Ok res1"
          "merge_loop nl node maxrow L R l r res1 = Ok res'"
        by (auto simp: rbind_Ok_iff Let_def err_def dest!: unless_panic_Ok)
      have "joined node res res1" using n(3) by (auto simp: err_def intro: joined_nil joined_concat split: if_splits)
      moreover have "joined node res1 res'" using IH(1) [OF 1 err_def n(1) n(2) n(3)] n(4) by simp
      ultimately show ?thesis by (rule joined_trans)
    next
      case 2
      with "1.prems" g k obtain r where
        n: "fetchSameKeyRows nl R (rkeys node) ridx = Ok r" "merge_loop nl node maxrow L R (Some lg, lidx) r res = Ok res'"
        by (auto simp: rbind_Ok_iff)
      show ?thesis by (rule IH(2) [OF _ 2 n(1) n(2)]) (use 2 in simp)
    next
      case 3
      define err where "err = concatLeftAndNil node maxrow lg res"
      from "1.prems" g k 3 obtain l res1 where
        n: "fetchSameKeyRows nl L (lkeys node) lidx = Ok l" "err = Ok res1"
          "merge_loop nl node maxrow L R l (Some rg, ridx) res1 = Ok res'"
        by (auto simp: rbind_Ok_iff Let_def err_def dest!: unless_panic_Ok)
      have "joined node res res1" using n(2) by (simp add: err_def joined_nil)
      moreover have "joined node res1 res'" by (rule IH(3) [OF _ _ err_def n(1) n(2) n(3)]) (use 3 in simp_all)
      ultimately show ?thesis by (rule joined_trans)
    qed
  qed
qed

lemma joined_sortMergeJoin: "sortMergeJoin srt nl node maxrow lres rres res = Ok res' \<Longrightarrow> joined node res res'"
  by (auto simp: sortMergeJoin_def mergeJoin_def res_simps simp del: merge_loop.simps intro: joined_merge_loop)

lemma joined_product_rows: "product_rows node maxrow l rows res = Ok res' \<Longrightarrow> joined node res res'"
  by (induction rows arbitrary: res) (auto simp: res_simps intro: joined_trans joined_add)

lemma joined_product_all: "product_all node maxrow L rows res = Ok res' \<Longrightarrow> joined node res res'"
  by (induction L arbitrary: res) (auto simp: res_simps intro: joined_trans joined_product_rows)

lemma joined_cartesian:
  assumes "cartesianProduct node maxrow lres rres res = Ok res'" "rs_Rows res = []"
  shows "joined node res res'"
  using joined_product_all [OF assms(1) [unfolded cartesianProduct_def]] assms(2) by (simp add: joined_def)

lemma joined_nest_right: "nest_right node maxrow l rows res n = Ok (res', m) \<Longrightarrow> joined node res res'"
proof (induction rows arbitrary: res n)
  case (Cons r rows)
  then obtain res1 k where "nest_right node maxrow l rows res1 k = Ok (res', m)" "joined node res res1"
    by (auto simp: res_simps split: if_splits intro: joined_add)
  with Cons.IH show ?case by (blast intro: joined_trans)
qed simp

lemma joined_nest_row: "nest_row node maxrow l rows res = Ok res' \<Longrightarrow> joined node res res'"
  by (auto simp: nest_row_def res_simps split: if_splits intro: joined_trans joined_nil joined_nest_right)

subsection \<open>Plans\<close>

text \<open>In a node that is pushed down, all queries ask for the same number of columns.\<close>

definition typed_node :: "(string \<Rightarrow> nat) \<Rightarrow> MergeNode \<Rightarrow> bool" where
  "typed_node cols node \<longleftrightarrow> (\<exists>n. cols (mn_Sel node) = n \<and> (\<forall>q \<in> set (mn_Querys node). cols (qt_Query q) = n) \<and>
     (\<forall>p \<in> set (mn_ParsedQuerys node). \<forall>vars q. p vars = Ok q \<longrightarrow> cols q = n))"

primrec typed_plan :: "(string \<Rightarrow> nat) \<Rightarrow> PlanNode \<Rightarrow> bool" where
  "typed_plan cols (PlanMerge node) = typed_node cols node"
| "typed_plan cols (PlanJoin node cs l r) = (typed_plan cols l \<and> typed_plan cols r)"
| "typed_plan cols (PlanUnion node l r) = (typed_plan cols l \<and> typed_plan cols r)"

lemma sub_shaped: "row_sorter (el_sort el) \<Longrightarrow> shaped r \<Longrightarrow> yields shaped (step_res (el_sub el cs r))"
  unfolding el_sub_def using ExecSubPlan_shaped by (intro yields_res) blast

lemma Merge_shaped:
  assumes "typed_servers be cols" "typed_node cols node" "row_sorter (el_sort el)"
  shows "yields shaped (Merge_Execute be el node)"
proof -
  from assms(2) obtain n where n: "cols (mn_Sel node) = n" "\<forall>q \<in> set (mn_Querys node). cols (qt_Query q) = n"
    by (auto simp: typed_node_def)
  have "\<forall>q \<in> request_queries (merge_request node). cols q = n"
    using n by (auto simp: request_queries_def merge_request_def Let_def NewRequestContext_def)
  from Txn_Execute_width [OF assms(1) this] show ?thesis
    unfolding Merge_Execute_def
    by (rule yields_bind) (rule sub_shaped [OF assms(3) width_shaped])
qed

text \<open>A join reads no more of its inputs than the columns it names, so its rows have that width whatever they are.\<close>

lemma set_fields_Ok:
  "set_fields (joinFields a b (jn_Cols node)) res = Ok res' \<Longrightarrow>
     rs_Rows res' = rs_Rows res \<and> (\<exists>fs. rs_Fields res' = Some fs \<and> length fs = length (jn_Cols node))"
  by (auto simp: set_fields_def joinFields_def res_simps rmapM_Ok_iff dest: list_all2_lengthD)

lemma join_results_shaped:
  assumes srt: "row_sorter (el_sort el)" and e: "join_results el node cs lres rres = Ok r"
  shows "shaped r"
proof -
  from e obtain res where
    res: "set_fields (joinFields (fields_of lres) (fields_of rres) (jn_Cols node)) empty_Result = Ok res"
    by (auto simp: join_results_def rbind_Ok_iff)
  from set_fields_Ok [OF res] have f: "rs_Rows res = []" "fields_len (rs_Fields res) = length (jn_Cols node)"
    by (auto simp: empty_Result_def fields_len_def)
  have sh: "shaped res'" if "joined node res res'" for res' using that f by (auto simp: shaped_def joined_def)
  show ?thesis
  proof (cases "rs_Rows lres = []")
    case True
    with e res f show ?thesis by (simp add: join_results_def shaped_def)
  next
    case False
    with e res obtain res' where res': "(if rs_Rows rres = [] then concatLeftAndNil node (el_maxrow el) (rs_Rows lres) res
                else case jn_Strategy node of
                       SortMerge \<Rightarrow> sortMergeJoin (el_sort el) (el_nl el) node (el_maxrow el) lres rres res
                     | Cartesian \<Rightarrow> cartesianProduct node (el_maxrow el) lres rres res
                     | NestLoop \<Rightarrow> Ok res) = Ok res'" "el_sub el cs res' = Ok r"
      by (auto simp: join_results_def rbind_Ok_iff)
    from res'(1) f(1) have "joined node res res'"
      by (auto intro: joined_nil joined_sortMergeJoin joined_cartesian split: if_splits JoinStrategy.splits)
    from ExecSubPlan_shaped [OF srt sh [OF this]] res'(2) show ?thesis by (simp add: el_sub_def)
  qed
qed

text \<open>The rows of a distinct union are among those of its inputs.\<close>

lemma union_table_keep: "union_table rows table = hash_table.keep_first union_key rows table"
  by (induction rows arbitrary: table) simp_all

lemma union_items:
  "(k, vs) \<in> set (HashTable_items (union_table rows NewHashTable)) \<longleftrightarrow>
     (\<exists>r. find (\<lambda>r. union_key r = k) rows = Some r \<and> vs = [r])"
  by (simp add: union_table_keep hash_table.keep_first_items)

lemma union_rows_set: "set (rs_Rows (union_rows node all res)) \<subseteq> set (rs_Rows all)"
  by (auto simp: union_rows_def Let_def union_items find_Some_iff)

lemma union_rows_fields: "rs_Fields (union_rows node all res) = rs_Fields res"
  by (simp add: union_rows_def Let_def)

lemma union_results_shaped:
  assumes srt: "row_sorter (el_sort el)" and sh: "shaped lres" "shaped rres" and e: "union_results el node lres rres = Ok r"
  shows "shaped r"
proof -
  let ?res = "empty_Result\<lparr>rs_Fields := rs_Fields lres\<rparr>" and ?all = "AppendResult lres rres"
  have n: "fields_len (rs_Fields lres) = fields_len (rs_Fields rres)" using e by (auto simp: union_results_def split: if_splits)
  then have "\<forall>row \<in> set (rs_Rows ?all). length row = fields_len (rs_Fields lres)"
    using sh by (auto simp: AppendResult_def shaped_def)
  then have sh': "shaped (union_rows node ?all ?res)"
    using union_rows_set [of node ?all ?res] by (auto simp: shaped_def union_rows_fields)
  show ?thesis
  proof (cases "rs_Rows ?all = []")
    case True
    with e n show ?thesis by (auto simp: union_results_def Let_def shaped_def empty_Result_def)
  next
    case False
    with e n ExecSubPlan_shaped [OF srt sh'] show ?thesis by (simp add: union_results_def Let_def el_sub_def)
  qed
qed

text \<open>The nested loop adds joined rows; the fields are set with the first right side, when they are asked for.\<close>

definition looped :: "JoinNode \<Rightarrow> bool \<Rightarrow> Result \<Rightarrow> bool \<times> Result \<Rightarrow> bool" where
  "looped node want res = (\<lambda>(want', res').
     (\<forall>row \<in> set (rs_Rows res'). row \<in> set (rs_Rows res) \<or> length row = length (jn_Cols node)) \<and>
     (want' \<longrightarrow> want) \<and> (want \<longrightarrow> \<not> want' \<longrightarrow> fields_len (rs_Fields res') = length (jn_Cols node)) \<and>
     (\<not> want \<longrightarrow> rs_Fields res' = rs_Fields res))"

lemma yields_mono: "yields Q f \<Longrightarrow> (\<And>x. Q x \<Longrightarrow> P x) \<Longrightarrow> yields P f"
  by (auto simp: yields_def)

lemma nest_loop_looped: "yields (looped node want res) (nest_loop el node right lfs vars rows want res)"
proof (induction rows arbitrary: want res)
  case Nil
  then show ?case by (simp add: yields_def looped_def)
next
  case (Cons row rows)
  let ?P = "looped node want res"
  have no: "yields ?P (nest_loop el node right lfs vars rows want res1)" if "joined node res res1" for res1
    by (rule yields_mono [OF Cons.IH]) (use that in \<open>auto simp: looped_def joined_def\<close>)
  have yes: "yields ?P (nest_loop el node right lfs vars rows False res2)"
    if "(if want then set_fields (joinFields lfs fs (jn_Cols node)) res else Ok res) = Ok res1" "joined node res1 res2" for fs res1 res2
    using Cons.IH
  proof (rule yields_mono)
    fix x assume x: "looped node False res2 x"
    have "rs_Rows res1 = rs_Rows res" "want \<Longrightarrow> fields_len (rs_Fields res1) = length (jn_Cols node)"
      "\<not> want \<Longrightarrow> rs_Fields res1 = rs_Fields res"
      using that(1) set_fields_Ok [of lfs fs node res res1] by (auto simp: fields_len_def split: if_splits)
    with x that(2) show "looped node want res x" by (auto simp: looped_def joined_def)
  qed
  have "yields ?P (\<lambda>t w. nest_loop el node right lfs vars (row # rows) want res t w)"
    unfolding nest_loop.simps
    apply (rule yields_bind [OF yields_any])
    apply (rule yields_if_app)
     apply (rule yields_bind [OF yields_any])
     apply (rule yields_bind [OF yields_any])
     apply (rule yields_bind [where Q = "\<lambda>res1. \<exists>fs. (if want then set_fields (joinFields lfs fs (jn_Cols node)) res else Ok res) = Ok res1"])
      apply (rule yields_res, blast)
     apply (elim exE)
     apply (rule yields_bind)
      apply (rule yields_res, erule joined_nest_row)
     apply (rule yes, assumption+)
    apply (rule yields_bind)
     apply (rule yields_res, erule joined_nil)
    apply (rule no, assumption)
    done
  then show ?case .
qed

lemma nest_join_shaped:
  assumes "row_sorter (el_sort el)"
  shows "yields shaped (\<lambda>txn w. step_bind (execBindVars (PlanJoin node cs l r) be el vars True txn w) (\<lambda>res. step_res (el_sub el cs res)))"
proof (rule yields_bind)
  show "yields shaped (execBindVars (PlanJoin node cs l r) be el vars True)"
    unfolding execBindVars.simps
  proof (rule yields_bind [OF yields_any], rule yields_bind [OF nest_loop_looped])
    fix lres x assume x: "looped node True empty_Result x"
    obtain want res where wr: "x = (want, res)" by fastforce
    have rows: "\<forall>row \<in> set (rs_Rows res). length row = length (jn_Cols node)"
      using x wr by (auto simp: looped_def empty_Result_def)
    have "shaped res" if "\<not> want" using that x wr rows by (auto simp: looped_def shaped_def)
    moreover have "shaped res'" if "set_fields (joinFields a b (jn_Cols node)) res = Ok res'" for a b res'
      using set_fields_Ok [OF that] rows by (auto simp: shaped_def fields_len_def)
    ultimately show "yields shaped ((\<lambda>(want, res) txn w.
         if want then
           step_bind (getFields r be (combineVars vars (null_vars node)) txn w) (\<lambda>rres.
             step_res (set_fields (joinFields (fields_of lres) (fields_of rres) (jn_Cols node)) res))
         else (txn, w, Ok res)) x)"
      unfolding wr prod.case
      by (intro yields_if_app yields_bind [OF yields_any] yields_res) (auto simp: yields_def)
  qed
qed (rule sub_shaped [OF assms])

lemma Engine_shaped:
  assumes "typed_servers be cols" "row_sorter (el_sort el)"
  shows "typed_plan cols p \<Longrightarrow> yields shaped (Engine_Execute p be el)"
proof (induction p)
  case (PlanMerge node)
  then show ?case using Merge_shaped [OF assms(1) _ assms(2)] by simp
next
  case (PlanJoin node cs l r)
  show ?case unfolding Engine_Execute.simps
    by (intro yields_if_app nest_join_shaped [OF assms(2)] yields_bind [OF yields_any])
      (use join_results_shaped [OF assms(2)] in \<open>auto intro!: yields_res split: prod.split\<close>)
next
  case (PlanUnion node l r)
  then have "yields (\<lambda>(x, y). shaped x \<and> shaped y) (both (Engine_Execute l be el) (Engine_Execute r be el))"
    by (intro yields_both) simp_all
  then show ?case unfolding Engine_Execute.simps
    by (rule yields_bind) (use union_results_shaped [OF assms(2)] in \<open>auto intro!: yields_res split: prod.splits\<close>)
qed

section \<open>Properties\<close>



text \<open>
  C19. Let the servers answer every query with the number of columns it asks for and let all queries of a pushed-down
  node ask for the same number. Then in the result of any plan, nested joins, unions and operators that remove
  columns included, every row has exactly one value for each field.
\<close>

theorem result_has_fields:
  assumes "typed_servers be cols" "typed_plan cols plan" "row_sorter (el_sort el)"
    and "Engine_Execute plan be el txn w = (txn', w', Ok r)"
  shows "list_all (\<lambda>row. length row = fields_len (rs_Fields r)) (rs_Rows r)"
  using Engine_shaped [OF assms(1,3,2)] assms(4) unfolding yields_def shaped_def list_all_iff by blast

text \<open>
  C32. A distinct union keeps, for every key, the first row with that key, left rows before right ones, and counts
  the rows it keeps.
\<close>

theorem union_distinct_rows:
  assumes "un_Typ node = ''union distinct'' \<or> un_Typ node = ''union''"
    and "fields_len (rs_Fields lres) = fields_len (rs_Fields rres)" "0 < fields_len (rs_Fields rres)"
    and "rs_Rows lres @ rs_Rows rres \<noteq> []"
  shows "\<exists>res. union_results el node lres rres = el_sub el (un_children node) res \<and> rs_Fields res = rs_Fields lres \<and>
     distinct (map union_key (rs_Rows res)) \<and> rs_RowsAffected res = of_nat (length (rs_Rows res)) \<and>
     set (rs_Rows res) = {row. find (\<lambda>q. union_key q = union_key row) (rs_Rows lres @ rs_Rows rres) = Some row}"
proof -
  let ?all = "AppendResult lres rres" and ?e = "empty_Result\<lparr>rs_Fields := rs_Fields lres\<rparr>"
  let ?t = "union_table (rs_Rows ?all) NewHashTable"
  have all: "rs_Rows ?all = rs_Rows lres @ rs_Rows rres" using assms(3) by (simp add: AppendResult_def)
  have rows: "rs_Rows (union_rows node ?all ?e) = map (hd \<circ> snd) (HashTable_items ?t)"
    "rs_RowsAffected (union_rows node ?all ?e) = of_nat (ht_size ?t)"
    using assms(1) by (simp_all add: union_rows_def Let_def)
  have key: "union_key (hd (snd kv)) = fst kv" if "kv \<in> set (HashTable_items ?t)" for kv
    using that union_items [of "fst kv" "snd kv" "rs_Rows ?all"] by (auto simp: find_Some_iff)
  then have k: "map union_key (map (hd \<circ> snd) (HashTable_items ?t)) = map fst (HashTable_items ?t)" by simp
  have dk: "distinct (map fst (HashTable_items ?t))"
    unfolding union_table_keep
    by (rule hash_table.items_distinct [OF hash_table.keep_first_inv [OF hash_table.inv_empty]])
  have d: "distinct (map union_key (map (hd \<circ> snd) (HashTable_items ?t)))" unfolding k by (rule dk)
  have m: "row \<in> set (map (hd \<circ> snd) (HashTable_items ?t)) \<longleftrightarrow> find (\<lambda>q. union_key q = union_key row) (rs_Rows ?all) = Some row" for row
  proof
    assume "row \<in> set (map (hd \<circ> snd) (HashTable_items ?t))"
    then obtain k vs where "(k, vs) \<in> set (HashTable_items ?t)" "row = hd vs" by auto
    with key [of "(k, vs)"] show "find (\<lambda>q. union_key q = union_key row) (rs_Rows ?all) = Some row"
      by (auto simp: union_items)
  next
    assume "find (\<lambda>q. union_key q = union_key row) (rs_Rows ?all) = Some row"
    then have "(union_key row, [row]) \<in> set (HashTable_items ?t)" by (simp add: union_items)
    then show "row \<in> set (map (hd \<circ> snd) (HashTable_items ?t))" by force
  qed
  have sz: "ht_size ?t = length (HashTable_items ?t)"
    unfolding union_table_keep by (rule hash_table.keep_first_empty_size)
  have "union_results el node lres rres = el_sub el (un_children node) (union_rows node ?all ?e)"
    using assms(2,4) all by (auto simp: union_results_def Let_def)
  moreover have "set (rs_Rows (union_rows node ?all ?e)) =
      {row. find (\<lambda>q. union_key q = union_key row) (rs_Rows lres @ rs_Rows rres) = Some row}"
    using m unfolding rows(1) all by blast
  moreover have "distinct (map union_key (rs_Rows (union_rows node ?all ?e)))"
    "rs_RowsAffected (union_rows node ?all ?e) = of_nat (length (rs_Rows (union_rows node ?all ?e)))"
    using d sz unfolding rows by simp_all
  ultimately show ?thesis by (intro exI [of _ "union_rows node ?all ?e"]) (simp add: union_rows_fields)
qed


text \<open>
  A join whose left input is empty returns before its operators run: the result has no row and does not depend
  on them, so a \<open>COUNT\<close> over it yields no row and the columns that order-by should remove stay.
\<close>

theorem join_empty_left_skips_operators:
  assumes "rs_Rows lres = []" "join_results el node children lres rres = Ok r"
  shows "rs_Rows r = [] \<and> join_results el node children' lres rres = Ok r"
  using assms by (auto simp: join_results_def rbind_Ok_iff set_fields_def empty_Result_def)

section \<open>Witnesses\<close>

definition demo_field :: "string \<Rightarrow> Field" where
  "demo_field n = \<lparr>f_Name = n, f_Type = VarChar, f_Table = ''t'', f_ColumnLength = 0, f_Decimals = 0\<rparr>"

definition demo_rows :: "row list \<Rightarrow> Result" where
  "demo_rows rows = \<lparr>rs_Fields = Some [demo_field ''a'', demo_field ''b''], rs_RowsAffected = of_nat (length rows),
     rs_InsertID = 0, rs_Rows = rows\<rparr>"

definition select_be :: Backends where
  "select_be = demo_be\<lparr>be_exec := \<lambda>_ _ _ q.
     XOk (if q = ''l'' then demo_rows [[NewVarChar ''k'', NewVarChar ''1''], [NewVarChar ''m'', NewVarChar ''2'']]
          else demo_rows [[NewVarChar ''k'', NewVarChar ''3''], [NewVarChar ''k'', NewVarChar ''1'']]) 0\<rparr>"

definition demo_lib :: EngineLib where
  "demo_lib = \<lparr>el_sort = insertionSort, el_nl = demo_nl, el_ar = demo_arith, el_maxrow = 10\<rparr>"

definition demo_merge :: "string \<Rightarrow> string \<Rightarrow> PlanNode" where
  "demo_merge b q = PlanMerge \<lparr>mn_Sel = q, mn_children = [], mn_Querys = [\<lparr>qt_Query = q, qt_Backend = b, qt_Range = []\<rparr>],
     mn_ParsedQuerys = [\<lambda>_. Ok q], mn_FieldQuery = \<lambda>_. Ok q, mn_ReqMode = ReqNormal\<rparr>"

definition demo_union :: PlanNode where
  "demo_union = PlanUnion \<lparr>un_Typ = ''union all'', un_children = []\<rparr> (demo_merge ''b1'' ''l'') (demo_merge ''b2'' ''r'')"

definition demo_run :: "Result txn_step" where
  "demo_run = Engine_Execute demo_union select_be demo_lib demo_txn (sy_world demo_sys)"



lemma demo_run_Ok: "case snd (snd demo_run) of Ok r \<Rightarrow> length (rs_Rows r) = 4 \<and> fields_len (rs_Fields r) = 2 | _ \<Rightarrow> False"
  by code_simp

theorem result_has_fields_witness:
  "\<exists>r. snd (snd demo_run) = Ok r \<and> length (rs_Rows r) = 4 \<and> list_all (\<lambda>row. length row = 2) (rs_Rows r)"
proof -
  from demo_run_Ok obtain r where r: "snd (snd demo_run) = Ok r" "length (rs_Rows r) = 4" "fields_len (rs_Fields r) = 2"
    by (auto split: res.splits)
  have "typed_servers select_be (\<lambda>_. 2)"
    by (auto simp: typed_servers_def select_be_def demo_rows_def fields_len_def split: if_splits)
  moreover have "typed_plan (\<lambda>_. 2) demo_union" by (simp add: demo_union_def demo_merge_def typed_node_def)
  moreover have "row_sorter (el_sort demo_lib)" by (simp add: demo_lib_def insertion.row_sorter_axioms)
  moreover have "Engine_Execute demo_union select_be demo_lib demo_txn (sy_world demo_sys) = (fst demo_run, fst (snd demo_run), Ok r)"
    unfolding r(1) [symmetric] by (simp add: demo_run_def)
  ultimately have "list_all (\<lambda>row. length row = fields_len (rs_Fields r)) (rs_Rows r)" by (rule result_has_fields)
  with r show ?thesis by simp
qed

theorem union_distinct_rows_witness:
  "\<exists>res. union_results demo_lib \<lparr>un_Typ = ''union'', un_children = []\<rparr>
       (demo_rows [[NewVarChar ''k'', NewVarChar ''1'']]) (demo_rows [[NewVarChar ''k'', NewVarChar ''1'']]) =
       el_sub demo_lib [] res \<and> distinct (map union_key (rs_Rows res)) \<and> [NewVarChar ''k'', NewVarChar ''1''] \<in> set (rs_Rows res)"
  using union_distinct_rows [of "\<lparr>un_Typ = ''union'', un_children = []\<rparr>" "demo_rows [[NewVarChar ''k'', NewVarChar ''1'']]"
      "demo_rows [[NewVarChar ''k'', NewVarChar ''1'']]" demo_lib]
  by (auto simp: demo_rows_def fields_len_def)

theorem join_empty_left_skips_operators_witness:
  "\<exists>r. join_results demo_lib demo_node [] (demo_rows []) (demo_rows [[NULL, NULL]]) = Ok r \<and> rs_Rows r = [] \<and>
     join_results demo_lib demo_node [ChildLimit \<lparr>lp_Offset = 0, lp_Limit = 1, lp_rewritten = None\<rparr>]
       (demo_rows []) (demo_rows [[NULL, NULL]]) = Ok r"
proof -
  have "is_ok (join_results demo_lib demo_node [] (demo_rows []) (demo_rows [[NULL, NULL]]))" by code_simp
  then obtain r where r: "join_results demo_lib demo_node [] (demo_rows []) (demo_rows [[NULL, NULL]]) = Ok r"
    by (auto simp: is_ok_iff)
  have "rs_Rows (demo_rows []) = []" by (simp add: demo_rows_def)
  from join_empty_left_skips_operators [OF this r] r show ?thesis by blast
qed

end
