(* ===== verification/Proxy_Props.thy ===== *)
theory Proxy_Props
  imports Spanner_Ddl Xa_Check Engine_Props
begin

text \<open>
  What the handlers of the proxy guarantee together.
\<close>

section \<open>A transaction stays live until it ends\<close>

definition live :: "Txn \<Rightarrow> bool" where
  "live t \<longleftrightarrow> tx_state t \<noteq> txnStateFinshing \<and> tx_state t \<noteq> txnStateAborting"

lemma twopcConnection_state: "twopcConnection be t w b = (t', w', x) \<Longrightarrow> tx_state t' = tx_state t"
  by (auto simp: twopcConnection_def nil_pool_def split: option.splits prod.splits res.splits)

lemma reFetch_state: "reFetchTwopcConnection be t w b = (t', w', x) \<Longrightarrow> tx_state t' = tx_state t"
  by (auto simp: reFetchTwopcConnection_def dest: twopcConnection_state split: option.splits)

lemma normalConnection_state: "normalConnection be t w b = (t', w', x) \<Longrightarrow> tx_state t' = tx_state t"
  by (auto simp: normalConnection_def nil_pool_def split: option.splits prod.splits res.splits)

lemma replicaConnection_state: "replicaConnection be t w b = (t', w', x) \<Longrightarrow> tx_state t' = tx_state t"
  by (auto simp: replicaConnection_def split: option.splits prod.splits res.splits)

lemma fetchOneConnection_state: "fetchOneConnection be t w b = (t', w', x) \<Longrightarrow> tx_state t' = tx_state t"
  by (auto simp: fetchOneConnection_def Let_def
      dest!: twopcConnection_state normalConnection_state replicaConnection_state split: if_splits prod.splits res.splits)

lemma run_shards_state: "run_shards be shards t w qr = (t', w', qr', x) \<Longrightarrow> tx_state t' = tx_state t"
proof (induction shards arbitrary: t w qr t' w' qr' x)
  case (Cons sh shards)
  obtain b qs where sh: "sh = (b, qs)" by fastforce
  obtain t1 w1 qr1 y where o: "one_shard be b qs t w qr = (t1, w1, qr1, y)" by (metis prod_cases4)
  then have s1: "tx_state t1 = tx_state t"
    by (auto simp: one_shard_def dest!: fetchOneConnection_state split: prod.splits res.splits)
  obtain t2 w2 qr2 z where r: "run_shards be shards t1 w1 qr1 = (t2, w2, qr2, z)" by (metis prod_cases4)
  have "t' = t1 \<or> t' = t2" using Cons.prems sh o r by (cases y; cases z) auto
  with s1 Cons.IH [OF r] show ?case by auto
qed simp

lemma xa_retry_state: "xa_retry be q b left retry x t w = (t', w', y) \<Longrightarrow> tx_state t' = tx_state t"
proof (induction left arbitrary: retry x t w)
  case (Suc left)
  let ?c = "if retry = 0 then twopcConnection be t w b else reFetchTwopcConnection be t w b"
  obtain t1 w1 z where c: "?c = (t1, w1, z)" by (metis prod_cases3)
  then have s1: "tx_state t1 = tx_state t"
    by (auto dest: twopcConnection_state reFetch_state split: if_splits)
  have "t' = t1 \<or> (\<exists>r x w. xa_retry be q b left r x t1 w = (t', w', y))"
    using Suc.prems unfolding xa_retry.simps c by (auto split: res.splits prod.splits if_splits)
  with s1 Suc.IH show ?case by metis
qed simp

lemma xa_shard_state: "xa_shard be st q b t w = (t', w', x) \<Longrightarrow> tx_state t' = tx_state t"
  by (auto simp: xa_shard_def xa_once_def dest: twopcConnection_state xa_retry_state
      split: if_splits prod.splits res.splits)

lemma run_group_state:
  assumes "\<And>b t w t' w' x. f b t w = (t', w', x) \<Longrightarrow> tx_state t' = tx_state t"
  shows "run_group f bs t w = (t', w', x) \<Longrightarrow> tx_state t' = tx_state t"
proof (induction bs arbitrary: t w t' w' x)
  case (Cons b bs)
  obtain t1 w1 y where f: "f b t w = (t1, w1, y)" by (metis prod_cases3)
  obtain t2 w2 z where r: "run_group f bs t1 w1 = (t2, w2, z)" by (metis prod_cases3)
  have "t' = t1 \<or> t' = t2" using Cons.prems f r by (cases y; cases z) auto
  with assms [OF f] Cons.IH [OF r] show ?case by auto
qed simp

lemma executeXACommand_live: "executeXACommand be q st t w = (t', w', x) \<Longrightarrow> live t \<Longrightarrow> live t'"
proof (cases "tx_req t")
  case (Some req)
  assume "executeXACommand be q st t w = (t', w', x)"
  then have "run_group (xa_shard be st q) (xa_backends t req) (t\<lparr>tx_state := txnStateExecutingTwoPC\<rparr>) w = (t', w', x)"
    using Some by (simp add: executeXACommand_def executeXA_def)
  then show ?thesis using run_group_state [OF xa_shard_state] by (fastforce simp: live_def)
qed (simp add: executeXACommand_def)

lemma live_cong: "tx_state t' = tx_state t \<Longrightarrow> live t' = live t"
  by (simp add: live_def)

definition keeps_live :: "(Txn \<Rightarrow> 'w \<Rightarrow> Txn \<times> 'x) \<Rightarrow> bool" where
  "keeps_live f \<longleftrightarrow> (\<forall>t w. live t \<longrightarrow> live (fst (f t w)))"

lemma xa_phase_live: "keeps_live (xa_phase be v st fin)"
proof -
  have "live (fst (xa_phase be v st fin t w))" if "live t" for t w
  proof -
    obtain t1 w1 x where e: "executeXACommand be (xa_query v t) st (t\<lparr>tx_xaState := st\<rparr>) w = (t1, w1, x)" by (metis prod_cases3)
    have "live t1" using executeXACommand_live [OF e] that by (simp add: live_def)
    then show ?thesis using e by (auto simp: xa_phase_def incErrors_def live_def split: res.splits)
  qed
  then show ?thesis by (simp add: keeps_live_def)
qed

lemma xa_final_live: "keeps_live (xa_final be v ls st fin)"
proof -
  have "live (fst (xa_final be v ls st fin t sys))" if "live t" for t sys
  proof -
    obtain t1 w1 x where e: "executeXACommand be (xa_query v t) st (t\<lparr>tx_xaState := st\<rparr>) (sy_world sys) = (t1, w1, x)"
      by (metis prod_cases3)
    have "live t1" using executeXACommand_live [OF e] that by (simp add: live_def)
    then show ?thesis using e by (auto simp: xa_final_def incErrors_def live_def split: res.splits prod.splits)
  qed
  then show ?thesis by (simp add: keeps_live_def)
qed

lemma phase_live: "keeps_live (xaStart be)" "keeps_live (xaEnd be)" "keeps_live (xaPrepare be)"
  "keeps_live (xaCommit be)" "keeps_live (xaRollback be)"
  using xa_phase_live xa_final_live
  by (auto simp: keeps_live_def xaStart_def xaEnd_def xaPrepare_def xaCommit_def xaRollback_def live_def)

lemma then_phase_live: "keeps_live ph \<Longrightarrow> keeps_live k \<Longrightarrow> keeps_live (then_phase ph k)"
  unfolding keeps_live_def then_phase_def by (auto split: prod.splits res.splits) (metis fst_conv)+

lemma on_write_live: "keeps_live k \<Longrightarrow> keeps_live (on_write k)"
  by (auto simp: keeps_live_def on_write_def split: option.splits)

lemma keeps_liveD: "keeps_live f \<Longrightarrow> live t \<Longrightarrow> f t w = (t', r) \<Longrightarrow> live t'"
  unfolding keeps_live_def by (metis fst_conv)

lemma txn_execute_live: "txn_execute be req t w = (t', w', x) \<Longrightarrow> live t'"
  using run_shards_state [of be "exec_shards t req" _ w empty_Result]
  by (fastforce simp: txn_execute_def live_def split: prod.splits if_splits)

lemma Txn_Execute_live: "keeps_live (Txn_Execute be req)"
proof -
  define run where "run = (\<lambda>txn w. case txn_execute be req txn w of
      (txn1, w1, Err e) \<Rightarrow> (incErrors txn1, w1, Err e) | (txn1, w1, x) \<Rightarrow> (txn1, w1, x))"
  have run: "live (fst (run t w))" for t w
  proof -
    obtain t1 w1 x where e: "txn_execute be req t w = (t1, w1, x)" by (metis prod_cases3)
    from txn_execute_live [OF this] e show ?thesis by (cases x) (simp_all add: run_def incErrors_def live_def)
  qed
  have "live (fst (Txn_Execute be req t w))" if l: "live t" for t w
  proof -
    let ?t = "t\<lparr>tx_req := Some req\<rparr>"
    obtain t1 w1 x where st: "xaStart be ?t w = (t1, w1, x)" by (metis prod_cases3)
    have "live ?t" using l by (simp add: live_def)
    then have "live t1" by (rule keeps_liveD [OF phase_live(1) _ st])
    with run st show ?thesis
      unfolding Txn_Execute_def run_def [symmetric] Let_def by (cases x) simp_all
  qed
  then show ?thesis by (simp add: keeps_live_def)
qed

definition live_step :: "Txn \<Rightarrow> World \<Rightarrow> Txn \<Rightarrow> World \<Rightarrow> bool" where
  "live_step t w t' w' \<longleftrightarrow> (live t \<longrightarrow> live t')"

interpretation staying_live: txn_relation be live_step UNIV for be
proof
  show "live_step t w t' w'" if "Txn_Execute be req t w = (t', w', x)" for req t w t' w' and x :: "Result res"
    using keeps_liveD [OF Txn_Execute_live _ that] by (auto simp: live_step_def)
qed (auto simp: live_step_def)

lemma Tree_Execute_live: "Tree_Execute be el ps r t w = (t', w', x) \<Longrightarrow> live t \<Longrightarrow> live t'"
  using staying_live.keeps_plans [of be el ps r] unfolding Engine_Props.keeps_def live_step_def by blast

lemma txn_ends_live:
  "keeps_live (Txn_Commit be)" "keeps_live (Txn_RollbackPhaseOne be)" "keeps_live (Txn_CommitScatter be)"
  "keeps_live (Txn_RollbackScatter be)"
proof -
  have c: "keeps_live (then_phase (xaEnd be) (then_phase (xaPrepare be) (xaCommit be)))"
    "keeps_live (then_phase (xaEnd be) (then_phase (xaPrepare be) (xaRollback be)))"
    "keeps_live (then_phase (xaEnd be) (xaRollback be))"
    by (intro then_phase_live phase_live)+
  show "keeps_live (Txn_Commit be)" "keeps_live (Txn_RollbackPhaseOne be)"
    using on_write_live [OF c(1)] on_write_live [OF c(3)]
    by (simp_all add: keeps_live_def Txn_Commit_def Txn_RollbackPhaseOne_def live_def)
  show "keeps_live (Txn_CommitScatter be)" "keeps_live (Txn_RollbackScatter be)"
    using c by (simp_all add: keeps_live_def Txn_CommitScatter_def Txn_RollbackScatter_def live_def)
qed

lemma Txn_BeginScatter_live: "keeps_live (Txn_BeginScatter be)"
  using phase_live(1) [of be] by (simp add: keeps_live_def Txn_BeginScatter_def live_def)

text \<open>Only the manager's own operations change its counters.\<close>

definition keeps_mgr :: "(Txn \<Rightarrow> Sys \<Rightarrow> Txn \<times> Sys \<times> 'a) \<Rightarrow> bool" where
  "keeps_mgr f \<longleftrightarrow> (\<forall>t sys t' sys' x. f t sys = (t', sys', x) \<longrightarrow> sy_mgr sys' = sy_mgr sys)"

lemma xa_final_mgr: "keeps_mgr (xa_final be v ls st fin)"
  by (auto simp: keeps_mgr_def xa_final_def xa_log_def split: prod.splits res.splits option.splits)

lemma then_phase_mgr: "keeps_mgr k \<Longrightarrow> keeps_mgr (then_phase ph k)"
  unfolding keeps_mgr_def then_phase_def by (fastforce split: prod.splits res.splits)

lemma on_write_mgr: "keeps_mgr k \<Longrightarrow> keeps_mgr (on_write k)"
  unfolding keeps_mgr_def on_write_def by (auto split: option.splits if_splits)

lemma txn_ends_mgr:
  "keeps_mgr (Txn_Commit be)" "keeps_mgr (Txn_RollbackPhaseOne be)" "keeps_mgr (Txn_CommitScatter be)"
  "keeps_mgr (Txn_RollbackScatter be)"
proof -
  have f: "keeps_mgr (xaCommit be)" "keeps_mgr (xaRollback be)"
    using xa_final_mgr by (simp_all add: xaCommit_def [abs_def] xaRollback_def [abs_def])
  have c: "keeps_mgr (then_phase (xaEnd be) (then_phase (xaPrepare be) (xaCommit be)))"
    "keeps_mgr (then_phase (xaEnd be) (then_phase (xaPrepare be) (xaRollback be)))"
    "keeps_mgr (then_phase (xaEnd be) (xaRollback be))"
    by (intro then_phase_mgr f)+
  show "keeps_mgr (Txn_Commit be)" "keeps_mgr (Txn_RollbackPhaseOne be)"
    using on_write_mgr [OF c(1)] on_write_mgr [OF c(3)]
    by (simp_all add: keeps_mgr_def Txn_Commit_def Txn_RollbackPhaseOne_def)
  show "keeps_mgr (Txn_CommitScatter be)" "keeps_mgr (Txn_RollbackScatter be)"
    using c by (simp_all add: keeps_mgr_def Txn_CommitScatter_def Txn_RollbackScatter_def)
qed

section \<open>The transactions of the sessions\<close>

definition bound :: "Sessions \<Rightarrow> Txn list" where
  "bound ss = concat (map (\<lambda>(_, s). opt_list (ss_transaction s)) ss)"

lemma bound_simps [simp]:
  "bound [] = []" "bound (xs @ ys) = bound xs @ bound ys" "bound ((i, s) # xs) = opt_list (ss_transaction s) @ bound xs"
  by (simp_all add: bound_def)

lemma opt_list_simps [simp]: "opt_list None = []" "opt_list (Some x) = [x]"
  by (simp_all add: opt_list_def)

lemma gm_split:
  assumes "gm_get m k = Some v"
  obtains xs ys where "m = xs @ (k, v) # ys" "\<forall>u. gm_put k u m = xs @ (k, u) # ys" "gm_wf m \<longrightarrow> gm_del k m = xs @ ys"
proof -
  have "\<exists>xs ys. m = xs @ (k, v) # ys \<and> (\<forall>u. gm_put k u m = xs @ (k, u) # ys) \<and> (gm_wf m \<longrightarrow> gm_del k m = xs @ ys)"
    using assms
  proof (induction m)
    case (Cons p m)
    obtain k' v' where p: "p = (k', v')" by fastforce
    show ?case
    proof (cases "k' = k")
      case True
      have "gm_del k m = m" if "k \<notin> fst ` set m" using that unfolding gm_del_def AList.delete_eq
        by (induction m) (auto simp: image_iff)
      with True p Cons.prems show ?thesis
        by (intro exI [of _ "[]"] exI [of _ m]) (auto simp: gm_put_def gm_del_def gm_wf_def AList.delete_eq)
    next
      case False
      then obtain xs ys where "m = xs @ (k, v) # ys \<and> (\<forall>u. gm_put k u m = xs @ (k, u) # ys) \<and> (gm_wf m \<longrightarrow> gm_del k m = xs @ ys)"
        using Cons p by auto
      with False p show ?thesis
        by (intro exI [of _ "p # xs"] exI [of _ ys]) (auto simp: gm_put_def gm_del_def gm_wf_def AList.delete_eq)
    qed
  qed simp
  with that show thesis by blast
qed

text \<open>
  Every bound transaction is live and well-formed, no two share a connection, the pools of the configuration are known, and
  the manager counts exactly the bound transactions. Without two-phase commit no transaction outlives its statement.
\<close>

definition proxy_inv :: "ProxyEnv \<Rightarrow> Spanner \<Rightarrow> bool" where
  "proxy_inv pe sn \<longleftrightarrow>
     gm_wf (sn_sessions sn) \<and> isolated (bound (sn_sessions sn)) (sn_world sn) \<and> list_all live (bound (sn_sessions sn)) \<and>
     poolz_known (PoolzClone (sn_scatter sn)) (sn_world sn) \<and>
     m_txnNums (sy_mgr (sn_sys sn)) = of_nat (length (bound (sn_sessions sn))) \<and>
     (isTwoPC pe \<or> bound (sn_sessions sn) = [])"

text \<open>A session without a transaction.\<close>

definition idle_session :: "DSession \<Rightarrow> Spanner \<Rightarrow> bool" where
  "idle_session s sn \<longleftrightarrow> (\<forall>x. getTxnSession (sn_sessions sn) s = Some x \<longrightarrow> ss_transaction x = None)"

text \<open>Changing a session without changing its transaction.\<close>

lemma upd_session_wf: "gm_wf ss \<Longrightarrow> gm_wf (upd_session i f ss)"
  by (auto simp: upd_session_def split: option.splits)

lemma upd_session_bound:
  assumes "\<And>x. gm_get ss i = Some x \<Longrightarrow> ss_transaction (f x) = ss_transaction x"
  shows "bound (upd_session i f ss) = bound ss"
proof (cases "gm_get ss i")
  case (Some x)
  then obtain xs ys where "ss = xs @ (i, x) # ys" "\<forall>u. gm_put i u ss = xs @ (i, u) # ys"
    "gm_wf ss \<longrightarrow> gm_del i ss = xs @ ys" by (rule gm_split)
  with Some assms show ?thesis by (simp add: upd_session_def)
qed (simp add: upd_session_def)

lemma upd_session_twice: "upd_session i f (upd_session i g ss) = upd_session i (f \<circ> g) ss"
  unfolding upd_session_def gm_put_def
  by (auto split: option.splits simp: AList.update_conv')

lemma upd_session_get: "gm_get (upd_session i f ss) j = (if j = i then map_option f (gm_get ss i) else gm_get ss j)"
  by (auto simp: upd_session_def gomap_simps split: option.splits)

section \<open>Transactions of single statements\<close>

definition moves :: "Txn \<Rightarrow> World \<Rightarrow> Txn \<Rightarrow> World \<Rightarrow> bool" where
  "moves t w t' w' \<longleftrightarrow> (\<forall>S. txn_ok S t w \<longrightarrow> txn_ok S t' w' \<and> world_ext w w')"

definition same_conns :: "Txn \<Rightarrow> Txn \<Rightarrow> bool" where
  "same_conns t t' \<longleftrightarrow>
     tx_backends t' = tx_backends t \<and> tx_twopcConnections t' = tx_twopcConnections t \<and>
     tx_normalConnections t' = tx_normalConnections t \<and> tx_replicaConnections t' = tx_replicaConnections t"

lemma same_conns_ok: "same_conns t t' \<Longrightarrow> txn_ok S t' w = txn_ok S t w"
  unfolding same_conns_def by (rule txn_ok_cong) simp_all

lemma moves_same: "same_conns t t' \<Longrightarrow> moves t w t' w"
  by (simp add: moves_def same_conns_ok)

lemma moves_trans: "moves t w t1 w1 \<Longrightarrow> moves t1 w1 t2 w2 \<Longrightarrow> moves t w t2 w2"
  unfolding moves_def by (blast intro: world_ext_trans)

lemma CreateTransaction_cases:
  assumes "CreateTransaction m sc = (m', x)"
  shows "(m' = m \<and> \<not> is_ok x) \<or> (\<exists>i. x = Ok (NewTxn i (PoolzClone sc)) \<and> m_txnNums m' = m_txnNums m + 1)"
  using assms by (auto simp: CreateTransaction_def CreateTxn_def mgr_GetID_def mgr_Add_def Let_def split: if_splits)

lemma new_live [simp]: "live (NewTxn i bs)"
  by (simp add: live_def NewTxn_def)

text \<open>A new transaction that moves and is finished leaves the others and the manager's count as they were.\<close>

lemma private_end:
  assumes iso: "isolated ts w" and known: "poolz_known bs w" and t: "same_conns (NewTxn i bs) txn"
    and mv: "moves txn w txn1 (sy_world sys1)" and l: "live txn1"
  shows "isolated ts (sy_world (snd (Txn_Finish be txn1 sys1))) \<and> poolz_known bs (sy_world (snd (Txn_Finish be txn1 sys1))) \<and>
     m_txnNums (sy_mgr (snd (Txn_Finish be txn1 sys1))) = m_txnNums (sy_mgr sys1) - 1"
proof -
  have "pools_known (NewTxn i bs) w" using known by (simp add: poolz_known_def pools_known_def NewTxn_def)
  from NewTxn_isolated [OF iso this] have iso0: "isolated (ts @ NewTxn i bs # []) w" by simp
  have "moves (NewTxn i bs) w txn1 (sy_world sys1)" using moves_trans [OF moves_same [OF t] mv] .
  then have m: "\<And>S. txn_ok S (NewTxn i bs) w \<Longrightarrow> txn_ok S txn1 (sy_world sys1) \<and> world_ext w (sy_world sys1)"
    by (simp add: moves_def)
  have iso1: "isolated (ts @ txn1 # []) (sy_world sys1)" by (rule isolated_move [OF iso0 m])
  have "txn_ok {} (NewTxn i bs) w" using iso0 by (simp add: isolated_iff)
  with m have ext: "world_ext w (sy_world sys1)" by blast
  have "txn_ok {} txn1 (sy_world sys1)" using iso1 by (simp add: isolated_iff)
  from Txn_Finish_release [OF this prod.collapse [symmetric]]
  have rel: "releases txn1 (sy_world sys1) (sy_world (snd (Txn_Finish be txn1 sys1)))" .
  have "world_ext w (sy_world (snd (Txn_Finish be txn1 sys1)))"
    using rel ext by (auto simp: releases_def intro: world_ext_trans)
  moreover have "m_txnNums (sy_mgr (snd (Txn_Finish be txn1 sys1))) = m_txnNums (sy_mgr sys1) - 1"
    using l by (simp add: Txn_Finish_def mgr_Remove_def live_def)
  ultimately show ?thesis using isolated_end [OF iso1 rel] poolz_known_ext [OF known] by simp
qed

text \<open>What the body of a statement does to its transaction and leaves alone.\<close>

definition body_ok :: "(Txn \<Rightarrow> Spanner \<Rightarrow> Txn \<times> Spanner \<times> 'a res) \<Rightarrow> bool" where
  "body_ok body \<longleftrightarrow> (\<forall>txn sn txn1 sn1 x. body txn sn = (txn1, sn1, x) \<longrightarrow>
     moves txn (sn_world sn) txn1 (sn_world sn1) \<and> (live txn \<longrightarrow> live txn1) \<and>
     sy_mgr (sn_sys sn1) = sy_mgr (sn_sys sn) \<and> sn_sessions sn1 = sn_sessions sn \<and> sn_scatter sn1 = sn_scatter sn)"

lemma set_limits_conns: "same_conns t (set_limits conf timeout rep t)" "live (set_limits conf timeout rep t) = live t"
  by (simp_all add: same_conns_def set_limits_def live_def)

text \<open>The sessions after a transaction that was created and finished within the step.\<close>

lemma private_inv:
  assumes inv: "proxy_inv pe sn" and t: "same_conns (NewTxn i (PoolzClone (sn_scatter sn))) txn"
    and mv: "moves txn (sn_world sn) txn1 (sy_world sys1)" "live txn1"
    and num: "m_txnNums (sy_mgr sys1) = m_txnNums (sy_mgr (sn_sys sn)) + 1"
    and f: "\<And>x. gm_get (sn_sessions sn) k = Some x \<Longrightarrow> ss_transaction (f x) = ss_transaction x"
    and sn': "sn_sessions sn' = upd_session k f (sn_sessions sn)" "sn_scatter sn' = sn_scatter sn"
      "sn_sys sn' = snd (Txn_Finish be txn1 sys1)"
  shows "proxy_inv pe sn'"
proof -
  have "isolated (bound (sn_sessions sn)) (sn_world sn)" "poolz_known (PoolzClone (sn_scatter sn)) (sn_world sn)"
    using inv by (simp_all add: proxy_inv_def)
  note fin = private_end [OF this t mv, of be]
  have "bound (upd_session k f (sn_sessions sn)) = bound (sn_sessions sn)" by (rule upd_session_bound) (rule f)
  with inv fin show ?thesis by (simp add: proxy_inv_def sn' upd_session_wf num)
qed

lemma bound_txn_inv:
  assumes inv: "proxy_inv pe sn" and idle: "idle_session s sn" and body: "body_ok body"
  shows "proxy_inv pe (fst (bound_txn pe s query node timeout body sn)) \<and>
     idle_session s (fst (bound_txn pe s query node timeout body sn))"
proof -
  obtain m x where c: "CreateTransaction (sy_mgr (sn_sys sn)) (sn_scatter sn) = (m, x)" by fastforce
  from CreateTransaction_cases [OF c] show ?thesis
  proof
    assume "m = sy_mgr (sn_sys sn) \<and> \<not> is_ok x"
    with c inv idle show ?thesis by (cases x) (auto simp: bound_txn_def)
  next
    let ?bs = "PoolzClone (sn_scatter sn)"
    assume "\<exists>i. x = Ok (NewTxn i ?bs) \<and> m_txnNums m = m_txnNums (sy_mgr (sn_sys sn)) + 1"
    then obtain i where x: "x = Ok (NewTxn i ?bs)" and nums: "m_txnNums m = m_txnNums (sy_mgr (sn_sys sn)) + 1" by blast
    define txn where "txn = set_limits (pe_conf pe) timeout (isExecOnRep (cf_LoadBalance (pe_conf pe)) node) (NewTxn i ?bs)"
    define sn0 where "sn0 = sn\<lparr>sn_sys := (sn_sys sn)\<lparr>sy_mgr := m\<rparr>, sn_sessions := TxnBinding s txn node query (sn_sessions sn)\<rparr>"
    obtain txn1 sn1 r where b: "body txn sn0 = (txn1, sn1, r)" by (metis prod_cases3)
    have res: "fst (bound_txn pe s query node timeout body sn) = end_statement pe s txn1 sn1"
      using c x b by (simp add: bound_txn_def txn_def sn0_def Let_def)
    have t: "same_conns (NewTxn i ?bs) txn" "live txn" using set_limits_conns new_live by (simp_all add: txn_def)
    have b1: "moves txn (sn_world sn) txn1 (sn_world sn1)" "live txn1" "sy_mgr (sn_sys sn1) = m"
      "sn_sessions sn1 = TxnBinding s txn node query (sn_sessions sn)" "sn_scatter sn1 = sn_scatter sn"
      using body b t(2) unfolding body_ok_def sn0_def by fastforce+
    let ?f = "(\<lambda>x. x\<lparr>ss_node := None, ss_query := [], ss_transaction := None\<rparr>) \<circ>
        (\<lambda>x. x\<lparr>ss_query := take 128 query, ss_node := Some node, ss_transaction := Some txn\<rparr>)"
    have ss: "sn_sessions (end_statement pe s txn1 sn1) = upd_session (ds_ID s) ?f (sn_sessions sn)"
      by (simp add: end_statement_def b1 TxnUnBinding_def TxnBinding_def upd_session_twice)
    have "proxy_inv pe (end_statement pe s txn1 sn1)"
      by (rule private_inv [OF inv t(1) b1(1,2) _ _ ss, of "pe_be pe"])
        (use b1 nums idle in \<open>simp_all add: end_statement_def idle_session_def getTxnSession_def\<close>)
    moreover have "idle_session s (end_statement pe s txn1 sn1)"
      by (auto simp: idle_session_def ss getTxnSession_def upd_session_get)
    ultimately show ?thesis unfolding res by simp
  qed
qed

lemma keeps_moves: "Txn_Life.keeps f \<Longrightarrow> f t w = (t', w', x) \<Longrightarrow> moves t w t' w'"
  unfolding moves_def using keeps_step by blast

lemma sys_keeps_moves: "sys_keeps f \<Longrightarrow> f t sys = (t', sys', x) \<Longrightarrow> moves t (sy_world sys) t' (sy_world sys')"
  unfolding moves_def using sys_keeps_step by blast

lemma Tree_Execute_moves: "Tree_Execute be el ps r t w = (t', w', x) \<Longrightarrow> moves t w t' w'"
  using any_request.keeps_plans [of be el ps r] unfolding Engine_Props.keeps_def ok_step_def moves_def by blast

lemma run_plans_ok: "body_ok (run_plans pe database query node)"
  unfolding body_ok_def
proof (intro allI impI)
  fix txn sn txn1 sn1 and x :: "Result option res"
  assume r: "run_plans pe database query node txn sn = (txn1, sn1, x)"
  show "moves txn (sn_world sn) txn1 (sn_world sn1) \<and> (live txn \<longrightarrow> live txn1) \<and>
     sy_mgr (sn_sys sn1) = sy_mgr (sn_sys sn) \<and> sn_sessions sn1 = sn_sessions sn \<and> sn_scatter sn1 = sn_scatter sn"
  proof (cases "BuildPlanTree (pe_pl pe) (sn_router sn) database query node")
    case (Ok plans)
    obtain t1 w1 y where e: "Tree_Execute (pe_be pe) (join_lib pe) plans None txn (sn_world sn) = (t1, w1, y)" by (metis prod_cases3)
    from Tree_Execute_moves [OF e] Tree_Execute_live [OF e] r Ok e show ?thesis by (auto simp: run_plans_def)
  qed (use r in \<open>auto simp: run_plans_def moves_def\<close>)
qed

lemma twopc_body_ok: "body_ok (twopc_body pe database query node)"
  unfolding body_ok_def
proof (intro allI impI)
  fix txn sn txn1 sn1 and x :: "Result option res"
  assume r: "twopc_body pe database query node txn sn = (txn1, sn1, x)"
  let ?P = "\<lambda>txn1 sn1. moves txn (sn_world sn) txn1 (sn_world sn1) \<and> (live txn \<longrightarrow> live txn1) \<and>
     sy_mgr (sn_sys sn1) = sy_mgr (sn_sys sn) \<and> sn_sessions sn1 = sn_sessions sn \<and> sn_scatter sn1 = sn_scatter sn"
  have b: "moves txn (sn_world sn) (Txn_Begin txn) (sn_world sn)" "live txn \<Longrightarrow> live (Txn_Begin txn)"
    by (auto intro!: moves_same simp: same_conns_def Txn_Begin_def live_def)
  show "?P txn1 sn1"
  proof (cases "BuildPlanTree (pe_pl pe) (sn_router sn) database query node")
    case (Ok plans)
    obtain t1 w1 y where e: "Tree_Execute (pe_be pe) (join_lib pe) plans None (Txn_Begin txn) (sn_world sn) = (t1, w1, y)"
      by (metis prod_cases3)
    note m1 = moves_trans [OF b(1) Tree_Execute_moves [OF e]] and l1 = Tree_Execute_live [OF e]
    let ?sys = "(sn_sys sn)\<lparr>sy_world := w1\<rparr>"
    have fin: "?P t2 (sn\<lparr>sn_sys := sys2\<rparr>)"
      if "f t1 ?sys = (t2, sys2, z)" "sys_keeps f" "keeps_live f" "keeps_mgr f" for f t2 sys2 and z :: "unit res"
      using that(4) moves_trans [OF m1] sys_keeps_moves [OF that(2,1)] keeps_liveD [OF that(3) _ that(1)] l1 b(2) that(1)
      unfolding keeps_mgr_def by fastforce
    obtain t2 sys2 z where rb: "Txn_RollbackPhaseOne (pe_be pe) t1 ?sys = (t2, sys2, z)" by (metis prod_cases3)
    obtain t3 sys3 z' where cm: "Txn_Commit (pe_be pe) t1 ?sys = (t3, sys3, z')" by (metis prod_cases3)
    note f2 = fin [OF rb Txn_RollbackPhaseOne_keeps txn_ends_live(2) txn_ends_mgr(2)]
      and f3 = fin [OF cm Txn_Commit_keeps txn_ends_live(1) txn_ends_mgr(1)]
    have f1: "?P t1 (sn\<lparr>sn_sys := ?sys\<rparr>)" using m1 l1 b(2) by simp
    show ?thesis
    proof (cases y)
      case (Err er)
      with r Ok e rb have "txn1 = t2" "sn1 = sn\<lparr>sn_sys := sys2\<rparr>" by (cases z; simp add: twopc_body_def)+
      with f2 show ?thesis by simp
    next
      case (Panic p)
      with r Ok e f1 show ?thesis by (simp add: twopc_body_def)
    next
      case (Ok v)
      then have "txn1 = t3" "sn1 = sn\<lparr>sn_sys := sys3\<rparr>"
        using r \<open>BuildPlanTree _ _ _ _ _ = Ok plans\<close> e cm by (simp_all add: twopc_body_def)
      with f3 show ?thesis by simp
    qed
  qed (use r b in \<open>auto simp: twopc_body_def\<close>)
qed

section \<open>Handlers keep the invariant\<close>

definition preserves :: "ProxyEnv \<Rightarrow> 'a handler \<Rightarrow> bool" where
  "preserves pe h \<longleftrightarrow> (\<forall>sn. proxy_inv pe sn \<longrightarrow> proxy_inv pe (fst (h sn)))"

lemma no_twopc_idle: "proxy_inv pe sn \<Longrightarrow> \<not> isTwoPC pe \<Longrightarrow> idle_session s sn"
  unfolding idle_session_def getTxnSession_def
proof (intro allI impI)
  fix x
  assume "proxy_inv pe sn" "\<not> isTwoPC pe" and x: "gm_get (sn_sessions sn) (ds_ID s) = Some x"
  then have "bound (sn_sessions sn) = []" by (simp add: proxy_inv_def)
  moreover have "(ds_ID s, x) \<in> set (sn_sessions sn)" using x by (rule gm_get_in_set)
  ultimately show "ss_transaction x = None" by (force simp: bound_def opt_list_def split: option.splits)
qed

lemma ExecuteNormal_inv:
  assumes "proxy_inv pe sn" "idle_session s sn"
  shows "proxy_inv pe (fst (ExecuteNormal pe s database query node sn)) \<and> idle_session s (fst (ExecuteNormal pe s database query node sn))"
  unfolding ExecuteNormal_def executeWithTimeout_def by (rule bound_txn_inv [OF assms run_plans_ok])

lemma single_stmt_inv:
  assumes "proxy_inv pe sn" "idle_session s sn"
  shows "proxy_inv pe (fst (ExecuteSingleStmtTxnTwoPC pe s database query node sn))"
  unfolding ExecuteSingleStmtTxnTwoPC_def using bound_txn_inv [OF assms twopc_body_ok] by simp

lemma ExecuteDDL_preserves: "preserves pe (ExecuteDDL pe s database query node)"
  unfolding preserves_def
proof (intro allI impI)
  fix sn
  assume inv: "proxy_inv pe sn"
  have go: "proxy_inv pe (fst (executeWithTimeout pe s database query node t sn))" if "idle_session s sn" for t
    unfolding executeWithTimeout_def using bound_txn_inv [OF inv that run_plans_ok] by simp
  show "proxy_inv pe (fst (ExecuteDDL pe s database query node sn))"
  proof (cases "isTwoPC pe")
    case False
    with go [OF no_twopc_idle [OF inv]] show ?thesis by (simp add: ExecuteDDL_def)
  next
    case True
    show ?thesis
    proof (cases "idle_session s sn")
      case False
      then show ?thesis using True inv by (auto simp: ExecuteDDL_def Let_def idle_session_def)
    qed (use True inv go in \<open>auto simp: ExecuteDDL_def Let_def idle_session_def split: option.splits\<close>)
  qed
qed

text \<open>A step of the transaction of a session.\<close>

lemma bound_move:
  assumes inv: "proxy_inv pe sn" and g: "gm_get (sn_sessions sn) i = Some x" and t: "ss_transaction x = Some txn"
    and mv: "moves txn (sn_world sn) txn1 (sy_world sys1)" "live txn \<Longrightarrow> live txn1" "sy_mgr sys1 = sy_mgr (sn_sys sn)"
    and f: "ss_transaction (f x) = Some txn1"
  shows "proxy_inv pe (sn\<lparr>sn_sys := sys1, sn_sessions := upd_session i f (sn_sessions sn)\<rparr>)"
proof -
  from g obtain xs ys where ss: "sn_sessions sn = xs @ (i, x) # ys" "\<forall>u. gm_put i u (sn_sessions sn) = xs @ (i, u) # ys"
    "gm_wf (sn_sessions sn) \<longrightarrow> gm_del i (sn_sessions sn) = xs @ ys" by (rule gm_split)
  have new: "upd_session i f (sn_sessions sn) = xs @ (i, f x) # ys" using g ss(2) by (simp add: upd_session_def)
  have b: "bound (sn_sessions sn) = bound xs @ txn # bound ys" "bound (xs @ (i, f x) # ys) = bound xs @ txn1 # bound ys"
    using ss(1) t f by simp_all
  have i0: "isolated (bound xs @ txn # bound ys) (sn_world sn)" and l: "live txn" "poolz_known (PoolzClone (sn_scatter sn)) (sn_world sn)"
    using inv b by (simp_all add: proxy_inv_def)
  have m: "\<And>S. txn_ok S txn (sn_world sn) \<Longrightarrow> txn_ok S txn1 (sy_world sys1) \<and> world_ext (sn_world sn) (sy_world sys1)"
    using mv(1) by (simp add: moves_def)
  have "txn_ok {} txn (sn_world sn)" using i0 by (simp add: isolated_iff)
  with m have "poolz_known (PoolzClone (sn_scatter sn)) (sy_world sys1)" using poolz_known_ext [OF l(2)] by blast
  moreover have "gm_wf (xs @ (i, f x) # ys)" using upd_session_wf [of "sn_sessions sn" i f] inv new by (simp add: proxy_inv_def)
  ultimately show ?thesis
    using inv isolated_move [OF i0 m] mv(2) [OF l(1)] mv(3) f by (simp add: proxy_inv_def new b(1))
qed

text \<open>The transaction of a session ends, and the session forgets it or goes.\<close>

lemma bound_end:
  assumes inv: "proxy_inv pe sn" and g: "gm_get (sn_sessions sn) i = Some x" and t: "ss_transaction x = Some txn"
    and rel: "releases txn (sn_world sn) (sy_world sys1)" and num: "m_txnNums (sy_mgr sys1) = m_txnNums (sy_mgr (sn_sys sn)) - 1"
    and new: "ss' = upd_session i f (sn_sessions sn) \<and> ss_transaction (f x) = None \<or> ss' = gm_del i (sn_sessions sn)"
  shows "proxy_inv pe (sn\<lparr>sn_sys := sys1, sn_sessions := ss'\<rparr>)"
proof -
  from g obtain xs ys where ss: "sn_sessions sn = xs @ (i, x) # ys" "\<forall>u. gm_put i u (sn_sessions sn) = xs @ (i, u) # ys"
    "gm_wf (sn_sessions sn) \<longrightarrow> gm_del i (sn_sessions sn) = xs @ ys" by (rule gm_split)
  have wf: "gm_wf (sn_sessions sn)" using inv by (simp add: proxy_inv_def)
  have upd: "upd_session i f (sn_sessions sn) = xs @ (i, f x) # ys" using g ss(2) by (simp add: upd_session_def)
  have wf': "gm_wf ss'" using new upd_session_wf [OF wf, of i f] gm_wf_del [OF wf, of i] by auto
  have "bound ss' = bound xs @ bound ys" using new upd ss(3) wf by auto
  with ss(1) t have b: "bound (sn_sessions sn) = bound xs @ txn # bound ys" "bound ss' = bound xs @ bound ys" by simp_all
  have i0: "isolated (bound xs @ txn # bound ys) (sn_world sn)" and l: "poolz_known (PoolzClone (sn_scatter sn)) (sn_world sn)"
    using inv b by (simp_all add: proxy_inv_def)
  have "poolz_known (PoolzClone (sn_scatter sn)) (sy_world sys1)"
    using poolz_known_ext [OF l] rel by (simp add: releases_def)
  then show ?thesis using inv isolated_end [OF i0 rel] wf' by (simp add: proxy_inv_def b num)
qed

lemma live_Finish_releases:
  assumes "txn_ok S txn (sy_world sys)" "live txn"
  shows "releases txn (sy_world sys) (sy_world (snd (Txn_Finish be txn sys))) \<and>
     m_txnNums (sy_mgr (snd (Txn_Finish be txn sys))) = m_txnNums (sy_mgr sys) - 1"
  using Txn_Finish_release [OF assms(1) prod.collapse [symmetric]] assms(2)
  by (auto simp: Txn_Finish_def mgr_Remove_def live_def)

lemma live_Abort_releases:
  assumes "txn_ok S txn (sy_world sys)" "live txn"
  shows "releases txn (sy_world sys) (sy_world (snd (Txn_Abort be txn sys))) \<and>
     m_txnNums (sy_mgr (snd (Txn_Abort be txn sys))) = m_txnNums (sy_mgr sys) - 1"
  using Txn_Abort_release [OF assms(1) prod.collapse [symmetric]] assms(2)
  by (auto simp: Txn_Abort_def mgr_Remove_def live_def)

lemma bound_ok:
  assumes "proxy_inv pe sn" "gm_get (sn_sessions sn) i = Some x" "ss_transaction x = Some txn"
  shows "txn_ok {} txn (sn_world sn) \<and> live txn"
proof -
  have "(i, x) \<in> set (sn_sessions sn)" using assms(2) by (rule gm_get_in_set)
  with assms(3) have "txn \<in> set (bound (sn_sessions sn))" by (force simp: bound_def opt_list_def)
  with assms(1) show ?thesis by (auto simp: proxy_inv_def isolated_iff list_all_iff)
qed

lemma session_gone:
  assumes inv: "proxy_inv pe sn" and g: "gm_get (sn_sessions sn) i = Some x"
  shows "proxy_inv pe (sn\<lparr>sn_sys := session_close (pe_be pe) x (sn_sys sn), sn_sessions := gm_del i (sn_sessions sn)\<rparr>)"
proof (cases "ss_transaction x")
  case None
  from g obtain xs ys where ss: "sn_sessions sn = xs @ (i, x) # ys" "\<forall>u. gm_put i u (sn_sessions sn) = xs @ (i, u) # ys"
    "gm_wf (sn_sessions sn) \<longrightarrow> gm_del i (sn_sessions sn) = xs @ ys" by (rule gm_split)
  have wf: "gm_wf (sn_sessions sn)" using inv by (simp add: proxy_inv_def)
  have "bound (gm_del i (sn_sessions sn)) = bound (sn_sessions sn)" using ss wf None by simp
  with inv None show ?thesis by (simp add: proxy_inv_def session_close_def)
next
  case (Some txn)
  note ok = bound_ok [OF inv g Some]
  show ?thesis
    using bound_end [OF inv g Some, of "session_close (pe_be pe) x (sn_sys sn)"] live_Abort_releases [OF conjunct1 [OF ok] conjunct2 [OF ok], of "pe_be pe"] Some
    by (simp add: session_close_def)
qed

lemma kill_session_inv: "proxy_inv pe sn \<Longrightarrow> proxy_inv pe (kill_session pe i sn)"
  using session_gone [of pe sn i] by (auto simp: kill_session_def Sessions_Kill_def split: option.splits)

lemma SessionClosed_inv: "proxy_inv pe sn \<Longrightarrow> proxy_inv pe (SessionClosed pe s sn)"
  using session_gone [of pe sn "ds_ID s"] by (auto simp: SessionClosed_def Sessions_Remove_def split: option.splits)

lemma NewSession_inv:
  assumes "proxy_inv pe sn" "gm_get (sn_sessions sn) (ds_ID s) = None"
  shows "proxy_inv pe (NewSession s sn)"
  using assms gm_put_new_end [OF assms(2), of "newSession s"] gm_wf_put [of "sn_sessions sn" "ds_ID s" "newSession s"]
  by (simp add: proxy_inv_def NewSession_def Sessions_Add_def newSession_def)

text \<open>Changes of a session that leave its transaction alone.\<close>

lemma session_field_inv:
  assumes "proxy_inv pe sn" "\<And>x. ss_transaction (f x) = ss_transaction x"
  shows "proxy_inv pe (sn\<lparr>sn_sessions := upd_session i f (sn_sessions sn)\<rparr>)"
  using assms by (simp add: proxy_inv_def upd_session_wf upd_session_bound)

lemma proxy_inv_cong:
  "sn_sessions sn' = sn_sessions sn \<Longrightarrow> sn_sys sn' = sn_sys sn \<Longrightarrow> sn_scatter sn' = sn_scatter sn \<Longrightarrow>
     proxy_inv pe sn' = proxy_inv pe sn"
  by (simp add: proxy_inv_def)

lemma ExecuteMultiStmtsInTxn_preserves: "preserves pe (ExecuteMultiStmtsInTxn pe s database query node)"
  unfolding preserves_def
proof (intro allI impI)
  fix sn
  assume inv: "proxy_inv pe sn"
  let ?i = "ds_ID s" and ?sn0 = "sn\<lparr>sn_sessions := MultiStmtTxnBinding s None node query (sn_sessions sn)\<rparr>"
  have inv0: "proxy_inv pe ?sn0"
    unfolding MultiStmtTxnBinding_def by (rule session_field_inv [OF inv]) simp
  show "proxy_inv pe (fst (ExecuteMultiStmtsInTxn pe s database query node sn))"
  proof (cases "\<exists>x txn. gm_get (sn_sessions sn) ?i = Some x \<and> ss_transaction x = Some txn")
    case False
    then show ?thesis using inv0 by (auto simp: ExecuteMultiStmtsInTxn_def getTxnSession_def Let_def split: option.splits)
  next
    case True
    then obtain x txn where x: "gm_get (sn_sessions sn) ?i = Some x" "ss_transaction x = Some txn" by blast
    obtain txn1 sn1 r where p: "run_plans pe database query node txn ?sn0 = (txn1, sn1, r)" by (metis prod_cases3)
    from run_plans_ok [of pe database query node] p
    have b: "moves txn (sn_world sn) txn1 (sn_world sn1)" "live txn \<Longrightarrow> live txn1" "sy_mgr (sn_sys sn1) = sy_mgr (sn_sys sn)"
      "sn_sessions sn1 = sn_sessions ?sn0" "sn_scatter sn1 = sn_scatter sn"
      unfolding body_ok_def by fastforce+
    define sn2 where "sn2 = fst (ExecuteMultiStmtsInTxn pe s database query node sn)"
    have sn2: "sn_sys sn2 = sn_sys sn1" "sn_scatter sn2 = sn_scatter sn"
      "\<exists>f. sn_sessions sn2 = upd_session ?i f (sn_sessions sn) \<and> ss_transaction (f x) = Some txn1"
      using x p b(4,5)
      by (auto simp: sn2_def ExecuteMultiStmtsInTxn_def getTxnSession_def Let_def store_txn_def MultiStmtTxnBinding_def
          MultiStmtTxnUnBinding_def upd_session_twice)
    then obtain f where f: "sn_sessions sn2 = upd_session ?i f (sn_sessions sn)" "ss_transaction (f x) = Some txn1" by blast
    have "proxy_inv pe (sn\<lparr>sn_sys := sn_sys sn1, sn_sessions := upd_session ?i f (sn_sessions sn)\<rparr>)"
      by (rule bound_move [where f = f, OF inv x b(1,2,3) f(2)])
    then show ?thesis unfolding sn2_def [symmetric] by (simp add: proxy_inv_def f(1) sn2(1,2))
  qed
qed

text \<open>A new transaction that stays with its session.\<close>

lemma bound_add:
  assumes inv: "proxy_inv pe sn" and on: "isTwoPC pe"
    and g: "gm_get (sn_sessions sn) k = Some x" and none: "ss_transaction x = None"
    and t: "same_conns (NewTxn i (PoolzClone (sn_scatter sn))) txn"
    and mv: "moves txn (sn_world sn) txn1 (sy_world sys1)" "live txn1"
    and num: "m_txnNums (sy_mgr sys1) = m_txnNums (sy_mgr (sn_sys sn)) + 1" and f: "ss_transaction (f x) = Some txn1"
  shows "proxy_inv pe (sn\<lparr>sn_sys := sys1, sn_sessions := upd_session k f (sn_sessions sn)\<rparr>)"
proof -
  let ?bs = "PoolzClone (sn_scatter sn)"
  from g obtain xs ys where ss: "sn_sessions sn = xs @ (k, x) # ys" "\<forall>u. gm_put k u (sn_sessions sn) = xs @ (k, u) # ys"
    "gm_wf (sn_sessions sn) \<longrightarrow> gm_del k (sn_sessions sn) = xs @ ys" by (rule gm_split)
  have new: "upd_session k f (sn_sessions sn) = xs @ (k, f x) # ys" using g ss(2) by (simp add: upd_session_def)
  have b: "bound (sn_sessions sn) = bound xs @ bound ys" using ss(1) none by simp
  have i0: "isolated (bound (sn_sessions sn)) (sn_world sn)" "poolz_known ?bs (sn_world sn)"
    using inv by (simp_all add: proxy_inv_def)
  have "isolated ((bound xs @ bound ys) @ NewTxn i ?bs # []) (sn_world sn)"
    using NewTxn_isolated [of "bound (sn_sessions sn)" "sn_world sn" i ?bs] i0 b
    by (simp add: poolz_known_def pools_known_def NewTxn_def)
  then have iso0: "isolated (bound xs @ NewTxn i ?bs # bound ys) (sn_world sn)" by (auto simp: isolated_iff)
  have m: "\<And>S. txn_ok S (NewTxn i ?bs) (sn_world sn) \<Longrightarrow> txn_ok S txn1 (sy_world sys1) \<and> world_ext (sn_world sn) (sy_world sys1)"
    using moves_trans [OF moves_same [OF t] mv(1)] by (simp add: moves_def)
  have iso: "isolated (bound xs @ txn1 # bound ys) (sy_world sys1)" by (rule isolated_move [OF iso0 m])
  have "txn_ok {} (NewTxn i ?bs) (sn_world sn)" using iso0 by (simp add: isolated_iff)
  then have "world_ext (sn_world sn) (sy_world sys1)" using m by simp
  with poolz_known_ext [OF i0(2)] have "poolz_known ?bs (sy_world sys1)" by simp
  moreover have "gm_wf (xs @ (k, f x) # ys)" using upd_session_wf [of "sn_sessions sn" k f] inv new by (simp add: proxy_inv_def)
  ultimately show ?thesis using inv iso mv(2) on f by (simp add: proxy_inv_def new b num)
qed

lemma ExecuteBegin_preserves: "preserves pe (ExecuteBegin pe s query node)"
  unfolding preserves_def
proof (intro allI impI)
  fix sn
  assume inv: "proxy_inv pe sn"
  let ?k = "ds_ID s" and ?bs = "PoolzClone (sn_scatter sn)"
  obtain m y where c: "CreateTransaction (sy_mgr (sn_sys sn)) (sn_scatter sn) = (m, y)" by fastforce
  show "proxy_inv pe (fst (ExecuteBegin pe s query node sn))"
  proof (cases "\<exists>x i. isTwoPC pe \<and> gm_get (sn_sessions sn) ?k = Some x \<and> ss_transaction x = None \<and> y = Ok (NewTxn i ?bs)")
    case False
    with CreateTransaction_cases [OF c] inv c show ?thesis
      by (cases y) (auto simp: ExecuteBegin_def getTxnSession_def split: option.splits)
  next
    case True
    then obtain x i where x: "isTwoPC pe" "gm_get (sn_sessions sn) ?k = Some x" "ss_transaction x = None" "y = Ok (NewTxn i ?bs)" by blast
    have nums: "m_txnNums m = m_txnNums (sy_mgr (sn_sys sn)) + 1" using CreateTransaction_cases [OF c] x(4) by auto
    define txn where "txn = (set_limits (pe_conf pe) (cf_QueryTimeout (pe_conf pe)) False (NewTxn i ?bs))\<lparr>tx_isMultiStmtTxn := True\<rparr>"
    obtain txn1 w r where b: "Txn_BeginScatter (pe_be pe) txn (sn_world sn) = (txn1, w, r)" by (metis prod_cases3)
    have t: "same_conns (NewTxn i ?bs) txn" "live txn" by (simp_all add: txn_def same_conns_def set_limits_def live_def NewTxn_def)
    let ?sys = "(sn_sys sn)\<lparr>sy_mgr := m, sy_world := w\<rparr>"
    have mv: "moves txn (sn_world sn) txn1 (sy_world ?sys)" using keeps_moves [OF Txn_BeginScatter_keeps b] by simp
    have l: "live txn1" by (rule keeps_liveD [OF Txn_BeginScatter_live t(2) b])
    define bnd :: "session \<Rightarrow> session" where "bnd = (\<lambda>x. x\<lparr>ss_query := take 128 query, ss_node := Some node, ss_transaction := Some txn\<rparr>)"
    have bind: "MultiStmtTxnBinding s (Some txn) node query (sn_sessions sn) = upd_session ?k bnd (sn_sessions sn)"
      by (simp add: MultiStmtTxnBinding_def bnd_def)
    note run = x c b bind ExecuteBegin_def getTxnSession_def txn_def [symmetric] upd_session_twice
    show ?thesis
    proof (cases "\<exists>e. r = Err e")
      case True
      show ?thesis
        by (rule private_inv [OF inv t(1) mv l, of ?k "(\<lambda>x. x\<lparr>ss_node := None, ss_query := [], ss_transaction := None\<rparr>) \<circ> bnd" _ "pe_be pe"])
          (use True nums run in \<open>auto simp: MultiStmtTxnUnBinding_def\<close>)
    next
      case False
      then have "fst (ExecuteBegin pe s query node sn) = sn\<lparr>sn_sys := ?sys,
          sn_sessions := upd_session ?k ((\<lambda>x. x\<lparr>ss_transaction := Some txn1\<rparr>) \<circ> bnd) (sn_sessions sn)\<rparr>"
        using run by (cases r) (simp_all add: store_txn_def)
      then show ?thesis
        using bound_add [OF inv x(1-3) t(1) mv l, of "(\<lambda>x. x\<lparr>ss_transaction := Some txn1\<rparr>) \<circ> bnd"] nums by simp
    qed
  qed
qed

end
