(* ===== verification/Proxy_Steps.thy ===== *)
theory Proxy_Steps
  imports Proxy_Props
begin

text \<open>
  The handlers of the proxy as the steps of its clients. Every handler keeps the invariant of \<open>Proxy_Props\<close>, so it holds after
  every sequence of statements, connections and disconnections; the statements that check or sum tables keep it only in a
  session without a transaction.
\<close>

section \<open>The end of a transaction of many statements\<close>

lemma end_multi_preserves:
  assumes fin: "sys_keeps fin" "keeps_live fin" "keeps_mgr fin"
  shows "preserves pe (end_multi pe fin disabled missing s query node)"
  unfolding preserves_def
proof (intro allI impI)
  fix sn
  assume inv: "proxy_inv pe sn"
  let ?i = "ds_ID s"
  show "proxy_inv pe (fst (end_multi pe fin disabled missing s query node sn))"
  proof (cases "\<exists>x txn. isTwoPC pe \<and> gm_get (sn_sessions sn) ?i = Some x \<and> ss_transaction x = Some txn")
    case False
    then show ?thesis using inv by (auto simp: end_multi_def getTxnSession_def split: option.splits)
  next
    case True
    then obtain x txn where x: "isTwoPC pe" "gm_get (sn_sessions sn) ?i = Some x" "ss_transaction x = Some txn" by blast
    obtain txn1 sys1 r where e: "fin txn (sn_sys sn) = (txn1, sys1, r)" by (metis prod_cases3)
    have mv: "moves txn (sn_world sn) txn1 (sy_world sys1)" "live txn \<Longrightarrow> live txn1" "sy_mgr sys1 = sy_mgr (sn_sys sn)"
      using sys_keeps_moves [OF fin(1) e] keeps_liveD [OF fin(2) _ e] fin(3) e unfolding keeps_mgr_def by blast+
    define bnd :: "session \<Rightarrow> session" where "bnd = (\<lambda>x. x\<lparr>ss_query := take 128 query, ss_node := Some node\<rparr>)"
    have bind: "MultiStmtTxnBinding s None node query (sn_sessions sn) = upd_session ?i bnd (sn_sessions sn)"
      by (simp add: MultiStmtTxnBinding_def bnd_def)
    let ?st = "(\<lambda>x. x\<lparr>ss_transaction := Some txn1\<rparr>) \<circ> bnd"
    have inv1: "proxy_inv pe (sn\<lparr>sn_sys := sys1, sn_sessions := upd_session ?i ?st (sn_sessions sn)\<rparr>)" (is "proxy_inv pe ?sn1")
      by (rule bound_move [where f = ?st, OF inv x(2,3) mv]) simp_all
    note run = x e bind end_multi_def getTxnSession_def upd_session_twice
    show ?thesis
    proof (cases r)
      case (Ok u)
      let ?un = "\<lambda>x. x\<lparr>ss_node := None, ss_query := [], ss_transaction := None\<rparr>"
      have g1: "gm_get (sn_sessions ?sn1) ?i = Some (?st x)" "ss_transaction (?st x) = Some txn1"
        using x(2) by (simp_all add: upd_session_get)
      note ok = bound_ok [OF inv1 g1]
      have "proxy_inv pe (?sn1\<lparr>sn_sys := snd (Txn_Finish (pe_be pe) txn1 sys1),
          sn_sessions := upd_session ?i ?un (sn_sessions ?sn1)\<rparr>)"
        by (rule bound_end [where f = ?un, OF inv1 g1])
          (use live_Finish_releases [of "{}" txn1 sys1 "pe_be pe"] ok in simp_all)
      moreover have "upd_session ?i ?un (sn_sessions ?sn1) = upd_session ?i (?un \<circ> bnd) (sn_sessions sn)"
        by (simp add: upd_session_twice comp_def)
      ultimately show ?thesis using run Ok by (simp add: MultiStmtTxnUnBinding_def comp_def)
    qed (use inv1 run in \<open>simp_all add: store_txn_def\<close>)
  qed
qed

lemma multi_stmt_txn_preserves:
  "preserves pe (handleMultiStmtTxn pe s query action)"
proof -
  have c: "preserves pe (ExecuteCommit pe s q n)" "preserves pe (ExecuteRollback pe s q n)" for q n
    unfolding ExecuteCommit_def ExecuteRollback_def
    by (intro end_multi_preserves Txn_CommitScatter_keeps Txn_RollbackScatter_keeps txn_ends_live txn_ends_mgr)+
  with ExecuteBegin_preserves [of pe s] show ?thesis
    by (auto simp: preserves_def handleMultiStmtTxn_def Let_def)
qed

section \<open>Queries of the proxy itself\<close>

lemma own_txn_inv:
  assumes inv: "proxy_inv pe sn" and f: "Txn_Life.keeps f" "keeps_live f"
  shows "proxy_inv pe (sn\<lparr>sn_sys := fst (own_txn be (sn_scatter sn) (sn_sys sn) f)\<rparr>)"
proof -
  obtain m x where c: "CreateTransaction (sy_mgr (sn_sys sn)) (sn_scatter sn) = (m, x)" by fastforce
  from CreateTransaction_cases [OF c] show ?thesis
  proof
    assume "m = sy_mgr (sn_sys sn) \<and> \<not> is_ok x"
    with c inv show ?thesis by (cases x) (auto simp: own_txn_def)
  next
    let ?bs = "PoolzClone (sn_scatter sn)"
    assume "\<exists>i. x = Ok (NewTxn i ?bs) \<and> m_txnNums m = m_txnNums (sy_mgr (sn_sys sn)) + 1"
    then obtain i where x: "x = Ok (NewTxn i ?bs)" and nums: "m_txnNums m = m_txnNums (sy_mgr (sn_sys sn)) + 1" by blast
    obtain txn1 w y where e: "f (NewTxn i ?bs) (sn_world sn) = (txn1, w, y)" by (metis prod_cases3)
    let ?sys = "(sn_sys sn)\<lparr>sy_mgr := m, sy_world := w\<rparr>"
    have i0: "isolated (bound (sn_sessions sn)) (sn_world sn)" "poolz_known ?bs (sn_world sn)"
      using inv by (simp_all add: proxy_inv_def)
    have "moves (NewTxn i ?bs) (sn_world sn) txn1 (sy_world ?sys)" using keeps_moves [OF f(1) e] by simp
    from private_end [OF i0 _ this keeps_liveD [OF f(2) _ e], of i be] inv nums c x e show ?thesis
      by (simp add: own_txn_def proxy_inv_def same_conns_def)
  qed
qed

lemma own_queries:
  "Txn_Life.keeps (Txn_ExecuteSingle be q)" "keeps_live (Txn_ExecuteSingle be q)"
  "Txn_Life.keeps (Txn_ExecuteScatter be q)" "keeps_live (Txn_ExecuteScatter be q)"
  "Txn_Life.keeps (Txn_ExecuteOnThisBackend be b q)" "keeps_live (Txn_ExecuteOnThisBackend be b q)"
  unfolding Txn_ExecuteSingle_def Txn_ExecuteScatter_def Txn_ExecuteOnThisBackend_def
  by (rule Txn_Execute_keeps Txn_Execute_live)+

lemma own_query_preserves:
  assumes "Txn_Life.keeps f" "keeps_live f"
  shows "preserves pe (own_query pe f)"
  using own_txn_inv [OF _ assms, of pe _ "pe_be pe"] by (simp add: preserves_def own_query_def split: prod.splits) force

lemma ExecuteSingle_preserves: "preserves pe (ExecuteSingle pe q)"
  and ExecuteScatter_preserves: "preserves pe (ExecuteScatter pe q)"
  and ExecuteOnThisBackend_preserves: "preserves pe (ExecuteOnThisBackend pe b q)"
  unfolding ExecuteSingle_def ExecuteScatter_def ExecuteOnThisBackend_def by (intro own_query_preserves own_queries)+

lemma preservesD: "preserves pe h \<Longrightarrow> proxy_inv pe sn \<Longrightarrow> h sn = (sn', x) \<Longrightarrow> proxy_inv pe sn'"
  unfolding preserves_def by (metis fst_conv)

section \<open>What the handlers of a session keep\<close>

definition keeping :: "(Spanner \<Rightarrow> bool) \<Rightarrow> 'a handler \<Rightarrow> bool" where
  "keeping I h \<longleftrightarrow> (\<forall>sn. I sn \<longrightarrow> I (fst (h sn)))"

lemma keepingD: "keeping I h \<Longrightarrow> I sn \<Longrightarrow> h sn = (sn', x) \<Longrightarrow> I sn'"
  unfolding keeping_def by (metis fst_conv)

lemma keeping_ret: "keeping I (\<lambda>sn. (sn, x sn))"
  by (simp add: keeping_def)

lemma keeping_bind:
  assumes "keeping I h" "\<And>x. keeping I (k x)"
  shows "keeping I (\<lambda>sn. hbind (h sn) k)"
  using assms unfolding keeping_def hbind_def by (fastforce split: prod.splits res.splits)

lemma keeping_check:
  assumes "\<And>x. keeping I (k x)"
  shows "keeping I (\<lambda>sn. hbind (hres (c sn) sn) k)"
  using assms unfolding keeping_def hbind_def hres_def by (auto split: res.splits)

lemma keeping_if: "keeping I f \<Longrightarrow> keeping I g \<Longrightarrow> keeping I (\<lambda>sn. if b sn then f sn else g sn)"
  by (simp add: keeping_def)

lemma keeping_map: "keeping I h \<Longrightarrow> keeping I (\<lambda>sn. case h sn of (sn1, x) \<Rightarrow> (sn1, f x))"
  unfolding keeping_def by (auto split: prod.splits)

lemmas keeping_rules = keeping_check keeping_bind keeping_if keeping_map keeping_ret

text \<open>
  A condition on the state that the four ways to execute a statement keep and that does not depend on the router, the disk
  and the counters: every handler keeps it.
\<close>

locale client_invariant =
  fixes pe :: ProxyEnv and s :: DSession and I :: "Spanner \<Rightarrow> bool"
  assumes ddl: "I sn \<Longrightarrow> I (fst (ExecuteDDL pe s database query node sn))"
    and own: "Txn_Life.keeps f \<Longrightarrow> keeps_live f \<Longrightarrow> I sn \<Longrightarrow> I (fst (own_query pe f sn))"
    and dml: "IsDML node \<Longrightarrow> I sn \<Longrightarrow> I (fst (ExecuteDML pe s database query node sn))"
    and txn: "I sn \<Longrightarrow> I (fst (handleMultiStmtTxn pe s query action sn))"
    and field: "(\<And>x. ss_transaction (g x) = ss_transaction x) \<Longrightarrow> I sn \<Longrightarrow>
      I (sn\<lparr>sn_sessions := upd_session (ds_ID s) g (sn_sessions sn)\<rparr>)"
    and rest: "I (sn\<lparr>sn_router := r, sn_disk := d\<rparr>) = I sn" "I (sn\<lparr>sn_seq := q\<rparr>) = I sn"
begin

lemma keeping_route [simp]: "keeping I (route f)"
  by (simp add: keeping_def route_def rest split: prod.splits)

lemma keeping_ddl [simp]: "keeping I (ExecuteDDL pe s database query node)"
  using ddl by (simp add: keeping_def)

lemma keeping_own:
  "keeping I (ExecuteSingle pe q)" "keeping I (ExecuteScatter pe q)" "keeping I (ExecuteOnThisBackend pe b q)"
  unfolding keeping_def ExecuteSingle_def ExecuteScatter_def ExecuteOnThisBackend_def by (intro allI impI own own_queries; assumption)+

lemma fill_columns_keeps: "keeping I (fill_columns pe database table node)"
  using keepingD [OF keeping_own(3)]
  by (auto simp: keeping_def fill_columns_def split: res.splits list.splits prod.splits)

lemma handleInsert_keeps: "keeping I (handleInsert pe s query node)"
  unfolding keeping_def
proof (intro allI impI)
  fix sn
  assume i: "I sn"
  let ?db = "or_default (tn_Qualifier (ins_Table node)) (ds_Schema s)"
  obtain sn1 x where f: "fill_columns pe ?db (tn_Name (ins_Table node)) node sn = (sn1, x)" by fastforce
  have i1: "I sn1" by (rule keepingD [OF fill_columns_keeps i f])
  have d: "I (fst (ExecuteDML pe s ?db query (StInsert n) sn'))" if "I sn'" for n sn'
    using dml [OF _ that] by (simp add: IsDML_def)
  have k: "I (fst (case Process (sn_router sn1) (sn_seq sn1) ?db node1 of
        (seq, Err e) \<Rightarrow> (sn1\<lparr>sn_seq := seq\<rparr>, Err e)
      | (seq, Panic p) \<Rightarrow> (sn1\<lparr>sn_seq := seq\<rparr>, Panic p)
      | (seq, Ok node2) \<Rightarrow> ExecuteDML pe s ?db query (StInsert node2) (sn1\<lparr>sn_seq := seq\<rparr>)))" for node1
    using i1 d by (simp add: rest split: prod.split res.split)
  show "I (fst (handleInsert pe s query node sn))"
    unfolding handleInsert_def Let_def f using i i1 k d [OF i] by (auto split: res.split)
qed

lemma create_route_keeps: "keeping I (create_route rng env ddl' database shardKey autoinc)"
  using keeping_route unfolding keeping_def create_route_def Let_def by (auto split: option.splits PartitionOption.splits)

lemma create_table_keeps: "keeping I (create_table pe rng envs s database node)"
proof -
  have drop: "I sn2" if "route f sn1 = (sn2, x)" "I sn1" for f sn1 sn2 x
    using keepingD [OF keeping_route that(2,1)] .
  have run: "keeping I (\<lambda>sn. case ExecuteDDL pe s database q n sn of
             (sn1, Err e) \<Rightarrow>
               (case route f sn1 of
                  (sn2, Panic p) \<Rightarrow> (sn2, Panic p)
                | (sn2, _) \<Rightarrow> (sn2, Err e))
           | (sn1, x) \<Rightarrow> (sn1, x))" for q n f
    unfolding keeping_def
    using keepingD [OF keeping_ddl] drop by (fastforce split: prod.splits res.splits)
  show ?thesis
    unfolding create_table_def [abs_def] Let_def by (intro keeping_rules create_route_keeps run)
qed

lemma drop_tables_keeps: "keeping I (drop_tables pe envs k s database node ts)"
proof (induction ts arbitrary: k node)
  case (Cons t ts)
  let ?n = "node\<lparr>ddl_Table := t\<rparr>"
  have rec: "I (fst (drop_tables pe envs (Suc k) s database ?n ts sn))" if "I sn" for sn
    using Cons that by (simp add: keeping_def)
  show ?case
    unfolding keeping_def
  proof (intro allI impI)
    fix sn
    assume i: "I sn"
    let ?db = "or_default (tn_Qualifier t) database"
    define q where "q = (if tn_Qualifier t = [] then ''drop table '' @ tn_Name t else ''drop table '' @ ?db @ ''.'' @ tn_Name t)"
    obtain sn1 x where e: "ExecuteDDL pe s ?db q (StDDL ?n) sn = (sn1, x)" by fastforce
    obtain sn2 y where r: "route (\<lambda>r d. DropTable (envs k) r d ?db (tn_Name t)) sn1 = (sn2, y)" by fastforce
    note i1 = keepingD [OF keeping_ddl i e]
    note i2 = keepingD [OF keeping_route i1 r]
    show "I (fst (drop_tables pe envs k s database node (t # ts) sn))"
      unfolding drop_tables.simps Let_def q_def [symmetric] e
      using i i1 i2 rec [OF i2] by (cases x; cases y) (simp_all add: r split: res.split)
  qed
qed (simp add: keeping_def)

lemma handleDDL_keeps: "keeping I (handleDDL pe rng envs s query ddl')"
proof -
  have "keeping I (alter_table pe s database query ddl')" "keeping I (alter_database pe database query ddl')"
    "keeping I (rename_table pe envs s database query ddl')" for database
    unfolding alter_table_def [abs_def] alter_database_def [abs_def] rename_table_def [abs_def] Let_def hres_def
    by (intro keeping_rules keeping_ddl keeping_route keeping_own)+
  then show ?thesis
    unfolding handleDDL_def [abs_def] Let_def
    by (intro keeping_rules create_table_keeps drop_tables_keeps keeping_route keeping_own) (simp_all add: keeping_def hres_def)
qed

lemma schema_keeps:
  "I sn \<Longrightarrow> I (sn\<lparr>sn_sessions := upd_session (ds_ID s) (\<lambda>x. x\<lparr>ss_session := (ss_session x)\<lparr>ds_Schema := db\<rparr>\<rparr>) (sn_sessions sn)\<rparr>)"
  by (rule field) simp_all

lemma handleUseDB_keeps:
  assumes i: "I sn"
  shows "I (fst (snd (handleUseDB pe s query db sn)))"
proof -
  obtain sn1 x where e: "ExecuteSingle pe query sn = (sn1, x)" by fastforce
  show ?thesis
    using i schema_keeps keepingD [OF keeping_own(1) i e] by (cases x) (simp_all add: handleUseDB_def e split: res.split)
qed

lemma ComInitDB_keeps:
  assumes i: "I sn"
  shows "I (fst (snd (ComInitDB pe s database sn)))"
proof -
  define db where "db = (if cf_LowerCaseTableNames (pe_conf pe) = 0 then database else to_lower database)"
  obtain sn1 x where e: "ExecuteSingle pe (''use '' @ db) sn = (sn1, x)" by fastforce
  show ?thesis
    unfolding ComInitDB_def Let_def db_def [symmetric] e
    using i schema_keeps keepingD [OF keeping_own(1) i e] by (cases x) (simp_all split: res.split)
qed

lemma handleSet_keeps: "I sn \<Longrightarrow> I (fst (handleSet pe s exprs sn))"
proof (induction exprs arbitrary: sn)
  case (Cons e exprs)
  obtain ty v where e: "e = (ty, v)" by fastforce
  have "I (sn\<lparr>sn_sessions := upd_session (ds_ID s) (setStreamingFetchVar b) (sn_sessions sn)\<rparr>)" for b
    by (rule field [OF _ Cons.prems]) (simp add: setStreamingFetchVar_def)
  with Cons txn show ?case by (auto simp: e Let_def split: res.splits option.splits)
qed simp

end

section \<open>The invariant\<close>

lemma ExecuteDML_preserves:
  assumes "IsDML node" "proxy_inv pe sn"
  shows "proxy_inv pe (fst (ExecuteDML pe s database query node sn))"
proof (cases "isTwoPC pe")
  case True
  have "proxy_inv pe (fst (ExecuteMultiStmtsInTxn pe s database query node sn))"
    using ExecuteMultiStmtsInTxn_preserves assms(2) by (simp add: preserves_def)
  moreover have "proxy_inv pe (fst (ExecuteSingleStmtTxnTwoPC pe s database query node sn))"
    if "getTxnSession (sn_sessions sn) s = Some x" "ss_transaction x = None" for x
    using single_stmt_inv [OF assms(2)] that by (simp add: idle_session_def)
  ultimately show ?thesis using True assms by (simp add: ExecuteDML_def split: res.split option.split)
next
  case False
  with ExecuteNormal_inv [OF assms(2) no_twopc_idle [OF assms(2)]] assms(2) show ?thesis
    by (simp add: ExecuteDML_def split: res.split)
qed

interpretation held: client_invariant pe s "proxy_inv pe" for pe s
proof
  show "proxy_inv pe (fst (ExecuteDDL pe s database query node sn))" if "proxy_inv pe sn" for database query node sn
    using that ExecuteDDL_preserves by (simp add: preserves_def)
  show "proxy_inv pe (fst (own_query pe f sn))" if "Txn_Life.keeps f" "keeps_live f" "proxy_inv pe sn" for f sn
    using own_query_preserves [OF that(1,2)] that(3) by (simp add: preserves_def)
  show "proxy_inv pe (fst (handleMultiStmtTxn pe s query action sn))" if "proxy_inv pe sn" for query action sn
    using that multi_stmt_txn_preserves by (simp add: preserves_def)
  show "proxy_inv pe (sn\<lparr>sn_router := r, sn_disk := d\<rparr>) = proxy_inv pe sn" "proxy_inv pe (sn\<lparr>sn_seq := q\<rparr>) = proxy_inv pe sn" for sn r d q
    by (rule proxy_inv_cong; simp)+
qed (simp_all add: ExecuteDML_preserves session_field_inv)

text \<open>Another session: a handler changes the record of the session it runs for and of no other.\<close>

lemma upd_other: "j \<noteq> i \<Longrightarrow> gm_get (upd_session i f ss) j = gm_get ss j"
  by (simp add: upd_session_get)

lemmas binding_defs = TxnBinding_def TxnUnBinding_def MultiStmtTxnBinding_def MultiStmtTxnUnBinding_def store_txn_def

lemma bound_txn_other:
  assumes body: "body_ok body" and j: "j \<noteq> ds_ID s"
  shows "gm_get (sn_sessions (fst (bound_txn pe s query node timeout body sn))) j = gm_get (sn_sessions sn) j"
proof -
  have b: "sn_sessions sn1 = sn_sessions sn0" if "body t sn0 = (t1, sn1, x)" for t sn0 t1 sn1 x
    using body that unfolding body_ok_def by blast
  show ?thesis
    using j by (auto simp: bound_txn_def Let_def end_statement_def binding_defs upd_other dest!: b split: prod.split res.split)
qed

lemma ExecuteBegin_other:
  "j \<noteq> ds_ID s \<Longrightarrow> gm_get (sn_sessions (fst (ExecuteBegin pe s query node sn))) j = gm_get (sn_sessions sn) j"
  unfolding ExecuteBegin_def Let_def binding_defs by (simp add: upd_other split: option.split prod.split res.split)

lemma end_multi_other:
  "j \<noteq> ds_ID s \<Longrightarrow> gm_get (sn_sessions (fst (end_multi pe fin disabled missing s query node sn))) j = gm_get (sn_sessions sn) j"
  unfolding end_multi_def Let_def binding_defs by (simp add: upd_other split: option.split prod.split res.split)

lemma handleMultiStmtTxn_other:
  "j \<noteq> ds_ID s \<Longrightarrow> gm_get (sn_sessions (fst (handleMultiStmtTxn pe s query action sn))) j = gm_get (sn_sessions sn) j"
  unfolding handleMultiStmtTxn_def Let_def ExecuteCommit_def ExecuteRollback_def
  by (simp add: ExecuteBegin_other end_multi_other)

lemma ExecuteMultiStmtsInTxn_other:
  "j \<noteq> ds_ID s \<Longrightarrow> gm_get (sn_sessions (fst (ExecuteMultiStmtsInTxn pe s database query node sn))) j = gm_get (sn_sessions sn) j"
  using run_plans_ok [of pe database query node] unfolding body_ok_def
  by (fastforce simp: ExecuteMultiStmtsInTxn_def Let_def binding_defs upd_other split: option.split prod.split)

lemma executions_other:
  assumes "j \<noteq> ds_ID s"
  shows "gm_get (sn_sessions (fst (ExecuteDDL pe s database query node sn))) j = gm_get (sn_sessions sn) j"
    "gm_get (sn_sessions (fst (ExecuteDML pe s database query node sn))) j = gm_get (sn_sessions sn) j"
    "gm_get (sn_sessions (fst (ExecuteNormal pe s database query node sn))) j = gm_get (sn_sessions sn) j"
  using bound_txn_other [OF run_plans_ok assms] bound_txn_other [OF twopc_body_ok assms] ExecuteMultiStmtsInTxn_other [OF assms]
  by (simp_all add: ExecuteDDL_def ExecuteDML_def ExecuteNormal_def executeWithTimeout_def ExecuteSingleStmtTxnTwoPC_def Let_def
      split: option.split res.split)

end
