(* ===== verification/Frm_Sync.thy ===== *)
theory Frm_Sync
  imports Frm
begin

text \<open>
  The router in memory and the metadata on disk describe the same tables. \<open>consistent r d\<close> says so;
  every data definition operation that succeeds keeps it, and then loading the disk into a new router
  gives back the same routes.
\<close>

section \<open>Consistency\<close>

definition synced :: "Router \<Rightarrow> Disk \<Rightarrow> string \<Rightarrow> string \<Rightarrow> bool" where
  "synced r d db t \<longleftrightarrow>
     (\<exists>T p. get_table r db t = Some T \<and> t_Name T = t \<and> t_TableConfig T < length (r_heap r) \<and>
        tc_Name (conf_at r (t_TableConfig T)) = t \<and>
        t_ShardKey T = tc_ShardKey (conf_at r (t_TableConfig T)) \<and>
        t_Partition T = Some p \<and> build_partition (r_conf r) (conf_at r (t_TableConfig T)) = Ok p \<and>
        disk_file d db (frm_file t) = Some (Json (conf_at r (t_TableConfig T))))"

definition addr_of :: "Router \<Rightarrow> string \<times> string \<Rightarrow> nat option" where
  "addr_of r k = map_option t_TableConfig (get_table r (fst k) (snd k))"

definition dirs_agree :: "Router \<Rightarrow> Disk \<Rightarrow> bool" where
  "dirs_agree r d \<longleftrightarrow>
     gm_wf d \<and> (\<forall>db fs. gm_get d db = Some fs \<longrightarrow> gm_wf fs) \<and> gm_get d [] = None \<and>
     (\<forall>db. gm_get (r_Schemas r) db = None \<longleftrightarrow> gm_get d db = None) \<and>
     (\<forall>db sc. gm_get (r_Schemas r) db = Some sc \<longrightarrow> gm_wf (sc_Tables sc))"

definition synced_on :: "(string \<times> string) set \<Rightarrow> Router \<Rightarrow> Disk \<Rightarrow> bool" where
  "synced_on F r d \<longleftrightarrow>
     dirs_agree r d \<and> (\<forall>(db, t) \<in> F. synced r d db t) \<and> inj_on (addr_of r) F"

definition mem_tables :: "Router \<Rightarrow> (string \<times> string) set" where
  "mem_tables r = {(db, t). get_table r db t \<noteq> None}"

definition disk_tables :: "Disk \<Rightarrow> (string \<times> string) set" where
  "disk_tables d = {(db, t). disk_file d db (frm_file t) \<noteq> None}"

definition only_frm :: "Disk \<Rightarrow> bool" where
  "only_frm d \<longleftrightarrow> (\<forall>db f. disk_file d db f \<noteq> None \<longrightarrow> (\<exists>t. f = frm_file t))"

definition consistent :: "Router \<Rightarrow> Disk \<Rightarrow> bool" where
  "consistent r d \<longleftrightarrow>
     synced_on (mem_tables r) r d \<and> disk_tables d = mem_tables r \<and> only_frm d"

lemma frm_file_inject [simp]: "frm_file t = frm_file t' \<longleftrightarrow> t = t'"
  by (simp add: frm_file_def)

lemma disk_file_put [router_simps]:
  "disk_file (put_file db f c d) db' f' =
     (if db' = db \<and> f' = f \<and> gm_get d db \<noteq> None then Some c else disk_file d db' f')"
  by (auto simp: disk_file_def put_file_def gomap_simps split: option.splits)

lemma disk_file_del [router_simps]:
  "disk_file (del_file db f d) db' f' = (if db' = db \<and> f' = f then None else disk_file d db' f')"
  by (auto simp: disk_file_def del_file_def gomap_simps split: option.splits)

lemma dirs_put_file [simp]: "dirs_agree r (put_file db f c d) = dirs_agree r d" if "dirs_agree r d"
  using that by (auto simp: dirs_agree_def put_file_def gomap_simps split: option.splits)

lemma dirs_del_file [simp]: "dirs_agree r d \<Longrightarrow> dirs_agree r (del_file db f d)"
  by (auto simp: dirs_agree_def del_file_def gomap_simps split: option.splits)

lemma dirs_upd_tables: "dirs_agree r d \<Longrightarrow> (\<And>m. gm_wf m \<Longrightarrow> gm_wf (f m)) \<Longrightarrow> dirs_agree (upd_tables r db f) d"
  by (auto simp: dirs_agree_def router_simps)

lemma dirs_heap [simp]: "dirs_agree (r\<lparr>r_heap := hp\<rparr>) d = dirs_agree r d"
  by (simp add: dirs_agree_def)

lemma addr_heap [simp]: "addr_of (r\<lparr>r_heap := hp\<rparr>) = addr_of r"
  by (rule ext) (simp add: addr_of_def)

lemma synced_on_mono: "synced_on F r d \<Longrightarrow> F' \<subseteq> F \<Longrightarrow> synced_on F' r d"
  by (auto simp: synced_on_def intro: inj_on_subset)

lemma synced_on_put_file:
  "synced_on F r d \<Longrightarrow> (db, t) \<notin> F \<Longrightarrow> synced_on F r (put_file db (frm_file t) c d)"
  by (auto simp: synced_on_def synced_def router_simps)

lemma synced_on_del_file:
  "synced_on F r d \<Longrightarrow> (db, t) \<notin> F \<Longrightarrow> synced_on F r (del_file db (frm_file t) d)"
  by (fastforce simp: synced_on_def synced_def router_simps)

lemma synced_on_set_conf:
  assumes "synced_on F r d" "\<forall>k \<in> F. addr_of r k \<noteq> Some a"
  shows "synced_on F (set_conf r a c) d"
proof -
  have "synced (set_conf r a c) d db t" if "(db, t) \<in> F" for db t
  proof -
    from assms that have "synced r d db t" "addr_of r (db, t) \<noteq> Some a" by (auto simp: synced_on_def)
    then show ?thesis by (auto simp: synced_def addr_of_def set_conf_def)
  qed
  with assms(1) show ?thesis by (auto simp: synced_on_def set_conf_def)
qed

lemma synced_on_alloc:
  assumes "synced_on F r d"
  shows "synced_on F (r\<lparr>r_heap := r_heap r @ [c]\<rparr>) d"
proof -
  have "synced (r\<lparr>r_heap := r_heap r @ [c]\<rparr>) d db t" if "(db, t) \<in> F" for db t
    using assms that by (fastforce simp: synced_on_def synced_def nth_append)
  with assms show ?thesis by (auto simp: synced_on_def)
qed

lemma get_table_upd_other:
  "(db', t') \<noteq> (db, t) \<Longrightarrow> get_table (upd_tables r db (gm_put t T)) db' t' = get_table r db' t'"
  "(db', t') \<noteq> (db, t) \<Longrightarrow> get_table (upd_tables r db (gm_del t)) db' t' = get_table r db' t'"
  by (auto simp: get_table_def upd_tables_def gomap_simps split: option.splits)

lemma synced_on_upd:
  assumes "synced_on F r d" "\<And>db' t'. (db', t') \<in> F \<Longrightarrow> get_table (upd_tables r db f) db' t' = get_table r db' t'"
    "\<And>m. gm_wf m \<Longrightarrow> gm_wf (f m)"
  shows "synced_on F (upd_tables r db f) d"
proof -
  have "synced (upd_tables r db f) d db' t'" if "(db', t') \<in> F" for db' t'
    using assms(1) that by (fastforce simp: synced_on_def synced_def assms(2))
  moreover have "inj_on (addr_of (upd_tables r db f)) F"
    using assms by (auto simp: synced_on_def addr_of_def inj_on_def)
  ultimately show ?thesis using assms(1,3) by (auto simp: synced_on_def dirs_upd_tables)
qed

lemma synced_on_remove: "synced_on F r d \<Longrightarrow> (db, t) \<notin> F \<Longrightarrow> synced_on F (upd_tables r db (gm_del t)) d"
  by (rule synced_on_upd) (auto intro!: get_table_upd_other)

section \<open>Adding a table\<close>

definition new_table :: "Router \<Rightarrow> nat \<Rightarrow> Partition \<Rightarrow> Table" where
  "new_table r a p =
     \<lparr>t_Name = tc_Name (conf_at r a), t_ShardKey = tc_ShardKey (conf_at r a), t_Partition = Some p,
      t_TableConfig = a\<rparr>"

text \<open>What a successful \<open>addTable\<close> changes: one entry of the table map.\<close>

lemma addTable_Ok:
  assumes "addTable r db (Some a) = (r', Ok u)"
  shows "\<exists>p. db \<noteq> [] \<and> gm_get (r_Schemas r) db \<noteq> None \<and> get_table r db (tc_Name (conf_at r a)) = None \<and>
     build_partition (r_conf r) (conf_at r a) = Ok p \<and> r_heap r' = r_heap r \<and> r_conf r' = r_conf r \<and>
     (\<forall>d. dirs_agree r d \<longrightarrow> dirs_agree r' d) \<and>
     (\<forall>db' t'. get_table r' db' t' =
        (if (db', t') = (db, tc_Name (conf_at r a)) then Some (new_table r a p) else get_table r db' t'))"
proof -
  let ?name = "tc_Name (conf_at r a)"
  let ?T = "\<lparr>t_Name = ?name, t_ShardKey = tc_ShardKey (conf_at r a), t_Partition = None, t_TableConfig = a\<rparr>"
  from assms obtain p where p: "build_partition (r_conf r) (conf_at r a) = Ok p"
    and pre: "db \<noteq> []" "gm_get (r_Schemas r) db \<noteq> None" "get_table r db ?name = None"
    and r': "r' = upd_tables (upd_tables r db (gm_put ?name ?T)) db (gm_put ?name (?T\<lparr>t_Partition := Some p\<rparr>))"
    by (auto simp: addTable_def Let_def checkDatabase_def split: res.splits option.splits if_splits)
  have "get_table r' db' t' = (if (db', t') = (db, ?name) then Some (new_table r a p) else get_table r db' t')"
    for db' t'
    using pre(2) unfolding r'
    by (cases "gm_get (r_Schemas r) db")
      (auto simp: get_table_def router_simps gomap_simps new_table_def)
  with p pre r' show ?thesis by (simp add: dirs_upd_tables)
qed

lemma addTable_total:
  assumes "db \<noteq> []" "gm_get (r_Schemas r) db \<noteq> None" "get_table r db (tc_Name (conf_at r a)) = None"
    "build_partition (r_conf r) (conf_at r a) = Ok p"
  shows "\<exists>r'. addTable r db (Some a) = (r', Ok ())"
  using assms by (auto simp: addTable_def checkDatabase_def Let_def)

lemma synced_on_add:
  assumes add: "addTable r db (Some a) = (r', Ok u)" and on: "synced_on F r d"
    and a: "a < length (r_heap r)" "\<forall>k \<in> F. addr_of r k \<noteq> Some a"
    and onfile: "disk_file d db (frm_file (tc_Name (conf_at r a))) = Some (Json (conf_at r a))"
  shows "synced_on (insert (db, tc_Name (conf_at r a)) F) r' d"
proof -
  let ?k = "(db, tc_Name (conf_at r a))"
  from addTable_Ok [OF add] obtain p where p: "build_partition (r_conf r) (conf_at r a) = Ok p"
    and old: "get_table r db (tc_Name (conf_at r a)) = None"
    and hp: "r_heap r' = r_heap r" "r_conf r' = r_conf r" "dirs_agree r d \<longrightarrow> dirs_agree r' d"
    and get: "\<And>db' t'. get_table r' db' t' = (if (db', t') = ?k then Some (new_table r a p) else get_table r db' t')"
    by auto
  have k: "?k \<notin> F" using on old by (auto simp: synced_on_def synced_def)
  have addr: "addr_of r' k = (if k = ?k then Some a else addr_of r k)" for k
    by (cases k) (auto simp: addr_of_def get new_table_def)
  have "synced r' d db' t'" if "(db', t') \<in> insert ?k F" for db' t'
  proof (cases "(db', t') = ?k")
    case True
    with p a onfile show ?thesis by (auto simp: synced_def get hp new_table_def)
  next
    case False
    with that on have "synced r d db' t'" by (auto simp: synced_on_def)
    with False show ?thesis by (auto simp: synced_def get hp)
  qed
  moreover have "inj_on (addr_of r') (insert ?k F)"
    using on a(2) k by (auto simp: synced_on_def inj_on_def addr)
  ultimately show ?thesis using on hp by (auto simp: synced_on_def)
qed

lemma mem_tables_add:
  assumes "addTable r db (Some a) = (r', Ok u)"
  shows "mem_tables r' = insert (db, tc_Name (conf_at r a)) (mem_tables r)"
proof -
  from addTable_Ok [OF assms] obtain p where "\<And>db' t'. get_table r' db' t' =
      (if (db', t') = (db, tc_Name (conf_at r a)) then Some (new_table r a p) else get_table r db' t')" by auto
  then show ?thesis by (auto simp: mem_tables_def split: if_splits)
qed

lemma addr_bound: "synced_on F r d \<Longrightarrow> k \<in> F \<Longrightarrow> addr_of r k \<noteq> Some (length (r_heap r))"
  by (cases k) (auto simp: synced_on_def synced_def addr_of_def)

text \<open>\<open>createTable\<close> on a configuration no other table points to.\<close>

lemma createTable_Ok:
  assumes "createTable env r d db table a = ((r', d'), Ok u)"
  shows "addTable r db (Some a) = (r', Ok ()) \<and> gm_get d db \<noteq> None \<and>
     d' = put_file db (frm_file table) (Json (conf_at r a)) d"
proof -
  obtain r1 x where add: "addTable r db (Some a) = (r1, x)" by fastforce
  with assms have x: "x = Ok ()"
    by (auto simp: createTable_def split: if_splits res.splits)
  with add addTable_Ok have heap: "r_heap r1 = r_heap r" by blast
  with assms add x show ?thesis
    by (auto simp: createTable_def writeTableFrmData_def io_err_def
        split: if_splits prod.splits res.splits option.splits write_outcome.splits)
qed

lemma createTable_synced:
  assumes c: "createTable env r d db table a = ((r', d'), Ok u)" and on: "synced_on F r d"
    and a: "a < length (r_heap r)" "\<forall>k \<in> F. addr_of r k \<noteq> Some a" "tc_Name (conf_at r a) = table"
  shows "synced_on (insert (db, table) F) r' d' \<and> mem_tables r' = insert (db, table) (mem_tables r) \<and>
     disk_tables d' = insert (db, table) (disk_tables d) \<and> only_frm d' = only_frm d"
proof -
  from createTable_Ok [OF c] have add: "addTable r db (Some a) = (r', Ok ())"
    and d: "gm_get d db \<noteq> None" "d' = put_file db (frm_file table) (Json (conf_at r a)) d" by auto
  from addTable_Ok [OF add] a(3) have "get_table r db table = None" by auto
  with on have "(db, table) \<notin> F" by (auto simp: synced_on_def synced_def)
  with on d have "synced_on F r d'" by (simp add: synced_on_put_file)
  then have "synced_on (insert (db, table) F) r' d'"
    using synced_on_add [OF add _ a(1,2)] a(3) d by (simp add: router_simps)
  moreover have "mem_tables r' = insert (db, table) (mem_tables r)"
    using mem_tables_add [OF add] a(3) by simp
  moreover have "disk_tables d' = insert (db, table) (disk_tables d)" "only_frm d' = only_frm d"
    using d by (auto simp: disk_tables_def only_frm_def router_simps)
  ultimately show ?thesis by blast
qed

section \<open>The operations keep the router and the disk consistent\<close>

lemma consistentI:
  "synced_on F r d \<Longrightarrow> mem_tables r = F \<Longrightarrow> disk_tables d = F \<Longrightarrow> only_frm d \<Longrightarrow> consistent r d"
  by (simp add: consistent_def)

lemma consistent_NewRouter: "consistent (NewRouter rc) []"
  by (simp add: consistent_def NewRouter_def synced_on_def dirs_agree_def mem_tables_def disk_tables_def
      only_frm_def disk_file_def get_table_def)

text \<open>All three kinds of \<open>Create...Table\<close> go through \<open>create_with\<close>, on a configuration that has the table's name.\<close>

lemma create_with_consistent:
  assumes con: "consistent r d" and c: "create_with env r d db table conf extra = ((r', d'), Ok u)"
    and name: "\<And>tc. conf = Ok tc \<Longrightarrow> tc_Name tc = table"
  shows "consistent r' d'"
proof -
  from c obtain tc0 where tc0: "conf = Ok tc0" by (cases conf) (auto simp: create_with_def)
  define tc where "tc = (case extra of None \<Rightarrow> tc0 | Some auto \<Rightarrow> tc0\<lparr>tc_AutoIncrement := auto\<rparr>)"
  have tc: "tc_Name tc = table" using name [OF tc0] by (simp add: tc_def split: option.splits)
  have c': "createTable env (r\<lparr>r_heap := r_heap r @ [tc]\<rparr>) d db table (length (r_heap r)) = ((r', d'), Ok u)"
    using c by (simp add: create_with_def alloc_conf_def Let_def tc0 tc_def)
  let ?r = "r\<lparr>r_heap := r_heap r @ [tc]\<rparr>" and ?F = "mem_tables r"
  have on: "synced_on ?F ?r d" using con by (simp add: consistent_def synced_on_alloc)
  have mem: "mem_tables ?r = ?F" by (simp add: mem_tables_def)
  have "\<forall>k \<in> ?F. addr_of ?r k \<noteq> Some (length (r_heap r))"
    using con addr_bound [of ?F r d] by (simp add: consistent_def)
  from createTable_synced [OF c' on _ this] tc con mem show ?thesis
    by (intro consistentI [of "insert (db, table) ?F"]) (auto simp: consistent_def)
qed

lemma HashUniform_name: "HashUniform rc table key bs pn = Ok tc \<Longrightarrow> tc_Name tc = table"
  by (auto simp: HashUniform_def Let_def res_simps split: if_splits)

lemma ListUniform_name: "ListUniform rng table key defs = Ok tc \<Longrightarrow> tc_Name tc = table"
  by (auto simp: ListUniform_def res_simps plain_tableConf_def split: if_splits)

lemma PlainUniform_name:
  "GlobalUniform table bs = Ok tc \<Longrightarrow> tc_Name tc = table" "SingleUniform table bs = Ok tc \<Longrightarrow> tc_Name tc = table"
  by (auto simp: GlobalUniform_def SingleUniform_def plain_tableConf_def split: if_splits)

lemma mem_tables_remove: "mem_tables (upd_tables r db (gm_del t)) = mem_tables r - {(db, t)}"
  by (auto simp: mem_tables_def get_table_def upd_tables_def gomap_simps split: option.splits if_splits)

lemma disk_tables_del: "disk_tables (del_file db (frm_file t) d) = disk_tables d - {(db, t)}"
  by (auto simp: disk_tables_def router_simps split: if_splits)

lemma only_frm_del: "only_frm d \<Longrightarrow> only_frm (del_file db f d)"
  by (auto simp: only_frm_def router_simps split: if_splits)

lemma DropTable_Ok:
  assumes "DropTable env r d db table = ((r', d'), Ok u)"
  shows "r' = upd_tables r db (gm_del table) \<and> d' = del_file db (frm_file table) d"
  using assms
  by (auto simp: DropTable_def removeTable_def removeTableFrmData_def io_err_def
      split: option.splits res.splits prod.splits if_splits)

lemma DropTable_synced:
  assumes c: "DropTable env r d db table = ((r', d'), Ok u)" and on: "synced_on F r d" and k: "(db, table) \<notin> F"
  shows "synced_on F r' d' \<and> mem_tables r' = mem_tables r - {(db, table)} \<and>
     disk_tables d' = disk_tables d - {(db, table)} \<and> (only_frm d \<longrightarrow> only_frm d')"
  using DropTable_Ok [OF c] on k
  by (simp add: synced_on_remove synced_on_del_file mem_tables_remove disk_tables_del only_frm_del)

lemma DropTable_consistent:
  assumes con: "consistent r d" and c: "DropTable env r d db table = ((r', d'), Ok u)"
  shows "consistent r' d'"
proof -
  have "synced_on (mem_tables r - {(db, table)}) r d"
    by (rule synced_on_mono [of "mem_tables r"]) (use con in \<open>auto simp: consistent_def\<close>)
  from DropTable_synced [OF c this] con show ?thesis
    by (intro consistentI [of "mem_tables r - {(db, table)}"]) (auto simp: consistent_def)
qed

text \<open>
  A rename writes through the shared configuration, adds the new table on the same cell and then drops
  the old one. While both exist they alias; all other tables keep their own cells.
\<close>

lemma rename_Ok:
  assumes "getRenameTableConfig r db fromTable toTable = (r1, Ok a)"
  shows "\<exists>T. get_table r db fromTable = Some T \<and> a = t_TableConfig T \<and> get_table r db toTable = None \<and>
     r1 = set_conf r a (rename_conf fromTable toTable (conf_at r a))"
  using assms
  by (auto simp: getRenameTableConfig_def set_conf_def get_table_def Let_def split: option.splits)

lemma RenameTable_consistent:
  assumes con: "consistent r d" and c: "RenameTable env env' r d db fromTable toTable = ((r', d'), Ok u)"
  shows "consistent r' d'"
proof -
  from c obtain r1 a r2 d2 where ren: "getRenameTableConfig r db fromTable toTable = (r1, Ok a)"
    and cr: "createTable env r1 d db toTable a = ((r2, d2), Ok ())"
    and dr: "DropTable env' r2 d2 db fromTable = ((r', d'), Ok u)"
    by (auto simp: RenameTable_def split: prod.splits res.splits)
  from rename_Ok [OF ren] obtain T where T: "get_table r db fromTable = Some T" "a = t_TableConfig T"
    "get_table r db toTable = None" "r1 = set_conf r a (rename_conf fromTable toTable (conf_at r a))" by blast
  let ?F = "mem_tables r - {(db, fromTable)}"
  from con have on: "synced_on (mem_tables r) r d" by (simp add: consistent_def)
  have key: "(db, fromTable) \<in> mem_tables r" using T(1) by (simp add: mem_tables_def)
  then have "synced r d db fromTable" using on by (auto simp: synced_on_def)
  with T have a: "a < length (r_heap r)" by (auto simp: synced_def)
  have addr: "\<forall>k \<in> ?F. addr_of r k \<noteq> Some a"
  proof
    fix k
    assume k: "k \<in> ?F"
    then have "addr_of r k \<noteq> addr_of r (db, fromTable)"
      using on key by (auto simp: synced_on_def dest: inj_onD)
    with T show "addr_of r k \<noteq> Some a" by (simp add: addr_of_def)
  qed
  have on1: "synced_on ?F r1 d" unfolding T(4)
    by (intro synced_on_set_conf synced_on_mono [OF on] addr) auto
  have r1: "mem_tables r1 = mem_tables r" "addr_of r1 = addr_of r" "tc_Name (conf_at r1 a) = toTable" "a < length (r_heap r1)"
    using a T(4) by (simp_all add: set_conf_def mem_tables_def rename_conf_def)
  with createTable_synced [OF cr on1] addr
  have r2: "synced_on (insert (db, toTable) ?F) r2 d2" "mem_tables r2 = insert (db, toTable) (mem_tables r)"
    "disk_tables d2 = insert (db, toTable) (disk_tables d)" "only_frm d2 = only_frm d" by simp_all
  have "toTable \<noteq> fromTable" using T by auto
  then have F: "insert (db, toTable) (mem_tables r) - {(db, fromTable)} = insert (db, toTable) ?F" by auto
  from DropTable_synced [OF dr r2(1)] \<open>toTable \<noteq> fromTable\<close> r2 con F show ?thesis
    by (intro consistentI [of "insert (db, toTable) ?F"]) (auto simp: consistent_def)
qed

text \<open>Databases. \<open>CreateDatabase\<close> keeps memory and disk consistent whatever fails.\<close>

lemma gm_put_del_new: "gm_get m k = None \<Longrightarrow> gm_del k (gm_put k v m) = m"
  unfolding gm_put_def gm_del_def by (induction m) (auto split: if_splits simp: map_of_eq_None_iff AList.delete_eq filter_id_conv)

lemma consistent_add_db:
  assumes con: "consistent r d" and db: "db \<noteq> []" "gm_get (r_Schemas r) db = None"
  shows "consistent (r\<lparr>r_Schemas := gm_put db \<lparr>sc_DB = db, sc_Tables = []\<rparr> (r_Schemas r)\<rparr>) (gm_put db [] d)"
    (is "consistent ?r ?d")
proof -
  from con db have d: "gm_get d db = None" by (simp add: consistent_def synced_on_def dirs_agree_def)
  have get: "get_table ?r db' t = get_table r db' t" for db' t
    using db by (simp add: get_table_def gomap_simps)
  have fileq: "disk_file ?d db' f = disk_file d db' f" for db' f
    using d by (simp add: disk_file_def gomap_simps)
  have "dirs_agree ?r ?d" using con db
    by (auto simp: consistent_def synced_on_def dirs_agree_def gomap_simps)
  with con show ?thesis
    by (auto simp: consistent_def synced_on_def synced_def mem_tables_def disk_tables_def only_frm_def
        addr_of_def get fileq inj_on_def)
qed

lemma CreateDatabase_consistent:
  assumes con: "consistent r d" and c: "CreateDatabase env r d db = ((r', d'), x)"
  shows "consistent r' d'"
proof -
  let ?r = "r\<lparr>r_Schemas := gm_put db \<lparr>sc_DB = db, sc_Tables = []\<rparr> (r_Schemas r)\<rparr>"
  have agree: "gm_get (r_Schemas r) db = None \<longleftrightarrow> gm_get d db = None"
    using con by (simp add: consistent_def synced_on_def dirs_agree_def)
  show ?thesis
  proof (cases "length db \<le> 64 \<and> \<not> checkNameInvalid db \<and> db \<noteq> [] \<and> gm_get (r_Schemas r) db = None")
    case True
    then have add: "addDatabase r db = (?r, Ok ())" by (simp add: addDatabase_def)
    have del: "fst (dropDatabase ?r db) = r"
      using True by (simp add: dropDatabase_def gomap_simps gm_put_del_new)
    show ?thesis
    proof (cases "env_mkdir env")
      case mk: True
      with c True add agree have "r' = ?r" "d' = gm_put db [] d"
        by (simp_all add: CreateDatabase_def writeDatabaseFrmData_def)
      with con True consistent_add_db show ?thesis by blast
    next
      case mk: False
      with c True add agree have "r' = fst (dropDatabase ?r db)" "d' = d"
        by (simp_all add: CreateDatabase_def writeDatabaseFrmData_def io_err_def)
      with con del show ?thesis by simp
    qed
  next
    case False
    with c have "r' = r" "d' = d"
      by (auto simp: CreateDatabase_def addDatabase_def split: if_splits option.splits)
    with con show ?thesis by simp
  qed
qed

lemma DropDatabase_consistent:
  assumes con: "consistent r d" and c: "DropDatabase env r d db = ((r', d'), Ok u)"
  shows "consistent r' d'"
proof -
  from c have r': "r' = r\<lparr>r_Schemas := gm_del db (r_Schemas r)\<rparr>" and d': "d' = gm_del db d"
    by (auto simp: DropDatabase_def dropDatabase_def io_err_def split: option.splits)
  have get: "get_table r' db' t = (if db' = db then None else get_table r db' t)" for db' t
    by (simp add: r' get_table_def gomap_simps)
  have fileq: "disk_file d' db' f = (if db' = db then None else disk_file d db' f)" for db' f
    by (simp add: d' disk_file_def gomap_simps)
  have heap: "r_heap r' = r_heap r" "r_conf r' = r_conf r" by (simp_all add: r')
  let ?F = "{k \<in> mem_tables r. fst k \<noteq> db}"
  have "dirs_agree r' d'" using con
    by (auto simp: r' d' consistent_def synced_on_def dirs_agree_def gomap_simps)
  moreover have "inj_on (addr_of r') ?F"
    using con by (auto simp: consistent_def synced_on_def addr_of_def get inj_on_def)
  moreover have "\<forall>(db', t) \<in> ?F. synced r' d' db' t"
    using con by (fastforce simp: consistent_def synced_on_def synced_def get fileq heap)
  ultimately have "synced_on ?F r' d'" by (simp add: synced_on_def)
  moreover have "mem_tables r' = ?F" by (auto simp: mem_tables_def get split: if_splits)
  moreover have "disk_tables d' = {k \<in> disk_tables d. fst k \<noteq> db}"
    by (auto simp: disk_tables_def fileq split: if_splits)
  then have "disk_tables d' = ?F" using con by (simp add: consistent_def)
  moreover have "only_frm d'" using con by (auto simp: only_frm_def fileq consistent_def split: if_splits)
  ultimately show ?thesis by (rule consistentI)
qed

section \<open>Reloading a table, and shifting a rule\<close>

lemma loadTable_Ok:
  assumes "loadTableFromFile env r d db f = (r', Ok u)"
  shows "\<exists>conf. disk_file d db f = Some (Json conf) \<and>
     addTable (r\<lparr>r_heap := r_heap r @ [conf]\<rparr>) db (Some (length (r_heap r))) = (r', Ok u)"
  using assms
  by (auto simp: loadTableFromFile_def readTableFrmData_def io_err_def alloc_conf_def
      split: option.splits content.splits if_splits)

lemma load_synced:
  assumes ld: "loadTableFromFile env r d db f = (r', Ok u)" and on: "synced_on F r d"
    and f: "\<And>conf. disk_file d db f = Some (Json conf) \<Longrightarrow> f = frm_file (tc_Name conf)"
  shows "\<exists>t. f = frm_file t \<and> synced_on (insert (db, t) F) r' d \<and> mem_tables r' = insert (db, t) (mem_tables r)"
proof -
  from loadTable_Ok [OF ld] obtain conf where conf: "disk_file d db f = Some (Json conf)"
    and add: "addTable (r\<lparr>r_heap := r_heap r @ [conf]\<rparr>) db (Some (length (r_heap r))) = (r', Ok u)" by blast
  let ?r = "r\<lparr>r_heap := r_heap r @ [conf]\<rparr>"
  have "\<forall>k \<in> F. addr_of ?r k \<noteq> Some (length (r_heap r))" using addr_bound [OF on] by simp
  from synced_on_add [OF add synced_on_alloc [OF on] _ this] conf f
  have "synced_on (insert (db, tc_Name conf) F) r' d" by simp
  moreover have "mem_tables r' = insert (db, tc_Name conf) (mem_tables r)"
    using mem_tables_add [OF add] by (simp add: mem_tables_def)
  ultimately show ?thesis using f [OF conf] by blast
qed

lemma find_rule_Some:
  "find_rule r b pt ts = Some (v, i) \<Longrightarrow> \<exists>k. (k, v) \<in> set ts \<and>
     find_part b pt 0 (tc_Partitions (conf_at r (t_TableConfig v))) = Some i"
  by (induction ts) (auto split: option.splits)

lemma shift_conf_name [simp]: "tc_Name (shift_conf t b i conf) = tc_Name conf"
  by (simp add: shift_conf_def)

lemma changeTheRuleBackend_Ok:
  assumes "changeTheRuleBackend env r d fromB toB db pt = ((r', d'), Ok table)"
  shows "\<exists>sc v i. gm_get (r_Schemas r) db = Some sc \<and> find_rule r fromB pt (sc_Tables sc) = Some (v, i) \<and>
     t_Name v = table \<and> r' = set_conf r (t_TableConfig v) (shift_conf table toB i (conf_at r (t_TableConfig v))) \<and>
     gm_get d db \<noteq> None \<and>
     d' = put_file db (frm_file table) (Json (shift_conf table toB i (conf_at r (t_TableConfig v)))) d"
  using assms
  by (auto simp: changeTheRuleBackend_def writeTableFrmData_def io_err_def Let_def update_version_def
      split: if_splits option.splits prod.splits res.splits write_outcome.splits)

lemma RefreshTable_synced:
  assumes rf: "RefreshTable env r d db t = (r', Ok u)" and on: "synced_on F r d" and k: "(db, t) \<notin> F"
    and f: "\<And>conf. disk_file d db (frm_file t) = Some (Json conf) \<Longrightarrow> tc_Name conf = t"
  shows "synced_on (insert (db, t) F) r' d \<and> mem_tables r' = insert (db, t) (mem_tables r)"
proof -
  from rf have "loadTableFromFile env (upd_tables r db (gm_del t)) d db (frm_file t) = (r', Ok u)"
    by (auto simp: RefreshTable_def removeTable_def loadTable_def split: option.splits)
  from load_synced [OF this synced_on_remove [OF on k]] f show ?thesis
    by (auto simp: mem_tables_remove)
qed

lemma PartitionRuleShift_consistent:
  assumes con: "consistent r d" and c: "PartitionRuleShift env r d fromB toB db pt = ((r', d'), Ok u)"
  shows "consistent r' d'"
proof -
  from c obtain r1 table where ch: "changeTheRuleBackend env r d fromB toB db pt = ((r1, d'), Ok table)"
    and rf: "RefreshTable env r1 d' db table = (r', Ok ())"
    by (auto simp: PartitionRuleShift_def split: prod.splits res.splits)
  from changeTheRuleBackend_Ok [OF ch] obtain sc v i where sc: "gm_get (r_Schemas r) db = Some sc"
    and rule: "find_rule r fromB pt (sc_Tables sc) = Some (v, i)" and name: "t_Name v = table"
    and r1: "r1 = set_conf r (t_TableConfig v) (shift_conf table toB i (conf_at r (t_TableConfig v)))"
    and d': "gm_get d db \<noteq> None"
      "d' = put_file db (frm_file table) (Json (shift_conf table toB i (conf_at r (t_TableConfig v)))) d" by blast
  from con have on: "synced_on (mem_tables r) r d" by (simp add: consistent_def)
  from find_rule_Some [OF rule] obtain k where "(k, v) \<in> set (sc_Tables sc)" by blast
  with on sc have get: "get_table r db k = Some v"
    by (auto simp: synced_on_def dirs_agree_def get_table_def gm_wf_get_iff)
  then have mem: "(db, k) \<in> mem_tables r" by (simp add: mem_tables_def)
  with on get name have k: "k = table" "tc_Name (conf_at r (t_TableConfig v)) = table"
    by (auto simp: synced_on_def synced_def)
  let ?F = "mem_tables r - {(db, table)}"
  have "\<forall>k' \<in> ?F. addr_of r k' \<noteq> Some (t_TableConfig v)"
  proof
    fix k'
    assume "k' \<in> ?F"
    with on mem k have "addr_of r k' \<noteq> addr_of r (db, table)" by (auto simp: synced_on_def dest: inj_onD)
    with get k show "addr_of r k' \<noteq> Some (t_TableConfig v)" by (simp add: addr_of_def)
  qed
  then have "synced_on ?F r1 d'" unfolding r1 d'(2)
    by (intro synced_on_put_file synced_on_set_conf synced_on_mono [OF on]) auto
  from RefreshTable_synced [OF rf this] k d'
  have "synced_on (insert (db, table) ?F) r' d'" "mem_tables r' = insert (db, table) (mem_tables r1)"
    by (auto simp: router_simps)
  moreover have "mem_tables r1 = mem_tables r" by (simp add: r1 set_conf_def mem_tables_def)
  moreover have "insert (db, table) ?F = mem_tables r" using mem k by auto
  moreover have "disk_tables d' = insert (db, table) (disk_tables d)" "only_frm d' = only_frm d"
    using d' by (auto simp: disk_tables_def only_frm_def router_simps)
  ultimately show ?thesis using con mem k
    by (intro consistentI [of "mem_tables r"]) (auto simp: consistent_def)
qed

section \<open>Loading the disk gives back the routes\<close>

lemma load_dirs_spec:
  assumes "\<And>x. env_readdir env x" "distinct (map fst ds)" "\<forall>k \<in> fst ` set ds. k \<noteq> [] \<and> gm_get (r_Schemas r) k = None"
  shows "\<exists>r'. load_dirs env r ds = (r', Ok ()) \<and> r_heap r' = r_heap r \<and> r_conf r' = r_conf r \<and>
     (\<forall>db. gm_get (r_Schemas r') db =
        (if db \<in> fst ` set ds then Some \<lparr>sc_DB = db, sc_Tables = []\<rparr> else gm_get (r_Schemas r) db))"
  using assms(2,3)
proof (induction ds arbitrary: r)
  case (Cons kf ds)
  obtain db fs where kf: "kf = (db, fs)" by fastforce
  let ?r = "r\<lparr>r_Schemas := gm_put db \<lparr>sc_DB = db, sc_Tables = []\<rparr> (r_Schemas r)\<rparr>"
  have add: "addDatabase r db = (?r, Ok ())" using Cons.prems(2) kf by (simp add: addDatabase_def)
  have "\<forall>k \<in> fst ` set ds. k \<noteq> [] \<and> gm_get (r_Schemas ?r) k = None"
    using Cons.prems kf by (auto simp: gomap_simps)
  from Cons.IH [OF _ this] Cons.prems kf obtain r' where "load_dirs env ?r ds = (r', Ok ())"
    "r_heap r' = r_heap ?r" "r_conf r' = r_conf ?r"
    "\<forall>db'. gm_get (r_Schemas r') db' =
        (if db' \<in> fst ` set ds then Some \<lparr>sc_DB = db', sc_Tables = []\<rparr> else gm_get (r_Schemas ?r) db')" by auto
  with add kf assms(1) show ?case by (intro exI [of _ r']) (auto simp: gomap_simps)
qed simp

text \<open>A file of the disk is good when it holds a configuration of its own name that can be built.\<close>

definition good_file :: "RouterConfig \<Rightarrow> Disk \<Rightarrow> string \<times> string \<Rightarrow> bool" where
  "good_file rc d k \<longleftrightarrow>
     (\<exists>conf p. disk_file d (fst k) (snd k) = Some (Json conf) \<and> snd k = frm_file (tc_Name conf) \<and>
        build_partition rc conf = Ok p)"

lemma load_one:
  assumes env: "\<And>x y. env_readfile env x y" and good: "good_file (r_conf r) d (db, f)"
    and dirs: "dirs_agree r d" and new: "\<And>t. f = frm_file t \<Longrightarrow> (db, t) \<notin> mem_tables r"
  shows "\<exists>r'. loadTableFromFile env r d db f = (r', Ok ()) \<and> r_conf r' = r_conf r"
proof -
  from good obtain conf p where conf: "disk_file d db f = Some (Json conf)" "f = frm_file (tc_Name conf)"
    "build_partition (r_conf r) conf = Ok p" by (auto simp: good_file_def)
  let ?r = "r\<lparr>r_heap := r_heap r @ [conf]\<rparr>"
  have "db \<noteq> []" "gm_get (r_Schemas r) db \<noteq> None"
    using conf(1) dirs by (auto simp: disk_file_def dirs_agree_def split: option.splits)
  moreover have "get_table r db (tc_Name conf) = None" using new [OF conf(2)] by (simp add: mem_tables_def)
  ultimately have "\<exists>r'. addTable ?r db (Some (length (r_heap r))) = (r', Ok ())"
    using conf(3) by (intro addTable_total [of _ _ _ p]) simp_all
  then obtain r' where r': "addTable ?r db (Some (length (r_heap r))) = (r', Ok ())" by blast
  with addTable_Ok [OF r'] conf env show ?thesis
    by (auto simp: loadTableFromFile_def readTableFrmData_def alloc_conf_def)
qed

lemma load_files_spec:
  assumes env: "\<And>x y. env_readfile env x y"
  shows "synced_on (mem_tables r) r d \<Longrightarrow> distinct fs \<Longrightarrow>
     \<forall>k \<in> set fs. good_file (r_conf r) d k \<and> (\<forall>t. snd k = frm_file t \<longrightarrow> (fst k, t) \<notin> mem_tables r) \<Longrightarrow>
     \<exists>r'. load_files env r d fs = (r', Ok ()) \<and> r_conf r' = r_conf r \<and> synced_on (mem_tables r') r' d \<and>
       mem_tables r' = mem_tables r \<union> {(db, t). (db, frm_file t) \<in> set fs}"
proof (induction fs arbitrary: r)
  case (Cons k fs)
  obtain db f where k: "k = (db, f)" by fastforce
  have dirs: "dirs_agree r d" using Cons.prems(1) by (simp add: synced_on_def)
  have good: "good_file (r_conf r) d (db, f)" using Cons.prems(3) k by simp
  have new: "\<And>t. f = frm_file t \<Longrightarrow> (db, t) \<notin> mem_tables r" using Cons.prems(3) k by auto
  from load_one [OF env good dirs new] obtain r1 where r1: "loadTableFromFile env r d db f = (r1, Ok ())"
    "r_conf r1 = r_conf r" by blast
  have "\<And>conf. disk_file d db f = Some (Json conf) \<Longrightarrow> f = frm_file (tc_Name conf)"
    using good by (auto simp: good_file_def)
  from load_synced [OF r1(1) Cons.prems(1) this] obtain t where t: "f = frm_file t"
    "synced_on (insert (db, t) (mem_tables r)) r1 d" "mem_tables r1 = insert (db, t) (mem_tables r)" by blast
  have "\<forall>k \<in> set fs. good_file (r_conf r1) d k \<and> (\<forall>t. snd k = frm_file t \<longrightarrow> (fst k, t) \<notin> mem_tables r1)"
    using Cons.prems(2,3) r1(2) t k by auto
  with Cons.IH [of r1] t Cons.prems(2) obtain r' where "load_files env r1 d fs = (r', Ok ())"
    "r_conf r' = r_conf r1" "synced_on (mem_tables r') r' d"
    "mem_tables r' = mem_tables r1 \<union> {(db, t). (db, frm_file t) \<in> set fs}" by auto
  with r1 t k show ?case by (intro exI [of _ r']) auto
qed simp

lemma disk_listing_set: "dirs_agree r d \<Longrightarrow> set (disk_listing d) = {(db, f). disk_file d db f \<noteq> None}"
proof -
  assume "dirs_agree r d"
  then have wf: "gm_wf d" "\<And>db fs. gm_get d db = Some fs \<Longrightarrow> gm_wf fs" by (auto simp: dirs_agree_def)
  have "(db, f) \<in> set (disk_listing d) \<longleftrightarrow> (\<exists>fs c. (db, fs) \<in> set d \<and> (f, c) \<in> set fs)" for db f
    by (force simp: disk_listing_def)
  also have "\<dots> db f \<longleftrightarrow> disk_file d db f \<noteq> None" for db f
    using wf by (auto simp: disk_file_def gm_wf_get_iff [symmetric] split: option.splits)
  finally show ?thesis by auto
qed

lemma disk_listing_distinct: "dirs_agree r d \<Longrightarrow> distinct (disk_listing d)"
proof -
  assume "dirs_agree r d"
  then have "gm_wf d" "\<forall>(db, fs) \<in> set d. gm_wf fs" by (auto simp: dirs_agree_def gm_wf_get_iff)
  then show ?thesis unfolding disk_listing_def gm_wf_def
  proof (induction d)
    case (Cons kf d)
    obtain db fs where kf: "kf = (db, fs)" by fastforce
    have "distinct (map (\<lambda>(f, _). (db, f)) fs)"
      using Cons.prems kf by (auto simp: distinct_map case_prod_beta inj_on_def)
    with Cons kf show ?case by force
  qed simp
qed

lemma LoadConfig_consistent:
  assumes con: "consistent r d" and conf: "r_conf r0 = r_conf r" and env: "\<And>x. env_readdir env x" "\<And>x y. env_readfile env x y"
  shows "\<exists>r'. LoadConfig env r0 (Some d) = ((r', Some d), Ok ()) \<and> r_conf r' = r_conf r \<and> consistent r' d"
proof -
  have dirs: "dirs_agree r d" and on: "synced_on (mem_tables r) r d" and tabs: "disk_tables d = mem_tables r"
    and only: "only_frm d" using con by (simp_all add: consistent_def synced_on_def)
  have "distinct (map fst d)" "gm_get d [] = None" using dirs by (simp_all add: dirs_agree_def gm_wf_def)
  then have keys: "distinct (map fst d)" "[] \<notin> fst ` set d" by (simp_all only: map_of_eq_None_iff not_False_eq_True)
  have "\<forall>k \<in> fst ` set d. k \<noteq> [] \<and> gm_get (r_Schemas (clear_router r0)) k = None"
  proof
    fix k
    assume "k \<in> fst ` set d"
    with keys(2) have "k \<noteq> []" by blast
    then show "k \<noteq> [] \<and> gm_get (r_Schemas (clear_router r0)) k = None" by (simp add: clear_router_def)
  qed
  from load_dirs_spec [OF env(1) keys(1) this] obtain r1
    where r1: "load_dirs env (clear_router r0) d = (r1, Ok ())" "r_conf r1 = r_conf r"
      and get: "\<And>db. gm_get (r_Schemas r1) db =
        (if db \<in> fst ` set d then Some \<lparr>sc_DB = db, sc_Tables = []\<rparr> else None)"
    by (auto simp: clear_router_def conf)
  have mem1: "mem_tables r1 = {}" by (auto simp: mem_tables_def get_table_def get)
  have "dirs_agree r1 d" using dirs by (auto simp: dirs_agree_def get map_of_eq_None_iff)
  then have on1: "synced_on (mem_tables r1) r1 d" by (simp add: synced_on_def mem1)
  have "good_file (r_conf r1) d k" if "k \<in> set (disk_listing d)" for k
  proof -
    obtain db f where k: "k = (db, f)" by fastforce
    with that have ex: "disk_file d db f \<noteq> None" by (simp add: disk_listing_set [OF dirs])
    then obtain t where t: "f = frm_file t" using only by (auto simp: only_frm_def)
    with ex tabs have "(db, t) \<in> mem_tables r" by (auto simp: disk_tables_def)
    with on have "synced r d db t" by (auto simp: synced_on_def)
    with k t r1(2) show ?thesis by (auto simp: synced_def good_file_def)
  qed
  with load_files_spec [OF env(2) on1 disk_listing_distinct [OF dirs]] mem1 obtain r2
    where r2: "load_files env r1 d (disk_listing d) = (r2, Ok ())" "r_conf r2 = r_conf r1"
      "synced_on (mem_tables r2) r2 d" "mem_tables r2 = {(db, t). (db, frm_file t) \<in> set (disk_listing d)}"
    by auto
  then have "mem_tables r2 = disk_tables d" by (auto simp: disk_listing_set [OF dirs] disk_tables_def)
  with r2(3) only have "consistent r2 d" by (simp add: consistent_def)
  with r1 r2 env show ?thesis by (simp add: LoadConfig_def Let_def)
qed

text \<open>Two routers that are consistent with the same disk route alike.\<close>

lemma consistent_same_table:
  assumes "consistent r d" "consistent r' d" "r_conf r' = r_conf r"
  shows "map_option (\<lambda>T. (t_Name T, t_ShardKey T, t_Partition T)) (get_table r' db t) =
     map_option (\<lambda>T. (t_Name T, t_ShardKey T, t_Partition T)) (get_table r db t)"
proof (cases "(db, t) \<in> disk_tables d")
  case True
  with assms have "synced r d db t" "synced r' d db t" by (auto simp: consistent_def synced_on_def)
  with assms(3) show ?thesis by (auto simp: synced_def)
next
  case False
  with assms have "(db, t) \<notin> mem_tables r" "(db, t) \<notin> mem_tables r'" by (auto simp: consistent_def)
  then show ?thesis by (simp add: mem_tables_def)
qed

lemma Router_Lookup_get_table:
  "Router_Lookup pf r db t a b =
     (if db = [] then Err (SQLError ER_NO_DB_ERROR []) else if t = [] then Err (SQLError ER_NO_SUCH_TABLE t)
      else if gm_get (r_Schemas r) db = None then Err (SQLError ER_BAD_DB_ERROR db)
      else case map_option t_Partition (get_table r db t) of
        None \<Rightarrow> Err (SQLError ER_NO_SUCH_TABLE t)
      | Some None \<Rightarrow> Panic ''nil pointer dereference''
      | Some (Some p) \<Rightarrow> Partition_Lookup pf p a b)"
  by (auto simp: Router_Lookup_def get_table_def partition_of_def split: option.splits)

lemma consistent_same_lookup:
  assumes "consistent r d" "consistent r' d" "r_conf r' = r_conf r"
  shows "Router_Lookup pf r' db t a b = Router_Lookup pf r db t a b"
proof -
  have "map_option t_Partition (get_table r' db t) = map_option t_Partition (get_table r db t)"
    using consistent_same_table [OF assms, of db t] by (auto simp: map_option_case split: option.splits)
  moreover have "gm_get (r_Schemas r') db = None \<longleftrightarrow> gm_get (r_Schemas r) db = None"
    using assms by (simp add: consistent_def synced_on_def dirs_agree_def)
  ultimately show ?thesis by (simp only: Router_Lookup_get_table)
qed

section \<open>Sequences of operations\<close>

text \<open>
  The states a router reaches from an empty metadata directory by data definition operations that
  succeed, and by \<open>CreateDatabase\<close> however it ends.
\<close>

inductive ddl_step :: "Router \<times> Disk \<Rightarrow> Router \<times> Disk \<Rightarrow> bool" where
  create_db: "CreateDatabase env r d db = (s', x) \<Longrightarrow> ddl_step (r, d) s'"
| drop_db: "DropDatabase env r d db = (s', Ok u) \<Longrightarrow> ddl_step (r, d) s'"
| create_plain: "CreateNonPartTable env r d db t ty bs ex = (s', Ok u) \<Longrightarrow> ddl_step (r, d) s'"
| create_hash: "CreateHashTable env r d db t key ty bs pn ex = (s', Ok u) \<Longrightarrow> ddl_step (r, d) s'"
| create_list: "CreateListTable rng env r d db t key ty defs ex = (s', Ok u) \<Longrightarrow> ddl_step (r, d) s'"
| drop_table: "DropTable env r d db t = (s', Ok u) \<Longrightarrow> ddl_step (r, d) s'"
| rename_table: "RenameTable env env' r d db t t' = (s', Ok u) \<Longrightarrow> ddl_step (r, d) s'"
| shift_rule: "PartitionRuleShift env r d b b' db pt = (s', Ok u) \<Longrightarrow> ddl_step (r, d) s'"

inductive_cases ddl_stepE: "ddl_step (r, d) s'"

inductive ddl_reach :: "RouterConfig \<Rightarrow> Router \<Rightarrow> Disk \<Rightarrow> bool" for rc where
  init: "ddl_reach rc (NewRouter rc) []"
| step: "ddl_reach rc r d \<Longrightarrow> ddl_step (r, d) (r', d') \<Longrightarrow> ddl_reach rc r' d'"

lemma ddl_step_consistent: "ddl_step (r, d) (r', d') \<Longrightarrow> consistent r d \<Longrightarrow> consistent r' d'"
proof (erule ddl_stepE)
  fix env db t ty bs ex u
  assume con: "consistent r d" and c: "CreateNonPartTable env r d db t ty bs ex = ((r', d'), Ok u)"
  show "consistent r' d'"
    by (rule create_with_consistent [OF con c [unfolded CreateNonPartTable_def]])
      (auto simp: unsupported_type_def dest: PlainUniform_name split: if_splits)
next
  fix env db t key ty bs pn ex u
  assume con: "consistent r d" and c: "CreateHashTable env r d db t key ty bs pn ex = ((r', d'), Ok u)"
  show "consistent r' d'"
    by (rule create_with_consistent [OF con c [unfolded CreateHashTable_def]])
      (auto simp: unsupported_type_def dest: HashUniform_name split: if_splits)
next
  fix rng env db t key ty defs ex u
  assume con: "consistent r d" and c: "CreateListTable rng env r d db t key ty defs ex = ((r', d'), Ok u)"
  show "consistent r' d'"
    by (rule create_with_consistent [OF con c [unfolded CreateListTable_def]])
      (auto simp: unsupported_type_def dest: ListUniform_name split: if_splits)
qed (auto intro: CreateDatabase_consistent DropDatabase_consistent DropTable_consistent
    RenameTable_consistent PartitionRuleShift_consistent)

lemma ddl_reach_consistent: "ddl_reach rc r d \<Longrightarrow> consistent r d"
  by (induction rule: ddl_reach.induct) (auto intro: consistent_NewRouter ddl_step_consistent)

end
