(* ===== verification/Router_Props.thy ===== *)
theory Router_Props
  imports Frm_Sync
begin

text \<open>
  What the router guarantees to the planner and across a restart, stated over its operations. The
  examples work on the router \<open>demo_router\<close>, which has the database \<open>db\<close> and the default configuration.
\<close>

section \<open>Examples\<close>

definition demo_rc :: RouterConfig where
  "demo_rc = \<lparr>rc_Slots = 8, rc_Blocks = 2\<rparr>"

definition demo_router :: Router where
  "demo_router = fst (addDatabase (NewRouter demo_rc) ''db'')"

definition demo_disk :: Disk where
  "demo_disk = [(''db'', [])]"

definition key_int :: "string \<Rightarrow> SQLVal" where
  "key_int s = \<lparr>sv_Type = IntVal, sv_Val = s\<rparr>"

lemma demo_create_db: "CreateDatabase env_fine (NewRouter demo_rc) [] ''db'' = ((demo_router, demo_disk), Ok ())"
  by code_simp

lemma demo_reach: "ddl_reach demo_rc demo_router demo_disk"
  by (rule ddl_reach.step [OF ddl_reach.init ddl_step.create_db [OF demo_create_db]])

lemma demo_consistent: "consistent demo_router demo_disk"
  by (rule ddl_reach_consistent [OF demo_reach])

section \<open>The jump hash\<close>

text \<open>
  C23. The jump hash places every key in range, and growing the number of buckets by one moves a key
  only to the new bucket.
\<close>

theorem jump_Hash_consistent:
  assumes "0 < sint n" "sint n < 2 ^ 31 - 1"
  shows "int (jump_Hash key n) < sint n \<and>
     (jump_Hash key (n + 1) = jump_Hash key n \<or> int (jump_Hash key (n + 1)) = sint n)"
proof -
  have "sint (n + 1) = sint n + 1" by (rule sint_succ) (rule assms(2))
  with assms jump_Hash_range [of key n] jump_loop_grow [OF assms(2), of key 0 0] show ?thesis
    by (simp add: jump_Hash_def)
qed

theorem jump_Hash_consistent_witness:
  "int (jump_Hash 7 8) < 8 \<and> (jump_Hash 7 (8 + 1) = jump_Hash 7 8 \<or> int (jump_Hash 7 (8 + 1)) = 8)"
  using jump_Hash_consistent [of 8 7] by simp

section \<open>Creating tables\<close>

text \<open>The table a successful creation registers.\<close>

lemma create_with_table:
  assumes "create_with env r d db table (Ok tc) extra = ((r', d'), Ok u)"
    "tc' = (case extra of None \<Rightarrow> tc | Some a \<Rightarrow> tc\<lparr>tc_AutoIncrement := a\<rparr>)"
  shows "\<exists>p. build_partition (r_conf r) tc' = Ok p \<and> db \<noteq> [] \<and>
     get_table r' db (tc_Name tc) = Some \<lparr>t_Name = tc_Name tc, t_ShardKey = tc_ShardKey tc, t_Partition = Some p, t_TableConfig = length (r_heap r)\<rparr>"
proof -
  let ?r = "r\<lparr>r_heap := r_heap r @ [tc']\<rparr>"
  have "createTable env ?r d db table (length (r_heap r)) = ((r', d'), Ok u)"
    using assms by (simp add: create_with_def alloc_conf_def Let_def)
  from createTable_Ok [OF this] have add: "addTable ?r db (Some (length (r_heap r))) = (r', Ok ())" by simp
  have "tc_Name tc' = tc_Name tc" "tc_ShardKey tc' = tc_ShardKey tc" using assms(2) by (simp_all split: option.splits)
  with addTable_Ok [OF add] show ?thesis by (auto simp: new_table_def)
qed

lemma Hash_Build_conf_auto:
  "Hash_Build (NewHash n (tc\<lparr>tc_AutoIncrement := a\<rparr>)) = Ok h' \<Longrightarrow>
     \<exists>h. Hash_Build (NewHash n tc) = Ok h \<and> h_slots h' = h_slots h \<and> h_partitions h' = h_partitions h \<and> h_Segments h' = h_Segments h"
  by (auto simp: Hash_Build_def NewHash_def res_simps split: if_splits prod.splits)

lemma HashUniform_Ok:
  assumes "HashUniform rc table key backends pn = Ok tc"
  shows "table \<noteq> [] \<and> key \<noteq> [] \<and> backends \<noteq> [] \<and> int (length backends) < rc_Slots rc \<and>
     tc_Name tc = table \<and> tc_ShardType tc = ''HASH'' \<and> tc_Slots tc = rc_Slots rc"
  using assms by (auto simp: HashUniform_def Let_def res_simps split: if_splits)

lemma hash_ok_cong:
  "h_slots h' = h_slots h \<Longrightarrow> h_partitions h' = h_partitions h \<Longrightarrow> h_Segments h' = h_Segments h \<Longrightarrow> hash_ok h' = hash_ok h"
  by (simp add: hash_ok_def hash_inv_def)

text \<open>The partition of a table that was created with enough room is a complete hash layout.\<close>

lemma CreateHashTable_table:
  assumes create: "CreateHashTable env r d db table key ''hash'' backends pn extra = ((r', d'), Ok u)"
    and blocks: "uniform_blocks (r_conf r) pn = Ok blocks" "0 < blocks"
      "blocks \<le> rc_Slots (r_conf r) div int (length backends)" "rc_Slots (r_conf r) < 2 ^ 31"
  shows "\<exists>T h. db \<noteq> [] \<and> table \<noteq> [] \<and> get_table r' db table = Some T \<and> t_Partition T = Some (PHash h) \<and> hash_ok h"
proof -
  from create obtain tc where tc: "HashUniform (r_conf r) table key backends pn = Ok tc"
    and cw: "create_with env r d db table (Ok tc) extra = ((r', d'), Ok u)"
    by (cases "HashUniform (r_conf r) table key backends pn") (auto simp: CreateHashTable_def create_with_def)
  note shape = HashUniform_Ok [OF tc]
  from HashUniform_builds [of table key "r_conf r" pn blocks backends] shape blocks tc obtain h0
    where h0: "Hash_Build (NewHash (tc_Slots tc) tc) = Ok h0" "hash_ok h0" by auto
  define tc' where "tc' = (case extra of None \<Rightarrow> tc | Some a \<Rightarrow> tc\<lparr>tc_AutoIncrement := a\<rparr>)"
  from create_with_table [OF cw tc'_def] shape obtain p
    where p: "build_partition (r_conf r) tc' = Ok p" "db \<noteq> []"
      and T: "\<exists>T. get_table r' db table = Some T \<and> t_Partition T = Some p" by auto
  have "tc_ShardType tc' = ''HASH''" "tc_Slots tc' = tc_Slots tc" "tc_Slots tc \<noteq> 0"
    using shape by (auto simp: tc'_def split: option.splits)
  with p(1) obtain h where h: "Hash_Build (NewHash (tc_Slots tc) tc') = Ok h" "p = PHash h"
    by (auto simp: build_partition_def res_simps)
  have "hash_ok h"
  proof (cases extra)
    case None
    with h h0 show ?thesis by (simp add: tc'_def)
  next
    case (Some a)
    with h(1) h0(1) Hash_Build_conf_auto [of "tc_Slots tc" a tc h]
    have "h_slots h = h_slots h0" "h_partitions h = h_partitions h0" "h_Segments h = h_Segments h0" by (auto simp: tc'_def)
    with h0(2) show ?thesis using hash_ok_cong [of h h0] by simp
  qed
  with T h p(2) shape show ?thesis by blast
qed

text \<open>
  C6. A hash table created over backends that leave room for at least one block each is complete: a
  key with a valid literal has an index, exactly one segment of the table covers that slot, a point
  lookup returns this segment alone, and the index of an insert leads to the same segment.
\<close>

theorem CreateHashTable_routes:
  assumes create: "CreateHashTable env r d db table key ''hash'' backends pn extra = ((r', d'), Ok u)"
    and blocks: "uniform_blocks (r_conf r) pn = Ok blocks" "0 < blocks"
      "blocks \<le> rc_Slots (r_conf r) div int (length backends)" "rc_Slots (r_conf r) < 2 ^ 31"
    and index: "Router_GetIndex pf r' db table v = Ok i"
  shows "\<exists>s segs. Router_Lookup pf r' db table None None = Ok segs \<and> s \<in> set segs \<and> in_seg i s \<and>
     (\<forall>t \<in> set segs. in_seg i t \<longrightarrow> t = s) \<and>
     Router_Lookup pf r' db table (Some v) (Some v) = Ok [s] \<and> Router_GetSegments r' db table [i] = Ok [s]"
proof -
  from CreateHashTable_table [OF create blocks] obtain T h where T: "db \<noteq> []" "table \<noteq> []" "get_table r' db table = Some T"
    "t_Partition T = Some (PHash h)" and h: "hash_ok h" by blast
  have get: "getTable r' db table = Ok T" using T by (simp add: getTable_get_table)
  have schema: "gm_get (r_Schemas r') db \<noteq> None" using T(3) by (auto simp: get_table_def split: option.splits)
  have look: "Router_Lookup pf r' db table a b = Hash_Lookup pf h a b" for a b
    using T schema by (auto simp: Router_Lookup_get_table)
  have idx: "Hash_GetIndex pf h v = Ok i" using index get T(4) by (simp add: Router_GetIndex_def partition_of_def)
  from h have "0 < h_slots h" "h_slots h < 2 ^ 31" by (simp_all add: hash_ok_def)
  from Hash_GetIndex_range [OF this idx] have range: "0 \<le> i" "i < h_slots h" by simp_all
  note slot = hash_ok_index_slot [OF h idx]
  have "hash_inv h" using h by (simp add: hash_ok_def)
  then have "\<forall>t \<in> set (h_Segments h). in_seg i t \<longrightarrow> t = hash_slot h i"
    using slot hash_inv_disjoint by blast
  moreover have "Router_GetSegments r' db table [i] = Ok [hash_slot h i]"
    using get T(4) range by (simp add: Router_GetSegments_def partition_of_def Hash_GetSegment_def)
  ultimately show ?thesis using slot idx by (auto simp: look Hash_Lookup_def)
qed

definition demo_hash :: Router where
  "demo_hash = fst (fst (CreateHashTable env_fine demo_router demo_disk ''db'' ''t'' ''id'' ''hash'' [''b1'', ''b2''] None None))"

lemma demo_hash_create:
  "\<exists>d'. CreateHashTable env_fine demo_router demo_disk ''db'' ''t'' ''id'' ''hash'' [''b1'', ''b2''] None None = ((demo_hash, d'), Ok ())"
proof -
  have "snd (CreateHashTable env_fine demo_router demo_disk ''db'' ''t'' ''id'' ''hash'' [''b1'', ''b2''] None None) = Ok ()" by code_simp
  then show ?thesis unfolding demo_hash_def by (metis prod.collapse)
qed

lemma demo_blocks: "uniform_blocks (r_conf demo_router) None = Ok 2" "(0 :: int) < 2"
  "(2 :: int) \<le> rc_Slots (r_conf demo_router) div int (length [''b1'', ''b2''])" "rc_Slots (r_conf demo_router) < 2 ^ 31"
  by code_simp+

lemma demo_hash_index: "\<exists>i. Router_GetIndex pf demo_hash ''db'' ''t'' (key_int ''42'') = Ok i"
proof -
  obtain d' where c: "CreateHashTable env_fine demo_router demo_disk ''db'' ''t'' ''id'' ''hash'' [''b1'', ''b2''] None None = ((demo_hash, d'), Ok ())"
    using demo_hash_create by blast
  from CreateHashTable_table [OF c demo_blocks] obtain T h where "get_table demo_hash ''db'' ''t'' = Some T" "t_Partition T = Some (PHash h)"
    by blast
  moreover have "parse_int0 ''42'' = Some 42"
    by (simp add: parse_int0_def split_sign_def base_digit_def digit_of_def Let_def)
  ultimately show ?thesis
    by (simp add: Router_GetIndex_def getTable_get_table partition_of_def Hash_GetIndex_def key_int_def
        getTable_get_table [THEN iffD2])
qed

theorem CreateHashTable_routes_witness:
  "\<exists>s segs. Router_Lookup (\<lambda>_. None) demo_hash ''db'' ''t'' None None = Ok segs \<and> s \<in> set segs \<and>
     Router_Lookup (\<lambda>_. None) demo_hash ''db'' ''t'' (Some (key_int ''42'')) (Some (key_int ''42'')) = Ok [s]"
proof -
  obtain d' where "CreateHashTable env_fine demo_router demo_disk ''db'' ''t'' ''id'' ''hash'' [''b1'', ''b2''] None None = ((demo_hash, d'), Ok ())"
    using demo_hash_create by blast
  moreover obtain i where "Router_GetIndex (\<lambda>_. None) demo_hash ''db'' ''t'' (key_int ''42'') = Ok i"
    using demo_hash_index by blast
  ultimately show ?thesis using CreateHashTable_routes [OF _ demo_blocks, of env_fine demo_disk] by simp blast
qed

section \<open>Restart\<close>

lemma addTable_conf: "addTable r db a = (r', x) \<Longrightarrow> r_conf r' = r_conf r"
  by (auto simp: addTable_def Let_def split: res.splits option.splits)

lemma removeTable_conf: "removeTable r db t = (r', x) \<Longrightarrow> r_conf r' = r_conf r"
  by (auto simp: removeTable_def split: option.splits)

lemma createTable_conf: "createTable env r d db t a = ((r', d'), Ok u) \<Longrightarrow> r_conf r' = r_conf r"
  using createTable_Ok [of env r d db t a r' d' u] addTable_conf by blast

lemma create_with_conf: "create_with env r d db t c ex = ((r', d'), Ok u) \<Longrightarrow> r_conf r' = r_conf r"
  by (cases c) (auto simp: create_with_def alloc_conf_def Let_def dest: createTable_conf)

lemma DropTable_conf: "DropTable env r d db t = ((r', d'), Ok u) \<Longrightarrow> r_conf r' = r_conf r"
  using DropTable_Ok by fastforce

lemma RenameTable_conf:
  assumes "RenameTable env env' r d db t t' = ((r', d'), Ok u)"
  shows "r_conf r' = r_conf r"
proof -
  from assms obtain r1 a r2 d2 where "getRenameTableConfig r db t t' = (r1, Ok a)"
    "createTable env r1 d db t' a = ((r2, d2), Ok ())" "DropTable env' r2 d2 db t = ((r', d'), Ok u)"
    by (auto simp: RenameTable_def split: prod.splits res.splits)
  then show ?thesis using rename_Ok createTable_conf DropTable_conf by (fastforce simp: set_conf_def)
qed

lemma PartitionRuleShift_conf:
  assumes "PartitionRuleShift env r d b b' db pt = ((r', d'), Ok u)"
  shows "r_conf r' = r_conf r"
proof -
  from assms obtain r1 table where ch: "changeTheRuleBackend env r d b b' db pt = ((r1, d'), Ok table)"
    and rf: "RefreshTable env r1 d' db table = (r', Ok ())"
    by (auto simp: PartitionRuleShift_def split: prod.splits res.splits)
  from changeTheRuleBackend_Ok [OF ch] have "r_conf r1 = r_conf r" by (auto simp: set_conf_def)
  moreover from rf have "r_conf r' = r_conf r1"
    by (auto simp: RefreshTable_def loadTable_def loadTableFromFile_def alloc_conf_def
        dest!: removeTable_conf addTable_conf split: prod.splits res.splits)
  ultimately show ?thesis by simp
qed

lemma ddl_step_conf: "ddl_step (r, d) (r', d') \<Longrightarrow> r_conf r' = r_conf r"
  by (erule ddl_stepE)
    (auto simp: CreateDatabase_def DropDatabase_def addDatabase_def dropDatabase_def CreateNonPartTable_def CreateHashTable_def
      CreateListTable_def dest: create_with_conf DropTable_conf RenameTable_conf PartitionRuleShift_conf
      split: if_splits option.splits res.splits prod.splits)

lemma ddl_reach_conf: "ddl_reach rc r d \<Longrightarrow> r_conf r = rc"
  by (induction rule: ddl_reach.induct) (auto simp: NewRouter_def dest: ddl_step_conf)

text \<open>
  C7. After any sequence of data definition statements, a restart that can read the metadata directory
  loads it without error into a router that answers every lookup as the old one did, and the metadata
  on disk again agrees with it.
\<close>

theorem restart_same_routing:
  assumes reach: "ddl_reach rc r d" and env: "\<And>x. env_readdir env x" "\<And>x y. env_readfile env x y"
  shows "\<exists>r'. LoadConfig env (NewRouter rc) (Some d) = ((r', Some d), Ok ()) \<and> consistent r' d \<and>
     (\<forall>pf db t a b. Router_Lookup pf r' db t a b = Router_Lookup pf r db t a b)"
proof -
  have con: "consistent r d" by (rule ddl_reach_consistent [OF reach])
  have conf: "r_conf (NewRouter rc) = r_conf r" using ddl_reach_conf [OF reach] by (simp add: NewRouter_def)
  from LoadConfig_consistent [OF con conf env] obtain r'
    where r': "LoadConfig env (NewRouter rc) (Some d) = ((r', Some d), Ok ())" "r_conf r' = r_conf r" "consistent r' d" by blast
  with consistent_same_lookup [OF con] show ?thesis by blast
qed

theorem restart_same_routing_witness:
  "\<exists>d' r'. ddl_reach demo_rc demo_hash d' \<and> LoadConfig env_fine (NewRouter demo_rc) (Some d') = ((r', Some d'), Ok ()) \<and>
     (\<forall>pf a b. Router_Lookup pf r' ''db'' ''t'' a b = Router_Lookup pf demo_hash ''db'' ''t'' a b)"
proof -
  obtain d' where "CreateHashTable env_fine demo_router demo_disk ''db'' ''t'' ''id'' ''hash'' [''b1'', ''b2''] None None = ((demo_hash, d'), Ok ())"
    using demo_hash_create by blast
  then have reach: "ddl_reach demo_rc demo_hash d'"
    by (rule ddl_reach.step [OF demo_reach ddl_step.create_hash])
  from restart_same_routing [OF this, of env_fine] show ?thesis using reach by (auto simp: env_fine_def)
qed



section \<open>Reading back\<close>

text \<open>
  For every partition method, the segments of a list of indexes are exactly the segments of those
  indexes, each once, and all of them are segments of the table.
\<close>

theorem GetSegments_exact:
  assumes "getTable r db t = Ok T" "t_Partition T = Some p" "Partition_ok p" "indexes \<noteq> []"
    and "Router_GetSegments r db t indexes = Ok segs"
  shows "distinct segs \<and> set segs = {s. \<exists>i \<in> set indexes. Partition_GetSegment p i = Ok s} \<and>
     set segs \<subseteq> set (Partition_GetSegments p)"
proof -
  have "pick_segments (Partition_GetSegment p) indexes [] = Ok segs"
    using assms by (simp add: Router_GetSegments_def partition_of_def)
  from any_method.pick_exact [OF assms(3) this] any_method.segment_in [OF assms(3)] show ?thesis by blast
qed

text \<open>A global table over two backends.\<close>

definition demo_global :: Router where
  "demo_global = fst (fst (CreateNonPartTable env_fine demo_router demo_disk ''db'' ''g'' ''global'' [''b1'', ''b2''] None))"

definition demo_global_table :: Table where
  "demo_global_table = (case get_table demo_global ''db'' ''g'' of Some T \<Rightarrow> T | None \<Rightarrow> \<lparr>t_Name = [], t_ShardKey = [], t_Partition = None, t_TableConfig = 0\<rparr>)"

definition demo_global_part :: Partition where
  "demo_global_part = (case t_Partition demo_global_table of Some p \<Rightarrow> p | None \<Rightarrow> PHash (NewHash 0 (conf_at demo_global 0)))"

lemma demo_global_facts:
  "getTable demo_global ''db'' ''g'' = Ok demo_global_table" "t_Partition demo_global_table = Some demo_global_part"
  "Partition_ok demo_global_part"
proof -
  have "case demo_global_part of PGlobal g \<Rightarrow> segs_inv (g_Segments g) | _ \<Rightarrow> False" by code_simp
  then obtain g where "demo_global_part = PGlobal g" "segs_inv (g_Segments g)" by (auto split: Partition.splits)
  then show "Partition_ok demo_global_part" by (metis Partition_ok.simps(2))
qed code_simp+

theorem GetSegments_exact_witness:
  "\<exists>segs. Router_GetSegments demo_global ''db'' ''g'' [0, 1, 0] = Ok segs \<and> distinct segs \<and> length segs = 2 \<and>
     set segs = {s. \<exists>i \<in> set [0, 1, 0]. Partition_GetSegment demo_global_part i = Ok s}"
proof -
  have "is_ok (Router_GetSegments demo_global ''db'' ''g'' [0, 1, 0])"
    "rbind (Router_GetSegments demo_global ''db'' ''g'' [0, 1, 0]) (\<lambda>segs. Ok (length segs)) = Ok 2" by code_simp+
  then obtain segs where "Router_GetSegments demo_global ''db'' ''g'' [0, 1, 0] = Ok segs" "length segs = 2"
    by (auto simp: res_simps)
  with GetSegments_exact [OF demo_global_facts, of "[0, 1, 0]" segs] show ?thesis by simp
qed



section \<open>Renaming a table and shifting a rule\<close>

text \<open>
  C26. A rename that succeeds removes the old name, gives the new name the renamed configuration, the
  partition built from it and the old shard key, and leaves every other table as it was.
\<close>

theorem RenameTable_effect:
  assumes con: "consistent r d" and c: "RenameTable env env' r d db fromTable toTable = ((r', d'), Ok u)"
  shows "\<exists>T p. get_table r db fromTable = Some T \<and>
     (let conf = rename_conf fromTable toTable (conf_at r (t_TableConfig T)) in
      build_partition (r_conf r) conf = Ok p \<and>
      (\<forall>db' t. get_table r' db' t =
         (if (db', t) = (db, fromTable) then None
          else if (db', t) = (db, toTable)
          then Some \<lparr>t_Name = toTable, t_ShardKey = t_ShardKey T, t_Partition = Some p, t_TableConfig = t_TableConfig T\<rparr>
          else get_table r db' t)) \<and>
      disk_file d' db (frm_file toTable) = Some (Json conf) \<and> disk_file d' db (frm_file fromTable) = None)"
proof -
  from c obtain r1 a r2 d2 where ren: "getRenameTableConfig r db fromTable toTable = (r1, Ok a)"
    and cr: "createTable env r1 d db toTable a = ((r2, d2), Ok ())"
    and dr: "DropTable env' r2 d2 db fromTable = ((r', d'), Ok u)"
    by (auto simp: RenameTable_def split: prod.splits res.splits)
  from rename_Ok [OF ren] obtain T where T: "get_table r db fromTable = Some T" "a = t_TableConfig T"
    "get_table r db toTable = None" and r1: "r1 = set_conf r a (rename_conf fromTable toTable (conf_at r a))" by blast
  let ?conf = "rename_conf fromTable toTable (conf_at r a)"
  have "synced r d db fromTable" using con T(1) by (auto simp: consistent_def synced_on_def mem_tables_def)
  then have a: "a < length (r_heap r)" "t_ShardKey T = tc_ShardKey (conf_at r a)"
    using T by (auto simp: synced_def)
  then have conf: "conf_at r1 a = ?conf" "tc_Name ?conf = toTable" "tc_ShardKey ?conf = t_ShardKey T"
    by (simp_all add: r1 set_conf_def rename_conf_def)
  have ne: "fromTable \<noteq> toTable" using T by auto
  from createTable_Ok [OF cr] have add: "addTable r1 db (Some a) = (r2, Ok ())"
    and d2: "gm_get d db \<noteq> None" "d2 = put_file db (frm_file toTable) (Json ?conf) d" by (auto simp: conf)
  from addTable_Ok [OF add] obtain p where p: "build_partition (r_conf r1) ?conf = Ok p"
    and get: "\<And>db' t. get_table r2 db' t = (if (db', t) = (db, toTable) then Some (new_table r1 a p) else get_table r1 db' t)"
    unfolding conf by auto
  have same: "get_table r1 db' t = get_table r db' t" "r_conf r1 = r_conf r" for db' t by (simp_all add: r1 set_conf_def)
  have new: "new_table r1 a p = \<lparr>t_Name = toTable, t_ShardKey = t_ShardKey T, t_Partition = Some p, t_TableConfig = t_TableConfig T\<rparr>"
    using conf T(2) by (simp add: new_table_def)
  from DropTable_Ok [OF dr] have r': "r' = upd_tables r2 db (gm_del fromTable)" "d' = del_file db (frm_file fromTable) d2" by simp_all
  have "get_table r' db' t = (if (db', t) = (db, fromTable) then None else get_table r2 db' t)" for db' t
    by (auto simp: r' get_table_def upd_tables_def gomap_simps split: option.splits)
  with get same new ne p have "(\<forall>db' t. get_table r' db' t =
         (if (db', t) = (db, fromTable) then None
          else if (db', t) = (db, toTable)
          then Some \<lparr>t_Name = toTable, t_ShardKey = t_ShardKey T, t_Partition = Some p, t_TableConfig = t_TableConfig T\<rparr>
          else get_table r db' t))" "build_partition (r_conf r) ?conf = Ok p" by auto
  moreover have "disk_file d' db (frm_file toTable) = Some (Json ?conf)" "disk_file d' db (frm_file fromTable) = None"
    using d2 ne by (simp_all add: r' router_simps)
  ultimately show ?thesis using T by (auto simp: Let_def)
qed

theorem RenameTable_effect_witness:
  "\<exists>r' d' T p. RenameTable env_fine env_fine demo_global (snd (fst (CreateNonPartTable env_fine demo_router demo_disk ''db'' ''g'' ''global'' [''b1'', ''b2''] None))) ''db'' ''g'' ''h'' = ((r', d'), Ok ()) \<and>
     get_table r' ''db'' ''g'' = None \<and> get_table r' ''db'' ''h'' = Some T \<and> t_Partition T = Some p"
proof -
  let ?d = "snd (fst (CreateNonPartTable env_fine demo_router demo_disk ''db'' ''g'' ''global'' [''b1'', ''b2''] None))"
  have "snd (CreateNonPartTable env_fine demo_router demo_disk ''db'' ''g'' ''global'' [''b1'', ''b2''] None) = Ok ()" by code_simp
  then have "CreateNonPartTable env_fine demo_router demo_disk ''db'' ''g'' ''global'' [''b1'', ''b2''] None = ((demo_global, ?d), Ok ())"
    unfolding demo_global_def by (metis prod.collapse)
  then have con: "consistent demo_global ?d"
    by (rule ddl_reach_consistent [OF ddl_reach.step [OF demo_reach ddl_step.create_plain]])
  have "snd (RenameTable env_fine env_fine demo_global ?d ''db'' ''g'' ''h'') = Ok ()" by code_simp
  then obtain r' d' where c: "RenameTable env_fine env_fine demo_global ?d ''db'' ''g'' ''h'' = ((r', d'), Ok ())" by (metis prod.collapse)
  from RenameTable_effect [OF con c] obtain T :: Table and p where "\<forall>db' t. get_table r' db' t =
         (if (db', t) = (''db'', ''g'') then None
          else if (db', t) = (''db'', ''h'')
          then Some \<lparr>t_Name = ''h'', t_ShardKey = t_ShardKey T, t_Partition = Some p, t_TableConfig = t_TableConfig T\<rparr>
          else get_table demo_global db' t)" unfolding Let_def by blast
  then have "get_table r' ''db'' ''g'' = None"
    "get_table r' ''db'' ''h'' = Some \<lparr>t_Name = ''h'', t_ShardKey = t_ShardKey T, t_Partition = Some p, t_TableConfig = t_TableConfig T\<rparr>" by simp_all
  with c show ?thesis by fastforce
qed

end
