(* ===== verification/Ddl_Props.thy ===== *)
theory Ddl_Props
  imports Router_Props
begin

text \<open>
  The effect of the remaining data definition operations: list tables, rule shifts, failures, and the
  access check.
\<close>

section \<open>List tables\<close>

lemma ListUniform_Ok:
  assumes "ListUniform rng table key defs = Ok tc"
  shows "table \<noteq> [] \<and> tc_Name tc = table \<and> tc_ShardType tc = ''LIST''"
  using assms by (auto simp: ListUniform_def res_simps plain_tableConf_def split: if_splits)

lemma List_Build_conf_auto:
  "List_Build (NewList tc) = Ok l \<Longrightarrow>
     \<exists>l'. List_Build (NewList (tc\<lparr>tc_AutoIncrement := a\<rparr>)) = Ok l' \<and> l_Segments l' = l_Segments l"
  by (auto simp: List_Build_def NewList_def)

text \<open>
  C25. In a list table, every value of a partition definition is routed to the one segment of that value,
  on the backend the definition names, in whatever order the map of values is visited.
\<close>

theorem CreateListTable_routes:
  assumes rng: "\<And>m. mset (rng m) = mset m"
    and create: "CreateListTable rng env r d db table key ''list'' defs extra = ((r', d'), Ok u)"
    and v: "pd \<in> set defs" "Some v \<in> set (pd_Row pd)"
  shows "\<exists>s. Router_Lookup pf r' db table (Some v) (Some v) = Ok [s] \<and>
     seg_Backend s = pd_Backend pd \<and> seg_ListValue s = sv_Val v"
proof -
  from create obtain tc where tc: "ListUniform rng table key defs = Ok tc"
    and cw: "create_with env r d db table (Ok tc) extra = ((r', d'), Ok u)"
    by (cases "ListUniform rng table key defs") (auto simp: CreateListTable_def create_with_def)
  note shape = ListUniform_Ok [OF tc]
  from ListUniform_lookup [OF rng tc v] obtain l s where l: "List_Build (NewList tc) = Ok l"
    and s: "List_Lookup l (Some v) (Some v) = Ok [s]" "seg_Backend s = pd_Backend pd" "seg_ListValue s = sv_Val v" by blast
  define tc' where "tc' = (case extra of None \<Rightarrow> tc | Some a \<Rightarrow> tc\<lparr>tc_AutoIncrement := a\<rparr>)"
  from create_with_table [OF cw tc'_def] shape obtain p T
    where p: "build_partition (r_conf r) tc' = Ok p" "db \<noteq> []"
      and T: "get_table r' db table = Some T" "t_Partition T = Some p" by auto
  obtain l' where l': "List_Build (NewList tc') = Ok l'" "l_Segments l' = l_Segments l"
    using l List_Build_conf_auto [OF l] by (cases extra) (auto simp: tc'_def)
  have "tc_ShardType tc' = ''LIST''" using shape by (simp add: tc'_def split: option.splits)
  with p(1) l' have "p = PList l'" by (simp add: build_partition_def)
  moreover have "List_Lookup l' a b = List_Lookup l a b" for a b
    using l'(2) by (simp add: List_Lookup_def List_GetIndex_def split: option.split)
  ultimately have "Router_Lookup pf r' db table (Some v) (Some v) = Ok [s]"
    using T p(2) shape s(1) by (auto simp: Router_Lookup_get_table get_table_def split: option.splits)
  with s show ?thesis by blast
qed

definition demo_defs :: "PartitionDefinition list" where
  "demo_defs = [\<lparr>pd_Backend = ''b1'', pd_Row = [Some (key_int ''1''), Some (key_int ''2'')]\<rparr>,
     \<lparr>pd_Backend = ''b2'', pd_Row = [Some (key_int ''3'')]\<rparr>]"

theorem CreateListTable_routes_witness:
  "\<exists>s. Router_Lookup (\<lambda>_. None) (fst (fst (CreateListTable rev env_fine demo_router demo_disk ''db'' ''l'' ''id'' ''list'' demo_defs None)))
      ''db'' ''l'' (Some (key_int ''3'')) (Some (key_int ''3'')) = Ok [s] \<and> seg_Backend s = ''b2''"
proof -
  have "snd (CreateListTable rev env_fine demo_router demo_disk ''db'' ''l'' ''id'' ''list'' demo_defs None) = Ok ()" by code_simp
  then obtain r' d' where c: "CreateListTable rev env_fine demo_router demo_disk ''db'' ''l'' ''id'' ''list'' demo_defs None = ((r', d'), Ok ())"
    by (metis prod.collapse)
  have "\<exists>s. Router_Lookup (\<lambda>_. None) r' ''db'' ''l'' (Some (key_int ''3'')) (Some (key_int ''3'')) = Ok [s] \<and>
     seg_Backend s = pd_Backend (demo_defs ! 1) \<and> seg_ListValue s = sv_Val (key_int ''3'')"
    by (rule CreateListTable_routes [OF _ c]) (simp_all add: demo_defs_def)
  moreover have "pd_Backend (demo_defs ! 1) = ''b2''" by (simp add: demo_defs_def)
  ultimately show ?thesis unfolding c fst_conv by metis
qed

section \<open>Rule shift\<close>

lemma find_part_Some:
  assumes "find_part b t k ps = Some i"
  shows "k \<le> i \<and> i < k + length ps \<and> pc_Backend (ps ! (i - k)) = b \<and> pc_Table (ps ! (i - k)) = t"
  using assms
proof (induction ps arbitrary: k)
  case (Cons p ps)
  show ?case
  proof (cases "pc_Backend p = b \<and> pc_Table p = t")
    case True
    with Cons.prems show ?thesis by simp
  next
    case False
    with Cons.prems Cons.IH [of "Suc k"] have "Suc k \<le> i \<and> i < Suc k + length ps \<and> pc_Backend (ps ! (i - Suc k)) = b \<and>
      pc_Table (ps ! (i - Suc k)) = t" by auto
    moreover have "i - k = Suc (i - Suc k)" using calculation by linarith
    ultimately show ?thesis by simp
  qed
qed simp


definition demo_single :: "unit step" where
  "demo_single = CreateNonPartTable env_fine demo_router demo_disk ''db'' ''s'' ''single'' [''b1''] None"


section \<open>Access control\<close>

text \<open>Exactly the system databases, in any case of letters, are refused.\<close>

theorem DatabaseACL_spec:
  "(DatabaseACL db = Ok () \<longleftrightarrow> to_upper db \<notin> set systemDatabases) \<and> (IsSystemDB db \<longleftrightarrow> to_upper db \<in> set systemDatabases)"
proof -
  have "gm_get NewDatabaseACL k = (if k \<in> set systemDatabases then Some k else None)" for k
    by (simp add: NewDatabaseACL_def systemDatabases_def gomap_simps)
  then show ?thesis by (simp add: DatabaseACL_def IsSystemDB_def ACL_Allow_def ACL_IsSystemDB_def)
qed

section \<open>Failures\<close>

text \<open>
  C40. A table whose partition cannot be built stays registered: the creation reports the error, but the
  table exists from then on, every lookup in it panics, and creating it again fails.
\<close>

theorem failed_build_stays:
  assumes "db \<noteq> []" "gm_get (r_Schemas r) db \<noteq> None" "tc_Name (conf_at r a) = t" "t \<noteq> []" "get_table r db t = None"
    and "build_partition (r_conf r) (conf_at r a) = Err e" "addTable r db (Some a) = (r', x)"
  shows "x = Err e \<and> CheckTable r' db t = Ok True \<and>
     Router_Lookup pf r' db t k1 k2 = Panic ''nil pointer dereference'' \<and> (\<exists>e'. addTable r' db (Some a) = (r', Err e'))"
proof -
  let ?T = "\<lparr>t_Name = t, t_ShardKey = tc_ShardKey (conf_at r a), t_Partition = None, t_TableConfig = a\<rparr>"
  have r': "r' = upd_tables r db (gm_put t ?T)" "x = Err e"
    using assms by (auto simp: addTable_def checkDatabase_def Let_def)
  have get: "get_table r' db t = Some ?T" "gm_get (r_Schemas r') db \<noteq> None"
    using assms(2) by (auto simp: r' router_simps gomap_simps)
  have "checkDatabase r' db = Ok ()" using assms(1) get by (simp add: res_simps)
  moreover have "conf_at r' a = conf_at r a" by (simp add: r')
  ultimately show ?thesis using assms get r'(2)
    by (auto simp: CheckTable_def Router_Lookup_get_table addTable_def Let_def)
qed

text \<open>
  The layout that triggers it: with eight slots in one block and two backends, every backend gets half a
  block and so no partition at all.
\<close>

definition narrow_router :: Router where
  "narrow_router = fst (alloc_conf (fst (addDatabase (NewRouter \<lparr>rc_Slots = 8, rc_Blocks = 8\<rparr>) ''db''))
     (case HashUniform \<lparr>rc_Slots = 8, rc_Blocks = 8\<rparr> ''t'' ''id'' [''b1'', ''b2''] None of Ok tc \<Rightarrow> tc | _ \<Rightarrow> plain_tableConf [] [] [] []))"

theorem failed_build_stays_witness:
  "is_ok (HashUniform \<lparr>rc_Slots = 8, rc_Blocks = 8\<rparr> ''t'' ''id'' [''b1'', ''b2''] None) \<and>
     CheckTable (fst (addTable narrow_router ''db'' (Some 0))) ''db'' ''t'' = Ok True \<and>
     Router_Lookup (\<lambda>_. None) (fst (addTable narrow_router ''db'' (Some 0))) ''db'' ''t'' None None = Panic ''nil pointer dereference''"
proof -
  have facts: "gm_get (r_Schemas narrow_router) ''db'' \<noteq> None" "tc_Name (conf_at narrow_router 0) = ''t''"
    "get_table narrow_router ''db'' ''t'' = None" "is_ok (HashUniform \<lparr>rc_Slots = 8, rc_Blocks = 8\<rparr> ''t'' ''id'' [''b1'', ''b2''] None)"
    "build_partition (r_conf narrow_router) (conf_at narrow_router 0) =
      Err (Errorf ''hash.partition.last.segment[%v].upper.bound.must.be[%v]'' [''0'', ''8''])" by code_simp+
  obtain r' x where add: "addTable narrow_router ''db'' (Some 0) = (r', x)" by fastforce
  from failed_build_stays [OF _ facts(1,2) _ facts(3,5) add] facts(4) show ?thesis by (simp add: add)
qed

end
