(* ===== verification/Planner_Props.thy ===== *)
theory Planner_Props
  imports Planner Ddl_Props
begin

text \<open>
  What the plans guarantee: a statement with a where clause is sent to the partition of every row that satisfies it, an
  insert puts every row into the one query of its partition, and a rename gives the partitions the names the router
  will look for.
\<close>

section \<open>Routing by a where clause\<close>

lemma map_filter_append [simp]: "List.map_filter f (xs @ ys) = List.map_filter f xs @ List.map_filter f ys"
  by (induction xs) (auto simp: List.map_filter_simps split: option.splits)

lemma walk_vals_simps [simp]:
  "walk_vals (AndExpr l r) = walk_vals l @ walk_vals r"
  "walk_vals (OrExpr l r) = walk_vals l @ walk_vals r"
  "walk_vals (ParenExpr e) = walk_vals e"
  "walk_vals (ComparisonExpr p l r None) = walk_vals l @ walk_vals r"
  "walk_vals (ComparisonExpr p l r (Some esc)) = walk_vals esc @ walk_vals l @ walk_vals r"
  "walk_vals (ColExpr c) = []" "walk_vals (ValExpr v) = [v]"
  by (simp_all add: walk_vals_def List.map_filter_simps)

lemma walk_vals_cmp: "set (walk_vals l) \<union> set (walk_vals r) \<subseteq> set (walk_vals (ComparisonExpr p l r esc))"
  by (cases esc) auto

lemma walk_vals_tuple: "walk_vals (ValTuple (map ValExpr vs)) = vs"
  by (induction vs) (simp_all add: walk_vals_def List.map_filter_simps)

lemma walk_list_mem: "ValExpr v \<in> set es \<Longrightarrow> v \<in> set (walk_vals (ValTuple es))"
  by (induction es) (auto simp: walk_vals_def List.map_filter_simps)

lemma walk_vals_skip [simp]: "walk_vals (skipParenthesis e) = walk_vals e"
  by (induction e rule: skipParenthesis.induct) auto

lemma split_and_vals: "f \<in> set (splitAndExpression fs e) \<Longrightarrow> f \<in> set fs \<or> set (walk_vals f) \<subseteq> set (walk_vals e)"
  by (induction fs e arbitrary: f rule: splitAndExpression.induct) (auto; blast)+

definition map_vals :: "in_map \<Rightarrow> SQLVal set" where
  "map_vals m = \<Union> (set ` snd ` set m)"

lemma in_append_vals: "map_vals (in_append c v m) \<subseteq> insert v (map_vals m)"
proof -
  have "set (gm_put k w m) \<subseteq> insert (k, w) (set m)" for k and w :: "SQLVal list"
    unfolding gm_put_def by (induction m) auto
  then show ?thesis
    unfolding in_append_def Let_def map_vals_def
    by (fastforce split: option.splits dest: gm_get_in_set)
qed

lemma split_or_cmp:
  assumes "splitOrExpression (ComparisonExpr p l r esc) m = (es, m')"
  shows "es = [ComparisonExpr p l r esc] \<and> m' = m \<or>
    (\<exists>c v. es = [] \<and> m' = in_append c v m \<and> (l = ValExpr v \<or> r = ValExpr v))"
  using assms by (auto simp: Let_def split: if_splits Expr.splits)

lemma split_or_vals:
  "splitOrExpression e m = (es, m') \<Longrightarrow>
     (\<Union>f \<in> set es. set (walk_vals f)) \<union> map_vals m' \<subseteq> set (walk_vals e) \<union> map_vals m"
proof (induction e m arbitrary: es m' rule: splitOrExpression.induct)
  case (1 l r m)
  obtain a m1 b m2 where a: "splitOrExpression l m = (a, m1)" and b: "splitOrExpression r m1 = (b, m2)"
    by (metis surj_pair)
  with "1.prems" have es: "es = a @ b" "m' = m2" by auto
  from "1.IH"(1) [OF a] "1.IH"(2) [OF a [symmetric] refl b] es show ?case by simp blast
next
  case (2 p l r esc m)
  from split_or_cmp [OF this] show ?case
  proof
    assume "\<exists>c v. es = [] \<and> m' = in_append c v m \<and> (l = ValExpr v \<or> r = ValExpr v)"
    then obtain c v where cv: "es = []" "m' = in_append c v m" "l = ValExpr v \<or> r = ValExpr v" by blast
    from cv(3) have "v \<in> set (walk_vals (ComparisonExpr p l r esc))"
      using walk_vals_cmp [of l r p esc] by auto
    with cv(1,2) in_append_vals [of c v m] show ?thesis by auto
  qed simp
qed auto

lemma or_all_vals: "or_all es = Some e \<Longrightarrow> set (walk_vals e) \<subseteq> (\<Union>f \<in> set es. set (walk_vals f))"
proof (induction es arbitrary: e rule: rev_induct)
  case (snoc f es)
  then show ?case by (cases "or_all es") (auto simp: or_all_def)
qed (simp add: or_all_def)

lemma convert_vals: "set (walk_vals (convertOrToIn e)) \<subseteq> set (walk_vals e)"
proof (cases "\<exists>l r. e = OrExpr l r")
  case True
  obtain es m where split: "splitOrExpression e [] = (es, m)" by (metis surj_pair)
  have "es @ map in_expr m \<noteq> []" using split_or_nonempty [OF split] by simp
  then obtain e' where e': "or_all (es @ map in_expr m) = Some e'"
    using or_all_truth [of "es @ map in_expr m"] by blast
  have "set (walk_vals (in_expr p)) = set (snd p)" for p
    by (cases p) (simp add: in_expr_def walk_vals_tuple)
  then have "set (walk_vals e') \<subseteq> (\<Union>f \<in> set es. set (walk_vals f)) \<union> map_vals m"
    using or_all_vals [OF e'] by (auto simp: map_vals_def; blast)
  also have "\<dots> \<subseteq> set (walk_vals e)" using split_or_vals [OF split] by (simp add: map_vals_def)
  finally show ?thesis using True split e' by auto
next
  case False
  then show ?thesis by (cases e) auto
qed

text \<open>In a sharded table a point lookup returns the one segment of the key's index.\<close>

definition sharded :: "Partition \<Rightarrow> bool" where
  "sharded p \<longleftrightarrow> (case p of PHash _ \<Rightarrow> True | PList _ \<Rightarrow> True | _ \<Rightarrow> False)"

lemma sharded_point:
  assumes "sharded p" "Partition_ok p" "Partition_Lookup pf p (Some v) (Some v) = Ok ss"
  shows "\<exists>i s. Partition_GetIndex pf p v = Ok i \<and> Partition_GetSegment p i = Ok s \<and> ss = [s]"
proof (cases p)
  case (PHash h)
  with assms obtain i where i: "Hash_GetIndex pf h v = Ok i" "ss = [hash_slot h i]"
    by (auto simp: Hash_Lookup_def res_simps)
  have "0 \<le> i \<and> i < h_slots h" using i(1) assms(2) PHash by (intro Hash_GetIndex_range) (auto simp: hash_ok_def)
  with i PHash show ?thesis by (simp add: Hash_GetSegment_def)
next
  case (PList l)
  with assms obtain i s where "List_GetIndex l v = Ok i" "segs_at (l_Segments l) i = Ok s" "ss = [s]"
    by (auto simp: List_Lookup_def res_simps)
  with PList show ?thesis by (auto simp: List_GetSegment_def segs_at_def split: if_splits)
qed (use assms in \<open>auto simp: sharded_def\<close>)

text \<open>A table of the router, its partition method and its shard key.\<close>

definition table_is :: "Router \<Rightarrow> string \<Rightarrow> string \<Rightarrow> Partition \<Rightarrow> string \<Rightarrow> bool" where
  "table_is r db t p sk \<longleftrightarrow>
     (\<exists>T. getTable r db t = Ok T \<and> t_Partition T = Some p \<and> t_ShardKey T = sk) \<and> Partition_ok p"

lemma table_is_simps:
  assumes "table_is r db t p sk"
  shows "Router_Lookup pf r db t a b = Partition_Lookup pf p a b"
    "Router_GetIndex pf r db t v = Partition_GetIndex pf p v"
    "idxs \<noteq> [] \<Longrightarrow> Router_GetSegments r db t idxs = pick_segments (Partition_GetSegment p) idxs []"
    "Router_GetSegments r db t [] = Ok (Partition_GetSegments p)"
    "ShardKey r db t = Ok sk" "PartitionType r db t = Ok (Partition_Type p)"
proof -
  from assms obtain T where T: "getTable r db t = Ok T" "t_Partition T = Some p" "t_ShardKey T = sk"
    by (auto simp: table_is_def)
  then have "db \<noteq> []" "t \<noteq> []" "get_table r db t = Some T" by (simp_all add: getTable_get_table)
  then show "Router_Lookup pf r db t a b = Partition_Lookup pf p a b"
    using T(2) by (auto simp: Router_Lookup_get_table get_table_def split: option.splits)
qed (use assms in \<open>auto simp: table_is_def Router_GetIndex_def Router_GetSegments_def ShardKey_def PartitionType_def partition_of_def\<close>)

lemma tuple_indexes_vals:
  "tuple_indexes pf r db t es idxs = Ok (Some ys) \<Longrightarrow>
     \<exists>vs js. es = map ValExpr vs \<and> ys = idxs @ js \<and> list_all2 (\<lambda>v i. Router_GetIndex pf r db t v = Ok i) vs js"
proof (induction pf r db t es idxs rule: tuple_indexes.induct)
  case (2 pf r db t v es idxs)
  from "2.prems" obtain i where i: "Router_GetIndex pf r db t v = Ok i"
    and rest: "tuple_indexes pf r db t es (idxs @ [i]) = Ok (Some ys)" by (auto simp: res_simps)
  from "2.IH" [OF rest] obtain vs js where vs: "es = map ValExpr vs" "ys = (idxs @ [i]) @ js"
    "list_all2 (\<lambda>v i. Router_GetIndex pf r db t v = Ok i) vs js" by blast
  from vs i have "ValExpr v # es = map ValExpr (v # vs)" "ys = idxs @ (i # js)"
    "list_all2 (\<lambda>v i. Router_GetIndex pf r db t v = Ok i) (v # vs) (i # js)" by simp_all
  then show ?case by (intro exI conjI)
qed auto

text \<open>
  The key of a row as a statement sees it: the columns that name the shard key have its value, and a literal of the
  condition that equals it is routed like it.
\<close>

definition key_row ::
  "'v Semantics \<Rightarrow> (string \<Rightarrow> 64 word option) \<Rightarrow> Router \<Rightarrow> string \<Rightarrow> string \<Rightarrow> string \<Rightarrow> SQLVal \<Rightarrow> Expr \<Rightarrow> bool" where
  "key_row S pf r db t sk k e \<longleftrightarrow>
     sem_ok S \<and> (\<forall>c. nameMatch (ColExpr c) t sk \<longrightarrow> sem_col S c = sem_val S k) \<and>
     (\<forall>v \<in> set (walk_vals e). sem_eq S (sem_val S k) (sem_val S v) = Some True \<longrightarrow>
        Router_GetIndex pf r db t v = Router_GetIndex pf r db t k)"

lemma key_row_sub: "key_row S pf r db t sk k e \<Longrightarrow> set (walk_vals f) \<subseteq> set (walk_vals e) \<Longrightarrow> key_row S pf r db t sk k f"
  by (auto simp: key_row_def)

lemma nameMatch_col: "nameMatch e t sk \<Longrightarrow> \<exists>c. e = ColExpr c \<and> nameMatch (ColExpr c) t sk"
  by (cases e) auto

lemma kany_True: "kany A = Some True \<longleftrightarrow> Some True \<in> A"
  by (auto simp: kany_def)

lemma lookup_filter_reaches:
  assumes tab: "table_is r db t p sk" "sharded p"
    and stored: "Router_Lookup pf r db t (Some k) (Some k) = Ok (s # rest)"
    and key: "key_row S pf r db t sk k f" and true: "truth S f = Some True"
    and res: "lookup_filter pf r db t sk f = Some (Ok segs)"
  shows "s \<in> set segs"
proof -
  note simps = table_is_simps [OF tab(1)]
  have ok: "Partition_ok p" using tab(1) by (simp add: table_is_def)
  from sharded_point [OF tab(2) ok] stored obtain i where i: "Partition_GetIndex pf p k = Ok i"
    "Partition_GetSegment p i = Ok s" unfolding simps by (metis list.inject)
  have route: "Partition_GetIndex pf p v = Ok i"
    if "v \<in> set (walk_vals f)" "sem_eq S (sem_val S k) (sem_val S v) = Some True" for v
    using key that i(1) by (simp add: key_row_def simps)
  have col: "sem_col S c = sem_val S k" if "nameMatch (ColExpr c) t sk" for c
    using key that unfolding key_row_def by blast
  from res obtain q l rhs esc where f: "f = ComparisonExpr q l rhs esc" and l: "nameMatch l t sk"
    and q: "q = EqualStr \<and> (\<exists>v. rhs = ValExpr v) \<or> q = InStr \<and> (\<exists>es. rhs = ValTuple es)"
    by (auto simp: lookup_filter_def split: Expr.splits if_splits)
  from nameMatch_col [OF l] obtain c where c: "l = ColExpr c" "sem_col S c = sem_val S k" using col by blast
  from q show ?thesis
  proof (elim disjE conjE exE)
    fix v assume v: "q = EqualStr" "rhs = ValExpr v"
    with true f c have "sem_eq S (sem_val S k) (sem_val S v) = Some True" by (simp add: cmp_truth_def)
    moreover have "v \<in> set (walk_vals f)" using v f walk_vals_cmp [of l rhs q esc] by auto
    ultimately have "Partition_GetIndex pf p v = Ok i" by (intro route)
    then have "\<exists>ss. Partition_Lookup pf p (Some v) (Some v) = Ok ss \<and> s \<in> set ss"
      using any_method.lookup_point [OF ok _ i(2)] by blast
    with res v f l show ?thesis by (auto simp: lookup_filter_def simps)
  next
    fix es assume es: "q = InStr" "rhs = ValTuple es"
    from res es f l obtain o' where o: "tuple_indexes pf r db t es [] = Ok o'"
      and segs: "(case o' of None \<Rightarrow> Router_Lookup pf r db t None None | Some idxs \<Rightarrow> Router_GetSegments r db t idxs) = Ok segs"
      by (auto simp: lookup_filter_def InStr_def EqualStr_def res_simps)
    show ?thesis
    proof (cases o')
      case None
      with segs any_method.lookup_open [of None None pf p] any_method.segment_in [OF ok i(2)] show ?thesis
        by (simp add: simps)
    next
      case (Some idxs)
      with tuple_indexes_vals [of pf r db t es "[]" idxs] o obtain vs where vs: "es = map ValExpr vs"
        "list_all2 (\<lambda>v i. Router_GetIndex pf r db t v = Ok i) vs idxs" by auto
      have "kany ((\<lambda>v. sem_eq S (sem_val S k) (sem_val S v)) ` set vs) = Some True"
        using true f c es vs(1)
        by (simp add: InStr_def EqualStr_def cmp_truth_def those_scalar_vals image_image del: map_map)
      then obtain v where v: "v \<in> set vs" "sem_eq S (sem_val S k) (sem_val S v) = Some True"
        by (auto simp: kany_True)
      have "v \<in> set (walk_vals f)"
        using v(1) vs(1) es f walk_vals_cmp [of l rhs q esc] walk_list_mem [of v es] by auto
      then have "Router_GetIndex pf r db t v = Ok i" using route v(2) by (simp add: simps)
      then have "i \<in> set idxs" using vs(2) v(1)
        by (auto simp: list_all2_conv_all_nth in_set_conv_nth)
      moreover from this have "pick_segments (Partition_GetSegment p) idxs [] = Ok segs"
        using segs Some simps(3) [of idxs] by (cases idxs) auto
      ultimately show ?thesis using any_method.pick_exact [OF ok] i(2) by blast
    qed
  qed
qed

lemma lookup_filters_reach:
  assumes tab: "table_is r db t p sk" "sharded p"
    and stored: "Router_Lookup pf r db t (Some k) (Some k) = Ok (s # rest)"
    and key: "\<forall>f \<in> set fs. key_row S pf r db t sk k f \<and> truth S f = Some True"
    and res: "lookup_filters pf r db t sk fs = Ok segs"
  shows "s \<in> set segs"
  using key res
proof (induction fs)
  case Nil
  from tab(1) have ok: "Partition_ok p" by (simp add: table_is_def)
  from stored have "s \<in> set (Partition_GetSegments p)"
    using any_method.lookup_sub [OF ok, of pf "Some k" "Some k"] by (auto simp: table_is_simps [OF tab(1)])
  with Nil show ?case using any_method.lookup_open [of None None pf p] by (simp add: table_is_simps [OF tab(1)])
next
  case (Cons f fs)
  let ?g = "convertOrToIn (skipParenthesis f)"
  have sem: "sem_ok S" and f: "key_row S pf r db t sk k f" using Cons.prems(1) by (auto simp: key_row_def)
  have g: "key_row S pf r db t sk k ?g"
    using convert_vals [of "skipParenthesis f"] by (intro key_row_sub [OF f]) simp
  have "truth S ?g = Some True" using Cons.prems(1) by (simp add: convertOrToIn_truth [OF sem])
  then show ?case
    using Cons lookup_filter_reaches [OF tab stored g] by (auto split: option.splits)
qed

lemma where_reaches:
  assumes tab: "table_is r db t p sk" "sharded p"
    and stored: "Router_Lookup pf r db t (Some k) (Some k) = Ok (s # rest)"
    and key: "key_row S pf r db t sk k e" "truth S e = Some True"
    and res: "LookupFromWhere pf db t sk (Some e) r = Ok segs"
  shows "s \<in> set segs"
proof (cases "sk = []")
  case True
  with res have "lookup_filters pf r db t sk [] = Ok segs" by (simp add: LookupFromWhere_def)
  then show ?thesis by (intro lookup_filters_reach [OF tab stored, of "[]" S]) simp_all
next
  case False
  have "key_row S pf r db t sk k f \<and> truth S f = Some True" if "f \<in> set (splitAndExpression [] e)" for f
    using split_and_truth [OF key(2) that] split_and_vals [OF that] key_row_sub [OF key(1)] by auto
  with False res show ?thesis
    by (intro lookup_filters_reach [OF tab stored, of "splitAndExpression [] e" S]) (auto simp: LookupFromWhere_def)
qed

section \<open>The queries of an insert\<close>

text \<open>The segment a row goes to: the first one of the point lookup of its shard key.\<close>

definition row_segment ::
  "(string \<Rightarrow> 64 word option) \<Rightarrow> Router \<Rightarrow> string \<Rightarrow> string \<Rightarrow> nat \<Rightarrow> Expr list \<Rightarrow> Segment option" where
  "row_segment pf r db t idx row =
     (if idx < length row
      then (case row ! idx of
              ValExpr v \<Rightarrow> (case Router_Lookup pf r db t (Some v) (Some v) of Ok (s # _) \<Rightarrow> Some s | _ \<Rightarrow> None)
            | _ \<Rightarrow> None)
      else None)"

definition placed :: "(Expr list \<Rightarrow> Segment option) \<Rightarrow> Expr list list \<Rightarrow> (string, rowsTuple) gomap \<Rightarrow> bool" where
  "placed seg rows m \<longleftrightarrow> gm_wf m \<and>
     (\<forall>row \<in> set rows. \<exists>s. seg row = Some s \<and> seg_Table s \<in> fst ` set m) \<and>
     (\<forall>(tb, t) \<in> set m. \<exists>s row. row \<in> set rows \<and> seg row = Some s \<and> seg_Table s = tb \<and> seg_range s = Ok (rt_rangi t) \<and>
        rt_backend t = seg_Backend s \<and> rt_rows t = filter (\<lambda>row. seg row = Some s) rows)"

lemma placed_row: "placed seg rows m \<Longrightarrow> row \<in> set rows \<Longrightarrow> \<exists>s. seg row = Some s \<and> seg_Table s \<in> fst ` set m"
  unfolding placed_def by blast

lemma placed_entry:
  assumes "placed seg rows m" "q \<in> set m"
  shows "\<exists>s row. row \<in> set rows \<and> seg row = Some s \<and> seg_Table s = fst q \<and> seg_range s = Ok (rt_rangi (snd q)) \<and>
      rt_backend (snd q) = seg_Backend s \<and> rt_rows (snd q) = filter (\<lambda>row. seg row = Some s) rows"
  using assms unfolding placed_def by (auto simp: case_prod_beta)

lemma placed_step:
  assumes pl: "placed seg rows m" and s: "seg row = Some s" "seg_range s = Ok rangi"
    and inj: "inj_on seg_Table {s. \<exists>row. seg row = Some s}"
  shows "placed seg (rows @ [row]) (place_row s rangi row m)"
proof -
  have wf: "gm_wf m" using pl by (simp add: placed_def)
  note rows = placed_row [OF pl] and entry = placed_entry [OF pl]
  have eq: "s1 = s2" if "seg r1 = Some s1" "seg r2 = Some s2" "seg_Table s1 = seg_Table s2" for r1 r2 s1 s2
    using inj that by (auto simp: inj_on_def)
  let ?t = "case gm_get m (seg_Table s) of
     None \<Rightarrow> \<lparr>rt_backend = seg_Backend s, rt_rangi = rangi, rt_rows = []\<rparr> | Some t \<Rightarrow> t"
  have m': "set (place_row s rangi row m) =
      insert (seg_Table s, ?t\<lparr>rt_rows := rt_rows ?t @ [row]\<rparr>) {p \<in> set m. fst p \<noteq> seg_Table s}"
    by (simp add: place_row_def Let_def gm_put_set [OF wf])
  have t: "rt_backend ?t = seg_Backend s \<and> rt_rangi ?t = rangi \<and> rt_rows ?t = filter (\<lambda>row. seg row = Some s) rows"
  proof (cases "gm_get m (seg_Table s)")
    case None
    then have "seg_Table s \<notin> fst ` set m" by (simp add: map_of_eq_None_iff)
    then have "seg row' \<noteq> Some s" if "row' \<in> set rows" for row'
      using rows [OF that] by (metis option.inject)
    with None show ?thesis by simp
  next
    case (Some t)
    then have "(seg_Table s, t) \<in> set m" by (rule gm_get_in_set)
    from entry [OF this] obtain s' row' where s': "seg row' = Some s'" "seg_Table s' = seg_Table s" "seg_range s' = Ok (rt_rangi t)"
      "rt_backend t = seg_Backend s'" "rt_rows t = filter (\<lambda>row. seg row = Some s') rows" by auto
    moreover from eq [OF s'(1) s(1) s'(2)] have "s' = s" .
    ultimately show ?thesis using Some s(2) by simp
  qed
  show ?thesis unfolding placed_def
  proof (intro conjI ballI)
    show "gm_wf (place_row s rangi row m)" using wf by (simp add: place_row_def Let_def)
    fix row' assume "row' \<in> set (rows @ [row])"
    moreover have "fst ` set (place_row s rangi row m) = insert (seg_Table s) (fst ` set m)" unfolding m' by auto
    ultimately show "\<exists>s'. seg row' = Some s' \<and> seg_Table s' \<in> fst ` set (place_row s rangi row m)"
      using s(1) rows [of row'] by (cases "row' \<in> set rows") (simp_all, blast)
  next
    fix q assume "q \<in> set (place_row s rangi row m)"
    then consider "q = (seg_Table s, ?t\<lparr>rt_rows := rt_rows ?t @ [row]\<rparr>)" | "q \<in> set m" "fst q \<noteq> seg_Table s"
      unfolding m' by blast
    then show "case q of (tb, t) \<Rightarrow> \<exists>s' row'. row' \<in> set (rows @ [row]) \<and> seg row' = Some s' \<and> seg_Table s' = tb \<and>
        seg_range s' = Ok (rt_rangi t) \<and> rt_backend t = seg_Backend s' \<and>
        rt_rows t = filter (\<lambda>row. seg row = Some s') (rows @ [row])"
    proof cases
      case 1
      with t s show ?thesis by (auto intro!: exI [of _ s] exI [of _ row])
    next
      case 2
      from entry [OF 2(1)] obtain s' row' where s': "row' \<in> set rows" "seg row' = Some s'" "seg_Table s' = fst q"
        "seg_range s' = Ok (rt_rangi (snd q))" "rt_backend (snd q) = seg_Backend s'"
        "rt_rows (snd q) = filter (\<lambda>row. seg row = Some s') rows" by blast
      moreover have "seg row \<noteq> Some s'" using s(1) 2(2) s'(3) by auto
      ultimately show ?thesis by (auto simp: case_prod_beta)
    qed
  qed
qed

lemma place_rows_placed:
  assumes "place_rows pf r db t sk idx rows m = Ok m'" "placed (row_segment pf r db t idx) done m"
    and inj: "inj_on seg_Table {s. \<exists>row. row_segment pf r db t idx row = Some s}"
  shows "placed (row_segment pf r db t idx) (done @ rows) m'"
  using assms(1,2)
proof (induction rows arbitrary: m "done")
  case (Cons row rows)
  let ?seg = "row_segment pf r db t idx"
  from Cons.prems(1) obtain v where v: "idx < length row" "row ! idx = ValExpr v"
    by (auto split: if_splits Expr.splits)
  with Cons.prems(1) obtain segs where segs: "Router_Lookup pf r db t (Some v) (Some v) = Ok segs"
    by (auto simp: res_simps)
  with v Cons.prems(1) obtain s ss rangi where look: "Router_Lookup pf r db t (Some v) (Some v) = Ok (s # ss)"
    and rg: "seg_range s = Ok rangi" and rest: "place_rows pf r db t sk idx rows (place_row s rangi row m) = Ok m'"
    by (cases segs) (auto simp: res_simps)
  have "?seg row = Some s" using v look by (simp add: row_segment_def)
  from Cons.IH [OF rest placed_step [OF Cons.prems(2) this rg inj]] show ?case by simp
qed simp

lemma row_segment_in:
  assumes "table_is r db t p sk" "row_segment pf r db t idx row = Some s"
  shows "s \<in> set (Partition_GetSegments p)"
proof -
  from assms(2) obtain v ss where "Router_Lookup pf r db t (Some v) (Some v) = Ok (s # ss)"
    by (auto simp: row_segment_def split: if_splits Expr.splits res.splits list.splits)
  moreover have "Partition_ok p" using assms(1) by (simp add: table_is_def)
  ultimately show ?thesis
    using any_method.lookup_sub [of p pf "Some v" "Some v"] by (auto simp: table_is_simps [OF assms(1)])
qed

lemma col_index_Some: "col_index cs sk k = Some i \<Longrightarrow> k \<le> i \<and> i < k + length cs \<and> to_lower (cs ! (i - k)) = to_lower sk"
proof (induction cs sk k rule: col_index.induct)
  case (2 c cs sk k)
  then show ?case by (auto simp: ColIdent_EqualString_def nth_Cons' split: if_splits)
qed simp

lemma placed_queries:
  assumes pl: "placed seg rows m" and inj: "inj_on seg_Table {s. \<exists>row. seg row = Some s}"
  shows "\<exists>segs. map (\<lambda>tb. rows_query sl node (tb, the (gm_get m tb))) (sort (map fst m)) =
      map (\<lambda>s. \<lparr>qt_Query = sl_Insert sl (node\<lparr>ins_Table := (ins_Table node)\<lparr>tn_Name := seg_Table s\<rparr>,
                    ins_Rows := Values (filter (\<lambda>row. seg row = Some s) rows)\<rparr>),
                qt_Backend = seg_Backend s, qt_Range = KeyRange_String (the (seg_Range s))\<rparr>) segs \<and>
    sorted_wrt (<) (map seg_Table segs) \<and> Some ` set segs = seg ` set rows"
proof -
  have wf: "gm_wf m" using pl by (simp add: placed_def)
  have "\<forall>q \<in> set m. \<exists>s. Some s \<in> seg ` set rows \<and> seg_Table s = fst q \<and> seg_range s = Ok (rt_rangi (snd q)) \<and>
      rt_backend (snd q) = seg_Backend s \<and> rt_rows (snd q) = filter (\<lambda>row. seg row = Some s) rows"
    using placed_entry [OF pl] by (metis image_eqI)
  then obtain sg where sg: "\<forall>q \<in> set m. Some (sg q) \<in> seg ` set rows \<and> seg_Table (sg q) = fst q \<and>
      seg_range (sg q) = Ok (rt_rangi (snd q)) \<and> rt_backend (snd q) = seg_Backend (sg q) \<and>
      rt_rows (snd q) = filter (\<lambda>row. seg row = Some (sg q)) rows"
    by (rule bchoice [THEN exE])
  let ?keys = "sort (map fst m)" and ?q = "\<lambda>tb. (tb, the (gm_get m tb))"
  have q: "?q tb \<in> set m" if "tb \<in> set ?keys" for tb
    using that wf by (auto simp: gm_wf_def)
  let ?segs = "map (\<lambda>tb. sg (?q tb)) ?keys"
  have tb: "seg_Table (sg (?q tb)) = tb" if "tb \<in> set ?keys" for tb using sg [rule_format, OF q [OF that]] by simp
  have tables: "map seg_Table ?segs = ?keys" unfolding map_map by (rule map_idI) (simp only: tb comp_apply)
  have "sorted_wrt (<) ?keys"
    using wf by (simp add: gm_wf_def strict_sorted_iff)
  moreover have "Some ` set ?segs = seg ` set rows"
  proof
    show "Some ` set ?segs \<subseteq> seg ` set rows" using sg q by auto
    show "seg ` set rows \<subseteq> Some ` set ?segs"
    proof
      fix x assume "x \<in> seg ` set rows"
      then obtain row s where row: "row \<in> set rows" "seg row = Some s" "x = Some s" "seg_Table s \<in> fst ` set m"
        using placed_row [OF pl] by blast
      then have tb: "seg_Table s \<in> set ?keys" by simp
      then have "Some (sg (?q (seg_Table s))) \<in> seg ` set rows" "seg_Table (sg (?q (seg_Table s))) = seg_Table s"
        using sg q by auto
      then have "sg (?q (seg_Table s)) = s" using inj row(2) unfolding inj_on_def by (metis (mono_tags, lifting) imageE mem_Collect_eq)
      then have "s \<in> set ?segs" using tb by (metis (no_types, lifting) image_eqI image_set)
      then show "x \<in> Some ` set ?segs" using row(3) by blast
    qed
  qed
  moreover have "rows_query sl node (?q tb) =
      \<lparr>qt_Query = sl_Insert sl (node\<lparr>ins_Table := (ins_Table node)\<lparr>tn_Name := seg_Table (sg (?q tb))\<rparr>,
           ins_Rows := Values (filter (\<lambda>row. seg row = Some (sg (?q tb))) rows)\<rparr>),
       qt_Backend = seg_Backend (sg (?q tb)), qt_Range = KeyRange_String (the (seg_Range (sg (?q tb))))\<rparr>"
    if "tb \<in> set ?keys" for tb
    using sg [rule_format, OF q [OF that]]
    by (simp add: rows_query_def) (auto simp: seg_range_def split: option.splits)
  ultimately show ?thesis using tables by (intro exI [of _ ?segs]) (simp add: comp_def)
qed

text \<open>
  C5. An insert into a sharded table that is planned has, for every partition a row of it belongs to, exactly one query.
  It goes to the backend of the partition and carries exactly the rows whose shard key is routed there, in their order, and
  the queries are in strictly increasing order of the partition names, the order in which concurrent inserts take their
  locks.
\<close>

theorem insert_queries:
  assumes build: "Insert_Build sl pf r database node = Ok qs" and rows: "ins_Rows node = Values rows"
    and tab: "table_is r db t p sk" "Partition_Type p \<in> {''HASH'', ''LIST''}"
    and node: "db = or_default (tn_Qualifier (ins_Table node)) database" "t = tn_Name (ins_Table node)"
    and parts: "distinct (map seg_Table (Partition_GetSegments p))"
  shows "\<exists>idx segs. idx < length (ins_Columns node) \<and> to_lower (ins_Columns node ! idx) = to_lower sk \<and>
    Some ` set segs = row_segment pf r db t idx ` set rows \<and> sorted_wrt (<) (map seg_Table segs) \<and>
    qs = map (\<lambda>s. \<lparr>qt_Query = sl_Insert sl (node\<lparr>ins_Table := \<lparr>tn_Name = seg_Table s, tn_Qualifier = db\<rparr>,
                    ins_Rows := Values (filter (\<lambda>row. row_segment pf r db t idx row = Some s) rows)\<rparr>),
                  qt_Backend = seg_Backend s, qt_Range = KeyRange_String (the (seg_Range s))\<rparr>) segs"
proof -
  let ?node = "node\<lparr>ins_Table := (ins_Table node)\<lparr>tn_Qualifier := db\<rparr>\<rparr>"
  from tab(2) have meth: "Partition_Type p \<notin> {''GLOBAL'', ''SINGLE''}" by auto
  have "ins_Partitions node = []" using build rows by (simp add: Insert_Build_def split: if_splits)
  then have "Insert_Build sl pf r database node =
      (if isUpdateShardKey (ins_OnDup node) sk then Err (Errorf ''unsupported: cannot.update.shard.key'' [])
       else case col_index (ins_Columns node) sk 0 of
              None \<Rightarrow> Err (Errorf ''unsupported: shardkey.column[%v].missing'' [sk])
            | Some idx \<Rightarrow> rbind (place_rows pf r db t sk idx rows []) (\<lambda>m.
                Ok (map (\<lambda>tb. rows_query sl ?node (tb, the (gm_get m tb))) (sort (map fst m)))))"
    using meth tab(2)
    by (simp only: Insert_Build_def rows InsertRows.case Let_def node [symmetric] table_is_simps [OF tab(1)] rbind.simps)
      simp
  with build obtain idx m where idx: "col_index (ins_Columns node) sk 0 = Some idx"
    and m: "place_rows pf r db t sk idx rows [] = Ok m"
    and qs: "qs = map (\<lambda>tb. rows_query sl ?node (tb, the (gm_get m tb))) (sort (map fst m))"
    by (auto simp: res_simps split: if_splits option.splits)
  let ?seg = "row_segment pf r db t idx"
  have inj: "inj_on seg_Table {s. \<exists>row. ?seg row = Some s}"
    by (rule inj_on_subset [of _ "set (Partition_GetSegments p)"])
      (use parts row_segment_in [OF tab(1)] in \<open>auto simp: distinct_map\<close>)
  have pl: "placed ?seg rows m" using place_rows_placed [OF m _ inj, of "[]"] by (simp add: placed_def)
  have "(ins_Table node)\<lparr>tn_Qualifier := db, tn_Name := x\<rparr> = \<lparr>tn_Name = x, tn_Qualifier = db\<rparr>" for x
    by (cases "ins_Table node") simp
  with placed_queries [OF pl inj, of sl ?node] qs col_index_Some [OF idx]
  show ?thesis by (intro exI [of _ idx]) auto
qed

definition demo_sl :: SqlLib where
  "demo_sl = \<lparr>sl_Insert = (\<lambda>n. ''insert '' @ tn_Name (ins_Table n)), sl_Delete = (\<lambda>n. ''delete '' @ tn_Name (del_Table n)),
     sl_Update = (\<lambda>db t n. ''update '' @ db @ ''.'' @ t), sl_DDL = (\<lambda>n. ''rename '' @ tn_Name (ddl_Table n) @ '' to '' @ tn_Name (ddl_NewName n)),
     sl_Others = (\<lambda>n. [])\<rparr>"

definition demo_insert :: Insert where
  "demo_insert = \<lparr>ins_Action = ''insert'', ins_Comments = [], ins_Ignore = [], ins_Table = \<lparr>tn_Name = ''t'', tn_Qualifier = []\<rparr>,
     ins_Partitions = [], ins_Columns = [''a'', ''ID''],
     ins_Rows = Values [[NullVal, ValExpr (key_int ''1'')], [NullVal, ValExpr (key_int ''2'')], [NullVal, ValExpr (key_int ''3'')]],
     ins_OnDup = []\<rparr>"

definition demo_list :: Router where
  "demo_list = fst (fst (CreateListTable rev env_fine demo_router demo_disk ''db'' ''t'' ''id'' ''list'' demo_defs None))"

definition demo_list_part :: ListPart where
  "demo_list_part = (case get_table demo_list ''db'' ''t'' of
     Some T \<Rightarrow> (case t_Partition T of Some (PList l) \<Rightarrow> l | _ \<Rightarrow> NewList (conf_at demo_list 0))
   | None \<Rightarrow> NewList (conf_at demo_list 0))"

lemma demo_list_table:
  "table_is demo_list ''db'' ''t'' (PList demo_list_part) ''id''" "Partition_Type (PList demo_list_part) = ''LIST''"
  "distinct (map seg_Table (Partition_GetSegments (PList demo_list_part)))"
proof -
  have "case get_table demo_list ''db'' ''t'' of Some T \<Rightarrow> t_Partition T = Some (PList demo_list_part) \<and> t_ShardKey T = ''id'' | None \<Rightarrow> False"
    by code_simp
  then obtain T where "get_table demo_list ''db'' ''t'' = Some T" "t_Partition T = Some (PList demo_list_part)" "t_ShardKey T = ''id''"
    by (auto split: option.splits)
  moreover have "segs_inv (l_Segments demo_list_part)" by code_simp
  ultimately show "table_is demo_list ''db'' ''t'' (PList demo_list_part) ''id''"
    by (simp add: table_is_def getTable_get_table)
qed code_simp+

theorem insert_queries_witness:
  "\<exists>qs (segs :: Segment list). Insert_Build demo_sl (\<lambda>_. None) demo_list ''db'' demo_insert = Ok qs \<and>
     map qt_Backend qs = map seg_Backend segs \<and> sorted_wrt (<) (map seg_Table segs) \<and> 1 < length qs"
proof -
  have p: "Partition_Type (PList demo_list_part) \<in> {''HASH'', ''LIST''}" using demo_list_table(2) by simp
  have "rbind (Insert_Build demo_sl (\<lambda>_. None) demo_list ''db'' demo_insert) (\<lambda>qs. Ok (1 < length qs)) = Ok True" by code_simp
  then obtain qs where qs: "Insert_Build demo_sl (\<lambda>_. None) demo_list ''db'' demo_insert = Ok qs" "1 < length qs"
    by (auto simp: res_simps)
  have node: "''db'' = or_default (tn_Qualifier (ins_Table demo_insert)) ''db''" "''t'' = tn_Name (ins_Table demo_insert)"
    by (simp_all add: demo_insert_def or_default_def)
  obtain rows where rows: "ins_Rows demo_insert = Values rows" by (simp add: demo_insert_def)
  from insert_queries [OF qs(1) rows demo_list_table(1) p node demo_list_table(3)] obtain idx segs where segs: "sorted_wrt (<) (map seg_Table segs)"
    "qs = map (\<lambda>s. \<lparr>qt_Query = sl_Insert demo_sl (demo_insert\<lparr>ins_Table := \<lparr>tn_Name = seg_Table s, tn_Qualifier = ''db''\<rparr>,
        ins_Rows := Values (filter (\<lambda>row. row_segment (\<lambda>_. None) demo_list ''db'' ''t'' idx row = Some s) rows)\<rparr>),
        qt_Backend = seg_Backend s, qt_Range = KeyRange_String (the (seg_Range s))\<rparr>) segs" by blast
  have "map qt_Backend qs = map seg_Backend segs" unfolding segs(2) by simp
  with qs segs(1) show ?thesis by blast
qed

section \<open>Update and delete\<close>

lemma rmapM_mem: "rmapM f xs = Ok ys \<Longrightarrow> x \<in> set xs \<Longrightarrow> \<exists>y \<in> set ys. f x = Ok y"
  by (induction xs arbitrary: ys) (auto simp: res_simps)

lemma seg_tuples_mem:
  assumes "seg_tuples query segs = Ok qs" "s \<in> set segs"
  shows "\<lparr>qt_Query = query s, qt_Backend = seg_Backend s, qt_Range = KeyRange_String (the (seg_Range s))\<rparr> \<in> set qs"
proof -
  from assms obtain q where "q \<in> set qs" "seg_tuple (Ok \<circ> query) s = Ok q"
    unfolding seg_tuples_def by (blast dest: rmapM_mem)
  then show ?thesis by (auto simp: seg_tuple_def seg_range_def res_simps split: option.splits)
qed


definition demo_where :: Expr where
  "demo_where = AndExpr (ParenExpr (OrExpr (ComparisonExpr EqualStr (col [] ''id'') (ValExpr (key_int ''3'')) None)
     (ComparisonExpr EqualStr (ValExpr (key_int ''1'')) (col ''t'' ''ID'') None))) (ComparisonExpr ''>'' (col [] ''a'') NullVal None)"

definition demo_sem :: "string Semantics" where
  "demo_sem = \<lparr>sem_col = (\<lambda>c. if to_lower (cn_Name c) = ''id'' then ''3'' else []), sem_val = sv_Val,
     sem_eq = (\<lambda>a b. Some (a = b)), sem_other = (\<lambda>_. Some True)\<rparr>"

definition demo_update :: Update where
  "demo_update = \<lparr>upd_Comments = [], upd_Table = \<lparr>tn_Name = ''t'', tn_Qualifier = []\<rparr>,
     upd_Exprs = [(\<lparr>cn_Name = ''a'', cn_Qualifier = \<lparr>tn_Name = [], tn_Qualifier = []\<rparr>\<rparr>, NullVal)],
     upd_Where = Some demo_where, upd_OrderBy = [], upd_Limit = []\<rparr>"

definition demo_delete :: Delete where
  "demo_delete = \<lparr>del_Comments = [], del_IsSingleTable = True, del_Table = \<lparr>tn_Name = ''t'', tn_Qualifier = ''db''\<rparr>,
     del_Partitions = None, del_Where = Some demo_where, del_OrderBy = [], del_Limit = []\<rparr>"

lemma demo_key_row: "key_row demo_sem pf r db ''t'' ''id'' (key_int ''3'') demo_where"
proof -
  have "set (walk_vals demo_where) = {key_int ''3'', key_int ''1''}"
    by (auto simp: demo_where_def walk_vals_def col_def List.map_filter_simps)
  then show ?thesis
    by (auto simp: key_row_def demo_sem_def sem_ok_def ColName_Equal_def ColIdent_EqualString_def key_int_def to_lower_def
        to_lower_char_def)
qed


section \<open>Renaming the partitions\<close>

lemma is_prefix_self [simp]: "is_prefix p (p @ s)"
  by (induction p) auto

lemma replace_first_prefix: "replace_first (p @ s) p new = new @ s"
proof (cases "p @ s")
  case (Cons x xs)
  have "is_prefix p (x # xs)" "drop (length p) (x # xs) = s" unfolding Cons [symmetric] by simp_all
  with Cons show ?thesis by simp
qed simp

lemma split_on_append: "\<exists>ws. ws \<noteq> [] \<and> split_on c (s @ c # t) = ws @ split_on c t"
proof (induction s)
  case (Cons x s)
  then obtain w ws where "split_on c (s @ c # t) = (w # ws) @ split_on c t" by (metis neq_Nil_conv)
  then show ?case by (cases "x = c") (auto intro: exI [of _ "[] # w # ws"] exI [of _ "(x # w) # ws"])
qed auto

lemma last_split: "c \<notin> set sfx \<Longrightarrow> last (split_on c (s @ c # sfx)) = sfx"
  using split_on_append [of c s sfx] by (auto simp: gostring_simps)

lemma number_parts_tables: "(\<And>i x. seg_Table (mk i x) = pc_Table x) \<Longrightarrow> map seg_Table (number_parts mk k xs) = map pc_Table xs"
  by (rule nth_equalityI) (simp_all add: number_parts_nth)

lemma hash_build_tables:
  "hash_build_parts rid parts (m, segs) = Ok (m', segs') \<Longrightarrow> map seg_Table segs' = map seg_Table segs @ map pc_Table parts"
  by (induction rid parts "(m, segs)" arbitrary: m segs rule: hash_build_parts.induct)
    (auto simp: res_simps Let_def hash_segment_def)

lemma build_partition_tables:
  assumes "build_partition rc conf = Ok p"
  shows "mset (map seg_Table (Partition_GetSegments p)) = mset (map pc_Table (tc_Partitions conf))"
proof -
  have "mset (map seg_Table (h_Segments h)) = mset (map pc_Table (tc_Partitions conf))"
    if "Hash_Build (NewHash n conf) = Ok h" for n h
  proof -
    from that obtain m segs where segs: "hash_build_parts 0 (tc_Partitions conf) ([], []) = Ok (m, segs)"
      and h: "h_Segments h = sort_key seg_start segs"
      by (auto simp: Hash_Build_def NewHash_def res_simps split: if_splits)
    have "mset (map seg_Table (sort_key seg_start segs)) = mset (map seg_Table segs)" by simp
    then show ?thesis using hash_build_tables [OF segs] h by simp
  qed
  with assms show ?thesis
    by (auto simp: build_partition_def res_simps Hash_GetSegments_def Global_GetSegments_def Single_GetSegments_def
        List_GetSegments_def Global_Build_def Single_Build_def List_Build_def NewGlobal_def NewSingle_def NewList_def
        number_parts_tables global_segment_def single_segment_def list_segment_def split: if_splits simp flip: mset_map)
qed

text \<open>
  C27. The plan of a rename and the router agree: the partitions on the backends get exactly the names that the renamed
  configuration of the router lists, each partition the name that its own entry gets.
\<close>

theorem rename_plan_matches_router:
  assumes tab: "table_is r db t p sk" "sk \<noteq> []" and conf: "build_partition (r_conf r) conf = Ok p"
    and names: "\<forall>part \<in> set (tc_Partitions conf). \<exists>sfx. pc_Table part = t @ ''_'' @ sfx \<and> CHR ''_'' \<notin> set sfx"
    and build: "DDL_Build sl pf r database node = Ok qs" "ddl_Action node = ''rename table''"
    and node: "or_default (tn_Qualifier (ddl_Table node)) database = db" "tn_Name (ddl_Table node) = t"
  shows "let new = tn_Name (ddl_NewName node); segs = Partition_GetSegments p in
    mset (map (\<lambda>s. replace_first (seg_Table s) t new) segs) = mset (map pc_Table (tc_Partitions (rename_conf t new conf))) \<and>
    qs = map (\<lambda>s. \<lparr>qt_Query = sl_DDL sl (node\<lparr>ddl_Table := \<lparr>tn_Name = seg_Table s, tn_Qualifier = db\<rparr>,
                      ddl_NewName := \<lparr>tn_Name = replace_first (seg_Table s) t new, tn_Qualifier = db\<rparr>\<rparr>),
                  qt_Backend = seg_Backend s, qt_Range = KeyRange_String (the (seg_Range s))\<rparr>) segs"
proof -
  let ?new = "tn_Name (ddl_NewName node)" and ?segs = "Partition_GetSegments p"
  note tables = build_partition_tables [OF conf]
  have name: "newToTable sk ?new (seg_Table s) = replace_first (seg_Table s) t ?new" if "s \<in> set ?segs" for s
  proof -
    from that have "seg_Table s \<in> set (map pc_Table (tc_Partitions conf))"
      using mset_eq_setD [OF tables] by (metis image_eqI image_set)
    with names obtain sfx where "seg_Table s = t @ ''_'' @ sfx" "CHR ''_'' \<notin> set sfx" by auto
    then show ?thesis using tab(2) replace_first_prefix [of t "''_'' @ sfx"] last_split [of "CHR ''_''" sfx t]
      by (simp add: newToTable_def)
  qed
  have "mset (map (\<lambda>s. replace_first (seg_Table s) t ?new) ?segs) =
      image_mset (\<lambda>x. replace_first x t ?new) (mset (map seg_Table ?segs))" by (simp add: multiset.map_comp comp_def)
  also have "\<dots> = mset (map pc_Table (tc_Partitions (rename_conf t ?new conf)))"
    unfolding tables by (simp add: rename_conf_def multiset.map_comp comp_def)
  moreover have "qs = map (\<lambda>s. \<lparr>qt_Query = sl_DDL sl (node\<lparr>ddl_Table := \<lparr>tn_Name = seg_Table s, tn_Qualifier = db\<rparr>,
                      ddl_NewName := \<lparr>tn_Name = replace_first (seg_Table s) t ?new, tn_Qualifier = db\<rparr>\<rparr>),
                  qt_Backend = seg_Backend s, qt_Range = KeyRange_String (the (seg_Range s))\<rparr>) ?segs"
  proof -
    have all: "Router_Lookup pf r db t None None = Ok ?segs"
      using any_method.lookup_open [of None None pf p] by (simp add: table_is_simps [OF tab(1)])
    from build node have "rbind (Router_Lookup pf r db t None None)
        (rmapM (seg_tuple (\<lambda>s. rbind (ShardKey r db t) (\<lambda>shardKey. Ok (sl_DDL sl (node\<lparr>
           ddl_Table := \<lparr>tn_Name = seg_Table s, tn_Qualifier = db\<rparr>,
           ddl_NewName := \<lparr>tn_Name = newToTable shardKey ?new (seg_Table s), tn_Qualifier = db\<rparr>\<rparr>)))))) = Ok qs"
      by (simp add: DDL_Build_def renameImpl_def Let_def split: if_splits)
    then have "list_all2 (\<lambda>s q. seg_tuple (\<lambda>s. Ok (sl_DDL sl (node\<lparr>ddl_Table := \<lparr>tn_Name = seg_Table s, tn_Qualifier = db\<rparr>,
           ddl_NewName := \<lparr>tn_Name = newToTable sk ?new (seg_Table s), tn_Qualifier = db\<rparr>\<rparr>))) s = Ok q) ?segs qs"
      by (simp add: all table_is_simps(5) [OF tab(1)] rmapM_Ok_iff)
    then show ?thesis
      by (intro nth_equalityI) (auto simp: list_all2_conv_all_nth seg_tuple_def seg_range_def res_simps name split: option.splits)
  qed
  ultimately show ?thesis by (simp add: Let_def)
qed

definition demo_rename :: DDL where
  "demo_rename = \<lparr>ddl_Action = ''rename table'', ddl_Table = \<lparr>tn_Name = ''t'', tn_Qualifier = []\<rparr>,
     ddl_NewName = \<lparr>tn_Name = ''n'', tn_Qualifier = ''db''\<rparr>, ddl_Tables = [], ddl_DropColumnName = [],
     ddl_ModifyColumnDef = None, ddl_TableSpec = None, ddl_Database = [], ddl_IfExists = False, ddl_IfNotExists = False,
     ddl_PartitionOption = None\<rparr>"

theorem rename_plan_matches_router_witness:
  "\<exists>qs. DDL_Build demo_sl (\<lambda>_. None) demo_list ''db'' demo_rename = Ok qs \<and>
     mset (map (\<lambda>s. replace_first (seg_Table s) ''t'' ''n'') (Partition_GetSegments (PList demo_list_part))) =
       mset [''n_0000'', ''n_0001'', ''n_0002''] \<and> length qs = 3"
proof -
  let ?conf = "conf_at demo_list 0"
  have conf: "build_partition (r_conf demo_list) ?conf = Ok (PList demo_list_part)" by code_simp
  have parts: "map pc_Table (tc_Partitions ?conf) = [''t_0000'', ''t_0001'', ''t_0002'']" by code_simp
  then have "pc_Table part \<in> {''t_0000'', ''t_0001'', ''t_0002''}" if "part \<in> set (tc_Partitions ?conf)" for part
    using that by (metis image_eqI list.set_map list.simps(15) empty_set)
  then have names: "\<forall>part \<in> set (tc_Partitions ?conf). \<exists>sfx. pc_Table part = ''t'' @ ''_'' @ sfx \<and> CHR ''_'' \<notin> set sfx"
    by fastforce
  have "rbind (DDL_Build demo_sl (\<lambda>_. None) demo_list ''db'' demo_rename) (\<lambda>qs. Ok (length qs)) = Ok 3" by code_simp
  then obtain qs where qs: "DDL_Build demo_sl (\<lambda>_. None) demo_list ''db'' demo_rename = Ok qs" "length qs = 3"
    by (auto simp: res_simps)
  have "mset (map (\<lambda>s. replace_first (seg_Table s) ''t'' ''n'') (Partition_GetSegments (PList demo_list_part))) =
      mset (map pc_Table (tc_Partitions (rename_conf ''t'' ''n'' ?conf)))"
    using rename_plan_matches_router [OF demo_list_table(1) _ conf names qs(1)]
    by (simp add: demo_rename_def or_default_def Let_def)
  moreover have "map pc_Table (tc_Partitions (rename_conf ''t'' ''n'' ?conf)) = [''n_0000'', ''n_0001'', ''n_0002'']" by code_simp
  ultimately show ?thesis using qs by simp
qed

end
