(* ===== verification/Proxy_Reach.thy ===== *)
theory Proxy_Reach
  imports Proxy_Steps Planner_Props
begin

text \<open>
  The runs of the proxy: clients connect, send statements, are killed and disconnect, in any order. One handler is one step;
  how the calls of several transactions interleave inside of handlers is the subject of \<open>Txn_Props\<close>.
\<close>

section \<open>Steps\<close>

interpretation others: client_invariant pe s "\<lambda>sn. j \<noteq> ds_ID s \<longrightarrow> gm_get (sn_sessions sn) j = x" for pe s j x
proof
  show "j \<noteq> ds_ID s \<longrightarrow> gm_get (sn_sessions (fst (own_query pe f sn))) j = x"
    if "j \<noteq> ds_ID s \<longrightarrow> gm_get (sn_sessions sn) j = x" for f sn
    using that by (simp add: own_query_def split: prod.split)
qed (simp_all add: executions_other handleMultiStmtTxn_other upd_other)

text \<open>The statements of a session.\<close>

inductive client_step :: "ProxyEnv \<Rightarrow> DSession \<Rightarrow> Spanner \<Rightarrow> Spanner \<Rightarrow> bool" for pe s where
  select: "n \<in> {StSelect sl, StUnion un} \<Longrightarrow> client_step pe s sn (fst (handleSelect pe s query n sn))"
| delete: "client_step pe s sn (fst (handleDelete pe s query del sn))"
| update: "client_step pe s sn (fst (handleUpdate pe s query upd sn))"
| insert: "client_step pe s sn (fst (handleInsert pe s query ins sn))"
| definition_of_data: "client_step pe s sn (fst (handleDDL pe rng envs s query node sn))"
| transaction: "client_step pe s sn (fst (handleMultiStmtTxn pe s query action sn))"
| setting: "client_step pe s sn (fst (handleSet pe s exprs sn))"
| use: "client_step pe s sn (fst (snd (handleUseDB pe s query db sn)))"
| init: "client_step pe s sn (fst (snd (ComInitDB pe s db sn)))"

text \<open>The statements that run table by table, each table in a transaction of its own.\<close>

inductive table_step :: "ProxyEnv \<Rightarrow> DSession \<Rightarrow> Spanner \<Rightarrow> Spanner \<Rightarrow> bool" for pe s where
  checksum: "table_step pe s sn (fst (handleChecksumTable pe missing s node sn))"
| optimize: "table_step pe s sn (fst (handleOptimizeTable pe s node sn))"
| check: "table_step pe s sn (fst (handleCheckTable pe s node sn))"

definition manageMain :: "ProxyEnv \<Rightarrow> 32 word \<Rightarrow> int \<Rightarrow> Spanner \<Rightarrow> Spanner" where
  "manageMain pe idleTxnTimeout now sn =
     (case killIdleTxn (pe_be pe) idleTxnTimeout now (sn_sessions sn) (sn_sys sn) of
        (ss, sys) \<Rightarrow> sn\<lparr>sn_sys := sys, sn_sessions := ss\<rparr>)"

definition reload_privileges :: "ProxyEnv \<Rightarrow> Spanner \<Rightarrow> Spanner" where
  "reload_privileges pe sn =
     (case UpdatePrivileges (pe_be pe) (sn_scatter sn) (sn_priv sn) (sn_sys sn) of
        (p, sys, _) \<Rightarrow> sn\<lparr>sn_sys := sys, sn_priv := p\<rparr>)"

inductive proxy_step :: "ProxyEnv \<Rightarrow> Spanner \<Rightarrow> Spanner \<Rightarrow> bool" for pe where
  connect: "gm_get (sn_sessions sn) (ds_ID s) = None \<Longrightarrow> proxy_step pe sn (NewSession s sn)"
| disconnect: "proxy_step pe sn (SessionClosed pe s sn)"
| client: "client_step pe s sn sn' \<Longrightarrow> proxy_step pe sn sn'"
| maintain: "idle_session s sn \<Longrightarrow> table_step pe s sn sn' \<Longrightarrow> proxy_step pe sn sn'"
| kill: "proxy_step pe sn (fst (handleKill pe s i sn))"
| manage: "proxy_step pe sn (manageMain pe idleTxnTimeout now sn)"
| privileges: "proxy_step pe sn (reload_privileges pe sn)"
| readonly: "proxy_step pe sn (SetReadOnly b sn)"

text \<open>The proxy after its start: no session, no transaction, and pools that are well-formed.\<close>

definition proxy_init :: "Spanner \<Rightarrow> bool" where
  "proxy_init sn \<longleftrightarrow> sn_sessions sn = [] \<and> pool_inv (sn_world sn) \<and> poolz_known (PoolzClone (sn_scatter sn)) (sn_world sn) \<and>
     m_txnNums (sy_mgr (sn_sys sn)) = 0"

section \<open>The invariant of all runs\<close>

context client_invariant
begin

lemma client_step_keeps: "client_step pe s sn sn' \<Longrightarrow> I sn \<Longrightarrow> I sn'"
proof (induction rule: client_step.induct)
  case (select n sl un sn query)
  have "IsDML n" using select.hyps by (auto simp: IsDML_def)
  from dml [OF this select.prems] show ?case by (simp add: handleSelect_def)
next
  case (delete sn query del)
  then show ?case using dml [of "StDelete del"] by (simp add: handleDelete_def IsDML_def)
next
  case (update sn query upd)
  then show ?case using dml [of "StUpdate upd"] by (simp add: handleUpdate_def IsDML_def)
next
  case (insert sn query ins)
  then show ?case using handleInsert_keeps by (simp add: keeping_def)
next
  case (definition_of_data sn rng envs query node)
  then show ?case using handleDDL_keeps by (simp add: keeping_def)
qed (simp_all add: txn handleSet_keeps handleUseDB_keeps ComInitDB_keeps)

end

lemma ExecuteNormal_step:
  assumes "proxy_inv pe sn" "idle_session s sn" "ExecuteNormal pe s database query node sn = (sn', x)"
  shows "proxy_inv pe sn' \<and> idle_session s sn'"
  using ExecuteNormal_inv [OF assms(1,2), of database query node] assms(3) by simp

lemma checksum_tables_inv:
  "proxy_inv pe sn \<Longrightarrow> idle_session s sn \<Longrightarrow> proxy_inv pe (fst (checksum_tables pe missing s node ts rows sn))"
proof (induction ts arbitrary: rows sn)
  case (Cons t ts)
  define n where "n = node\<lparr>ot_Tables := [t]\<rparr>"
  obtain sn1 x where e: "ExecuteNormal pe s (ds_Schema s) (sl_Others (pl_sql (pe_pl pe)) n) (StOthers n) sn = (sn1, x)" by fastforce
  note s1 = ExecuteNormal_step [OF Cons.prems e]
  show ?case
    unfolding checksum_tables.simps Let_def n_def [symmetric] e
    using Cons.IH [OF Cons.prems] Cons.IH [OF conjunct1 [OF s1] conjunct2 [OF s1]] s1
    by (cases x) (simp_all split: option.split res.split)
qed simp

lemma each_table_inv:
  "proxy_inv pe sn \<Longrightarrow> idle_session s sn \<Longrightarrow> proxy_inv pe (fst (each_table pe s node ts qr sn))"
proof (induction ts arbitrary: qr sn)
  case (Cons t ts)
  define n where "n = node\<lparr>ot_Tables := [t]\<rparr>"
  obtain sn1 x where e: "ExecuteNormal pe s (ds_Schema s) (sl_Others (pl_sql (pe_pl pe)) n) (StOthers n) sn = (sn1, x)" by fastforce
  note s1 = ExecuteNormal_step [OF Cons.prems e]
  show ?case
    unfolding each_table.simps Let_def n_def [symmetric] e
    using Cons.IH [OF conjunct1 [OF s1] conjunct2 [OF s1]] s1 by (cases x) (simp_all split: option.split)
qed simp

lemma fst_hbind: "(\<And>x sn'. fst (k x sn') = sn') \<Longrightarrow> fst (hbind h k) = fst h"
  by (auto simp: hbind_def split: prod.split res.split)

lemma table_step_inv: "table_step pe s sn sn' \<Longrightarrow> proxy_inv pe sn \<Longrightarrow> idle_session s sn \<Longrightarrow> proxy_inv pe sn'"
  by (induction rule: table_step.induct)
    (simp_all add: handleChecksumTable_def handleOptimizeTable_def handleCheckTable_def fst_hbind hres_def
      checksum_tables_inv each_table_inv)

lemma manageMain_inv: "proxy_inv pe sn \<Longrightarrow> proxy_inv pe (manageMain pe tmo now sn)"
proof -
  have "proxy_inv pe sn' \<Longrightarrow>
      proxy_inv pe (case foldl (\<lambda>(ss, sys) tsi.
          if tmo \<noteq> 0 \<and> tmo < si_Time tsi \<and> (si_Info tsi = ''begin'' \<or> si_Info tsi = [])
          then Sessions_Kill (pe_be pe) (si_ID tsi) ss sys else (ss, sys)) (sn_sessions sn', sn_sys sn') l of
        (ss, sys) \<Rightarrow> sn'\<lparr>sn_sys := sys, sn_sessions := ss\<rparr>)" for sn' l
  proof (induction l arbitrary: sn')
    case (Cons i l)
    show ?case
    proof (cases "tmo \<noteq> 0 \<and> tmo < si_Time i \<and> (si_Info i = ''begin'' \<or> si_Info i = [])")
      case True
      from Cons.IH [OF kill_session_inv [OF Cons.prems, of "si_ID i"]] True show ?thesis
        by (simp add: kill_session_def split: prod.splits)
    qed (use Cons.IH [OF Cons.prems] in \<open>auto simp del: de_Morgan_conj\<close>)
  qed simp
  then show "proxy_inv pe sn \<Longrightarrow> proxy_inv pe (manageMain pe tmo now sn)" by (simp add: manageMain_def killIdleTxn_def)
qed

lemma privilege_execute_inv:
  "proxy_inv pe sn \<Longrightarrow> privilege_execute be (sn_scatter sn) q (sn_sys sn) = (sys, x) \<Longrightarrow> proxy_inv pe (sn\<lparr>sn_sys := sys\<rparr>)"
  using own_txn_inv [OF _ own_queries(1,2), of pe sn be be q] by (simp add: privilege_execute_def)

lemma load_users_inv:
  "proxy_inv pe sn \<Longrightarrow> load_users be (sn_scatter sn) rs ps (sn_sys sn) = (sys, x) \<Longrightarrow> proxy_inv pe (sn\<lparr>sn_sys := sys\<rparr>)"
proof (induction rs arbitrary: ps sn)
  case (Cons r rs)
  show ?case
  proof (cases "rmapM (raw_at r) [0, 1]")
    case (Ok names)
    obtain sys1 y where l: "loadDBPrivileges be (sn_scatter sn) (names ! 0) (names ! 1) (sn_sys sn) = (sys1, y)" by fastforce
    have i1: "proxy_inv pe (sn\<lparr>sn_sys := sys1\<rparr>)"
      using l privilege_execute_inv [OF Cons.prems(1)] by (auto simp: loadDBPrivileges_def split: prod.splits)
    from Cons.IH [OF i1] Cons.prems(2) i1 Ok l show ?thesis by (auto split: res.splits)
  qed (use Cons.prems in \<open>auto simp: proxy_inv_def\<close>)
qed (auto simp: proxy_inv_def)

lemma reload_privileges_inv: "proxy_inv pe sn \<Longrightarrow> proxy_inv pe (reload_privileges pe sn)"
proof -
  assume i: "proxy_inv pe sn"
  obtain sys x where l: "loadUserPrivileges (pe_be pe) (sn_scatter sn) (sn_sys sn) = (sys, x)" by fastforce
  obtain sys1 y where q: "privilege_execute (pe_be pe) (sn_scatter sn) user_query (sn_sys sn) = (sys1, y)" by fastforce
  note i1 = privilege_execute_inv [OF i q]
  have i2: "proxy_inv pe (sn\<lparr>sn_sys := sys\<rparr>)"
    using l q i1 load_users_inv [OF i1, of "pe_be pe"] by (auto simp: loadUserPrivileges_def split: res.splits)
  have "proxy_inv pe (sn\<lparr>sn_sys := sys, sn_priv := p\<rparr>)" for p
    using i2 proxy_inv_cong [of "sn\<lparr>sn_sys := sys, sn_priv := p\<rparr>" "sn\<lparr>sn_sys := sys\<rparr>" pe] by simp
  with i2 l show ?thesis by (simp add: reload_privileges_def UpdatePrivileges_def split: res.split)
qed

lemma proxy_step_inv: "proxy_step pe sn sn' \<Longrightarrow> proxy_inv pe sn \<Longrightarrow> proxy_inv pe sn'"
proof (induction rule: proxy_step.induct)
  case (kill sn s i)
  then show ?case using kill_session_inv by (auto simp: handleKill_def Let_def split: option.split)
next
  case (readonly sn b)
  then show ?case using proxy_inv_cong [of "SetReadOnly b sn" sn pe] by (simp add: SetReadOnly_def)
qed (simp_all add: NewSession_inv SessionClosed_inv held.client_step_keeps table_step_inv manageMain_inv reload_privileges_inv)

lemma proxy_reach_inv: "(proxy_step pe)\<^sup>*\<^sup>* sn0 sn \<Longrightarrow> proxy_init sn0 \<Longrightarrow> proxy_inv pe sn"
proof (induction rule: rtranclp_induct)
  case base
  then show ?case by (simp add: proxy_inv_def proxy_init_def)
qed (simp add: proxy_step_inv)

section \<open>Sessions do not share connections\<close>


text \<open>A proxy with two-phase commit over the two servers of \<open>demo_be\<close>, and two clients that each begin a transaction.\<close>

definition demo_pe :: ProxyEnv where
  "demo_pe = \<lparr>pe_be = demo_be, pe_el = demo_lib,
     pe_pl = \<lparr>pl_sql = demo_sl, pl_float = (\<lambda>_. None), pl_node = (\<lambda>_ _ _. Err (Errorf [] []))\<rparr>,
     pe_conf = \<lparr>cf_TwopcEnable = True, cf_QueryTimeout = 0, cf_DDLTimeout = 0, cf_MaxResultSize = 1000, cf_MaxJoinRows = 10,
       cf_LoadBalance = 0, cf_AutocommitFalseIsTxn = False, cf_LowerCaseTableNames = 0, cf_MaxConnections = 8\<rparr>\<rparr>"

definition demo_sn :: Spanner where
  "demo_sn = \<lparr>sn_sys = demo_sys\<lparr>sy_mgr := \<lparr>m_txnid = 0, m_txnNums = 0\<rparr>\<rparr>, sn_router = demo_global, sn_disk = [],
     sn_scatter = \<lparr>st_backends = demo_backends, st_file = None\<rparr>, sn_sessions = [], sn_priv = [], sn_seq = 0, sn_readonly = False\<rparr>"

definition demo_client :: "32 word \<Rightarrow> DSession" where
  "demo_client i = \<lparr>ds_ID = i, ds_User = ''u'', ds_Addr = [], ds_Schema = ''db'', ds_LastQueryTime = 0\<rparr>"

definition begin_txn :: "DSession \<Rightarrow> Spanner \<Rightarrow> Spanner" where
  "begin_txn s sn = fst (handleMultiStmtTxn demo_pe s ''begin'' ''begin'' (NewSession s sn))"

lemma demo_init: "proxy_init demo_sn"
proof -
  have "PoolzClone (sn_scatter demo_sn) = demo_backends" by code_simp
  then show ?thesis using demo_pool_inv demo_known by (simp add: proxy_init_def) (simp add: demo_sn_def demo_sys_def)
qed

lemma begin_txn_steps:
  assumes "(proxy_step demo_pe)\<^sup>*\<^sup>* demo_sn sn" "gm_get (sn_sessions sn) (ds_ID s) = None"
  shows "(proxy_step demo_pe)\<^sup>*\<^sup>* demo_sn (begin_txn s sn)"
  unfolding begin_txn_def
  using assms(1) proxy_step.connect [OF assms(2)] proxy_step.client [OF client_step.transaction]
  by (rule rtranclp.rtrancl_into_rtrancl [OF rtranclp.rtrancl_into_rtrancl])




section \<open>Statements on tables inside a transaction\<close>

text \<open>What a transaction of its own leaves alone, in a session that may have another one.\<close>

lemma bound_txn_frame:
  assumes iso: "isolated ts (sn_world sn)" and known: "poolz_known (PoolzClone (sn_scatter sn)) (sn_world sn)" and body: "body_ok body"
    and run: "bound_txn pe s query node timeout body sn = (sn', Ok r)"
  shows "isolated ts (sn_world sn') \<and> poolz_known (PoolzClone (sn_scatter sn')) (sn_world sn') \<and>
     (\<exists>f. sn_sessions sn' = upd_session (ds_ID s) f (sn_sessions sn) \<and> (\<forall>x. ss_transaction (f x) = None))"
proof -
  let ?bs = "PoolzClone (sn_scatter sn)"
  obtain m y where c: "CreateTransaction (sy_mgr (sn_sys sn)) (sn_scatter sn) = (m, y)" by fastforce
  from CreateTransaction_cases [OF c] run c obtain i where y: "y = Ok (NewTxn i ?bs)"
    by (cases y) (auto simp: bound_txn_def)
  define txn where "txn = set_limits (pe_conf pe) timeout (isExecOnRep (cf_LoadBalance (pe_conf pe)) node) (NewTxn i ?bs)"
  define sn0 where "sn0 = sn\<lparr>sn_sys := (sn_sys sn)\<lparr>sy_mgr := m\<rparr>, sn_sessions := TxnBinding s txn node query (sn_sessions sn)\<rparr>"
  obtain txn1 sn1 r1 where b: "body txn sn0 = (txn1, sn1, r1)" by (metis prod_cases3)
  have sn': "sn' = end_statement pe s txn1 sn1" using run c y b by (simp add: bound_txn_def txn_def sn0_def Let_def)
  have t: "same_conns (NewTxn i ?bs) txn" "live txn" using set_limits_conns new_live by (simp_all add: txn_def)
  have b1: "moves txn (sn_world sn) txn1 (sn_world sn1)" "live txn1"
    "sn_sessions sn1 = TxnBinding s txn node query (sn_sessions sn)" "sn_scatter sn1 = sn_scatter sn"
    using body b t(2) unfolding body_ok_def sn0_def by fastforce+
  let ?f = "(\<lambda>x. x\<lparr>ss_node := None, ss_query := [], ss_transaction := None\<rparr>) \<circ>
      (\<lambda>x. x\<lparr>ss_query := take 128 query, ss_node := Some node, ss_transaction := Some txn\<rparr>)"
  have "sn_sessions sn' = upd_session (ds_ID s) ?f (sn_sessions sn)"
    by (simp add: sn' end_statement_def b1 TxnUnBinding_def TxnBinding_def upd_session_twice)
  then have "\<exists>f. sn_sessions sn' = upd_session (ds_ID s) f (sn_sessions sn) \<and> (\<forall>x. ss_transaction (f x) = None)"
    by (intro exI [of _ ?f]) simp
  with private_end [OF iso known t(1) b1(1,2), of "pe_be pe"] show ?thesis by (simp add: sn' end_statement_def b1)
qed

lemma each_table_frame:
  assumes "each_table pe s node ts qr sn = (sn', Ok r)" "isolated us (sn_world sn)"
    "poolz_known (PoolzClone (sn_scatter sn)) (sn_world sn)"
  shows "isolated us (sn_world sn') \<and>
     (ts \<noteq> [] \<longrightarrow> (\<exists>f. sn_sessions sn' = upd_session (ds_ID s) f (sn_sessions sn) \<and> (\<forall>x. ss_transaction (f x) = None)))"
  using assms
proof (induction ts arbitrary: qr sn)
  case (Cons t ts)
  define n where "n = node\<lparr>ot_Tables := [t]\<rparr>"
  obtain sn1 x where e: "ExecuteNormal pe s (ds_Schema s) (sl_Others (pl_sql (pe_pl pe)) n) (StOthers n) sn = (sn1, x)" by fastforce
  from Cons.prems(1) [unfolded each_table.simps Let_def n_def [symmetric] e]
  obtain q where x: "x = Ok (Some q)" and rest: "each_table pe s node ts (AppendResult qr q) sn1 = (sn', Ok r)"
    by (auto simp: nil_session_def split: res.splits option.splits)
  from bound_txn_frame [OF Cons.prems(2,3) run_plans_ok e [unfolded ExecuteNormal_def executeWithTimeout_def x]]
  obtain f where f: "isolated us (sn_world sn1)" "poolz_known (PoolzClone (sn_scatter sn1)) (sn_world sn1)"
    "sn_sessions sn1 = upd_session (ds_ID s) f (sn_sessions sn)" "\<forall>x. ss_transaction (f x) = None" by blast
  show ?case
  proof (cases "ts = []")
    case True
    with rest f show ?thesis by auto
  next
    case False
    with Cons.IH [OF rest f(1,2)] obtain g where "isolated us (sn_world sn')"
      "sn_sessions sn' = upd_session (ds_ID s) g (sn_sessions sn1)" "\<forall>x. ss_transaction (g x) = None" by blast
    then show ?thesis by (auto simp: f(3) upd_session_twice intro!: exI [of _ "g \<circ> f"])
  qed
qed simp

text \<open>
  C37. \<open>CHECK TABLE\<close> inside a transaction, though it succeeds, loses the transaction: its connections stay out of the pools
  and belong to no session any more, and the client's \<open>COMMIT\<close> is refused.
\<close>

theorem check_table_loses_transaction:
  assumes inv: "proxy_inv pe sn" and on: "isTwoPC pe"
    and x: "getTxnSession (sn_sessions sn) s = Some x" "ss_transaction x = Some txn" and tables: "ot_Tables node \<noteq> []"
    and run: "handleCheckTable pe s node sn = (sn', Ok r)"
  shows "set (txn_conns txn) \<subseteq> out (sn_world sn') \<and>
     list_all (\<lambda>t. set (txn_conns t) \<inter> set (txn_conns txn) = {}) (bound (sn_sessions sn')) \<and>
     snd (ExecuteCommit pe s query cnode sn') = Err (Errorf ''unsupported: commit.without.txn.begin'' [])"
proof -
  from run obtain q where e: "each_table pe s node (ot_Tables node) empty_Result sn = (sn', Ok q)"
    by (auto simp: handleCheckTable_def hbind_def hres_def split: prod.splits res.splits)
  have g: "gm_get (sn_sessions sn) (ds_ID s) = Some x" using x(1) by (simp add: getTxnSession_def)
  then obtain xs ys where ss: "sn_sessions sn = xs @ (ds_ID s, x) # ys" "\<forall>u. gm_put (ds_ID s) u (sn_sessions sn) = xs @ (ds_ID s, u) # ys"
    "gm_wf (sn_sessions sn) \<longrightarrow> gm_del (ds_ID s) (sn_sessions sn) = xs @ ys" by (rule gm_split)
  have i0: "isolated (bound (sn_sessions sn)) (sn_world sn)" "poolz_known (PoolzClone (sn_scatter sn)) (sn_world sn)"
    using inv by (simp_all add: proxy_inv_def)
  from each_table_frame [OF e i0] tables obtain f where iso: "isolated (bound (sn_sessions sn)) (sn_world sn')"
    and f: "sn_sessions sn' = upd_session (ds_ID s) f (sn_sessions sn)" "\<forall>x. ss_transaction (f x) = None" by blast
  have b: "bound (sn_sessions sn) = bound xs @ txn # bound ys" "bound (sn_sessions sn') = bound xs @ bound ys"
    using ss f g x(2) by (simp_all add: upd_session_def)
  from iso have "txn_ok {} txn (sn_world sn')" "distinct (concat (map txn_conns (bound xs @ txn # bound ys)))"
    by (simp_all add: isolated_iff b(1))
  moreover have "snd (ExecuteCommit pe s query cnode sn') = Err (Errorf ''unsupported: commit.without.txn.begin'' [])"
    using on g f by (simp add: ExecuteCommit_def end_multi_def getTxnSession_def upd_session_get)
  ultimately show ?thesis by (auto simp: b(2) list_all_iff txn_ok_def)
qed

lemma demo_begun:
  "proxy_inv demo_pe (begin_txn (demo_client 1) demo_sn)"
  "\<exists>x txn. getTxnSession (sn_sessions (begin_txn (demo_client 1) demo_sn)) (demo_client 1) = Some x \<and> ss_transaction x = Some txn"
proof -
  let ?s = "demo_client 1" and ?sn = "begin_txn (demo_client 1) demo_sn"
  have "gm_get (sn_sessions demo_sn) (ds_ID ?s) = None" by code_simp
  then show "proxy_inv demo_pe ?sn"
    using proxy_reach_inv [OF begin_txn_steps demo_init] by blast
  have "rbind (case getTxnSession (sn_sessions ?sn) ?s of Some x \<Rightarrow> Ok x | None \<Rightarrow> nil_session)
      (\<lambda>x. if ss_transaction x = None then nil_session else Ok ()) = Ok ()" by code_simp
  then show "\<exists>x txn. getTxnSession (sn_sessions ?sn) ?s = Some x \<and> ss_transaction x = Some txn"
    by (auto simp: res_simps nil_session_def split: option.splits if_splits)
qed

definition demo_check :: Others where
  "demo_check = \<lparr>ot_Kind = Check, ot_Tables = [\<lparr>tn_Name = ''g'', tn_Qualifier = []\<rparr>], ot_Quick = False\<rparr>"

theorem check_table_loses_transaction_witness:
  "is_ok (snd (handleCheckTable demo_pe (demo_client 1) demo_check (begin_txn (demo_client 1) demo_sn))) \<and>
     snd (ExecuteCommit demo_pe (demo_client 1) ''commit'' (StTransaction ''commit'')
       (fst (handleCheckTable demo_pe (demo_client 1) demo_check (begin_txn (demo_client 1) demo_sn)))) =
     Err (Errorf ''unsupported: commit.without.txn.begin'' [])"
proof -
  let ?s = "demo_client 1" and ?sn = "begin_txn (demo_client 1) demo_sn"
  from demo_begun(2) obtain x txn where x: "getTxnSession (sn_sessions ?sn) ?s = Some x" "ss_transaction x = Some txn" by blast
  have ok: "is_ok (snd (handleCheckTable demo_pe ?s demo_check ?sn))" "isTwoPC demo_pe" "ot_Tables demo_check \<noteq> []" by code_simp+
  then obtain sn' r where "handleCheckTable demo_pe ?s demo_check ?sn = (sn', Ok r)"
    by (metis is_ok.elims(2) prod.collapse)
  with check_table_loses_transaction [OF demo_begun(1) ok(2) x ok(3) this, of "''commit''" "StTransaction ''commit''"] ok(1) show ?thesis by simp
qed

end
