(* ===== verification/Proxy_Commit.thy ===== *)
theory Proxy_Commit
  imports Proxy_Reach
begin

text \<open>
  What a client learns from the answer to its \<open>COMMIT\<close>: two-phase commit as the handler of the proxy runs it, with the end of the
  transaction and of its binding to the session.
\<close>

section \<open>Ending a transaction sends no statement\<close>

lemma conn_Recycle_quiet: "quiet w (conn_Recycle be w c)"
  by (auto simp: conn_Recycle_def Pool_Put_def Pool_put_def Let_def quiet_def conn_Close_def world_simps upd_conn_def set_queue_def emit_def
      split: option.splits)

lemma Txn_Finish_quiet: "quiet (sy_world sys) (sy_world (snd (Txn_Finish be txn sys)))"
proof -
  have "quiet w (foldl (\<lambda>w c. if b then conn_Close c w else conn_Recycle be w c) w cs)" for w cs b
  proof (induction cs arbitrary: w)
    case (Cons c cs)
    let ?w = "if b then conn_Close c w else conn_Recycle be w c"
    have "quiet w ?w" by (simp add: conn_Recycle_quiet)
    from quiet_trans [OF this Cons.IH [of ?w]] show ?case by simp
  qed simp
  then show ?thesis by (simp add: Txn_Finish_def)
qed

lemma Txn_Finish_log: "sy_xaCheck (snd (Txn_Finish be txn sys)) = sy_xaCheck sys"
  by (simp add: Txn_Finish_def)

section \<open>The commit of a transaction of many statements\<close>

lemma Txn_CommitScatter_two_phase:
  assumes ok: "txn_ok S txn (sy_world sys)" and e: "Txn_CommitScatter be txn sys = (txn', sys', x)"
  shows "\<exists>es1 es2. w_trace (sy_world sys') = w_trace (sy_world sys) @ es1 @ es2 \<and> tx_xid txn' = tx_xid txn \<and>
     free_of (xa_query ''COMMIT'' txn) es1 \<and>
     (execs es2 \<noteq> 0 \<longrightarrow> (\<forall>b \<in> set (map fst (tx_backends txn)). accepted txn (sy_world sys) b (xa_query ''PREPARE'' txn) es1)) \<and>
     (\<forall>er. x = Err er \<longrightarrow> execs es2 = 0) \<and>
     (x = Ok () \<longrightarrow> (\<forall>b \<in> set (map fst (tx_backends txn)). accepted txn (sy_world sys) b (xa_query ''COMMIT'' txn) es2) \<or>
        logged (tx_xid txn) sys')"
proof -
  let ?t = "txn\<lparr>tx_state := txnStateCommitting, tx_twopc := True, tx_req := Some scatter_req\<rparr>"
  have ok': "txn_ok S ?t (sy_world sys)" using ok txn_ok_cong [of ?t txn] by simp
  have bs: "xa_backends ?t scatter_req = map fst (tx_backends txn)" by (simp add: xa_backends_def scatter_req_def)
  have same: "xa_query v ?t = xa_query v txn" "accepted ?t w b q es = accepted txn w b q es" for v w b q es
    by (simp_all add: xa_query_def accepted_def back_addr_def normal_pool_def)
  from two_phase [OF _ _ _ ok' _ e [unfolded Txn_CommitScatter_def xaCommit_def [abs_def]], of scatter_req]
  obtain es1 es2 where "two_phase_spec S ''COMMIT'' (map fst (tx_backends txn)) ?t sys txn' sys' x es1 es2" by (auto simp: bs)
  then show ?thesis unfolding two_phase_spec_def same txn_frame_def by (intro exI [of _ es1] exI [of _ es2]) simp
qed

lemma free_of_quiet: "\<forall>e \<in> set es. \<not> is_exec e \<Longrightarrow> free_of q es"
  by (auto simp: free_of_def)

lemma free_of_append_quiet:
  assumes "pre @ EvExec a c q ok # post = (es1 @ es2) @ es3" "free_of q es1" "\<forall>e \<in> set es3. \<not> is_exec e"
  shows "set es1 \<subseteq> set pre \<and> execs es2 \<noteq> 0"
proof -
  have "set es1 \<subseteq> set pre \<and> execs (es2 @ es3) \<noteq> 0" by (rule free_of_split) (use assms in simp_all)
  with assms(3) show ?thesis by (simp add: execs_def)
qed

lemma execs_free: "execs es = 0 \<Longrightarrow> free_of q es"
  by (auto simp: execs_def free_of_def filter_empty_conv)

text \<open>
  C9. The answer to \<open>COMMIT\<close> in a transaction of many statements. An error means that no backend was sent \<open>XA COMMIT\<close> and that
  the session still has its transaction, so that the client can roll it back; success means that the session has none any more
  and that every backend accepted \<open>XA COMMIT\<close>, or that the transaction is in the log of commits to retry. In both cases
  \<open>XA COMMIT\<close> is sent only after every backend accepted \<open>XA PREPARE\<close>.
\<close>

theorem commit_statement_outcome:
  assumes inv: "proxy_inv pe sn" and on: "isTwoPC pe"
    and x: "getTxnSession (sn_sessions sn) s = Some x" "ss_transaction x = Some txn"
    and run: "ExecuteCommit pe s query node sn = (sn', r)"
    and es: "es = drop (length (w_trace (sn_world sn))) (w_trace (sn_world sn'))"
  shows "(\<forall>e. r = Err e \<longrightarrow> free_of (xa_query ''COMMIT'' txn) es \<and>
        (\<exists>x' t. getTxnSession (sn_sessions sn') s = Some x' \<and> ss_transaction x' = Some t \<and> tx_xid t = tx_xid txn)) \<and>
     (\<forall>q. r = Ok q \<longrightarrow> idle_session s sn' \<and>
        (logged (tx_xid txn) (sn_sys sn') \<or>
         (\<forall>b \<in> set (map fst (tx_backends txn)). accepted txn (sn_world sn) b (xa_query ''COMMIT'' txn) es))) \<and>
     (\<forall>pre a c ok post. es = pre @ EvExec a c (xa_query ''COMMIT'' txn) ok # post \<longrightarrow>
        (\<forall>b \<in> set (map fst (tx_backends txn)). accepted txn (sn_world sn) b (xa_query ''PREPARE'' txn) pre))"
proof -
  have g: "gm_get (sn_sessions sn) (ds_ID s) = Some x" using x(1) by (simp add: getTxnSession_def)
  have ok: "txn_ok {} txn (sy_world (sn_sys sn))" using bound_ok [OF inv g x(2)] by simp
  obtain txn1 sys1 y where c: "Txn_CommitScatter (pe_be pe) txn (sn_sys sn) = (txn1, sys1, y)" by (metis prod_cases3)
  from Txn_CommitScatter_two_phase [OF ok c] obtain es1 es2 where
    s: "w_trace (sy_world sys1) = w_trace (sn_world sn) @ es1 @ es2" "tx_xid txn1 = tx_xid txn" "free_of (xa_query ''COMMIT'' txn) es1"
      "execs es2 \<noteq> 0 \<longrightarrow> (\<forall>b \<in> set (map fst (tx_backends txn)). accepted txn (sn_world sn) b (xa_query ''PREPARE'' txn) es1)"
      "\<forall>er. y = Err er \<longrightarrow> execs es2 = 0"
      "y = Ok () \<longrightarrow> (\<forall>b \<in> set (map fst (tx_backends txn)). accepted txn (sn_world sn) b (xa_query ''COMMIT'' txn) es2) \<or>
         logged (tx_xid txn) sys1" by blast
  have sn': "sn_sys sn' = (if is_ok r then snd (Txn_Finish (pe_be pe) txn1 sys1) else sys1)"
    "gm_get (sn_sessions sn') (ds_ID s) = Some x' \<Longrightarrow> ss_transaction x' = (if is_ok r then None else Some txn1)"
    "gm_get (sn_sessions sn') (ds_ID s) \<noteq> None" "is_ok r \<longleftrightarrow> is_ok y" "\<And>e. r = Err e \<longleftrightarrow> y = Err e" for x'
    using run on g x c by (cases y; auto simp: ExecuteCommit_def end_multi_def getTxnSession_def MultiStmtTxnBinding_def MultiStmtTxnUnBinding_def
        store_txn_def upd_session_get)+
  obtain es3 where es3: "es = (es1 @ es2) @ es3" "\<forall>e \<in> set es3. \<not> is_exec e"
    using Txn_Finish_quiet [of sys1 "pe_be pe" txn1] s(1) es sn'(1) by (cases "is_ok r") (auto simp: quiet_def)
  have err: "free_of (xa_query ''COMMIT'' txn) es" if "r = Err e" for e
    using s(3,5) es3 execs_free free_of_quiet that sn'(5) by (simp add: free_of_append)
  have okq: "logged (tx_xid txn) (sn_sys sn') \<or>
      (\<forall>b \<in> set (map fst (tx_backends txn)). accepted txn (sn_world sn) b (xa_query ''COMMIT'' txn) es)" if "r = Ok q" for q
  proof -
    have "y = Ok ()" using that sn'(4) by (cases y) auto
    with s(6) that sn'(1) Txn_Finish_log show ?thesis
      by (auto simp: es3(1) logged_def intro: accepted_mono)
  qed
  have prep: "\<forall>b \<in> set (map fst (tx_backends txn)). accepted txn (sn_world sn) b (xa_query ''PREPARE'' txn) pre"
    if "es = pre @ EvExec a c (xa_query ''COMMIT'' txn) ok # post" for pre a c ok post
    using free_of_append_quiet [OF that [unfolded es3(1), symmetric] s(3) es3(2)] s(4) by (auto intro: accepted_mono)
  from sn'(3) obtain x' where "gm_get (sn_sessions sn') (ds_ID s) = Some x'" by auto
  with sn'(2) err okq prep s(2) show ?thesis by (auto simp: idle_session_def getTxnSession_def)
qed

text \<open>The proxy of \<open>demo_pe\<close>, where the second server refuses to prepare.\<close>

definition refusing_pe :: ProxyEnv where
  "refusing_pe = demo_pe\<lparr>pe_be := refusing_be\<rparr>"

definition refused_commit :: "Spanner \<times> Result option res" where
  "refused_commit = ExecuteCommit refusing_pe (demo_client 1) ''commit'' (StTransaction ''commit'') (begin_txn (demo_client 1) demo_sn)"

theorem commit_statement_outcome_witness:
  "snd refused_commit = Err (Errorf ''refused'' []) \<and> \<not> idle_session (demo_client 1) (fst refused_commit)"
proof -
  let ?sn = "begin_txn (demo_client 1) demo_sn"
  from demo_begun(2) obtain x txn where x: "getTxnSession (sn_sessions ?sn) (demo_client 1) = Some x" "ss_transaction x = Some txn"
    by blast
  have inv: "proxy_inv refusing_pe ?sn" "isTwoPC refusing_pe"
    using demo_begun(1) by (simp_all add: proxy_inv_def refusing_pe_def isTwoPC_def demo_pe_def)
  have err: "snd refused_commit = Err (Errorf ''refused'' [])" by code_simp
  moreover have "ExecuteCommit refusing_pe (demo_client 1) ''commit'' (StTransaction ''commit'') ?sn =
      (fst refused_commit, Err (Errorf ''refused'' []))" using err by (simp add: refused_commit_def prod_eq_iff)
  from commit_statement_outcome [OF inv x this refl] show ?thesis using err by (auto simp: idle_session_def)
qed

end
