(* ===== verification/Nest_Props.thy ===== *)
theory Nest_Props
  imports Engine_Props
begin

text \<open>
  The nested-loop strategy of \<open>JoinEngine.execBindVars\<close> computes the join: the right side is executed once for
  every left row, with the values of the row bound, and the rows it returns are joined with it.
\<close>

text \<open>The join of \<open>L\<close> and \<open>R\<close> on a condition, as the rows of each left row in turn.\<close>

definition loop_join :: "NumLib \<Rightarrow> JoinNode \<Rightarrow> (row \<Rightarrow> row \<Rightarrow> bool) \<Rightarrow> row list \<Rightarrow> row list \<Rightarrow> row list" where
  "loop_join nl node cond L R = concat (map (\<lambda>l. row_out node l (if left_ok nl node l then filter (cond l) R else [])) L)"

lemma loop_join_nested: "loop_join nl node (matches nl node) L R = nested_loop nl node L R"
  by (induction L) (simp_all add: loop_join_def nested_loop_def left_out_def)

definition grown :: "int \<Rightarrow> Result \<Rightarrow> row list \<Rightarrow> Result \<Rightarrow> bool" where
  "grown maxrow res rows res' \<longleftrightarrow>
     rs_Rows res' = rs_Rows res @ rows \<and> rs_RowsAffected res' = rs_RowsAffected res + of_nat (length rows) \<and>
     (rows \<noteq> [] \<longrightarrow> int (length (rs_Rows res')) \<le> maxrow)"

lemma add_rows_Ok: "add_rows maxrow rows res = Ok res' \<Longrightarrow> grown maxrow res rows res'"
proof (induction rows arbitrary: res)
  case (Cons r rows)
  then obtain res1 where r1: "add_row maxrow r res = Ok res1" "add_rows maxrow rows res1 = Ok res'" by (auto simp: res_simps)
  from r1(1) have "rs_Rows res1 = rs_Rows res @ [r]" "rs_RowsAffected res1 = rs_RowsAffected res + 1"
    "int (length (rs_Rows res1)) \<le> maxrow"
    by (auto simp: add_row_def Let_def split: if_splits)
  with Cons.IH [OF r1(2)] show ?case by (auto simp: grown_def)
qed (simp add: grown_def)

lemma nest_right_add:
  assumes ok: "cols_ok node A B" "\<forall>r \<in> B. in_range (jn_RightTmpCols node) r" and l: "l \<in> A" and R: "set R \<subseteq> B"
  shows "nest_right node maxrow l R res n =
     rbind (add_rows maxrow (map (\<lambda>r. join_row node l (Some r)) (filter (right_ok node) R)) res) (\<lambda>res'. Ok (res', n + length R))"
  using R
proof (induction R arbitrary: res n)
  case (Cons r R)
  have "right_null r (jn_RightTmpCols node) = Ok (right_ok node r)"
    using ok(2) Cons.prems by (simp add: right_null_right_ok right_ok_def)
  moreover have "joinRows l (Some r) (jn_Cols node) = Ok (join_row node l (Some r))"
    using joinRows_join_row [OF ok(1) l, of "Some r"] Cons.prems by simp
  ultimately show ?case using Cons by (simp add: rbind_assoc)
qed simp

lemma nest_row_add:
  assumes ok: "cols_ok node A B" "\<forall>r \<in> B. in_range (jn_RightTmpCols node) r" and l: "l \<in> A" and R: "set R \<subseteq> B"
  shows "nest_row node maxrow l R res = add_rows maxrow (row_out node l R) res"
  using nest_right_add [OF assms, of maxrow res 0] concatLeftAndNil_add [OF ok(1), of "[l]" maxrow] l
  by (cases R) (simp_all add: nest_row_def row_out_def rbind_assoc)

lemma set_fields_rows:
  "(if want then set_fields fs res else Ok res) = Ok res1 \<Longrightarrow> rs_Rows res1 = rs_Rows res \<and> rs_RowsAffected res1 = rs_RowsAffected res"
  by (auto simp: set_fields_def res_simps split: if_splits)

text \<open>What one left row adds, before the rest of the loop.\<close>

lemma loop_add_more:
  assumes "add_rows maxrow new res1 = Ok res2" "rs_Rows res1 = rs_Rows res" "rs_RowsAffected res1 = rs_RowsAffected res"
    and "grown maxrow res2 rest res'"
  shows "grown maxrow res (new @ rest) res'"
  using add_rows_Ok [OF assms(1)] assms(2-4) by (cases "rest = []") (auto simp: grown_def)

lemma nest_loop_join_rows:
  assumes ok: "cols_ok node A B" "\<forall>r \<in> B. in_range (jn_RightTmpCols node) r" "\<forall>l \<in> A. in_range (jn_LeftTmpCols node) l"
    and R: "set R \<subseteq> B"
    and right: "\<And>l vars want. l \<in> A \<Longrightarrow> row_vars node l = Ok vars \<Longrightarrow>
       yields (\<lambda>r. rs_Rows r = filter (cond l) R) (right (combineVars bv vars) want)"
  shows "set L \<subseteq> A \<Longrightarrow>
     yields (\<lambda>p. grown (el_maxrow el) res (loop_join (el_nl el) node cond L R) (snd p))
       (nest_loop el node right lfs bv L want res)"
    (is "_ \<Longrightarrow> yields (?P L res) _")
proof (induction L arbitrary: want res)
  case Nil
  then show ?case by (simp add: yields_def loop_join_def grown_def)
next
  case (Cons l L)
  let ?out = "row_out node l (if left_ok (el_nl el) node l then filter (cond l) R else [])"
  have l: "l \<in> A" and L: "set L \<subseteq> A" using Cons.prems by auto
  have join: "loop_join (el_nl el) node cond (l # L) R = ?out @ loop_join (el_nl el) node cond L R" by (simp add: loop_join_def)
  have rest: "yields (?P (l # L) res) (nest_loop el node right lfs bv L want' res2)"
    if "add_rows (el_maxrow el) ?out res1 = Ok res2" "rs_Rows res1 = rs_Rows res" "rs_RowsAffected res1 = rs_RowsAffected res" for want' res1 res2
    unfolding join by (rule yields_mono [OF Cons.IH [OF L]]) (rule loop_add_more [OF that])
  have lm: "left_match (el_nl el) l (jn_LeftTmpCols node) = Ok (left_ok (el_nl el) node l)"
    using ok(3) l by (simp add: left_match_left_ok left_ok_def)
  have "yields (?P (l # L) res) (\<lambda>t w. nest_loop el node right lfs bv (l # L) want res t w)"
    unfolding nest_loop.simps
  proof (rule yields_bind [where Q = "\<lambda>b. b = left_ok (el_nl el) node l"], rule yields_res, use lm in simp,
      rule yields_if_app)
    fix b assume b: "b = left_ok (el_nl el) node l" b
    have row: "yields (?P (l # L) res) (\<lambda>t w. step_bind (step_res (nest_row node (el_maxrow el) l (rs_Rows rres) res1) t w)
        (\<lambda>res2. nest_loop el node right lfs bv L False res2))"
      if "rs_Rows rres = filter (cond l) R" "rs_Rows res1 = rs_Rows res \<and> rs_RowsAffected res1 = rs_RowsAffected res" for rres res1
    proof (rule yields_bind [where Q = "\<lambda>res2. add_rows (el_maxrow el) ?out res1 = Ok res2"], rule yields_res)
      have "nest_row node (el_maxrow el) l (rs_Rows rres) res1 = add_rows (el_maxrow el) ?out res1"
        using nest_row_add [OF ok(1,2) l, of "filter (cond l) R"] R b that(1) by auto
      then show "add_rows (el_maxrow el) ?out res1 = Ok x"
        if "nest_row node (el_maxrow el) l (rs_Rows rres) res1 = Ok x" for x using that by simp
    qed (erule rest, use that in auto)
    show "yields (?P (l # L) res) (\<lambda>t w. step_bind (step_res (row_vars node l) t w) (\<lambda>joinVars t w.
        step_bind (right (combineVars bv joinVars) want t w) (\<lambda>rres t w.
        step_bind (step_res (if want then set_fields (joinFields lfs (fields_of rres) (jn_Cols node)) res else Ok res) t w) (\<lambda>res1 t w.
        step_bind (step_res (nest_row node (el_maxrow el) l (rs_Rows rres) res1) t w) (\<lambda>res2.
          nest_loop el node right lfs bv L False res2)))))"
    proof (rule yields_bind [where Q = "\<lambda>vars. row_vars node l = Ok vars"], rule yields_res, assumption)
      fix vars assume v: "row_vars node l = Ok vars"
      show "yields (?P (l # L) res) (\<lambda>t w. step_bind (right (combineVars bv vars) want t w) (\<lambda>rres t w.
        step_bind (step_res (if want then set_fields (joinFields lfs (fields_of rres) (jn_Cols node)) res else Ok res) t w) (\<lambda>res1 t w.
        step_bind (step_res (nest_row node (el_maxrow el) l (rs_Rows rres) res1) t w) (\<lambda>res2.
          nest_loop el node right lfs bv L False res2))))"
        by (rule yields_bind [OF right [OF l v]], rule yields_bind, rule yields_res, erule set_fields_rows, rule row)
    qed
  next
    fix b assume b: "b = left_ok (el_nl el) node l" "\<not> b"
    then have "concatLeftAndNil node (el_maxrow el) [l] res = add_rows (el_maxrow el) ?out res"
      using concatLeftAndNil_add [OF ok(1), of "[l]"] l by (simp add: row_out_def)
    then show "yields (?P (l # L) res) (\<lambda>t w. step_bind (step_res (concatLeftAndNil node (el_maxrow el) [l] res) t w)
        (\<lambda>res1. nest_loop el node right lfs bv L want res1))"
      by (intro yields_bind [where Q = "\<lambda>res2. add_rows (el_maxrow el) ?out res = Ok res2"] yields_res rest) auto
  qed
  then show ?case .
qed

text \<open>
  C18. The nested-loop strategy returns the join. Let the left side return the rows \<open>L\<close>, and let the right side,
  executed with the values of a left row \<open>l\<close> bound, return those rows of \<open>R\<close> that satisfy the join condition
  with \<open>l\<close>. Then the result has the rows of the join of \<open>L\<close> and \<open>R\<close> on the condition, left joins and the extra
  conditions included, in the order of \<open>L\<close>; their number is reported and does not exceed the row limit.
\<close>

theorem nest_loop_join:
  assumes "cols_ok node (set L) (set R)" "\<forall>r \<in> set R. in_range (jn_RightTmpCols node) r"
    and "\<forall>l \<in> set L. in_range (jn_LeftTmpCols node) l"
    and "yields (\<lambda>res. rs_Rows res = L) (execBindVars lplan be el [] True)"
    and "\<forall>l \<in> set L. \<forall>vars want. row_vars node l = Ok vars \<longrightarrow>
       yields (\<lambda>res. rs_Rows res = filter (cond l) R) (execBindVars rplan be el (combineVars [] vars) want)"
    and "jn_Strategy node = NestLoop" "Engine_Execute (PlanJoin node [] lplan rplan) be el txn w = (txn', w', Ok res)"
  shows "rs_Rows res = loop_join (el_nl el) node cond L R \<and> rs_RowsAffected res = of_nat (length (rs_Rows res)) \<and>
     (rs_Rows res \<noteq> [] \<longrightarrow> int (length (rs_Rows res)) \<le> el_maxrow el)"
proof -
  let ?J = "loop_join (el_nl el) node cond L R"
  have loop: "yields (\<lambda>p. grown (el_maxrow el) empty_Result ?J (snd p))
      (nest_loop el node (execBindVars rplan be el) lfs [] L True empty_Result)" for lfs
    by (rule nest_loop_join_rows [where A = "set L" and B = "set R"]) (use assms(1-3,5) in auto)
  have "yields (grown (el_maxrow el) empty_Result ?J) (execBindVars (PlanJoin node [] lplan rplan) be el [] True)"
    unfolding execBindVars.simps
  proof (rule yields_bind [OF assms(4)], rule yields_bind)
    fix lres :: Result assume "rs_Rows lres = L"
    with loop show "yields (\<lambda>p. grown (el_maxrow el) empty_Result ?J (snd p))
        (nest_loop el node (execBindVars rplan be el) (fields_of lres) [] (rs_Rows lres) True empty_Result)" by simp
  next
    fix lres :: Result and p :: "bool \<times> Result" assume p: "grown (el_maxrow el) empty_Result ?J (snd p)"
    obtain want r where wr: "p = (want, r)" by fastforce
    have "grown (el_maxrow el) empty_Result ?J r'" if "set_fields fs r = Ok r'" for fs r'
      using that p wr by (auto simp: set_fields_def res_simps grown_def)
    with p show "yields (grown (el_maxrow el) empty_Result ?J) ((\<lambda>(want, res) txn w.
         if want then
           step_bind (getFields rplan be (combineVars [] (null_vars node)) txn w) (\<lambda>rres.
             step_res (set_fields (joinFields (fields_of lres) (fields_of rres) (jn_Cols node)) res))
         else (txn, w, Ok res)) p)"
      unfolding wr prod.case
      by (intro yields_if_app yields_bind [OF yields_any] yields_res) (auto simp: yields_def)
  qed
  moreover obtain t1 w1 where "execBindVars (PlanJoin node [] lplan rplan) be el [] True txn w = (t1, w1, Ok res)"
    using assms(6,7) by (auto simp: step_bind_def step_res_def el_sub_def simp del: execBindVars.simps split: prod.splits res.splits)
  ultimately have "grown (el_maxrow el) empty_Result ?J res" by (auto simp: yields_def simp del: execBindVars.simps)
  then show ?thesis by (auto simp: grown_def empty_Result_def)
qed

section \<open>Witness\<close>

text \<open>A request with one query, to servers whose answer depends on the query alone.\<close>

lemma Txn_Execute_one:
  assumes be: "\<And>h a c q. \<exists>n. be_exec be h a c q = XOk (ans q) n"
  shows "yields (\<lambda>r. r = AppendResult empty_Result (ans q)) (Txn_Execute be (read_request [\<lparr>qt_Query = q, qt_Backend = b, qt_Range = g\<rparr>]))"
proof -
  let ?req = "read_request [\<lparr>qt_Query = q, qt_Backend = b, qt_Range = g\<rparr>]"
  have one: "r = ans q" if "conn_ExecuteWithLimits be w c q t m = (w', Ok r)" for w c t m w' r
    using be [of "w_trace w" "c_address (w_conns w ! c)" c q] that
    by (auto simp: conn_ExecuteWithLimits_def conn_run_def Let_def split: if_splits)
  have sh: "exec_shards t ?req = [(b, [q])]" for t
    by (simp add: exec_shards_def read_request_def NewRequestContext_def query_map_def gm_put_new_end)
  have q: "qr = AppendResult empty_Result (ans q)" if "run_queries be t c [q] w empty_Result = (w', qr, Ok u)" for t c w w' qr u
    using that one by (auto split: prod.splits res.splits)
  have "qr = AppendResult empty_Result (ans q)" if "run_shards be [(b, [q])] t w empty_Result = (t', w', qr, Ok u)" for t w t' w' qr u
    using that q by (auto simp: one_shard_def simp del: run_queries.simps split: prod.splits res.splits)
  then have "r = AppendResult empty_Result (ans q)" if "txn_execute be ?req t w = (t', w', Ok r)" for t w t' w' r
    using that by (auto simp: txn_execute_def sh res_simps simp del: run_shards.simps split: prod.splits)
  then show ?thesis by (rule Txn_Execute_yields)
qed

definition nest_left :: "row list" where
  "nest_left = [[NewVarChar ''k'', NewVarChar ''1''], [NewVarChar ''m'', NewVarChar ''2'']]"

definition nest_rows :: "row list" where
  "nest_rows = [[NewVarChar ''k'', NewVarChar ''3''], [NewVarChar ''k'', NewVarChar ''1'']]"

definition nest_ans :: "string \<Rightarrow> Result" where
  "nest_ans q = demo_rows (if q = ''l'' then nest_left else filter (\<lambda>r. ''r'' @ v_val (r ! 0) = q) nest_rows)"

definition nest_be :: Backends where
  "nest_be = demo_be\<lparr>be_exec := \<lambda>_ _ _ q. XOk (nest_ans q) 0\<rparr>"

text \<open>The right side asks for the rows whose first column is the variable \<open>v\<close>.\<close>

definition nest_query :: ParsedQuery where
  "nest_query vars = (case gm_get vars ''v'' of Some v \<Rightarrow> Ok (''r'' @ v_val v) | None \<Rightarrow> Err (Errorf ''missing bind var v'' []))"

definition nest_right_plan :: PlanNode where
  "nest_right_plan = PlanMerge \<lparr>mn_Sel = [], mn_children = [], mn_Querys = [\<lparr>qt_Query = [], qt_Backend = ''b2'', qt_Range = []\<rparr>],
     mn_ParsedQuerys = [nest_query], mn_FieldQuery = nest_query, mn_ReqMode = ReqNormal\<rparr>"

definition nest_node :: JoinNode where
  "nest_node = \<lparr>jn_Strategy = NestLoop, jn_Cols = [- 1, 2], jn_LeftKeys = [], jn_RightKeys = [], jn_CmpFilter = [],
     jn_IsLeftJoin = True, jn_HasRightFilter = False, jn_LeftTmpCols = [], jn_RightTmpCols = [], jn_Vars = [(''v'', 0)]\<rparr>"

definition nest_run :: "Result txn_step" where
  "nest_run = Engine_Execute (PlanJoin nest_node [] (demo_merge ''b1'' ''l'') nest_right_plan) nest_be demo_lib demo_txn (sy_world demo_sys)"

lemma nest_answers: "\<exists>n. be_exec nest_be h a c q = XOk (nest_ans q) n"
  by (simp add: nest_be_def)

lemma append_demo: "rs_Rows (AppendResult empty_Result (demo_rows rows)) = rows"
  by (simp add: AppendResult_def demo_rows_def fields_len_def empty_Result_def)

lemma yields_sub_rows:
  "yields (\<lambda>r. r = AppendResult empty_Result (demo_rows rows)) f \<Longrightarrow>
     yields (\<lambda>r. rs_Rows r = rows) (\<lambda>t w. step_bind (f t w) (\<lambda>r. step_res (el_sub el [] r)))"
  by (erule yields_bind) (auto intro!: yields_res simp: el_sub_def append_demo)

lemma step_bind_Ok: "step_bind (step_res (Ok x) t w) k = k x t w"
  by (simp add: step_bind_def step_res_def)

lemma nest_merge_yields:
  assumes "mn_children node = []" "nest_ans q = demo_rows rows"
    and "bind_querys (mn_ParsedQuerys node) (mn_Querys node) vars = Ok [\<lparr>qt_Query = q, qt_Backend = b, qt_Range = g\<rparr>]"
  shows "yields (\<lambda>r. rs_Rows r = rows) (Merge_execBindVars nest_be demo_lib node vars)"
proof -
  have "Merge_execBindVars nest_be demo_lib node vars = (\<lambda>t w. step_bind
      (Txn_Execute nest_be (read_request [\<lparr>qt_Query = q, qt_Backend = b, qt_Range = g\<rparr>]) t w) (\<lambda>r. step_res (el_sub demo_lib [] r)))"
    by (intro ext) (simp add: Merge_execBindVars_def assms step_bind_Ok)
  with yields_sub_rows [OF Txn_Execute_one [of nest_be nest_ans q, OF nest_answers, unfolded assms(2)]] show ?thesis by simp
qed

lemma nest_left_yields: "yields (\<lambda>r. rs_Rows r = nest_left) (execBindVars (demo_merge ''b1'' ''l'') nest_be demo_lib [] True)"
  unfolding demo_merge_def execBindVars.simps by (rule nest_merge_yields [of _ "''l''"]) (simp_all add: nest_ans_def)

lemma nest_right_yields:
  assumes "row_vars nest_node l = Ok vars"
  shows "yields (\<lambda>r. rs_Rows r = filter (\<lambda>r. v_val (r ! 0) = v_val (l ! 0)) nest_rows)
     (execBindVars nest_right_plan nest_be demo_lib (combineVars [] vars) want)"
proof -
  have "vars = [(''v'', l ! 0)]" using assms by (auto simp: row_vars_def nest_node_def cell_def res_simps split: if_splits)
  then have "nest_query (combineVars [] vars) = Ok (''r'' @ v_val (l ! 0))"
    by (simp add: combineVars_def nest_query_def gomap_simps)
  then show ?thesis
    unfolding nest_right_plan_def execBindVars.simps
    by (intro nest_merge_yields [of _ "''r'' @ v_val (l ! 0)"]) (simp_all add: nest_ans_def)
qed

lemma nest_run_Ok: "is_ok (snd (snd nest_run))"
  by code_simp

theorem nest_loop_join_witness:
  "\<exists>res. snd (snd nest_run) = Ok res \<and>
     rs_Rows res = [[NewVarChar ''k'', NewVarChar ''3''], [NewVarChar ''k'', NewVarChar ''1''], [NewVarChar ''m'', NULL]]"
proof -
  let ?cond = "\<lambda>l r. v_val (r ! 0) = v_val ((l :: row) ! 0)"
  from nest_run_Ok obtain res where res: "snd (snd nest_run) = Ok res" by (auto simp: is_ok_iff)
  have "rs_Rows res = loop_join (el_nl demo_lib) nest_node ?cond nest_left nest_rows"
  proof (rule nest_loop_join [THEN conjunct1])
    show "cols_ok nest_node (set nest_left) (set nest_rows)"
      by (simp add: cols_ok_def nest_node_def nest_left_def nest_rows_def)
    show "Engine_Execute (PlanJoin nest_node [] (demo_merge ''b1'' ''l'') nest_right_plan) nest_be demo_lib demo_txn (sy_world demo_sys) =
        (fst nest_run, fst (snd nest_run), Ok res)"
      unfolding res [symmetric] by (simp only: nest_run_def prod.collapse)
  qed (use nest_left_yields nest_right_yields in \<open>simp_all add: nest_node_def in_range_def\<close>)
  moreover have "loop_join (el_nl demo_lib) nest_node ?cond nest_left nest_rows =
      [[NewVarChar ''k'', NewVarChar ''3''], [NewVarChar ''k'', NewVarChar ''1''], [NewVarChar ''m'', NULL]]"
    by code_simp
  ultimately show ?thesis using res by simp
qed

end
