(* ===== verification/Spec2Isabelle.thy ===== *)
theory Spec2Isabelle
  imports Proxy_Commit Nest_Props
begin

text \<open>
  NeoDB, a sharding proxy for MySQL.

  \<^bold>\<open>The program.\<close> A client sends SQL to the \<^emph>\<open>proxy\<close>, which keeps its session and its transaction, checks
  its privileges and hands the statement to the handler of its type. The \<^emph>\<open>planner\<close> finds the partitions a statement is about
  and rewrites it into one query for each of them; the \<^emph>\<open>router\<close> knows the tables, how their rows are distributed
  and where the metadata files are; the \<^emph>\<open>executor\<close> runs the queries and puts the results together; the
  \<^emph>\<open>backend\<close> package holds the connections to the MySQL servers and runs distributed transactions over them with
  the XA protocol. The theories follow these packages under \<open>src/\<close>.

  \<^bold>\<open>Conventions.\<close>
  \<^item> A Go function that returns an error is a function into \<open>'a res\<close> (\<open>Ok\<close>, \<open>Err\<close>, \<open>Panic\<close>); a method that changes
    state returns the new state. A Go map is an association list \<open>gomap\<close> without repeated keys, in one of the
    iteration orders the language allows; where the order matters it is a parameter.
  \<^item> A Go \<open>int\<close> is an \<open>int\<close>, with the wrap-around written out where the code can overflow (\<open>go_add\<close>, the jump hash, the
    row counts); identifiers and hashes are \<open>64 word\<close> and \<open>32 word\<close>.
  \<^item> Goroutines of an \<open>errgroup\<close> run one after the other, all of them, and the first error is returned; the workers of a
    merge join, which share memory, are an \<open>inductive\<close> step relation that allows every interleaving, and so are the
    operations of several transactions on the pools. A handler of the proxy is one step on the record \<open>Spanner\<close>; clients,
    the manager of idle transactions and the reload of the privileges take their steps in any order.
  \<^item> Code outside the repository is a parameter: the MySQL servers (\<open>Backends\<close>, which answers from the whole history of
    what was sent), the file system (\<open>Env\<close>, in which every operation may fail), the parser of floating point literals
    and decimals (\<open>NumLib\<close>, \<open>Arith\<close>), \<open>sort.Slice\<close> (the locale \<open>row_sorter\<close>), and printing a syntax tree
    (\<open>SqlLib\<close>). So is \<open>builder.BuildNode\<close>, the planner of selects (\<open>PlanLib\<close>).

  \<^bold>\<open>Theories.\<close>
  \<^descr>[Prelude] \<open>Neo_Prelude\<close> (results, Go maps, the collections \<open>res_simps\<close>, \<open>gomap_simps\<close>), \<open>Go_Strings\<close> (the
    functions of \<open>strings\<close> and \<open>strconv\<close> in use), \<open>Neo_Config\<close> (\<open>config/config.go\<close>), \<open>Jump_Hash\<close> (the vendored
    consistent hash with the rounding of its \<open>float64\<close> division).
  \<^descr>[Router] \<open>Partition_Base\<close> (\<open>router/partition.go\<close>: segments, and the interface of a partition method as the locale
    \<open>partition_method\<close>), \<open>Hash_Partition\<close> and \<open>Plain_Partitions\<close> (\<open>hash.go\<close>, \<open>list.go\<close>, \<open>global.go\<close>, \<open>single.go\<close>,
    each an interpretation of the locale), \<open>Compute\<close> (\<open>compute.go\<close>: the layout of new tables), \<open>Router\<close>
    (\<open>router.go\<close>, \<open>acl.go\<close>: the tables in memory, which point into a heap of configurations), \<open>Frm\<close> (\<open>frm.go\<close>,
    \<open>api.go\<close>: the DDL operations and the metadata files), \<open>Frm_Sync\<close> (memory and disk agree), \<open>Router_Props\<close> and
    \<open>Ddl_Props\<close> (the properties).
  \<^descr>[Backend] \<open>Pool\<close> (\<open>pool.go\<close>, \<open>connection.go\<close>), \<open>Xa_Log\<close> (the log of failed commits), \<open>Txn\<close> (\<open>txn.go\<close>,
    \<open>xa.go\<close>, \<open>txnmgr.go\<close>, \<open>xcontext.go\<close>), \<open>Txn_Xa\<close> and \<open>Txn_Life\<close> (what a transaction sends, and which connections it
    holds), \<open>Txn_Props\<close>, \<open>Scatter\<close> (\<open>scatter.go\<close>), \<open>Xa_Check\<close> (\<open>xacheck.go\<close>: the worker that finishes logged
    transactions).
  \<^descr>[Executor] \<open>Sql_Values\<close> (values, comparison and results of the vendored \<open>sqltypes\<close>), \<open>Row_Order\<close> (sorting rows by
    columns), \<open>Merge_Join\<close> and \<open>Join_Props\<close> (\<open>engine/merge_join.go\<close>), \<open>Hash_Table\<close> (the vendored hash table),
    \<open>Operators\<close> and \<open>Operator_Props\<close> (\<open>engine/operator\<close>), \<open>Engines\<close>, \<open>Engine_Props\<close> and \<open>Nest_Props\<close> (the engines of
    merge, join and union nodes, and the executors of the statements).
  \<^descr>[Planner] \<open>Sql_Expr\<close> (conditions, \<open>builder/expr.go\<close>), \<open>Sql_Stmt\<close> (the statements of the vendored parser and the
    tables they name), \<open>Planner\<close> (\<open>insert_plan.go\<close>, \<open>delete_plan.go\<close>,
    \<open>update_plan.go\<close>, \<open>ddl_plan.go\<close>, \<open>others_plan.go\<close>, \<open>common.go\<close>), \<open>Planner_Props\<close>.
  \<^descr>[Proxy] \<open>Privileges\<close> and \<open>Autoinc\<close> (\<open>plugins/privilege\<close>, \<open>plugins/autoincrement\<close>), \<open>Sessions\<close> (\<open>session.go\<close>,
    \<open>sessions.go\<close>, \<open>manager.go\<close>), \<open>Spanner\<close> (\<open>optimizer\<close>, \<open>execute.go\<close>, \<open>multistmt_txn.go\<close> and the handlers of DML, sessions
    and \<open>kill\<close>), \<open>Spanner_Ddl\<close> (\<open>ddl.go\<close>, \<open>checksumtable.go\<close>, \<open>table_maintenance.go\<close>, \<open>set.go\<close>), \<open>Proxy_Props\<close> (the
    invariant of sessions and pools, for each way to execute a statement), \<open>Proxy_Steps\<close> (the handlers over any condition that
    these ways keep, the locale \<open>client_invariant\<close>), \<open>Proxy_Reach\<close> (the runs of the proxy and their properties), \<open>Proxy_Commit\<close> (the answer to
    a client's \<open>COMMIT\<close>).

  \<^bold>\<open>What is proved.\<close>
  \<^item> \<^emph>\<open>Transactions.\<close> Whatever the servers answer, XA COMMIT is sent only after every participant accepted XA PREPARE; an
    error of the commit means that nothing was committed, success that every participant committed or that the
    transaction is in the retry log; the number of retries is bounded; the log survives a restart and the worker drops
    an entry only when it is done or timed out, after a bounded number of ticks. Under every interleaving of any number
    of transactions no connection is held twice and no pool exceeds its capacity; finishing a transaction returns what
    it held.
  \<^item> \<^emph>\<open>Routing.\<close> A table that was created gives every key exactly one partition, and inserts and lookups agree on it,
    for every partition method. The metadata on disk and the tables in memory agree after every sequence of DDL
    operations, and a restart restores the same routing. Adding a bucket moves a key only to the new bucket.
  \<^item> \<^emph>\<open>Plans.\<close> A row whose values satisfy the where clause of an update or a delete is in one of the partitions the
    statement is sent to, under three-valued logic; an insert sends each row to its partition, once, in an order of
    partitions that is the same for all statements; a rename on the backends and in the router produce the same names.
  \<^item> \<^emph>\<open>Execution.\<close> The sort-merge join and the nested-loop strategy compute the join, left joins and row limit
    included, and the concurrent workers compute the same as the sequential program and end; order-by, limit, the
    pushed-down limit, grouping with count and distinct union are correct; the rows of a result have one value for each
    of its fields; executing a statement keeps the invariant of its transaction.
  \<^item> \<^emph>\<open>Sessions.\<close> In every run of the proxy the transactions of the sessions share no connection and none lies in a
    pool, and the manager's count is the number of open transactions; a statement changes no session but its own. An error
    of a client's \<open>COMMIT\<close> means that nothing was committed and that the session still has its transaction. A check of
    privileges succeeds exactly when the user has the right on every table's database, apart from the fault below; no
    auto-increment value is given out twice.
  \<^item> \<^emph>\<open>Faults of the program.\<close> Some properties state what the code does where it should do something else: the limit
    that overflows, the group-by over no rows, the union that takes different rows for equal, the join that skips its
    operators, the table that stays registered without a partition, the transaction that is lost by checking a
    table in it, the table that is checked against the database of the table before it.

  \<^bold>\<open>Bounds and fuel.\<close> Every recursive definition terminates; the retry loop of a commit has the ten rounds of
  \<open>xaMaxRetryNum\<close>, and the bound of the jump hash is proved in \<open>Jump_Hash\<close>. No definition runs on fuel.

  \<^bold>\<open>Not modelled.\<close> The planner of selects and unions (\<open>planner/builder\<close> apart from the conditions), which rewrites syntax
  trees in place; the executors take its plan trees as given. Of package \<open>proxy\<close>: the dispatch of \<open>query.go\<close> with its audit
  and metrics, authentication, the MySQL protocol, \<open>SHOW\<close> and \<open>EXPLAIN\<close>, the commands for operators, and streaming fetch.
  The shift manager, the peer synchronisation of \<open>syncer\<close>, the REST handlers of \<open>ctl\<close>, audit, monitoring and logging:
  input and output around the modelled operations. The tools and the test servers, which are separate programs.
\<close>

end
